(* ===== verification/Prelude.thy ===== *)
theory Prelude
  imports Main "HOL-Library.Word"
begin

text \<open>
  Shared vocabulary of the development: Go's byte slices and strings, big-endian
  integers (\<^verbatim>\<open>encoding/binary\<close>), number formatting (\<^verbatim>\<open>fmt\<close>, \<^verbatim>\<open>strconv\<close>), Go
  error values (\<^verbatim>\<open>errors\<close>, \<^verbatim>\<open>fmt.Errorf\<close> with \<^verbatim>\<open>%w\<close>), 64-bit wrap-around, and the
  generic list lemmas and rule collections the component theories share.
  Nothing in this theory translates code under src/; it models what that code uses of
  the language and its standard library.
\<close>

unbundle bit_operations_syntax

named_theorems wire_simps \<open>evaluation of byte-level encoders and decoders\<close>
named_theorems wire_len \<open>lengths of encoded byte strings\<close>
named_theorems ev_simps \<open>fields of constructed events\<close>

section \<open>Bytes and strings\<close>

type_synonym byte = "8 word"
type_synonym bytes = "byte list"
type_synonym u8 = "8 word"
type_synonym u16 = "16 word"
type_synonym u32 = "32 word"
type_synonym u64 = "64 word"

text \<open>A Go string is a byte sequence; \<open>string\<close> holds one \<open>char\<close> per byte.\<close>

definition byte_of_char :: "char \<Rightarrow> byte" where
  "byte_of_char c = word_of_nat (of_char c)"

definition char_of_byte :: "byte \<Rightarrow> char" where
  "char_of_byte b = char_of (unat b)"

definition bytes_of :: "string \<Rightarrow> bytes" where
  "bytes_of s = map byte_of_char s"

definition string_of :: "bytes \<Rightarrow> string" where
  "string_of b = map char_of_byte b"

lemma unat_byte_bound [simp]: "unat (b :: byte) < 256"
  using unsigned_less [of b] by simp

lemma char_of_byte_of_char [simp]: "char_of_byte (byte_of_char c) = c"
proof -
  have "(of_char c :: nat) mod 256 = of_char c"
    by (simp only: of_char_mod_256)
  then show ?thesis
    by (simp add: char_of_byte_def byte_of_char_def unat_of_nat)
qed

lemma byte_of_char_of_byte [simp]: "byte_of_char (char_of_byte b) = b"
  by (simp add: char_of_byte_def byte_of_char_def of_char_of)

lemma string_of_bytes_of [simp]: "string_of (bytes_of s) = s"
  by (simp add: string_of_def bytes_of_def comp_def)

lemma bytes_of_string_of [simp]: "bytes_of (string_of b) = b"
  by (simp add: string_of_def bytes_of_def comp_def)

lemma bytes_of_inj: "bytes_of s = bytes_of t \<longleftrightarrow> s = t"
  by (metis string_of_bytes_of)

lemma string_of_inj: "string_of s = string_of t \<longleftrightarrow> s = t"
  by (metis bytes_of_string_of)

lemma length_bytes_of [simp, wire_len]: "length (bytes_of s) = length s"
  by (simp add: bytes_of_def)

lemma length_string_of [simp, wire_len]: "length (string_of s) = length s"
  by (simp add: string_of_def)

lemma string_of_Nil_iff [simp]: "string_of b = [] \<longleftrightarrow> b = []"
  by (simp add: string_of_def)

lemma bytes_of_Nil_iff [simp]: "bytes_of s = [] \<longleftrightarrow> s = []"
  by (simp add: bytes_of_def)

section \<open>Big-endian integers\<close>

definition put16 :: "u16 \<Rightarrow> bytes" where
  "put16 w = [ucast (drop_bit 8 w), ucast w]"

definition get16 :: "bytes \<Rightarrow> u16" where
  "get16 b = push_bit 8 (ucast (b ! 0)) OR ucast (b ! 1)"

definition put32 :: "u32 \<Rightarrow> bytes" where
  "put32 w = [ucast (drop_bit 24 w), ucast (drop_bit 16 w), ucast (drop_bit 8 w), ucast w]"

definition get32 :: "bytes \<Rightarrow> u32" where
  "get32 b = push_bit 24 (ucast (b ! 0)) OR push_bit 16 (ucast (b ! 1))
     OR push_bit 8 (ucast (b ! 2)) OR ucast (b ! 3)"

lemma length_put16 [simp, wire_len]: "length (put16 w) = 2"
  by (simp add: put16_def)

lemma length_put32 [simp, wire_len]: "length (put32 w) = 4"
  by (simp add: put32_def)

lemma get16_put16 [simp, wire_simps]: "get16 (put16 w) = w"
  unfolding get16_def put16_def
  by (rule bit_word_eqI) (auto simp: bit_simps)

lemma get32_put32 [simp, wire_simps]: "get32 (put32 w) = w"
proof (rule bit_word_eqI)
  fix n assume "n < LENGTH(32)"
  then consider "n < 8" | "8 \<le> n" "n < 16" | "16 \<le> n" "n < 24" | "24 \<le> n" "n < 32"
    by fastforce
  then show "bit (get32 (put32 w)) n = bit w n"
    by cases (auto simp: get32_def put32_def bit_simps)
qed

lemma byte_bit_high [simp]: "8 \<le> n \<Longrightarrow> \<not> bit (b :: byte) n"
  using bit_imp_le_length [of b n] by fastforce

lemma put16_get16: "put16 (get16 [a, b]) = [a, b]"
  unfolding get16_def put16_def
  by (auto intro!: bit_word_eqI simp: bit_simps)

lemma put32_get32: "put32 (get32 [a, b, c, d]) = [a, b, c, d]"
  unfolding get32_def put32_def
  by (auto intro!: bit_word_eqI simp: bit_simps)

lemma put32_inj: "put32 a = put32 b \<longleftrightarrow> a = b"
  by (metis get32_put32)

lemma get16_append [simp, wire_simps]: "get16 (put16 w @ r) = w"
  using get16_put16 [of w] by (simp add: get16_def put16_def)

lemma get32_append [simp, wire_simps]: "get32 (put32 w @ r) = w"
  using get32_put32 [of w] by (simp add: get32_def put32_def)

section \<open>Number formatting\<close>

text \<open>
  \<open>radix b n\<close> is the digit string \<^verbatim>\<open>fmt\<close> prints for the verb \<^verbatim>\<open>%d\<close> (base 10) or \<^verbatim>\<open>%x\<close>
  (base 16) on a non-negative integer. \<open>undigits\<close> reads it back, which makes the
  formatting injective.
\<close>

definition digit_char :: "nat \<Rightarrow> char" where
  "digit_char d = char_of (if d < 10 then 48 + d else 87 + d)"

definition digit_val :: "char \<Rightarrow> nat" where
  "digit_val c = (let n = of_char c in if n < 58 then n - 48 else n - 87)"

fun radix :: "nat \<Rightarrow> nat \<Rightarrow> string" where
  "radix b n = (if b \<le> 1 \<or> n < b then [digit_char n]
     else radix b (n div b) @ [digit_char (n mod b)])"

declare radix.simps [simp del]

definition undigits :: "nat \<Rightarrow> string \<Rightarrow> nat" where
  "undigits b s = foldl (\<lambda>a c. a * b + digit_val c) 0 s"

lemma digit_val_char [simp]: "d < 16 \<Longrightarrow> digit_val (digit_char d) = d"
  by (auto simp: digit_val_def digit_char_def Let_def)

lemma undigits_radix [simp]:
  assumes "2 \<le> b" "b \<le> 16"
  shows "undigits b (radix b n) = n"
  using assms
proof (induction b n rule: radix.induct)
  case (1 b n)
  show ?case
  proof (cases "n < b")
    case True
    with "1.prems" show ?thesis by (simp add: radix.simps undigits_def)
  next
    case False
    with "1" have "undigits b (radix b (n div b)) = n div b" by simp
    with False "1.prems" show ?thesis
      by (subst radix.simps)
        (simp add: undigits_def less_le_trans [OF mod_less_divisor] mult.commute)
  qed
qed

lemma radix_inj: "2 \<le> b \<Longrightarrow> b \<le> 16 \<Longrightarrow> radix b m = radix b n \<longleftrightarrow> m = n"
  by (metis undigits_radix)

lemma radix_not_Nil [simp]: "radix b n \<noteq> []"
  by (subst radix.simps) simp

definition fmt_d :: "int \<Rightarrow> string" where
  "fmt_d n = (if n < 0 then CHR ''-'' # radix 10 (nat (- n)) else radix 10 (nat n))"

definition dec :: "nat \<Rightarrow> string" where
  "dec n = radix 10 n"

lemma dec_inj [simp]: "dec m = dec n \<longleftrightarrow> m = n"
  by (simp add: dec_def radix_inj)

text \<open>\<^verbatim>\<open>%0<w>x\<close>: hexadecimal, zero-padded on the left to width \<open>w\<close>.\<close>

definition pad0 :: "nat \<Rightarrow> string \<Rightarrow> string" where
  "pad0 w s = replicate (w - length s) (CHR ''0'') @ s"

definition hex_pad :: "nat \<Rightarrow> nat \<Rightarrow> string" where
  "hex_pad w n = pad0 w (radix 16 n)"

lemma undigits_pad0 [simp]: "undigits b (pad0 w s) = undigits b s"
proof -
  have "foldl (\<lambda>a c. a * b + digit_val c) 0 (replicate k (CHR ''0'')) = 0" for k
    by (induction k) (simp_all add: digit_val_def)
  then show ?thesis
    by (simp add: pad0_def undigits_def)
qed

lemma hex_pad_inj: "hex_pad w m = hex_pad w n \<longleftrightarrow> m = n"
proof
  assume "hex_pad w m = hex_pad w n"
  then have "undigits 16 (hex_pad w m) = undigits 16 (hex_pad w n)" by simp
  then show "m = n" by (simp add: hex_pad_def)
qed simp

section \<open>Go error values\<close>

text \<open>
  \<open>Sentinel m\<close> is a package-level \<^verbatim>\<open>errors.New(m)\<close>, compared by identity; \<open>Plain m\<close> an
  error made on the spot; \<open>Wrap p e s\<close> is \<^verbatim>\<open>fmt.Errorf\<close> with one \<^verbatim>\<open>%w\<close> between the
  texts \<open>p\<close> and \<open>s\<close>.
\<close>

datatype goerr = Sentinel string | Plain string | Wrap string goerr string

fun err_msg :: "goerr \<Rightarrow> string" where
  "err_msg (Sentinel m) = m"
| "err_msg (Plain m) = m"
| "err_msg (Wrap p e s) = p @ err_msg e @ s"

text \<open>\<^verbatim>\<open>errors.Is(e, t)\<close> for a sentinel \<open>t\<close>.\<close>

fun err_is :: "goerr \<Rightarrow> goerr \<Rightarrow> bool" where
  "err_is (Sentinel m) t = (Sentinel m = t)"
| "err_is (Plain m) t = False"
| "err_is (Wrap p e s) t = err_is e t"

type_synonym 'a res = "goerr + 'a"

section \<open>64-bit wrap-around\<close>

text \<open>Two's complement reduction of a mathematical integer to Go's \<^verbatim>\<open>int64\<close>.\<close>

definition wrap64 :: "int \<Rightarrow> int" where
  "wrap64 x = signed_take_bit 63 x"

lemma wrap64_id [simp]: "- (2 ^ 63) \<le> x \<Longrightarrow> x < 2 ^ 63 \<Longrightarrow> wrap64 x = x"
  by (simp add: wrap64_def signed_take_bit_int_eq_self_iff)

lemma wrap64_nonneg: "0 \<le> x \<Longrightarrow> x < 2 ^ 63 \<Longrightarrow> wrap64 x = x"
  by (rule wrap64_id) simp_all

text \<open>Go's \<^verbatim>\<open>/\<close> on signed integers truncates towards zero.\<close>

definition tdiv :: "int \<Rightarrow> int \<Rightarrow> int" where
  "tdiv a b = sgn a * sgn b * (\<bar>a\<bar> div \<bar>b\<bar>)"

lemma tdiv_nonneg: "0 \<le> a \<Longrightarrow> 0 < b \<Longrightarrow> tdiv a b = a div b"
  by (cases "a = 0") (simp_all add: tdiv_def)

section \<open>Times\<close>

text \<open>Times are nanoseconds. \<^verbatim>\<open>Time.Sub\<close> saturates, \<^verbatim>\<open>Duration.Milliseconds\<close> truncates.\<close>

definition time_sub :: "int \<Rightarrow> int \<Rightarrow> int" where
  "time_sub t u = max (- (2 ^ 63)) (min (2 ^ 63 - 1) (t - u))"

definition milliseconds :: "int \<Rightarrow> int" where
  "milliseconds d = tdiv d 1000000"

section \<open>Lists\<close>

text \<open>\<^verbatim>\<open>copy(dst[off:], src)\<close> when \<open>src\<close> fits behind \<open>off\<close>.\<close>

definition blit :: "nat \<Rightarrow> 'a list \<Rightarrow> 'a list \<Rightarrow> 'a list" where
  "blit off src dst = take off dst @ src @ drop (off + length src) dst"

lemma length_blit [simp, wire_len]:
  "off + length src \<le> length dst \<Longrightarrow> length (blit off src dst) = length dst"
  by (simp add: blit_def)

lemma blit_blit [simp]:
  "off + length a \<le> length dst \<Longrightarrow> length b = length a \<Longrightarrow> blit off b (blit off a dst) = blit off b dst"
  by (simp add: blit_def)

lemma take_blit [simp]: "k \<le> off \<Longrightarrow> off \<le> length dst \<Longrightarrow> take k (blit off src dst) = take k dst"
  by (simp add: blit_def min_def)

lemma blit_middle: "length src = length m \<Longrightarrow> blit (length a) src (a @ m @ b) = a @ src @ b"
  by (simp add: blit_def)

lemma two_headed: "2 \<le> length xs \<Longrightarrow> xs ! 0 # xs ! 1 # drop 2 xs = xs"
  by (cases xs; cases "tl xs") auto

text \<open>First index satisfying a predicate, and the first element with it.\<close>

fun find_index :: "('a \<Rightarrow> bool) \<Rightarrow> 'a list \<Rightarrow> nat option" where
  "find_index p [] = None"
| "find_index p (x # xs) = (if p x then Some 0 else map_option Suc (find_index p xs))"

lemma find_index_None_iff: "find_index p xs = None \<longleftrightarrow> (\<forall>x \<in> set xs. \<not> p x)"
  by (induction xs) auto

lemma find_index_SomeD:
  "find_index p xs = Some i \<Longrightarrow> i < length xs \<and> p (xs ! i) \<and> (\<forall>j < i. \<not> p (xs ! j))"
proof (induction xs arbitrary: i)
  case (Cons x xs)
  then show ?case
    by (auto split: if_splits simp: less_Suc_eq_0_disj)
qed simp

lemma find_index_split:
  "find_index p xs = Some i \<Longrightarrow> \<exists>a x b. xs = a @ x # b \<and> length a = i \<and> p x \<and> (\<forall>y \<in> set a. \<not> p y)"
  using find_index_SomeD [of p xs i]
  by (intro exI [of _ "take i xs"] exI [of _ "xs ! i"] exI [of _ "drop (Suc i) xs"])
    (auto simp: id_take_nth_drop [symmetric] in_set_conv_nth)

end
