(* ===== verification/Net.thy ===== *)
theory Net
  imports Prelude
begin

text \<open>
  The parts of Go's \<^verbatim>\<open>net\<close> package the program uses on IP addresses: the byte-slice
  representation (\<open>[]\<close> is the nil IP), \<^verbatim>\<open>IP.To4\<close>, \<^verbatim>\<open>IP.String\<close> and \<^verbatim>\<open>ParseIP\<close>. Name
  resolution and sockets are the environment's and are parameters where they are used.
\<close>

section \<open>IPv4 in 4 and 16 byte form\<close>

definition v4_prefix :: bytes where
  "v4_prefix = replicate 10 0 @ [0xff, 0xff]"

definition to4 :: "bytes \<Rightarrow> bytes option" where
  "to4 ip = (if length ip = 4 then Some ip
     else if length ip = 16 \<and> take 12 ip = v4_prefix then Some (drop 12 ip)
     else None)"

lemma to4_length: "to4 ip = Some v \<Longrightarrow> length v = 4"
  by (auto simp: to4_def split: if_splits)

lemma to4_of_4 [simp]: "length ip = 4 \<Longrightarrow> to4 ip = Some ip"
  by (simp add: to4_def)

lemma length_v4_prefix [simp]: "length v4_prefix = 12"
  by (simp add: v4_prefix_def)

section \<open>Printing\<close>

text \<open>The dotted quad of a 4-byte address.\<close>

definition dotted :: "bytes \<Rightarrow> string" where
  "dotted v = dec (unat (v ! 0)) @ ''.'' @ dec (unat (v ! 1)) @ ''.''
     @ dec (unat (v ! 2)) @ ''.'' @ dec (unat (v ! 3))"

fun split_on :: "char \<Rightarrow> string \<Rightarrow> string list" where
  "split_on c [] = [[]]"
| "split_on c (x # xs) = (if x = c then [] # split_on c xs
     else case split_on c xs of [] \<Rightarrow> [[x]] | y # ys \<Rightarrow> (x # y) # ys)"

lemma split_on_append:
  "c \<notin> set s \<Longrightarrow> split_on c (s @ c # t) = s # split_on c t"
  by (induction s) auto

lemma split_on_single: "c \<notin> set s \<Longrightarrow> split_on c s = [s]"
  by (induction s) auto

lemma digit_char_not_dot: "d < 16 \<Longrightarrow> digit_char d \<noteq> CHR ''.''"
proof
  assume "d < 16" "digit_char d = CHR ''.''"
  then have "(of_char (digit_char d) :: nat) = 46" by simp
  with \<open>d < 16\<close> show False by (auto simp: digit_char_def split: if_splits)
qed

lemma dec_no_dot [simp]: "CHR ''.'' \<notin> set (dec n)"
proof -
  have "CHR ''.'' \<notin> set (radix b n)" if "b = 10" for b
    using that
  proof (induction b n rule: radix.induct)
    case (1 b n)
    have "n mod b < 16"
      using "1.prems" mod_less_divisor [of b n] by linarith
    then have nd: "CHR ''.'' \<noteq> digit_char (n mod b)" "n < b \<Longrightarrow> CHR ''.'' \<noteq> digit_char n"
      using "1.prems" digit_char_not_dot [of "n mod b"] digit_char_not_dot [of n] by fastforce+
    with 1 show ?case
      by (subst radix.simps) auto
  qed
  then show ?thesis by (simp add: dec_def)
qed

lemma dotted_inj:
  assumes "length a = 4" "length b = 4" "dotted a = dotted b"
  shows "a = b"
proof -
  have "map (dec \<circ> unat) a = map (dec \<circ> unat) b"
  proof -
    have "split_on (CHR ''.'') (dotted v) = map (dec \<circ> unat) v" if "length v = 4" for v
      using that
      by (auto simp: dotted_def split_on_append split_on_single length_Suc_conv numeral_eq_Suc)
    with assms show ?thesis by metis
  qed
  moreover have "inj (dec \<circ> unat :: byte \<Rightarrow> string)"
    by (rule injI) (simp add: unsigned_word_eqI)
  ultimately show ?thesis by (simp add: inj_map_eq_map)
qed

text \<open>The eight 16-bit groups of a 16-byte address, and the RFC 5952 text form.\<close>

definition group6 :: "bytes \<Rightarrow> nat \<Rightarrow> nat" where
  "group6 ip i = unat (ip ! (2 * i)) * 256 + unat (ip ! (2 * i + 1))"

definition zero_run :: "bytes \<Rightarrow> nat \<Rightarrow> nat" where
  "zero_run ip i = length (takeWhile (\<lambda>j. group6 ip j = 0) [i..<8])"

definition longest_zero_run :: "bytes \<Rightarrow> (nat \<times> nat) option" where
  "longest_zero_run ip = foldl (\<lambda>best i. let l = zero_run ip i in
       if 2 \<le> l \<and> (case best of None \<Rightarrow> True | Some (s, e) \<Rightarrow> e - s < l)
       then Some (i, i + l) else best) None [0..<8]"

definition groups_text :: "bytes \<Rightarrow> nat \<Rightarrow> nat \<Rightarrow> string" where
  "groups_text ip lo hi = concat (map (\<lambda>i. (if i = lo then [] else '':'') @ radix 16 (group6 ip i)) [lo..<hi])"

definition v6_string :: "bytes \<Rightarrow> string" where
  "v6_string ip = (case longest_zero_run ip of
       None \<Rightarrow> groups_text ip 0 8
     | Some (s, e) \<Rightarrow> groups_text ip 0 s @ ''::'' @ groups_text ip e 8)"

definition ip_string :: "bytes \<Rightarrow> string" where
  "ip_string ip = (if ip = [] then ''<nil>''
     else case to4 ip of Some v \<Rightarrow> dotted v
     | None \<Rightarrow> if length ip = 16 then v6_string ip
         else ''?'' @ concat (map (\<lambda>b. hex_pad 2 (unat b)) ip))"

lemma ip_string_4: "length v = 4 \<Longrightarrow> ip_string v = dotted v"
  by (auto simp: ip_string_def)

section \<open>Parsing\<close>

definition is_digit :: "char \<Rightarrow> bool" where
  "is_digit c \<longleftrightarrow> 48 \<le> (of_char c :: nat) \<and> (of_char c :: nat) \<le> 57"

definition hex_val :: "char \<Rightarrow> nat option" where
  "hex_val c = (let n = of_char c :: nat in
     if 48 \<le> n \<and> n \<le> 57 then Some (n - 48)
     else if 97 \<le> n \<and> n \<le> 102 then Some (n - 87)
     else if 65 \<le> n \<and> n \<le> 70 then Some (n - 55) else None)"

text \<open>
  One dotted field: one to three digits, no leading zero, at most 255
  (\<^verbatim>\<open>netip.parseIPv4Fields\<close>).
\<close>

definition v4_field :: "string \<Rightarrow> byte option" where
  "v4_field s = (if s \<noteq> [] \<and> list_all is_digit s \<and> (length s = 1 \<or> hd s \<noteq> CHR ''0'')
       \<and> undigits 10 s \<le> 255 then Some (word_of_nat (undigits 10 s)) else None)"

definition parse_v4 :: "string \<Rightarrow> bytes option" where
  "parse_v4 s = (case map v4_field (split_on (CHR ''.'') s) of
       [Some a, Some b, Some c, Some d] \<Rightarrow> Some [a, b, c, d] | _ \<Rightarrow> None)"

text \<open>Leading hexadecimal digits of a group: at most four.\<close>

definition hex_group :: "string \<Rightarrow> (nat \<times> string) option" where
  "hex_group s = (let ds = takeWhile (\<lambda>c. hex_val c \<noteq> None) s in
     if ds = [] \<or> 4 < length ds then None
     else Some (foldl (\<lambda>a c. a * 16 + the (hex_val c)) 0 ds, drop (length ds) s))"

text \<open>
  The loop of \<^verbatim>\<open>netip.parseIPv6\<close>: \<open>acc\<close> the bytes read, \<open>ell\<close> the position of the
  ellipsis, \<open>s\<close> the rest. Each round reads a group, so the length of \<open>s\<close> is fuel.
\<close>

fun v6_loop :: "nat \<Rightarrow> bytes \<Rightarrow> nat option \<Rightarrow> string \<Rightarrow> (bytes \<times> nat option) option" where
  "v6_loop 0 acc ell s = None"
| "v6_loop (Suc k) acc ell s =
    (if 16 \<le> length acc then (if s = [] then Some (acc, ell) else None) else
     case hex_group s of None \<Rightarrow> None
     | Some (v, r) \<Rightarrow>
        if r \<noteq> [] \<and> hd r = CHR ''.'' then
          (if (ell = None \<and> length acc \<noteq> 12) \<or> 16 < length acc + 4 then None
           else map_option (\<lambda>q. (acc @ q, ell)) (parse_v4 s))
        else let acc' = acc @ [word_of_nat (v div 256), word_of_nat v] in
          if r = [] then Some (acc', ell)
          else if hd r \<noteq> CHR '':'' \<or> length r = 1 then None
          else let s' = tl r in
            if hd s' = CHR '':'' then
              (if ell \<noteq> None then None
               else if tl s' = [] then Some (acc', Some (length acc'))
               else v6_loop k acc' (Some (length acc')) (tl s'))
            else v6_loop k acc' ell s')"

definition v6_finish :: "bytes \<times> nat option \<Rightarrow> bytes option" where
  "v6_finish p = (case p of (acc, ell) \<Rightarrow>
     if length acc < 16 then map_option (\<lambda>e. take e acc @ replicate (16 - length acc) 0 @ drop e acc) ell
     else if ell = None then Some acc else None)"

definition parse_v6 :: "string \<Rightarrow> bytes option" where
  "parse_v6 s = (if take 2 s = ''::'' then
       (if length s = 2 then Some (replicate 16 0)
        else Option.bind (v6_loop (Suc (length s)) [] (Some 0) (drop 2 s)) v6_finish)
     else Option.bind (v6_loop (Suc (length s)) [] None s) v6_finish)"

text \<open>
  \<^verbatim>\<open>net.ParseIP\<close>: the first of \<^verbatim>\<open>.\<close>, \<^verbatim>\<open>:\<close> and \<^verbatim>\<open>%\<close> selects the syntax; the result is
  always in 16-byte form, nil (\<open>None\<close>) when the text is no address or has a zone.
\<close>

definition ParseIP :: "string \<Rightarrow> bytes option" where
  "ParseIP s = (case find (\<lambda>c. c \<in> set ''.:%'') s of
       None \<Rightarrow> None
     | Some c \<Rightarrow> if c = CHR ''.'' then map_option (\<lambda>v. v4_prefix @ v) (parse_v4 s)
         else if c = CHR '':'' \<and> CHR ''%'' \<notin> set s then parse_v6 s else None)"

lemma parse_v4_length: "parse_v4 s = Some v \<Longrightarrow> length v = 4"
  by (auto simp: parse_v4_def split: list.splits option.splits)

lemma to4_mapped [simp]: "length v = 4 \<Longrightarrow> to4 (v4_prefix @ v) = Some v"
  by (simp add: to4_def)

section \<open>UDP addresses\<close>

text \<open>\<^verbatim>\<open>UDPAddr.String\<close>: \<^verbatim>\<open>JoinHostPort\<close> brackets a host with a colon.\<close>

type_synonym udp_addr = "bytes \<times> int"

definition udp_addr_string :: "udp_addr \<Rightarrow> string" where
  "udp_addr_string a =
     (let host = (if fst a = [] then [] else ip_string (fst a)) in
      (if CHR '':'' \<in> set host then ''['' @ host @ '']'' else host) @ '':'' @ fmt_d (snd a))"

end
