(* ===== verification/Radius_Attribute.thy ===== *)
theory Radius_Attribute
  imports Net
begin

text \<open>
  Attributes and attribute lists (\<^verbatim>\<open>pkg/radius/attribute.go\<close>): the list operations, and
  the wire form of the attribute section with its decoder. The two directions of the
  codec are inverse to each other on the values the wire can carry.
\<close>

section \<open>Types and constants\<close>

type_synonym atype = "8 word"

record attribute =
  AType :: atype
  AValue :: bytes

type_synonym attrs = "attribute list"

lemma attribute_eta [simp]: "\<lparr>AType = AType a, AValue = AValue a\<rparr> = (a :: attribute)"
  by simp

abbreviation (input) AttrUserName :: atype where "AttrUserName \<equiv> 1"
abbreviation (input) AttrUserPassword :: atype where "AttrUserPassword \<equiv> 2"
abbreviation (input) AttrCHAPPassword :: atype where "AttrCHAPPassword \<equiv> 3"
abbreviation (input) AttrNASIPAddress :: atype where "AttrNASIPAddress \<equiv> 4"
abbreviation (input) AttrNASPort :: atype where "AttrNASPort \<equiv> 5"
abbreviation (input) AttrServiceType :: atype where "AttrServiceType \<equiv> 6"
abbreviation (input) AttrFramedProtocol :: atype where "AttrFramedProtocol \<equiv> 7"
abbreviation (input) AttrFramedIPAddress :: atype where "AttrFramedIPAddress \<equiv> 8"
abbreviation (input) AttrReplyMessage :: atype where "AttrReplyMessage \<equiv> 18"
abbreviation (input) AttrCalledStationID :: atype where "AttrCalledStationID \<equiv> 30"
abbreviation (input) AttrCallingStationID :: atype where "AttrCallingStationID \<equiv> 31"
abbreviation (input) AttrNASIdentifier :: atype where "AttrNASIdentifier \<equiv> 32"
abbreviation (input) AttrAcctStatusType :: atype where "AttrAcctStatusType \<equiv> 40"
abbreviation (input) AttrAcctSessionID :: atype where "AttrAcctSessionID \<equiv> 44"
abbreviation (input) AttrAcctAuthentic :: atype where "AttrAcctAuthentic \<equiv> 45"
abbreviation (input) AttrAcctSessionTime :: atype where "AttrAcctSessionTime \<equiv> 46"
abbreviation (input) AttrCHAPChallenge :: atype where "AttrCHAPChallenge \<equiv> 60"
abbreviation (input) AttrNASPortType :: atype where "AttrNASPortType \<equiv> 61"
abbreviation (input) AttrVendorSpecific :: atype where "AttrVendorSpecific \<equiv> 26"
abbreviation (input) AttrNASPortID :: atype where "AttrNASPortID \<equiv> 87"
abbreviation (input) AttrMessageAuthenticator :: atype where "AttrMessageAuthenticator \<equiv> 80"
abbreviation (input) AttrErrorCause :: atype where "AttrErrorCause \<equiv> 101"

abbreviation (input) ServiceTypeFramed :: u32 where "ServiceTypeFramed \<equiv> 2"
abbreviation (input) FramedProtocolPPP :: u32 where "FramedProtocolPPP \<equiv> 1"
abbreviation (input) NASPortTypeEthernet :: u32 where "NASPortTypeEthernet \<equiv> 15"
abbreviation (input) NASPortTypeVirtual :: u32 where "NASPortTypeVirtual \<equiv> 5"
abbreviation (input) AcctStatusStart :: u32 where "AcctStatusStart \<equiv> 1"
abbreviation (input) AcctAuthenticRADIUS :: u32 where "AcctAuthenticRADIUS \<equiv> 1"
abbreviation (input) ErrorCauseUnsupportedAttribute :: u32 where "ErrorCauseUnsupportedAttribute \<equiv> 401"
abbreviation (input) ErrorCauseSessionContextNotFound :: u32 where "ErrorCauseSessionContextNotFound \<equiv> 503"

definition MaxAttributeValueLength :: nat where
  "MaxAttributeValueLength = 253"

definition ErrTruncatedAttribute :: goerr where
  "ErrTruncatedAttribute = Sentinel ''radius: truncated attribute in packet body''"

section \<open>List operations\<close>

text \<open>\<^verbatim>\<open>Add\<close> copies the value; on error the list is left as it was.\<close>

definition attr_Add :: "attrs \<Rightarrow> atype \<Rightarrow> bytes \<Rightarrow> attrs res" where
  "attr_Add as typ value =
     (if length value > MaxAttributeValueLength
      then Inl (Plain (''attribute '' @ dec (unat typ) @ '' value length '' @ dec (length value)
             @ '' exceeds '' @ dec MaxAttributeValueLength))
      else Inr (as @ [\<lparr>AType = typ, AValue = value\<rparr>]))"

definition attr_AddString :: "attrs \<Rightarrow> atype \<Rightarrow> string \<Rightarrow> attrs res" where
  "attr_AddString as typ s = attr_Add as typ (bytes_of s)"

definition attr_AddUint32 :: "attrs \<Rightarrow> atype \<Rightarrow> u32 \<Rightarrow> attrs res" where
  "attr_AddUint32 as typ v = attr_Add as typ (put32 v)"

definition attr_AddIPv4 :: "attrs \<Rightarrow> atype \<Rightarrow> bytes \<Rightarrow> attrs res" where
  "attr_AddIPv4 as typ ip = (case to4 ip of
       None \<Rightarrow> Inl (Plain (''attribute '' @ dec (unat typ) @ '': '' @ ip_string ip
                @ '' is not a valid IPv4 address''))
     | Some v4 \<Rightarrow> attr_Add as typ v4)"

fun attr_Get :: "attrs \<Rightarrow> atype \<Rightarrow> attribute option" where
  "attr_Get [] typ = None"
| "attr_Get (a # as) typ = (if AType a = typ then Some a else attr_Get as typ)"

definition attr_GetAll :: "attrs \<Rightarrow> atype \<Rightarrow> attribute list" where
  "attr_GetAll as typ = filter (\<lambda>a. AType a = typ) as"

definition attr_GetString :: "attrs \<Rightarrow> atype \<Rightarrow> string" where
  "attr_GetString as typ = (case attr_Get as typ of Some a \<Rightarrow> string_of (AValue a) | None \<Rightarrow> '''')"

definition attr_GetUint32 :: "attrs \<Rightarrow> atype \<Rightarrow> u32 option" where
  "attr_GetUint32 as typ = (case attr_Get as typ of
       Some a \<Rightarrow> if length (AValue a) \<noteq> 4 then None else Some (get32 (AValue a))
     | None \<Rightarrow> None)"

text \<open>The result is the 4-byte form of the address.\<close>

definition attr_GetIPv4 :: "attrs \<Rightarrow> atype \<Rightarrow> bytes option" where
  "attr_GetIPv4 as typ = (case attr_Get as typ of
       Some a \<Rightarrow> if length (AValue a) \<noteq> 4 then None
         else to4 (v4_prefix @ [AValue a ! 0, AValue a ! 1, AValue a ! 2, AValue a ! 3])
     | None \<Rightarrow> None)"

text \<open>\<^verbatim>\<open>Remove\<close> returns the new list and the number of attributes removed.\<close>

fun attr_Remove :: "attrs \<Rightarrow> atype \<Rightarrow> attrs \<times> nat" where
  "attr_Remove [] typ = ([], 0)"
| "attr_Remove (a # as) typ = (let (out, removed) = attr_Remove as typ in
     if AType a = typ then (out, Suc removed) else (a # out, removed))"

section \<open>Wire form\<close>

text \<open>The loop of \<^verbatim>\<open>encodeAttributes\<close>: index \<open>i\<close>, bytes written so far \<open>out\<close>.\<close>

fun encodeAttributes_loop :: "nat \<Rightarrow> bytes \<Rightarrow> attrs \<Rightarrow> bytes res" where
  "encodeAttributes_loop i out [] = Inr out"
| "encodeAttributes_loop i out (a # as) =
    (if length (AValue a) > MaxAttributeValueLength
     then Inl (Plain (''attribute '' @ dec i @ '' (type '' @ dec (unat (AType a))
            @ '') value length '' @ dec (length (AValue a)) @ '' exceeds '' @ dec MaxAttributeValueLength))
     else encodeAttributes_loop (Suc i)
            (out @ [AType a, word_of_nat (2 + length (AValue a))] @ AValue a) as)"

definition encodeAttributes :: "attrs \<Rightarrow> bytes res" where
  "encodeAttributes as = encodeAttributes_loop 0 [] as"

text \<open>The loop of \<^verbatim>\<open>decodeAttributes\<close>: attributes read so far, rest of the input.\<close>

function decodeAttributes_loop :: "attrs \<Rightarrow> bytes \<Rightarrow> attrs res" where
  "decodeAttributes_loop as data =
    (if data = [] then Inr as
     else if length data < 2 then Inl ErrTruncatedAttribute
     else let len = unat (data ! 1) in
       if len < 2 \<or> len > length data then Inl ErrTruncatedAttribute
       else decodeAttributes_loop
              (as @ [\<lparr>AType = data ! 0, AValue = drop 2 (take len data)\<rparr>]) (drop len data))"
  by pat_completeness auto
termination
  by (relation "measure (\<lambda>(as, data). length data)") auto

declare decodeAttributes_loop.simps [simp del]

definition decodeAttributes :: "bytes \<Rightarrow> attrs res" where
  "decodeAttributes data = decodeAttributes_loop [] data"

section \<open>The abstract wire form\<close>

text \<open>
  What the encoder computes, without accumulator and error branch, and the attribute
  lists it accepts.
\<close>

definition attr_wire :: "attribute \<Rightarrow> bytes" where
  "attr_wire a = [AType a, word_of_nat (2 + length (AValue a))] @ AValue a"

definition attrs_wire :: "attrs \<Rightarrow> bytes" where
  "attrs_wire as = concat (map attr_wire as)"

definition wf_attrs :: "attrs \<Rightarrow> bool" where
  "wf_attrs as \<longleftrightarrow> (\<forall>a \<in> set as. length (AValue a) \<le> MaxAttributeValueLength)"

lemma attrs_wire_simps [simp, wire_simps]:
  "attrs_wire [] = []"
  "attrs_wire (a # as) = attr_wire a @ attrs_wire as"
  "attrs_wire (as @ bs) = attrs_wire as @ attrs_wire bs"
  by (simp_all add: attrs_wire_def)

lemma wf_attrs_simps [simp]:
  "wf_attrs []"
  "wf_attrs (a # as) \<longleftrightarrow> length (AValue a) \<le> MaxAttributeValueLength \<and> wf_attrs as"
  "wf_attrs (as @ bs) \<longleftrightarrow> wf_attrs as \<and> wf_attrs bs"
  by (auto simp: wf_attrs_def)

lemma length_attr_wire [simp, wire_len]: "length (attr_wire a) = 2 + length (AValue a)"
  by (simp add: attr_wire_def)

lemma encodeAttributes_loop_ok:
  "wf_attrs as \<Longrightarrow> encodeAttributes_loop i out as = Inr (out @ attrs_wire as)"
  by (induction as arbitrary: i out) (auto simp: attr_wire_def)

lemma encodeAttributes_loop_Inr:
  "encodeAttributes_loop i out as = Inr b \<Longrightarrow> wf_attrs as"
  by (induction as arbitrary: i out) (auto split: if_splits)

lemma encodeAttributes_Inr_iff:
  "encodeAttributes as = Inr b \<longleftrightarrow> wf_attrs as \<and> b = attrs_wire as"
  using encodeAttributes_loop_Inr [of 0 "[]" as b]
  by (auto simp: encodeAttributes_def encodeAttributes_loop_ok)

lemma encodeAttributes_ok: "wf_attrs as \<Longrightarrow> encodeAttributes as = Inr (attrs_wire as)"
  by (simp add: encodeAttributes_Inr_iff)

lemma unat_len_byte: "n \<le> MaxAttributeValueLength \<Longrightarrow> unat (2 + word_of_nat n :: byte) = 2 + n"
proof -
  assume n: "n \<le> MaxAttributeValueLength"
  have "unat (2 + word_of_nat n :: byte) = unat (word_of_nat (2 + n) :: byte)" by simp
  also have "\<dots> = 2 + n"
    using n unfolding unat_of_nat by (simp add: MaxAttributeValueLength_def)
  finally show ?thesis .
qed

lemma attr_wire_header:
  "attr_wire a ! 0 = AType a" "attr_wire a ! Suc 0 = word_of_nat (2 + length (AValue a))"
  by (simp_all add: attr_wire_def)

lemma decodeAttributes_loop_wire:
  "wf_attrs as \<Longrightarrow> decodeAttributes_loop acc (attrs_wire as) = Inr (acc @ as)"
proof (induction as arbitrary: acc)
  case Nil
  then show ?case by (simp add: decodeAttributes_loop.simps)
next
  case (Cons a as)
  then have len: "unat (2 + word_of_nat (length (AValue a)) :: byte) = 2 + length (AValue a)"
    by (intro unat_len_byte) simp
  have "decodeAttributes_loop acc (attr_wire a @ attrs_wire as)
      = decodeAttributes_loop (acc @ [a]) (attrs_wire as)"
    using len by (subst decodeAttributes_loop.simps) (simp add: attr_wire_def Let_def)
  with Cons show ?case by simp
qed

lemma decodeAttributes_loop_inverse:
  "decodeAttributes_loop acc data = Inr as \<Longrightarrow>
    \<exists>bs. as = acc @ bs \<and> wf_attrs bs \<and> attrs_wire bs = data"
proof (induction acc data rule: decodeAttributes_loop.induct)
  case (1 acc data)
  show ?case
  proof (cases "data = []")
    case True
    with "1.prems" show ?thesis by (simp add: decodeAttributes_loop.simps)
  next
    case False
    let ?len = "unat (data ! 1)"
    let ?a = "\<lparr>AType = data ! 0, AValue = drop 2 (take ?len data)\<rparr>"
    from "1.prems" False have ok: "\<not> length data < 2" "\<not> (?len < 2 \<or> ?len > length data)"
      by (auto simp: decodeAttributes_loop.simps [of acc data] Let_def split: if_splits)
    with "1.prems" False
    have "decodeAttributes_loop (acc @ [?a]) (drop ?len data) = Inr as"
      by (simp add: decodeAttributes_loop.simps [of acc data] Let_def)
    with "1.IH" False ok obtain bs where
      bs: "as = (acc @ [?a]) @ bs" "wf_attrs bs" "attrs_wire bs = drop ?len data"
      by blast
    have len: "2 + length (AValue ?a) = ?len" using ok by (simp, linarith)
    have "attr_wire ?a = take ?len data"
    proof -
      have "take ?len data = data ! 0 # data ! 1 # drop 2 (take ?len data)"
        using two_headed [of "take ?len data"] ok by simp
      then show ?thesis
        unfolding attr_wire_def len by simp
    qed
    with bs have "attrs_wire (?a # bs) = data" by simp
    moreover have "length (AValue ?a) \<le> MaxAttributeValueLength"
      using len unat_byte_bound [of "data ! 1"] unfolding MaxAttributeValueLength_def by linarith
    then have "wf_attrs (?a # bs)"
      using bs(2) by (simp only: wf_attrs_simps simp_thms)
    ultimately show ?thesis using bs(1) by (intro exI [of _ "?a # bs"]) simp
  qed
qed

lemma decodeAttributes_Inr_iff:
  "decodeAttributes data = Inr as \<longleftrightarrow> wf_attrs as \<and> attrs_wire as = data"
  using decodeAttributes_loop_inverse [of "[]" data as] decodeAttributes_loop_wire [of as "[]"]
  by (auto simp: decodeAttributes_def)

end
