(* ===== verification/Radius_Code.thy ===== *)
theory Radius_Code
  imports Prelude
begin

text \<open>
  Packet codes (\<^verbatim>\<open>pkg/radius/code.go\<close>): the one-byte type \<^verbatim>\<open>Code\<close>, its constants, its
  printed names and the two classifications \<^verbatim>\<open>IsRequest\<close> and \<^verbatim>\<open>IsResponse\<close> the encoder
  and the receiver switch on.
\<close>

type_synonym code = "8 word"

abbreviation (input) CodeAccessRequest :: code where "CodeAccessRequest \<equiv> 1"
abbreviation (input) CodeAccessAccept :: code where "CodeAccessAccept \<equiv> 2"
abbreviation (input) CodeAccessReject :: code where "CodeAccessReject \<equiv> 3"
abbreviation (input) CodeAccountingRequest :: code where "CodeAccountingRequest \<equiv> 4"
abbreviation (input) CodeAccountingResponse :: code where "CodeAccountingResponse \<equiv> 5"
abbreviation (input) CodeAccessChallenge :: code where "CodeAccessChallenge \<equiv> 11"
abbreviation (input) CodeDisconnectRequest :: code where "CodeDisconnectRequest \<equiv> 40"
abbreviation (input) CodeDisconnectACK :: code where "CodeDisconnectACK \<equiv> 41"
abbreviation (input) CodeDisconnectNAK :: code where "CodeDisconnectNAK \<equiv> 42"
abbreviation (input) CodeCoARequest :: code where "CodeCoARequest \<equiv> 43"
abbreviation (input) CodeCoAACK :: code where "CodeCoAACK \<equiv> 44"
abbreviation (input) CodeCoANAK :: code where "CodeCoANAK \<equiv> 45"

definition code_String :: "code \<Rightarrow> string" where
  "code_String c =
    (if c = CodeAccessRequest then ''Access-Request''
     else if c = CodeAccessAccept then ''Access-Accept''
     else if c = CodeAccessReject then ''Access-Reject''
     else if c = CodeAccountingRequest then ''Accounting-Request''
     else if c = CodeAccountingResponse then ''Accounting-Response''
     else if c = CodeAccessChallenge then ''Access-Challenge''
     else if c = CodeDisconnectRequest then ''Disconnect-Request''
     else if c = CodeDisconnectACK then ''Disconnect-ACK''
     else if c = CodeDisconnectNAK then ''Disconnect-NAK''
     else if c = CodeCoARequest then ''CoA-Request''
     else if c = CodeCoAACK then ''CoA-ACK''
     else if c = CodeCoANAK then ''CoA-NAK''
     else ''Unknown('' @ dec (unat c) @ '')'')"

definition IsRequest :: "code \<Rightarrow> bool" where
  "IsRequest c \<longleftrightarrow> c \<in> {CodeAccessRequest, CodeAccountingRequest, CodeCoARequest, CodeDisconnectRequest}"

definition IsResponse :: "code \<Rightarrow> bool" where
  "IsResponse c \<longleftrightarrow> c \<in> {CodeAccessAccept, CodeAccessReject, CodeAccessChallenge,
     CodeAccountingResponse, CodeCoAACK, CodeCoANAK, CodeDisconnectACK, CodeDisconnectNAK}"

lemma request_not_response: "IsRequest c \<Longrightarrow> \<not> IsResponse c"
  by (auto simp: IsRequest_def IsResponse_def)

lemma IsResponse_simps [simp]:
  "\<not> IsResponse CodeAccessRequest" "\<not> IsResponse CodeAccountingRequest"
  "\<not> IsResponse CodeCoARequest" "\<not> IsResponse CodeDisconnectRequest"
  "IsResponse CodeAccessAccept" "IsResponse CodeAccountingResponse"
  "IsResponse CodeCoAACK" "IsResponse CodeCoANAK"
  "IsResponse CodeDisconnectACK" "IsResponse CodeDisconnectNAK"
  by (simp_all add: IsResponse_def)

end
