(* ===== verification/Radius_Auth.thy ===== *)
theory Radius_Auth
  imports Radius_Code Digest
begin

text \<open>
  Password hiding and authenticators (\<^verbatim>\<open>pkg/radius/auth.go\<close>). The two loops of the
  User-Password cipher are modelled block by block; the cipher's round trip is proved
  once for any 16-byte hash, in the locale \<open>block_hash\<close>, and interpreted on MD5.
\<close>

definition AuthenticatorLength :: nat where "AuthenticatorLength = 16"

definition MessageAuthenticatorLength :: nat where "MessageAuthenticatorLength = 16"

text \<open>\<^verbatim>\<open>NewRequestAuthenticator\<close>: \<open>rnd\<close> is what \<^verbatim>\<open>rand.Read\<close> delivered, 16 bytes or an error.\<close>

definition NewRequestAuthenticator :: "bytes res \<Rightarrow> bytes res" where
  "NewRequestAuthenticator rnd = (case rnd of
       Inl err \<Rightarrow> Inl (Wrap ''radius: read random authenticator: '' err '''')
     | Inr a \<Rightarrow> Inr a)"

section \<open>User-Password\<close>

definition xor_bytes :: "bytes \<Rightarrow> bytes \<Rightarrow> bytes" where
  "xor_bytes a b = map2 (\<lambda>x y. x XOR y) a b"

text \<open>
  The loops over 16-byte blocks, for a hash \<open>H\<close> of the previous cipher block (the code's
  \<^verbatim>\<open>MD5(secret || prev)\<close>): \<open>prev\<close> is the variable of the loop, the blocks are the
  windows \<open>[i, i+16)\<close> of the input.
\<close>

fun encrypt_blocks :: "(bytes \<Rightarrow> bytes) \<Rightarrow> bytes \<Rightarrow> bytes list \<Rightarrow> bytes" where
  "encrypt_blocks H prev [] = []"
| "encrypt_blocks H prev (p # ps) =
    (let c = xor_bytes p (H prev) in c @ encrypt_blocks H c ps)"

fun decrypt_blocks :: "(bytes \<Rightarrow> bytes) \<Rightarrow> bytes \<Rightarrow> bytes list \<Rightarrow> bytes" where
  "decrypt_blocks H prev [] = []"
| "decrypt_blocks H prev (c # cs) = xor_bytes c (H prev) @ decrypt_blocks H c cs"

definition pad_password :: "bytes \<Rightarrow> bytes" where
  "pad_password password =
     (let n = ((length password + 15) div 16) * 16;
          n' = (if n = 0 then 16 else n)
      in password @ replicate (n' - length password) 0)"

definition EncryptUserPassword :: "bytes \<Rightarrow> bytes \<Rightarrow> bytes \<Rightarrow> bytes res" where
  "EncryptUserPassword password secret requestAuthenticator =
     (if length password > 128
      then Inl (Plain (''radius: password length '' @ dec (length password) @ '' exceeds 128 bytes''))
      else Inr (encrypt_blocks (\<lambda>prev. md5 (secret @ prev)) requestAuthenticator
                  (chunks 16 (pad_password password))))"

definition strip_nuls :: "bytes \<Rightarrow> bytes" where
  "strip_nuls out = rev (dropWhile (\<lambda>b. b = 0) (rev out))"

definition DecryptUserPassword :: "bytes \<Rightarrow> bytes \<Rightarrow> bytes \<Rightarrow> bytes res" where
  "DecryptUserPassword ciphertext secret requestAuthenticator =
     (if length ciphertext mod 16 \<noteq> 0 \<or> length ciphertext = 0
      then Inl (Plain (''radius: ciphertext length '' @ dec (length ciphertext)
             @ '' not a positive multiple of 16''))
      else Inr (strip_nuls (decrypt_blocks (\<lambda>prev. md5 (secret @ prev)) requestAuthenticator
                  (chunks 16 ciphertext))))"

definition CHAPPassword :: "byte \<Rightarrow> bytes \<Rightarrow> bytes \<Rightarrow> bytes" where
  "CHAPPassword chapID password challenge = chapID # md5 ([chapID] @ password @ challenge)"

section \<open>Authenticators\<close>

definition ComputeRequestAuthenticator :: "code \<Rightarrow> byte \<Rightarrow> u16 \<Rightarrow> bytes \<Rightarrow> bytes \<Rightarrow> bytes" where
  "ComputeRequestAuthenticator c identifier len attributes secret =
     md5 ([c, identifier] @ put16 len @ replicate 16 0 @ attributes @ secret)"

definition ComputeResponseAuthenticator ::
    "code \<Rightarrow> byte \<Rightarrow> u16 \<Rightarrow> bytes \<Rightarrow> bytes \<Rightarrow> bytes \<Rightarrow> bytes" where
  "ComputeResponseAuthenticator c identifier len requestAuthenticator attributes secret =
     md5 ([c, identifier] @ put16 len @ requestAuthenticator @ attributes @ secret)"

definition ComputeMessageAuthenticator :: "bytes \<Rightarrow> bytes \<Rightarrow> bytes" where
  "ComputeMessageAuthenticator packetWithZeroedMA secret = hmac_md5 secret packetWithZeroedMA"

lemma length_authenticators [simp, wire_len]:
  "length (CHAPPassword i p ch) = 17"
  "length (ComputeRequestAuthenticator c i l as s) = 16"
  "length (ComputeResponseAuthenticator c i l ra as s) = 16"
  "length (ComputeMessageAuthenticator m s) = 16"
  by (simp_all add: CHAPPassword_def ComputeRequestAuthenticator_def
      ComputeResponseAuthenticator_def ComputeMessageAuthenticator_def)

section \<open>The cipher for an arbitrary 16-byte hash\<close>

lemma length_xor_bytes [simp]: "length (xor_bytes a b) = min (length a) (length b)"
  by (simp add: xor_bytes_def)

lemma xor_bytes_cancel: "length a = length b \<Longrightarrow> xor_bytes (xor_bytes a b) b = a"
  by (induction a b rule: list_induct2) (simp_all add: xor_bytes_def xor.assoc)

lemma length_pad_password: "length (pad_password p) mod 16 = 0 \<and> 0 < length (pad_password p)"
  by (auto simp: pad_password_def Let_def)

lemma length_pad_password_le: "length p \<le> 128 \<Longrightarrow> length (pad_password p) \<le> 128"
proof -
  assume "length p \<le> 128"
  then have "(length p + 15) div 16 * 16 \<le> 128" by presburger
  moreover have "length p \<le> (length p + 15) div 16 * 16" by presburger
  ultimately show ?thesis by (auto simp: pad_password_def Let_def)
qed

lemma strip_nuls_pad: "strip_nuls (p @ replicate n 0) = strip_nuls p"
proof -
  have "dropWhile (\<lambda>b. b = 0) (replicate n 0 @ r) = dropWhile (\<lambda>b. b = 0) r" for r :: bytes
    by (induction n) simp_all
  then show ?thesis by (simp add: strip_nuls_def)
qed

lemma strip_nuls_id: "p = [] \<or> last p \<noteq> 0 \<Longrightarrow> strip_nuls p = p"
  by (cases p rule: rev_cases) (simp_all add: strip_nuls_def)

lemma chunks_blocks:
  assumes "0 < n"
  shows "length xs = k * n \<Longrightarrow> \<forall>b \<in> set (chunks n xs). length b = n"
proof (induction k arbitrary: xs)
  case (Suc k)
  from Suc.prems assms have ne: "xs \<noteq> []" and le: "n \<le> length xs" by auto
  have "length (drop n xs) = k * n" using Suc.prems by simp
  then have "\<forall>b \<in> set (chunks n (drop n xs)). length b = n" by (rule Suc.IH)
  with le show ?case
    by (simp only: chunks_step [OF assms ne] list.set ball_simps length_take min_absorb2)
qed simp

lemma chunks_concat:
  "\<forall>b \<in> set bs. length b = n \<Longrightarrow> 0 < n \<Longrightarrow> chunks n (concat bs) = bs"
proof (induction bs)
  case (Cons b bs)
  then have "b @ concat bs \<noteq> []" and "length b = n" and "chunks n (concat bs) = bs" by auto
  with Cons.prems(2) show ?case by (simp add: chunks_step [of n "b @ concat bs"])
qed simp

text \<open>
  \<open>cipher_blocks\<close> keeps the blocks apart, which the proofs need; the code appends them to
  one buffer.
\<close>

fun cipher_blocks :: "(bytes \<Rightarrow> bytes) \<Rightarrow> bytes \<Rightarrow> bytes list \<Rightarrow> bytes list" where
  "cipher_blocks H prev [] = []"
| "cipher_blocks H prev (p # ps) = (let c = xor_bytes p (H prev) in c # cipher_blocks H c ps)"

lemma encrypt_blocks_concat: "encrypt_blocks H prev ps = concat (cipher_blocks H prev ps)"
  by (induction H prev ps rule: encrypt_blocks.induct) (simp_all add: Let_def)

lemma length_cipher: "length (cipher_blocks H prev ps) = length ps"
  by (induction ps arbitrary: prev) (simp_all add: Let_def)

lemma length_concat_blocks: "\<forall>b \<in> set bs. length b = n \<Longrightarrow> length (concat bs) = n * length bs"
  by (induction bs) auto

locale block_hash =
  fixes H :: "bytes \<Rightarrow> bytes"
  assumes hash_length: "length (H x) = 16"
begin

lemma cipher_blocks_length:
  "\<forall>b \<in> set ps. length b = 16 \<Longrightarrow> \<forall>c \<in> set (cipher_blocks H prev ps). length c = 16"
  by (induction ps arbitrary: prev) (auto simp: Let_def hash_length)

lemma decrypt_cipher_blocks:
  "\<forall>b \<in> set ps. length b = 16 \<Longrightarrow> decrypt_blocks H prev (cipher_blocks H prev ps) = concat ps"
  by (induction ps arbitrary: prev) (auto simp: Let_def xor_bytes_cancel hash_length)

lemma length_encrypt:
  assumes "length xs mod 16 = 0"
  shows "length (encrypt_blocks H prev (chunks 16 xs)) = length xs"
proof -
  have blocks: "\<forall>b \<in> set (chunks 16 xs). length b = 16" using assms by (intro chunks_blocks [where k = "length xs div 16"]) auto
  have "length (concat (cipher_blocks H prev (chunks 16 xs))) = length (concat (chunks 16 xs))"
    using length_concat_blocks [OF cipher_blocks_length [OF blocks]] length_concat_blocks [OF blocks]
    by (simp add: length_cipher)
  then show ?thesis by (simp add: encrypt_blocks_concat concat_chunks)
qed

lemma decrypt_encrypt:
  assumes "length xs mod 16 = 0"
  shows "decrypt_blocks H prev (chunks 16 (encrypt_blocks H prev (chunks 16 xs))) = xs"
proof -
  have blocks: "\<forall>b \<in> set (chunks 16 xs). length b = 16" using assms by (intro chunks_blocks [where k = "length xs div 16"]) auto
  then have "chunks 16 (concat (cipher_blocks H prev (chunks 16 xs))) = cipher_blocks H prev (chunks 16 xs)"
    using cipher_blocks_length by (intro chunks_concat) auto
  then show ?thesis
    using decrypt_cipher_blocks [OF blocks] by (simp add: encrypt_blocks_concat concat_chunks)
qed

end

interpretation secret_md5: block_hash "\<lambda>prev. md5 (secret @ prev)" for secret
  by unfold_locales simp

lemma EncryptUserPassword_length [wire_len]:
  "EncryptUserPassword p s ra = Inr c \<Longrightarrow>
    length c = length (pad_password p) \<and> length p \<le> 128"
  using secret_md5.length_encrypt [of "pad_password p" s ra] length_pad_password [of p]
  by (auto simp: EncryptUserPassword_def split: if_splits)

lemma DecryptUserPassword_Encrypt:
  assumes "EncryptUserPassword p s ra = Inr c"
  shows "DecryptUserPassword c s ra = Inr (strip_nuls p)"
proof -
  have c: "c = encrypt_blocks (\<lambda>prev. md5 (s @ prev)) ra (chunks 16 (pad_password p))"
    using assms by (auto simp: EncryptUserPassword_def split: if_splits)
  have len: "length c = length (pad_password p)"
    using EncryptUserPassword_length [OF assms] by simp
  have "strip_nuls (pad_password p) = strip_nuls p"
    by (simp add: pad_password_def Let_def strip_nuls_pad)
  then show ?thesis
    using len length_pad_password [of p] secret_md5.decrypt_encrypt [of "pad_password p" s ra]
    by (simp add: DecryptUserPassword_def c)
qed

end
