(* ===== verification/Radius_Packet.thy ===== *)
theory Radius_Packet
  imports Radius_Attribute Radius_Auth
begin

text \<open>
  The packet, its encoder and decoder, and the two validations of inbound paths
  (\<^verbatim>\<open>pkg/radius/packet.go\<close>). \<^verbatim>\<open>[16]byte\<close> fields are byte lists of length 16
  (\<open>wf_packet\<close>). \<^verbatim>\<open>Encode\<close> changes the packet it is called on, so the model returns
  the packet as it is afterwards next to the result.
\<close>

section \<open>Packets\<close>

record packet =
  Code :: code
  Identifier :: byte
  Authenticator :: bytes
  Attributes :: attrs
  RequestAuthenticator :: bytes
  Secret :: bytes

definition zero16 :: bytes where "zero16 = replicate 16 0"

definition MinPacketLength :: nat where "MinPacketLength = 20"

definition MaxPacketLength :: nat where "MaxPacketLength = 4096"

definition ErrPacketTooShort :: goerr where
  "ErrPacketTooShort = Sentinel ''radius: packet shorter than 20 bytes''"

definition ErrPacketTooLong :: goerr where
  "ErrPacketTooLong = Sentinel ''radius: packet exceeds 4096 bytes''"

definition ErrLengthMismatch :: goerr where
  "ErrLengthMismatch = Sentinel ''radius: header Length disagrees with datagram size''"

definition ErrUnknownCode :: goerr where
  "ErrUnknownCode = Sentinel ''radius: unknown packet code''"

definition ErrInvalidMessageAuthLength :: goerr where
  "ErrInvalidMessageAuthLength = Sentinel ''radius: Message-Authenticator attribute is not 16 bytes''"

definition wf_packet :: "packet \<Rightarrow> bool" where
  "wf_packet p \<longleftrightarrow> length (Authenticator p) = 16 \<and> length (RequestAuthenticator p) = 16"

lemma length_zero16 [simp, wire_len]: "length zero16 = 16"
  by (simp add: zero16_def)

section \<open>Helpers\<close>

fun isZeroAuth :: "bytes \<Rightarrow> bool" where
  "isZeroAuth [] = True"
| "isZeroAuth (b # bs) = (if b \<noteq> 0 then False else isZeroAuth bs)"

definition constantTimeEqual :: "bytes \<Rightarrow> bytes \<Rightarrow> bool" where
  "constantTimeEqual a b =
     (if length a \<noteq> length b then False
      else fold (\<lambda>i v. v OR ((a ! i) XOR (b ! i))) [0..<length a] 0 = 0)"

text \<open>\<open>None\<close> is the code's \<open>-1\<close>.\<close>

definition maAttrIndex :: "attrs \<Rightarrow> nat option" where
  "maAttrIndex lst = find_index (\<lambda>a. AType a = AttrMessageAuthenticator) lst"

fun findMessageAuthenticatorOffset :: "attrs \<Rightarrow> nat \<Rightarrow> nat option" where
  "findMessageAuthenticatorOffset [] off = None"
| "findMessageAuthenticatorOffset (a # as) off =
    (if AType a = AttrMessageAuthenticator then Some (off + 2)
     else findMessageAuthenticatorOffset as (off + (2 + length (AValue a))))"

definition header :: "code \<Rightarrow> byte \<Rightarrow> u16 \<Rightarrow> bytes \<Rightarrow> bytes" where
  "header c i len auth = [c, i] @ put16 len @ auth"

section \<open>Encode\<close>

text \<open>The \<^verbatim>\<open>switch\<close> on the code that fixes the Authenticator.\<close>

definition encode_auth :: "packet \<Rightarrow> bytes res \<Rightarrow> u16 \<Rightarrow> bytes \<Rightarrow> packet res" where
  "encode_auth p rnd len body =
     (if Code p = CodeAccessRequest then
        (if isZeroAuth (Authenticator p) then
           (case NewRequestAuthenticator rnd of
              Inl err \<Rightarrow> Inl err
            | Inr a \<Rightarrow> Inr (p\<lparr>Authenticator := a\<rparr>))
         else Inr p)
      else if Code p = CodeAccountingRequest \<or> Code p = CodeCoARequest \<or> Code p = CodeDisconnectRequest then
        Inr (p\<lparr>Authenticator := ComputeRequestAuthenticator (Code p) (Identifier p) len body (Secret p)\<rparr>)
      else if IsResponse (Code p) then
        Inr (p\<lparr>Authenticator := ComputeResponseAuthenticator (Code p) (Identifier p) len
                 (RequestAuthenticator p) body (Secret p)\<rparr>)
      else Inl (Wrap '''' ErrUnknownCode ('': '' @ dec (unat (Code p)))))"

text \<open>The Message-Authenticator part: zero the value on the wire, compute, copy it to both.\<close>

definition encode_ma :: "packet \<Rightarrow> bytes \<Rightarrow> packet \<times> bytes res" where
  "encode_ma p out =
     (case findMessageAuthenticatorOffset (Attributes p) 20 of
        None \<Rightarrow> (p, Inr out)
      | Some maOffset \<Rightarrow>
          (case maAttrIndex (Attributes p) of
             None \<Rightarrow> (p, Inr out)
           | Some i \<Rightarrow>
               if length (AValue (Attributes p ! i)) \<noteq> MessageAuthenticatorLength
               then (p, Inl ErrInvalidMessageAuthLength)
               else
                 let out' = blit maOffset (replicate MessageAuthenticatorLength 0) out;
                     mac = ComputeMessageAuthenticator out' (Secret p)
                 in (p\<lparr>Attributes := (Attributes p)[i := (Attributes p ! i)\<lparr>AValue := mac\<rparr>]\<rparr>,
                     Inr (blit maOffset mac out'))))"

definition Encode :: "packet \<Rightarrow> bytes res \<Rightarrow> packet \<times> bytes res" where
  "Encode p rnd =
     (if Secret p = [] \<and> Code p \<noteq> CodeAccessRequest
      then (p, Inl (Plain ''radius: shared secret required for encode''))
      else case encodeAttributes (Attributes p) of
        Inl err \<Rightarrow> (p, Inl (Wrap ''encode attributes: '' err ''''))
      | Inr attrsBody \<Rightarrow>
          let totalLen = MinPacketLength + length attrsBody in
          if totalLen > MaxPacketLength
          then (p, Inl (Plain (''radius: encoded packet length '' @ dec totalLen @ '' exceeds ''
                  @ dec MaxPacketLength)))
          else case encode_auth p rnd (word_of_nat totalLen) attrsBody of
            Inl err \<Rightarrow> (p, Inl err)
          | Inr p' \<Rightarrow>
              encode_ma p' (header (Code p') (Identifier p') (word_of_nat totalLen) (Authenticator p')
                 @ attrsBody))"

section \<open>Decode\<close>

definition Decode :: "bytes \<Rightarrow> bytes \<Rightarrow> packet res" where
  "Decode data secret =
     (if length data < MinPacketLength then Inl ErrPacketTooShort
      else if length data > MaxPacketLength then Inl ErrPacketTooLong
      else let declared = unat (get16 (take 2 (drop 2 data))) in
        if declared < MinPacketLength \<or> declared > length data then Inl ErrLengthMismatch
        else case decodeAttributes (drop 20 (take declared data)) of
          Inl err \<Rightarrow> Inl err
        | Inr as \<Rightarrow> Inr \<lparr>Code = data ! 0, Identifier = data ! 1,
            Authenticator = take 16 (drop 4 data), Attributes = as,
            RequestAuthenticator = zero16, Secret = secret\<rparr>)"

section \<open>Validation\<close>

definition ValidateMessageAuthenticator :: "packet \<Rightarrow> bytes \<Rightarrow> bytes \<Rightarrow> bool" where
  "ValidateMessageAuthenticator p wireBytes secret =
     (case maAttrIndex (Attributes p) of
        None \<Rightarrow> False
      | Some idx \<Rightarrow>
          if length (AValue (Attributes p ! idx)) \<noteq> MessageAuthenticatorLength then False
          else (case findMessageAuthenticatorOffset (Attributes p) 20 of
              None \<Rightarrow> False
            | Some maOffset \<Rightarrow>
                if maOffset + MessageAuthenticatorLength > length wireBytes then False
                else constantTimeEqual (AValue (Attributes p ! idx))
                       (ComputeMessageAuthenticator
                          (blit maOffset (replicate MessageAuthenticatorLength 0) wireBytes) secret)))"

text \<open>
  \<open>None\<close> is a run-time panic of the slice expression \<^verbatim>\<open>wireBytes[20:declared]\<close>, whose
  upper limit is the capacity: \<open>spare\<close> holds the bytes of the backing array after the
  slice's end. \<open>reqAuth\<close> is \<^verbatim>\<open>req.Authenticator\<close>.
\<close>

definition ValidateResponseAuthenticator :: "packet \<Rightarrow> bytes \<Rightarrow> bytes \<Rightarrow> bytes \<Rightarrow> bytes \<Rightarrow> bool option" where
  "ValidateResponseAuthenticator p reqAuth secret wireBytes spare =
     (if \<not> IsResponse (Code p) then Some False
      else if length wireBytes < MinPacketLength then Some False
      else let declared = get16 (take 2 (drop 2 wireBytes)) in
        if unat declared < 20 \<or> unat declared > length (wireBytes @ spare) then None
        else Some (constantTimeEqual (Authenticator p)
               (ComputeResponseAuthenticator (Code p) (Identifier p) declared reqAuth
                  (drop 20 (take (unat declared) (wireBytes @ spare))) secret)))"

section \<open>Facts about the helpers\<close>

lemma isZeroAuth_iff: "isZeroAuth a \<longleftrightarrow> (\<forall>b \<in> set a. b = 0)"
  by (induction a) auto

lemma fold_or_zero:
  "fold (\<lambda>i v. v OR f i) is (v :: byte) = 0 \<longleftrightarrow> v = 0 \<and> (\<forall>i \<in> set is. f i = 0)"
  by (induction "is" arbitrary: v) (auto simp: or_eq_0_iff)

lemma xor_eq_0_byte: "(a :: byte) XOR b = 0 \<longleftrightarrow> a = b"
proof
  assume "a XOR b = 0"
  then have "(a XOR b) XOR b = 0 XOR b" by simp
  then show "a = b" by (simp only: xor.assoc xor_self_eq xor.right_neutral xor.left_neutral)
qed simp

lemma constantTimeEqual_iff: "constantTimeEqual a b \<longleftrightarrow> a = b"
  unfolding constantTimeEqual_def fold_or_zero xor_eq_0_byte
  by (metis atLeastLessThan_iff le0 nth_equalityI set_upt)

lemma findMA_None_iff:
  "findMessageAuthenticatorOffset as off = None \<longleftrightarrow> (\<forall>a \<in> set as. AType a \<noteq> AttrMessageAuthenticator)"
  by (induction as arbitrary: off) auto

lemma maAttrIndex_None_iff:
  "maAttrIndex as = None \<longleftrightarrow> (\<forall>a \<in> set as. AType a \<noteq> AttrMessageAuthenticator)"
  by (simp add: maAttrIndex_def find_index_None_iff)

lemma findMA_skip:
  "\<forall>a \<in> set xs. AType a \<noteq> AttrMessageAuthenticator \<Longrightarrow>
    findMessageAuthenticatorOffset (xs @ ys) off
      = findMessageAuthenticatorOffset ys (off + length (attrs_wire xs))"
  by (induction xs arbitrary: off) (simp_all add: algebra_simps)

lemma maAttrIndex_skip:
  "\<forall>a \<in> set xs. AType a \<noteq> AttrMessageAuthenticator \<Longrightarrow> AType a = AttrMessageAuthenticator \<Longrightarrow>
    maAttrIndex (xs @ a # ys) = Some (length xs)"
  by (induction xs) (simp_all add: maAttrIndex_def)

lemma maAttrIndex_SomeE:
  assumes "maAttrIndex as = Some i"
  obtains xs a ys where "as = xs @ a # ys" "length xs = i" "AType a = AttrMessageAuthenticator"
    "\<forall>x \<in> set xs. AType x \<noteq> AttrMessageAuthenticator"
  using find_index_split [OF assms [unfolded maAttrIndex_def]] by auto

lemma length_header [simp, wire_len]: "length (header c i len auth) = 4 + length auth"
  by (simp add: header_def)

end
