(* ===== verification/Radius_Vendor.thy ===== *)
theory Radius_Vendor
  imports Radius_Attribute
begin

text \<open>
  Vendor-specific attributes (\<^verbatim>\<open>pkg/radius/vendor.go\<close>): the framing inside an
  attribute of type 26, single and packed, and the vendor lookups on attribute lists.
\<close>

section \<open>Types\<close>

record vendor_attribute =
  VA_VendorID :: u32
  VA_VendorType :: u8
  VA_Value :: bytes

lemma vendor_attribute_eta [simp]:
  "\<lparr>VA_VendorID = VA_VendorID v, VA_VendorType = VA_VendorType v, VA_Value = VA_Value v\<rparr>
    = (v :: vendor_attribute)"
  by simp

definition VendorHuawei :: u32 where "VendorHuawei = 2011"

abbreviation (input) HuaweiInputPeakRate :: u8 where "HuaweiInputPeakRate \<equiv> 1"
abbreviation (input) HuaweiInputAverageRate :: u8 where "HuaweiInputAverageRate \<equiv> 2"
abbreviation (input) HuaweiInputBasicRate :: u8 where "HuaweiInputBasicRate \<equiv> 3"
abbreviation (input) HuaweiOutputPeakRate :: u8 where "HuaweiOutputPeakRate \<equiv> 5"
abbreviation (input) HuaweiConnectID :: u8 where "HuaweiConnectID \<equiv> 20"
abbreviation (input) HuaweiServiceType :: u8 where "HuaweiServiceType \<equiv> 65"
abbreviation (input) HuaweiSubscriberQoSProfile :: u8 where "HuaweiSubscriberQoSProfile \<equiv> 18"
abbreviation (input) HuaweiAcctSessionID :: u8 where "HuaweiAcctSessionID \<equiv> 26"

definition ErrInvalidVSA :: goerr where
  "ErrInvalidVSA = Sentinel ''radius: invalid VSA payload''"

section \<open>Framing\<close>

definition EncodeVSA :: "u32 \<Rightarrow> u8 \<Rightarrow> bytes \<Rightarrow> bytes res" where
  "EncodeVSA vendorID vendorType value =
     (if length value > 247
      then Inl (Plain (''radius: VSA value length '' @ dec (length value) @ '' exceeds '' @ dec 247))
      else Inr (put32 vendorID @ [vendorType, word_of_nat (2 + length value)] @ value))"

definition DecodeVSA :: "bytes \<Rightarrow> vendor_attribute res" where
  "DecodeVSA value =
     (if length value < 6 then Inl ErrInvalidVSA
      else let vendorLength = unat (value ! 5) in
        if vendorLength < 2 \<or> 4 + vendorLength > length value then Inl ErrInvalidVSA
        else Inr \<lparr>VA_VendorID = get32 (take 4 value), VA_VendorType = value ! 4,
                  VA_Value = drop 6 (take (4 + vendorLength) value)\<rparr>)"

text \<open>The loop of \<^verbatim>\<open>DecodeVSAs\<close>: \<open>out\<close> is what it has appended, \<open>rest\<close> the unread bytes.\<close>

function DecodeVSAs_loop :: "u32 \<Rightarrow> vendor_attribute list \<Rightarrow> bytes \<Rightarrow> vendor_attribute list res" where
  "DecodeVSAs_loop vid out rest =
    (if rest = [] then Inr out
     else if length rest < 2 then Inl ErrInvalidVSA
     else let vl = unat (rest ! 1) in
       if vl < 2 \<or> vl > length rest then Inl ErrInvalidVSA
       else DecodeVSAs_loop vid
              (out @ [\<lparr>VA_VendorID = vid, VA_VendorType = rest ! 0, VA_Value = drop 2 (take vl rest)\<rparr>])
              (drop vl rest))"
  by pat_completeness auto
termination
  by (relation "measure (\<lambda>(v, out, rest). length rest)") auto

declare DecodeVSAs_loop.simps [simp del]

definition DecodeVSAs :: "bytes \<Rightarrow> vendor_attribute list res" where
  "DecodeVSAs value =
     (if length value < 4 then Inl ErrInvalidVSA
      else DecodeVSAs_loop (get32 (take 4 value)) [] (drop 4 value))"

section \<open>Operations on attribute lists\<close>

definition AddVendorAttribute :: "attrs \<Rightarrow> u32 \<Rightarrow> u8 \<Rightarrow> bytes \<Rightarrow> attrs res" where
  "AddVendorAttribute as vendorID vendorType value =
     (case EncodeVSA vendorID vendorType value of
        Inl err \<Rightarrow> Inl err
      | Inr encoded \<Rightarrow> attr_Add as AttrVendorSpecific encoded)"

fun first_vsa :: "u32 \<Rightarrow> u8 \<Rightarrow> vendor_attribute list \<Rightarrow> vendor_attribute option" where
  "first_vsa vid vt [] = None"
| "first_vsa vid vt (v # vs) =
    (if VA_VendorID v = vid \<and> VA_VendorType v = vt then Some v else first_vsa vid vt vs)"

fun GetVendor :: "attrs \<Rightarrow> u32 \<Rightarrow> u8 \<Rightarrow> vendor_attribute option" where
  "GetVendor [] vid vt = None"
| "GetVendor (a # as) vid vt =
    (if AType a \<noteq> AttrVendorSpecific then GetVendor as vid vt
     else case DecodeVSAs (AValue a) of
        Inl err \<Rightarrow> GetVendor as vid vt
      | Inr vsas \<Rightarrow> (case first_vsa vid vt vsas of
            Some v \<Rightarrow> Some v
          | None \<Rightarrow> GetVendor as vid vt))"

fun GetAllVendor :: "attrs \<Rightarrow> u32 \<Rightarrow> vendor_attribute list" where
  "GetAllVendor [] vid = []"
| "GetAllVendor (a # as) vid =
    (if AType a \<noteq> AttrVendorSpecific then GetAllVendor as vid
     else case DecodeVSAs (AValue a) of
        Inl err \<Rightarrow> GetAllVendor as vid
      | Inr vsas \<Rightarrow> filter (\<lambda>v. VA_VendorID v = vid) vsas @ GetAllVendor as vid)"

section \<open>Wire form of packed VSAs\<close>

definition vsa_wire :: "vendor_attribute \<Rightarrow> bytes" where
  "vsa_wire v = [VA_VendorType v, word_of_nat (2 + length (VA_Value v))] @ VA_Value v"

lemma length_EncodeVSA [wire_len]: "EncodeVSA vid vt v = Inr b \<Longrightarrow> length b = 6 + length v"
  by (auto simp: EncodeVSA_def split: if_splits)

lemma get32_take_put32 [simp, wire_simps]: "get32 (take 4 (put32 w @ r)) = w"
  by simp

lemma EncodeVSA_wire:
  "EncodeVSA vid vt v = Inr b \<Longrightarrow>
    b = put32 vid @ vsa_wire \<lparr>VA_VendorID = vid, VA_VendorType = vt, VA_Value = v\<rparr> \<and> length v \<le> 247"
  by (auto simp: EncodeVSA_def vsa_wire_def split: if_splits)

lemma DecodeVSAs_loop_wire:
  assumes "\<forall>v \<in> set vs. VA_VendorID v = vid \<and> length (VA_Value v) \<le> MaxAttributeValueLength"
  shows "DecodeVSAs_loop vid out (concat (map vsa_wire vs)) = Inr (out @ vs)"
  using assms
proof (induction vs arbitrary: out)
  case Nil
  then show ?case by (simp add: DecodeVSAs_loop.simps)
next
  case (Cons v vs)
  then have len: "unat (2 + word_of_nat (length (VA_Value v)) :: byte) = 2 + length (VA_Value v)"
    by (intro unat_len_byte) simp
  have vid: "vid = VA_VendorID v" using Cons.prems by simp
  have "DecodeVSAs_loop vid out (vsa_wire v @ concat (map vsa_wire vs))
      = DecodeVSAs_loop vid (out @ [v]) (concat (map vsa_wire vs))"
    unfolding vid using len by (subst DecodeVSAs_loop.simps) (simp add: vsa_wire_def Let_def)
  with Cons show ?case by simp
qed

lemma DecodeVSAs_packed:
  assumes "\<forall>v \<in> set vs. VA_VendorID v = vid \<and> length (VA_Value v) \<le> MaxAttributeValueLength"
  shows "DecodeVSAs (put32 vid @ concat (map vsa_wire vs)) = Inr vs"
  using DecodeVSAs_loop_wire [OF assms, of "[]"] by (simp add: DecodeVSAs_def)

lemma DecodeVSAs_loop_inverse:
  "DecodeVSAs_loop vid out rest = Inr vs \<Longrightarrow>
    \<exists>ws. vs = out @ ws \<and> (\<forall>v \<in> set ws. VA_VendorID v = vid) \<and> concat (map vsa_wire ws) = rest"
proof (induction vid out rest rule: DecodeVSAs_loop.induct)
  case (1 vid out rest)
  show ?case
  proof (cases "rest = []")
    case True
    with "1.prems" show ?thesis by (simp add: DecodeVSAs_loop.simps)
  next
    case False
    let ?vl = "unat (rest ! 1)"
    let ?v = "\<lparr>VA_VendorID = vid, VA_VendorType = rest ! 0, VA_Value = drop 2 (take ?vl rest)\<rparr>"
    from "1.prems" False have ok: "\<not> length rest < 2" "\<not> (?vl < 2 \<or> ?vl > length rest)"
      by (auto simp: DecodeVSAs_loop.simps [of vid out rest] Let_def split: if_splits)
    with "1.prems" False
    have "DecodeVSAs_loop vid (out @ [?v]) (drop ?vl rest) = Inr vs"
      by (simp add: DecodeVSAs_loop.simps [of vid out rest] Let_def)
    with "1.IH" False ok obtain ws where ws: "vs = (out @ [?v]) @ ws"
      "\<forall>v \<in> set ws. VA_VendorID v = vid" "concat (map vsa_wire ws) = drop ?vl rest"
      by blast
    have len: "2 + length (VA_Value ?v) = ?vl" using ok by (simp, linarith)
    have "vsa_wire ?v = take ?vl rest"
      using two_headed [of "take ?vl rest"] ok unfolding vsa_wire_def len by simp
    with ws show ?thesis by (intro exI [of _ "?v # ws"]) simp
  qed
qed

lemma DecodeVSAs_InrD:
  assumes "DecodeVSAs b = Inr vs"
  shows "\<exists>vid. (\<forall>v \<in> set vs. VA_VendorID v = vid) \<and> put32 vid @ concat (map vsa_wire vs) = b"
proof -
  from assms have len: "4 \<le> length b" and
    loop: "DecodeVSAs_loop (get32 (take 4 b)) [] (drop 4 b) = Inr vs"
    by (auto simp: DecodeVSAs_def split: if_splits)
  obtain b0 b1 b2 b3 r where b: "b = b0 # b1 # b2 # b3 # r"
    using len by (cases b; cases "tl b"; cases "tl (tl b)"; cases "tl (tl (tl b))") auto
  from DecodeVSAs_loop_inverse [OF loop] show ?thesis
    by (intro exI [of _ "get32 (take 4 b)"]) (simp add: b put32_get32)
qed

lemma EncodeVSA_DecodeVSA:
  assumes "EncodeVSA vid vt v = Inr b"
  shows "DecodeVSA b = Inr \<lparr>VA_VendorID = vid, VA_VendorType = vt, VA_Value = v\<rparr>"
    "DecodeVSAs b = Inr [\<lparr>VA_VendorID = vid, VA_VendorType = vt, VA_Value = v\<rparr>]"
proof -
  let ?v = "\<lparr>VA_VendorID = vid, VA_VendorType = vt, VA_Value = v\<rparr>"
  from EncodeVSA_wire [OF assms] have b: "b = put32 vid @ vsa_wire ?v" and len: "length v \<le> 247"
    by auto
  then show "DecodeVSAs b = Inr [?v]"
    using DecodeVSAs_packed [of "[?v]" vid] by (simp add: MaxAttributeValueLength_def)
  have "unat (2 + word_of_nat (length v) :: byte) = 2 + length v"
    using len by (intro unat_len_byte) (simp add: MaxAttributeValueLength_def)
  then show "DecodeVSA b = Inr ?v"
    by (simp add: b DecodeVSA_def vsa_wire_def Let_def nth_append)
qed

text \<open>Lookups only ever return what some type-26 attribute of the list decodes to.\<close>

lemma first_vsa_eq: "first_vsa vid vt vs = find (\<lambda>v. VA_VendorID v = vid \<and> VA_VendorType v = vt) vs"
  by (induction vs) auto

lemma GetAllVendor_append: "GetAllVendor (as @ bs) vid = GetAllVendor as vid @ GetAllVendor bs vid"
  by (induction as) (auto split: sum.splits)

lemma first_vsa_filter:
  "first_vsa vid vt (filter (\<lambda>v. VA_VendorID v = vid) vs) = first_vsa vid vt vs"
  by (induction vs) auto

lemma first_vsa_append:
  "first_vsa vid vt (vs @ ws) = (case first_vsa vid vt vs of Some v \<Rightarrow> Some v | None \<Rightarrow> first_vsa vid vt ws)"
  by (induction vs) auto

text \<open>\<^verbatim>\<open>GetVendor\<close> is the first hit among what \<^verbatim>\<open>GetAllVendor\<close> lists.\<close>

lemma GetVendor_GetAllVendor: "GetVendor as vid vt = first_vsa vid vt (GetAllVendor as vid)"
  by (induction as) (auto simp: first_vsa_append first_vsa_filter split: sum.splits option.splits)

end
