(* ===== verification/Radius_Codec.thy ===== *)
theory Radius_Codec
  imports Radius_Packet Radius_Vendor
begin

text \<open>
  What the packet encoder, the decoder and the validations of \<open>Radius_Packet\<close> guarantee
  together: the wire form, both directions of the codec, and the authenticators that an
  encoded packet carries.
\<close>

section \<open>The wire form of a packet\<close>

definition packet_wire :: "packet \<Rightarrow> bytes" where
  "packet_wire p = header (Code p) (Identifier p)
     (word_of_nat (20 + length (attrs_wire (Attributes p)))) (Authenticator p) @ attrs_wire (Attributes p)"

text \<open>The packets that have a wire form.\<close>

definition wire_ok :: "packet \<Rightarrow> bool" where
  "wire_ok p \<longleftrightarrow> length (Authenticator p) = 16 \<and> wf_attrs (Attributes p)
     \<and> 20 + length (attrs_wire (Attributes p)) \<le> MaxPacketLength"

lemma length_packet_wire [wire_len]:
  "length (Authenticator p) = 16 \<Longrightarrow> length (packet_wire p) = 20 + length (attrs_wire (Attributes p))"
  by (simp add: packet_wire_def)

lemma unat_len16: "n \<le> MaxPacketLength \<Longrightarrow> unat (word_of_nat n :: u16) = n"
  unfolding unat_of_nat by (simp add: MaxPacketLength_def)

lemma header_len: "take 2 (drop 2 (header c i len auth @ r)) = put16 len"
  by (simp add: header_def put16_def)

lemma header_fields:
  "(header c i len auth @ r) ! 0 = c" "(header c i len auth @ r) ! Suc 0 = i"
  "drop 4 (header c i len auth @ r) = auth @ r"
  by (simp_all add: header_def put16_def)

text \<open>The decoder reads the declared length only; octets after it are padding.\<close>

lemma Decode_wire:
  assumes "wire_ok p" "length (packet_wire p) + length pad \<le> MaxPacketLength"
  shows "Decode (packet_wire p @ pad) secret = Inr (p\<lparr>RequestAuthenticator := zero16, Secret := secret\<rparr>)"
proof -
  let ?n = "20 + length (attrs_wire (Attributes p))"
  let ?h = "header (Code p) (Identifier p) (word_of_nat ?n) (Authenticator p)"
  have wf: "length (Authenticator p) = 16" "wf_attrs (Attributes p)" "?n \<le> MaxPacketLength"
    using assms(1) by (auto simp: wire_ok_def)
  have len: "length (packet_wire p) = ?n" using wf(1) by (rule length_packet_wire)
  have data: "packet_wire p @ pad = ?h @ (attrs_wire (Attributes p) @ pad)"
    by (simp add: packet_wire_def)
  have n: "unat (word_of_nat ?n :: u16) = ?n" using wf(3) by (rule unat_len16)
  have body: "drop 20 (take ?n (packet_wire p @ pad)) = attrs_wire (Attributes p)"
    using wf(1) by (simp add: data del: append_assoc)
  have "decodeAttributes (attrs_wire (Attributes p)) = Inr (Attributes p)"
    using wf(2) by (simp add: decodeAttributes_Inr_iff)
  moreover have "\<not> length (packet_wire p @ pad) < MinPacketLength"
      "\<not> length (packet_wire p @ pad) > MaxPacketLength"
    using len assms(2) by (simp_all add: MinPacketLength_def)
  moreover have "unat (get16 (take 2 (drop 2 (packet_wire p @ pad)))) = ?n"
    unfolding data header_len get16_put16 by (rule n)
  moreover have "\<not> ?n < MinPacketLength" "\<not> ?n > length (packet_wire p @ pad)"
    using len by (simp_all add: MinPacketLength_def)
  moreover have "(packet_wire p @ pad) ! 0 = Code p" "(packet_wire p @ pad) ! 1 = Identifier p"
      "take 16 (drop 4 (packet_wire p @ pad)) = Authenticator p"
    unfolding data using wf(1) by (simp_all only: header_fields One_nat_def) simp
  ultimately show ?thesis
    unfolding Decode_def by (simp only: Let_def if_False body sum.case simp_thms) simp
qed

lemma put16_get16': "length b = 2 \<Longrightarrow> put16 (get16 b) = b"
  using put16_get16 [of "b ! 0" "b ! 1"] by (cases b; cases "tl b") auto

lemma split_header:
  assumes "20 \<le> length data"
  shows "data = header (data ! 0) (data ! 1) (get16 (take 2 (drop 2 data))) (take 16 (drop 4 data)) @ drop 20 data"
proof -
  have "drop 2 data = take 2 (drop 2 data) @ drop 4 data" "drop 4 data = take 16 (drop 4 data) @ drop 20 data"
    using append_take_drop_id [of 2 "drop 2 data"] append_take_drop_id [of 16 "drop 4 data"]
    by (simp_all del: append_take_drop_id)
  then have "data = take 2 data @ take 2 (drop 2 data) @ take 16 (drop 4 data) @ drop 20 data"
    by (metis append_take_drop_id)
  moreover have "take 2 data = [data ! 0, data ! 1]"
    using assms by (cases data; cases "tl data") auto
  moreover have "put16 (get16 (take 2 (drop 2 data))) = take 2 (drop 2 data)"
    using assms by (intro put16_get16') simp
  ultimately show ?thesis by (simp add: header_def)
qed

lemma Decode_InrD:
  assumes "Decode data secret = Inr p"
  shows "wire_ok p \<and> RequestAuthenticator p = zero16 \<and> Secret p = secret \<and> length data \<le> MaxPacketLength
    \<and> (\<exists>pad. data = packet_wire p @ pad)"
proof -
  let ?d = "unat (get16 (take 2 (drop 2 data)))"
  from assms obtain as where bounds: "20 \<le> length data" "length data \<le> MaxPacketLength"
      "20 \<le> ?d" "?d \<le> length data"
    and as: "decodeAttributes (drop 20 (take ?d data)) = Inr as"
    and p: "p = \<lparr>Code = data ! 0, Identifier = data ! 1, Authenticator = take 16 (drop 4 data),
        Attributes = as, RequestAuthenticator = zero16, Secret = secret\<rparr>"
    by (auto simp: Decode_def Let_def MinPacketLength_def split: if_splits sum.splits)
  from as have wire: "wf_attrs as" "attrs_wire as = drop 20 (take ?d data)"
    by (simp_all add: decodeAttributes_Inr_iff)
  have d: "20 + length (attrs_wire as) = ?d" using bounds wire(2) by simp
  have body: "drop 20 data = attrs_wire as @ drop ?d data"
    unfolding wire(2) using append_take_drop_id [of "?d - 20" "drop 20 data"] bounds(3)
    by (simp add: drop_take del: append_take_drop_id)
  have "packet_wire p = header (data ! 0) (data ! 1) (get16 (take 2 (drop 2 data)))
      (take 16 (drop 4 data)) @ attrs_wire as"
    unfolding packet_wire_def p packet.simps d of_nat_unat ucast_id ..
  with split_header [OF bounds(1)] have "data = packet_wire p @ drop ?d data"
    unfolding body by (simp only: append_assoc)
  with bounds wire d show ?thesis by (auto simp: wire_ok_def p)
qed

section \<open>What Encode returns\<close>

lemma encode_authD:
  assumes "encode_auth p rnd len body = Inr p'"
  shows "p' = p\<lparr>Authenticator := Authenticator p'\<rparr>"
    "length (Authenticator p) = 16 \<Longrightarrow> \<forall>a. rnd = Inr a \<longrightarrow> length a = 16 \<Longrightarrow> length (Authenticator p') = 16"
    "IsResponse (Code p) \<Longrightarrow> Authenticator p' =
       ComputeResponseAuthenticator (Code p) (Identifier p) len (RequestAuthenticator p) body (Secret p)"
    "Code p \<in> {CodeAccountingRequest, CodeCoARequest, CodeDisconnectRequest} \<Longrightarrow> Authenticator p' =
       ComputeRequestAuthenticator (Code p) (Identifier p) len body (Secret p)"
    "Code p = CodeAccessRequest \<Longrightarrow> \<not> isZeroAuth (Authenticator p) \<Longrightarrow> Authenticator p' = Authenticator p"
    "Code p \<in> {CodeAccessRequest, CodeAccountingRequest, CodeCoARequest, CodeDisconnectRequest}
       \<or> IsResponse (Code p)"
  using assms
  by (auto simp: encode_auth_def NewRequestAuthenticator_def IsResponse_simps
      split: if_splits sum.splits)

lemma blit_attr_value:
  assumes "length H = 20" "length v = length (AValue a)"
  shows "blit (20 + length (attrs_wire xs) + 2) v (H @ attrs_wire (xs @ a # ys))
    = H @ attrs_wire (xs @ a\<lparr>AValue := v\<rparr> # ys)"
proof -
  let ?l = "[AType a, word_of_nat (2 + length (AValue a))]"
  have "blit (length (H @ attrs_wire xs @ ?l)) v ((H @ attrs_wire xs @ ?l) @ AValue a @ attrs_wire ys)
      = (H @ attrs_wire xs @ ?l) @ v @ attrs_wire ys"
    using assms(2) by (rule blit_middle)
  then show ?thesis using assms by (simp add: attr_wire_def)
qed

text \<open>
  The Message-Authenticator step rewrites one value of the list and the same 16 bytes of the
  wire, and what it leaves validates.
\<close>

lemma encode_ma_cases:
  assumes "encode_ma p (H @ attrs_wire (Attributes p)) = (p', r)" "length H = 20"
  obtains
    (none) "maAttrIndex (Attributes p) = None" "p' = p" "r = Inr (H @ attrs_wire (Attributes p))"
  | (bad) i where "maAttrIndex (Attributes p) = Some i" "length (AValue (Attributes p ! i)) \<noteq> 16"
      "p' = p" "r = Inl ErrInvalidMessageAuthLength"
  | (mac) xs a ys mac where "Attributes p = xs @ a # ys"
      "\<forall>x \<in> set xs. AType x \<noteq> AttrMessageAuthenticator" "AType a = AttrMessageAuthenticator"
      "length (AValue a) = 16"
      "mac = ComputeMessageAuthenticator
         (H @ attrs_wire (xs @ a\<lparr>AValue := replicate 16 0\<rparr> # ys)) (Secret p)"
      "p' = p\<lparr>Attributes := xs @ a\<lparr>AValue := mac\<rparr> # ys\<rparr>"
      "r = Inr (H @ attrs_wire (xs @ a\<lparr>AValue := mac\<rparr> # ys))"
proof (cases "maAttrIndex (Attributes p)")
  case None
  then have "findMessageAuthenticatorOffset (Attributes p) 20 = None"
    by (simp add: maAttrIndex_None_iff findMA_None_iff)
  then have "(p', r) = (p, Inr (H @ attrs_wire (Attributes p)))"
    using assms(1) unfolding encode_ma_def by (simp only: option.case)
  with None show ?thesis by (intro none) simp_all
next
  case (Some i)
  then obtain xs a ys where as: "Attributes p = xs @ a # ys" "length xs = i"
    "AType a = AttrMessageAuthenticator" "\<forall>x \<in> set xs. AType x \<noteq> AttrMessageAuthenticator"
    by (rule maAttrIndex_SomeE)
  have nth: "Attributes p ! i = a" unfolding as(1) as(2) [symmetric] by simp
  let ?off = "20 + length (attrs_wire xs) + 2"
  have off: "findMessageAuthenticatorOffset (Attributes p) 20 = Some ?off"
    unfolding as(1) findMA_skip [OF as(4)] using as(3) by simp
  show ?thesis
  proof (cases "length (AValue a) = 16")
    case False
    then have "(p', r) = (p, Inl ErrInvalidMessageAuthLength)"
      using assms(1) unfolding encode_ma_def off Some option.case MessageAuthenticatorLength_def nth
      by (simp only: if_True simp_thms)
    with False show ?thesis by (intro bad [OF Some]) (simp_all add: nth)
  next
    case True
    define out where "out = H @ attrs_wire (xs @ a\<lparr>AValue := replicate 16 0\<rparr> # ys)"
    define c where "c = ComputeMessageAuthenticator out (Secret p)"
    have out: "blit ?off (replicate 16 0) (H @ attrs_wire (Attributes p)) = out"
      unfolding out_def as(1) using assms(2) True by (intro blit_attr_value) simp_all
    have "length c = 16" by (simp add: c_def)
    then have w: "blit ?off c out = H @ attrs_wire (xs @ a\<lparr>AValue := c\<rparr> # ys)"
      using assms(2) blit_attr_value [of H c "a\<lparr>AValue := replicate 16 0\<rparr>" xs ys]
      unfolding out_def by simp
    have upd: "(Attributes p)[i := a\<lparr>AValue := c\<rparr>] = xs @ a\<lparr>AValue := c\<rparr> # ys"
      unfolding as(1) as(2) [symmetric] by simp
    have "(p', r) = (p\<lparr>Attributes := (Attributes p)[i := a\<lparr>AValue := c\<rparr>]\<rparr>, Inr (blit ?off c out))"
      using assms(1) True unfolding encode_ma_def off Some option.case MessageAuthenticatorLength_def nth
        Let_def out c_def by (simp only: if_False simp_thms)
    then show ?thesis
      by (intro mac [OF as(1,4,3) True c_def [unfolded out_def]]) (simp_all only: upd w prod.inject attribute.simps)
  qed
qed

lemma encode_ma_ok:
  assumes "encode_ma p (H @ attrs_wire (Attributes p)) = (p', Inr w)" "length H = 20"
  shows "p' = p\<lparr>Attributes := Attributes p'\<rparr> \<and> w = H @ attrs_wire (Attributes p')
    \<and> length (attrs_wire (Attributes p')) = length (attrs_wire (Attributes p))
    \<and> wf_attrs (Attributes p') = wf_attrs (Attributes p)
    \<and> map AType (Attributes p') = map AType (Attributes p)
    \<and> (maAttrIndex (Attributes p) = None \<longrightarrow> Attributes p' = Attributes p)"
  using assms
proof (cases rule: encode_ma_cases)
  case none
  then show ?thesis by simp
next
  case bad
  then show ?thesis by simp
next
  case (mac xs a ys mac)
  then have "maAttrIndex (Attributes p) = Some (length xs)" by (simp add: maAttrIndex_skip)
  moreover have "p' = p\<lparr>Attributes := Attributes p'\<rparr>" unfolding mac(6) by simp
  ultimately show ?thesis using mac by simp
qed

lemma encode_ma_validates:
  assumes "encode_ma p (H @ attrs_wire (Attributes p)) = (p', Inr w)" "length H = 20"
    "maAttrIndex (Attributes p) \<noteq> None"
    "Attributes q = Attributes p'"
  shows "ValidateMessageAuthenticator q w (Secret p)"
  using assms(1,2)
proof (cases rule: encode_ma_cases)
  case (mac xs a ys mac)
  let ?off = "20 + length (attrs_wire xs) + 2"
  have as: "Attributes q = xs @ a\<lparr>AValue := mac\<rparr> # ys" using mac assms(4) by simp
  have idx: "maAttrIndex (Attributes q) = Some (length xs)"
    unfolding as using mac by (intro maAttrIndex_skip) simp_all
  have off: "findMessageAuthenticatorOffset (Attributes q) 20 = Some ?off"
    unfolding as using mac by (simp add: findMA_skip)
  have w: "w = H @ attrs_wire (xs @ a\<lparr>AValue := mac\<rparr> # ys)" using mac by simp
  have len: "length mac = 16" using mac by simp
  have "blit ?off (replicate 16 0) w = H @ attrs_wire (xs @ a\<lparr>AValue := mac, AValue := replicate 16 0\<rparr> # ys)"
    unfolding w using assms(2) len by (intro blit_attr_value) simp_all
  then have "ComputeMessageAuthenticator (blit ?off (replicate 16 0) w) (Secret p) = mac"
    using mac by simp
  moreover have "?off + 16 \<le> length w" using len assms(2) by (simp add: w)
  ultimately show ?thesis
    using len idx off
    by (simp add: ValidateMessageAuthenticator_def MessageAuthenticatorLength_def as constantTimeEqual_iff)
qed (use assms(3) in simp_all)

text \<open>The packets \<^verbatim>\<open>Encode\<close> accepts.\<close>

definition encodable :: "packet \<Rightarrow> bytes res \<Rightarrow> bool" where
  "encodable p rnd \<longleftrightarrow>
     (Secret p \<noteq> [] \<or> Code p = CodeAccessRequest) \<and> wf_attrs (Attributes p)
     \<and> 20 + length (attrs_wire (Attributes p)) \<le> MaxPacketLength
     \<and> (Code p \<in> {CodeAccessRequest, CodeAccountingRequest, CodeCoARequest, CodeDisconnectRequest}
          \<or> IsResponse (Code p))
     \<and> (Code p = CodeAccessRequest \<and> isZeroAuth (Authenticator p) \<longrightarrow> (\<exists>a. rnd = Inr a))
     \<and> (case maAttrIndex (Attributes p) of None \<Rightarrow> True
          | Some i \<Rightarrow> length (AValue (Attributes p ! i)) = MessageAuthenticatorLength)"

lemma Encode_InrE:
  assumes "Encode p rnd = (p', Inr w)" "wf_packet p" "\<forall>a. rnd = Inr a \<longrightarrow> length a = 16"
  obtains q where "encode_auth p rnd (word_of_nat (20 + length (attrs_wire (Attributes p))))
        (attrs_wire (Attributes p)) = Inr q"
    "q = p\<lparr>Authenticator := Authenticator q\<rparr>" "length (Authenticator q) = 16"
    "encode_ma q (header (Code q) (Identifier q) (word_of_nat (20 + length (attrs_wire (Attributes q))))
       (Authenticator q) @ attrs_wire (Attributes q)) = (p', Inr w)"
    "wf_attrs (Attributes p)" "20 + length (attrs_wire (Attributes p)) \<le> MaxPacketLength"
    "Secret p \<noteq> [] \<or> Code p = CodeAccessRequest"
proof -
  let ?n = "20 + length (attrs_wire (Attributes p))"
  from assms(1) have wf: "wf_attrs (Attributes p)" and sec: "Secret p \<noteq> [] \<or> Code p = CodeAccessRequest"
    by (auto simp: Encode_def encodeAttributes_Inr_iff split: if_splits sum.splits)
  have e: "encodeAttributes (Attributes p) = Inr (attrs_wire (Attributes p))"
    using wf by (rule encodeAttributes_ok)
  have guard: "(Secret p = [] \<and> Code p \<noteq> CodeAccessRequest) = False" using sec by auto
  note step = assms(1) [unfolded Encode_def guard if_False e sum.case Let_def MinPacketLength_def]
  from step have len: "?n \<le> MaxPacketLength" by (simp split: if_splits)
  then have notlong: "(?n > MaxPacketLength) = False" by simp
  note step2 = step [unfolded notlong if_False]
  then obtain q where q: "encode_auth p rnd (word_of_nat ?n) (attrs_wire (Attributes p)) = Inr q"
    by (cases "encode_auth p rnd (word_of_nat ?n) (attrs_wire (Attributes p))")
      (simp_all only: sum.case prod.inject sum.distinct simp_thms)
  have upd: "q = p\<lparr>Authenticator := Authenticator q\<rparr>" by (rule encode_authD(1) [OF q])
  then have "Attributes q = Attributes p" by (metis packet.simps(4) packet.ext_inject packet.surjective packet.update_convs(3))
  with step2 [unfolded q sum.case] that [OF q upd] wf len sec
    encode_authD(2) [OF q] assms(2,3)
  show ?thesis by (simp add: wf_packet_def)
qed

lemma Encode_ok:
  assumes "Encode p rnd = (p', Inr w)" "wf_packet p" "\<forall>a. rnd = Inr a \<longrightarrow> length a = 16"
  shows "p' = p\<lparr>Authenticator := Authenticator p', Attributes := Attributes p'\<rparr>"
    "wire_ok p'" "w = packet_wire p'"
    "map AType (Attributes p') = map AType (Attributes p)"
    "maAttrIndex (Attributes p) = None \<Longrightarrow> Attributes p' = Attributes p"
    "length (attrs_wire (Attributes p')) = length (attrs_wire (Attributes p))"
proof -
  from Encode_InrE [OF assms] obtain q where
    q: "q = p\<lparr>Authenticator := Authenticator q\<rparr>" "length (Authenticator q) = 16" and
    ma: "encode_ma q (header (Code q) (Identifier q) (word_of_nat (20 + length (attrs_wire (Attributes q))))
       (Authenticator q) @ attrs_wire (Attributes q)) = (p', Inr w)" and
    wf: "wf_attrs (Attributes p)" "20 + length (attrs_wire (Attributes p)) \<le> MaxPacketLength"
    by metis
  have same: "Attributes q = Attributes p" "Code q = Code p" "Identifier q = Identifier p"
    by (subst q(1), simp)+
  note ok = encode_ma_ok [OF ma, unfolded length_header q(2), simplified]
  then have p': "p' = q\<lparr>Attributes := Attributes p'\<rparr>" by blast
  have auth: "Authenticator p' = Authenticator q" "Code p' = Code q" "Identifier p' = Identifier q"
    by (subst p', simp)+
  show "p' = p\<lparr>Authenticator := Authenticator p', Attributes := Attributes p'\<rparr>"
    unfolding auth by (subst p', subst q(1)) simp
  show "wire_ok p'" using ok wf q(2) by (simp add: wire_ok_def same auth)
  show "w = packet_wire p'" using ok by (simp add: packet_wire_def auth)
  show "map AType (Attributes p') = map AType (Attributes p)"
    "maAttrIndex (Attributes p) = None \<Longrightarrow> Attributes p' = Attributes p"
    "length (attrs_wire (Attributes p')) = length (attrs_wire (Attributes p))"
    using ok by (simp_all add: same)
qed

lemma Encode_validates_ma:
  assumes "Encode p rnd = (p', Inr w)" "wf_packet p" "\<forall>a. rnd = Inr a \<longrightarrow> length a = 16"
    "maAttrIndex (Attributes p) \<noteq> None" "Attributes r = Attributes p'"
  shows "ValidateMessageAuthenticator r w (Secret p)"
proof -
  from Encode_InrE [OF assms(1-3)] obtain q where
    q: "q = p\<lparr>Authenticator := Authenticator q\<rparr>" "length (Authenticator q) = 16" and
    ma: "encode_ma q (header (Code q) (Identifier q) (word_of_nat (20 + length (attrs_wire (Attributes q))))
       (Authenticator q) @ attrs_wire (Attributes q)) = (p', Inr w)"
    by metis
  have same: "Attributes q = Attributes p" "Secret q = Secret p"
    by (subst q(1), simp)+
  show ?thesis
    using encode_ma_validates [OF ma _ _ assms(5)] assms(4) q(2) by (simp add: same)
qed

lemma Encode_authenticator:
  assumes "Encode p rnd = (p', Inr w)" "wf_packet p" "\<forall>a. rnd = Inr a \<longrightarrow> length a = 16"
  shows "IsResponse (Code p) \<Longrightarrow> Authenticator p' =
       ComputeResponseAuthenticator (Code p) (Identifier p) (word_of_nat (length w))
         (RequestAuthenticator p) (attrs_wire (Attributes p)) (Secret p)"
    "Code p \<in> {CodeAccountingRequest, CodeCoARequest, CodeDisconnectRequest} \<Longrightarrow> Authenticator p' =
       ComputeRequestAuthenticator (Code p) (Identifier p) (word_of_nat (length w))
         (attrs_wire (Attributes p)) (Secret p)"
    "Code p = CodeAccessRequest \<Longrightarrow> \<not> isZeroAuth (Authenticator p) \<Longrightarrow> Authenticator p' = Authenticator p"
proof -
  from Encode_InrE [OF assms] obtain q where
    a: "encode_auth p rnd (word_of_nat (20 + length (attrs_wire (Attributes p))))
        (attrs_wire (Attributes p)) = Inr q" and
    q: "q = p\<lparr>Authenticator := Authenticator q\<rparr>" "length (Authenticator q) = 16" and
    ma: "encode_ma q (header (Code q) (Identifier q) (word_of_nat (20 + length (attrs_wire (Attributes q))))
       (Authenticator q) @ attrs_wire (Attributes q)) = (p', Inr w)"
    by metis
  have "p' = q\<lparr>Attributes := Attributes p'\<rparr>" using encode_ma_ok [OF ma] q(2) by simp
  then have auth: "Authenticator p' = Authenticator q" by (metis packet.select_convs(3) packet.surjective packet.update_convs(4))
  have len: "20 + length (attrs_wire (Attributes p)) = length w"
    using Encode_ok [OF assms] length_packet_wire [of p'] by (simp add: wire_ok_def)
  show "IsResponse (Code p) \<Longrightarrow> Authenticator p' =
       ComputeResponseAuthenticator (Code p) (Identifier p) (word_of_nat (length w))
         (RequestAuthenticator p) (attrs_wire (Attributes p)) (Secret p)"
    "Code p \<in> {CodeAccountingRequest, CodeCoARequest, CodeDisconnectRequest} \<Longrightarrow> Authenticator p' =
       ComputeRequestAuthenticator (Code p) (Identifier p) (word_of_nat (length w))
         (attrs_wire (Attributes p)) (Secret p)"
    "Code p = CodeAccessRequest \<Longrightarrow> \<not> isZeroAuth (Authenticator p) \<Longrightarrow> Authenticator p' = Authenticator p"
    unfolding auth len [symmetric] using encode_authD(3,4,5) [OF a] by simp_all
qed

lemma encode_ma_Inr_iff:
  assumes "length H = 20"
  shows "(\<exists>p' w. encode_ma p (H @ attrs_wire (Attributes p)) = (p', Inr w)) \<longleftrightarrow>
    (case maAttrIndex (Attributes p) of None \<Rightarrow> True
          | Some i \<Rightarrow> length (AValue (Attributes p ! i)) = MessageAuthenticatorLength)"
proof -
  obtain p' r where e: "encode_ma p (H @ attrs_wire (Attributes p)) = (p', r)" by fastforce
  from e assms show ?thesis
  proof (cases rule: encode_ma_cases)
    case (mac xs a ys mac)
    then have "maAttrIndex (Attributes p) = Some (length xs)" by (simp add: maAttrIndex_skip)
    with mac e show ?thesis by (simp add: MessageAuthenticatorLength_def)
  qed (use e in \<open>simp_all add: MessageAuthenticatorLength_def\<close>)
qed

lemma encode_auth_Inr_iff:
  "(\<exists>q. encode_auth p rnd len body = Inr q) \<longleftrightarrow>
     (Code p \<in> {CodeAccessRequest, CodeAccountingRequest, CodeCoARequest, CodeDisconnectRequest}
          \<or> IsResponse (Code p))
     \<and> (Code p = CodeAccessRequest \<and> isZeroAuth (Authenticator p) \<longrightarrow> (\<exists>a. rnd = Inr a))"
  by (auto simp: encode_auth_def NewRequestAuthenticator_def split: sum.splits)

lemma Encode_Inr_iff:
  assumes "wf_packet p" "\<forall>a. rnd = Inr a \<longrightarrow> length a = 16"
  shows "(\<exists>p' w. Encode p rnd = (p', Inr w)) \<longleftrightarrow> encodable p rnd"
proof
  assume "\<exists>p' w. Encode p rnd = (p', Inr w)"
  then obtain p' w where enc: "Encode p rnd = (p', Inr w)" by blast
  from Encode_InrE [OF enc assms] obtain q where
    a: "encode_auth p rnd (word_of_nat (20 + length (attrs_wire (Attributes p))))
        (attrs_wire (Attributes p)) = Inr q" and
    q: "q = p\<lparr>Authenticator := Authenticator q\<rparr>" "length (Authenticator q) = 16" and
    ma: "encode_ma q (header (Code q) (Identifier q) (word_of_nat (20 + length (attrs_wire (Attributes q))))
       (Authenticator q) @ attrs_wire (Attributes q)) = (p', Inr w)" and
    wf: "wf_attrs (Attributes p)" "20 + length (attrs_wire (Attributes p)) \<le> MaxPacketLength"
    "Secret p \<noteq> [] \<or> Code p = CodeAccessRequest"
    by metis
  have same: "Attributes q = Attributes p" by (subst q(1), simp)
  have "case maAttrIndex (Attributes q) of None \<Rightarrow> True
          | Some i \<Rightarrow> length (AValue (Attributes q ! i)) = MessageAuthenticatorLength"
    by (subst encode_ma_Inr_iff [symmetric]) (use ma q(2) in auto)
  moreover have "(Code p \<in> {CodeAccessRequest, CodeAccountingRequest, CodeCoARequest, CodeDisconnectRequest}
          \<or> IsResponse (Code p))
     \<and> (Code p = CodeAccessRequest \<and> isZeroAuth (Authenticator p) \<longrightarrow> (\<exists>a. rnd = Inr a))"
    using a encode_auth_Inr_iff by blast
  ultimately show "encodable p rnd" using wf unfolding encodable_def same by blast
next
  assume ok: "encodable p rnd"
  let ?n = "20 + length (attrs_wire (Attributes p))"
  from ok have sec: "(Secret p = [] \<and> Code p \<noteq> CodeAccessRequest) = False" by (auto simp: encodable_def)
  from ok have e: "encodeAttributes (Attributes p) = Inr (attrs_wire (Attributes p))"
    by (intro encodeAttributes_ok) (simp add: encodable_def)
  from ok have len: "(?n > MaxPacketLength) = False" by (simp add: encodable_def)
  from ok obtain q where q: "encode_auth p rnd (word_of_nat ?n) (attrs_wire (Attributes p)) = Inr q"
    using encode_auth_Inr_iff [of p rnd "word_of_nat ?n" "attrs_wire (Attributes p)"]
    by (auto simp: encodable_def)
  have upd: "q = p\<lparr>Authenticator := Authenticator q\<rparr>" by (rule encode_authD(1) [OF q])
  have same: "Attributes q = Attributes p" by (subst upd, simp)
  have "length (Authenticator q) = 16"
    using encode_authD(2) [OF q] assms by (simp add: wf_packet_def)
  then have "\<exists>p' w. encode_ma q (header (Code q) (Identifier q) (word_of_nat ?n)
       (Authenticator q) @ attrs_wire (Attributes q)) = (p', Inr w)"
    using ok encode_ma_Inr_iff [of "header (Code q) (Identifier q) (word_of_nat ?n) (Authenticator q)" q]
    unfolding encodable_def same by simp
  then show "\<exists>p' w. Encode p rnd = (p', Inr w)"
    unfolding Encode_def sec if_False e sum.case Let_def MinPacketLength_def len q same .
qed

lemma packet_wire_body:
  assumes "wire_ok p"
  shows "get16 (take 2 (drop 2 (packet_wire p))) = word_of_nat (length (packet_wire p))"
    "unat (word_of_nat (length (packet_wire p)) :: u16) = length (packet_wire p)"
    "20 \<le> length (packet_wire p)" "drop 20 (packet_wire p) = attrs_wire (Attributes p)"
proof -
  from assms have a: "length (Authenticator p) = 16"
    and n: "20 + length (attrs_wire (Attributes p)) \<le> MaxPacketLength"
    by (simp_all add: wire_ok_def)
  note len = length_packet_wire [OF a]
  show "get16 (take 2 (drop 2 (packet_wire p))) = word_of_nat (length (packet_wire p))"
    unfolding len unfolding packet_wire_def header_len by simp
  show "unat (word_of_nat (length (packet_wire p)) :: u16) = length (packet_wire p)"
    unfolding len using n by (rule unat_len16)
  show "20 \<le> length (packet_wire p)" unfolding len by simp
  show "drop 20 (packet_wire p) = attrs_wire (Attributes p)"
    using a by (simp add: packet_wire_def)
qed

text \<open>A reply checks out on its own wire bytes iff the digest over the bytes sent is the one
  over the body it was computed from.\<close>

lemma ValidateResponse_packet_wire:
  assumes "wire_ok p" "IsResponse (Code p)"
  shows "ValidateResponseAuthenticator p reqAuth secret (packet_wire p) spare =
    Some (Authenticator p = ComputeResponseAuthenticator (Code p) (Identifier p)
      (word_of_nat (length (packet_wire p))) reqAuth (attrs_wire (Attributes p)) secret)"
  using packet_wire_body [OF assms(1)] assms(2)
  by (simp add: ValidateResponseAuthenticator_def Let_def constantTimeEqual_iff MinPacketLength_def
      del: of_nat_numeral)

lemma attr_Get_append:
  "attr_Get (xs @ ys) t = (case attr_Get xs t of None \<Rightarrow> attr_Get ys t | Some a \<Rightarrow> Some a)"
  by (induction xs) auto

lemma Encode_attr_Get:
  assumes "Encode p rnd = (p', Inr w)" "wf_packet p" "\<forall>a. rnd = Inr a \<longrightarrow> length a = 16"
    "t \<noteq> AttrMessageAuthenticator"
  shows "attr_Get (Attributes p') t = attr_Get (Attributes p) t"
proof -
  from Encode_InrE [OF assms(1-3)] obtain q where
    q: "q = p\<lparr>Authenticator := Authenticator q\<rparr>" "length (Authenticator q) = 16" and
    ma: "encode_ma q (header (Code q) (Identifier q) (word_of_nat (20 + length (attrs_wire (Attributes q))))
       (Authenticator q) @ attrs_wire (Attributes q)) = (p', Inr w)"
    by metis
  have same: "Attributes q = Attributes p" by (subst q(1), simp)
  have "length (header (Code q) (Identifier q) (word_of_nat (20 + length (attrs_wire (Attributes q))))
       (Authenticator q)) = 20" using q(2) by simp
  with ma show ?thesis
  proof (cases rule: encode_ma_cases)
    case (mac xs a ys mac)
    show ?thesis using assms(4) mac(3)
      unfolding same [symmetric] mac(1,6) by (simp add: attr_Get_append split: option.split)
  qed (simp_all add: same)
qed

end
