(* ===== verification/Radius_Constructors.thy ===== *)
theory Radius_Constructors
  imports Radius_Codec
begin

text \<open>
  The packet builders (\<^verbatim>\<open>pkg/radius/constructors.go\<close>). A builder returns an unencoded
  packet or an error; what \<^verbatim>\<open>rand.Read\<close> delivers is an argument.
\<close>

section \<open>Builders\<close>

definition new_packet :: "code \<Rightarrow> byte \<Rightarrow> bytes \<Rightarrow> bytes \<Rightarrow> bytes \<Rightarrow> packet" where
  "new_packet c identifier auth reqAuth secret =
     \<lparr>Code = c, Identifier = identifier, Authenticator = auth, Attributes = [],
      RequestAuthenticator = reqAuth, Secret = secret\<rparr>"

definition credential_type :: "atype \<Rightarrow> bool" where
  "credential_type t \<longleftrightarrow> t = AttrUserPassword \<or> t = AttrCHAPPassword \<or> t = AttrCHAPChallenge"

text \<open>The loops over \<^verbatim>\<open>extras\<close>, without and with the refusal of credential attributes.\<close>

fun add_extras :: "attrs \<Rightarrow> attribute list \<Rightarrow> attrs res" where
  "add_extras as [] = Inr as"
| "add_extras as (a # extras) =
    (case attr_Add as (AType a) (AValue a) of
       Inl err \<Rightarrow> Inl (Wrap (''add extra attribute '' @ dec (unat (AType a)) @ '': '') err '''')
     | Inr as' \<Rightarrow> add_extras as' extras)"

fun add_extras_guarded :: "attrs \<Rightarrow> attribute list \<Rightarrow> attrs res" where
  "add_extras_guarded as [] = Inr as"
| "add_extras_guarded as (a # extras) =
    (if credential_type (AType a)
     then Inl (Plain (''radius: refusing to add credential attribute '' @ dec (unat (AType a))
            @ '' via extras''))
     else case attr_Add as (AType a) (AValue a) of
       Inl err \<Rightarrow> Inl (Wrap (''add extra attribute '' @ dec (unat (AType a)) @ '': '') err '''')
     | Inr as' \<Rightarrow> add_extras_guarded as' extras)"

definition NewAccessRequestPAP ::
    "bytes res \<Rightarrow> byte \<Rightarrow> bytes \<Rightarrow> string \<Rightarrow> string \<Rightarrow> attribute list \<Rightarrow> packet res" where
  "NewAccessRequestPAP rnd identifier secret username password extras =
     (case NewRequestAuthenticator rnd of
        Inl err \<Rightarrow> Inl err
      | Inr auth \<Rightarrow>
        (let p = new_packet CodeAccessRequest identifier auth zero16 secret in
         case attr_AddString (Attributes p) AttrUserName username of
           Inl err \<Rightarrow> Inl (Wrap ''add User-Name: '' err '''')
         | Inr as1 \<Rightarrow>
           (case add_extras_guarded as1 extras of
              Inl err \<Rightarrow> Inl err
            | Inr as2 \<Rightarrow>
              (case EncryptUserPassword (bytes_of password) secret auth of
                 Inl err \<Rightarrow> Inl (Wrap ''encrypt User-Password: '' err '''')
               | Inr cipher \<Rightarrow>
                 (case attr_Add as2 AttrUserPassword cipher of
                    Inl err \<Rightarrow> Inl (Wrap ''add User-Password: '' err '''')
                  | Inr as3 \<Rightarrow> Inr (p\<lparr>Attributes := as3\<rparr>))))))"

text \<open>\<open>rndId\<close> and \<open>rndChal\<close> are the reads of one byte and of 16 bytes.\<close>

definition NewAccessRequestCHAP ::
    "bytes res \<Rightarrow> byte res \<Rightarrow> bytes res \<Rightarrow> byte \<Rightarrow> bytes \<Rightarrow> string \<Rightarrow> string \<Rightarrow> attribute list \<Rightarrow> packet res" where
  "NewAccessRequestCHAP rnd rndId rndChal identifier secret username password extras =
     (case NewRequestAuthenticator rnd of
        Inl err \<Rightarrow> Inl err
      | Inr auth \<Rightarrow>
        (case rndId of
           Inl err \<Rightarrow> Inl (Wrap ''read CHAP-Identifier: '' err '''')
         | Inr chapID \<Rightarrow>
           (case rndChal of
              Inl err \<Rightarrow> Inl (Wrap ''read CHAP-Challenge: '' err '''')
            | Inr challenge \<Rightarrow>
              (let p = new_packet CodeAccessRequest identifier auth zero16 secret in
               case attr_AddString (Attributes p) AttrUserName username of
                 Inl err \<Rightarrow> Inl (Wrap ''add User-Name: '' err '''')
               | Inr as1 \<Rightarrow>
                 (case add_extras_guarded as1 extras of
                    Inl err \<Rightarrow> Inl err
                  | Inr as2 \<Rightarrow>
                    (case attr_Add as2 AttrCHAPPassword (CHAPPassword chapID (bytes_of password) challenge) of
                       Inl err \<Rightarrow> Inl (Wrap ''add CHAP-Password: '' err '''')
                     | Inr as3 \<Rightarrow>
                       (case attr_Add as3 AttrCHAPChallenge challenge of
                          Inl err \<Rightarrow> Inl (Wrap ''add CHAP-Challenge: '' err '''')
                        | Inr as4 \<Rightarrow> Inr (p\<lparr>Attributes := as4\<rparr>))))))))"

definition NewAccountingRequest :: "byte \<Rightarrow> bytes \<Rightarrow> u32 \<Rightarrow> attribute list \<Rightarrow> packet res" where
  "NewAccountingRequest identifier secret statusType extras =
     (let p = new_packet CodeAccountingRequest identifier zero16 zero16 secret in
      case attr_AddUint32 (Attributes p) AttrAcctStatusType statusType of
        Inl err \<Rightarrow> Inl err
      | Inr as1 \<Rightarrow>
        (case add_extras as1 extras of
           Inl err \<Rightarrow> Inl err
         | Inr as2 \<Rightarrow> Inr (p\<lparr>Attributes := as2\<rparr>)))"

definition NewAccountingRequestStart :: "byte \<Rightarrow> bytes \<Rightarrow> attribute list \<Rightarrow> packet res" where
  "NewAccountingRequestStart identifier secret extras =
     (let p = new_packet CodeAccountingRequest identifier zero16 zero16 secret in
      case attr_AddUint32 (Attributes p) AttrAcctStatusType AcctStatusStart of
        Inl err \<Rightarrow> Inl err
      | Inr as1 \<Rightarrow>
        (case add_extras as1 extras of
           Inl err \<Rightarrow> Inl err
         | Inr as2 \<Rightarrow> Inr (p\<lparr>Attributes := as2\<rparr>)))"

text \<open>A \<open>None\<close> request is the code's nil pointer.\<close>

definition newDynAuthAck :: "code \<Rightarrow> packet option \<Rightarrow> bytes \<Rightarrow> attribute list \<Rightarrow> packet res" where
  "newDynAuthAck c req secret extras =
     (case req of
        None \<Rightarrow> Inl (Plain (''radius: nil request packet for '' @ code_String c))
      | Some req \<Rightarrow>
        (let p = new_packet c (Identifier req) zero16 (Authenticator req) secret in
         case add_extras (Attributes p) extras of
           Inl err \<Rightarrow> Inl err
         | Inr as1 \<Rightarrow>
           (case attr_Add as1 AttrMessageAuthenticator (replicate MessageAuthenticatorLength 0) of
              Inl err \<Rightarrow> Inl err
            | Inr as2 \<Rightarrow> Inr (p\<lparr>Attributes := as2\<rparr>))))"

definition newDynAuthNak :: "code \<Rightarrow> packet option \<Rightarrow> bytes \<Rightarrow> u32 \<Rightarrow> attribute list \<Rightarrow> packet res" where
  "newDynAuthNak c req secret errorCause extras =
     (case req of
        None \<Rightarrow> Inl (Plain (''radius: nil request packet for '' @ code_String c))
      | Some req \<Rightarrow>
        (let p = new_packet c (Identifier req) zero16 (Authenticator req) secret in
         case attr_AddUint32 (Attributes p) AttrErrorCause errorCause of
           Inl err \<Rightarrow> Inl err
         | Inr as0 \<Rightarrow>
           (case add_extras as0 extras of
              Inl err \<Rightarrow> Inl err
            | Inr as1 \<Rightarrow>
              (case attr_Add as1 AttrMessageAuthenticator (replicate MessageAuthenticatorLength 0) of
                 Inl err \<Rightarrow> Inl err
               | Inr as2 \<Rightarrow> Inr (p\<lparr>Attributes := as2\<rparr>)))))"

definition NewCoAAck :: "packet option \<Rightarrow> bytes \<Rightarrow> attribute list \<Rightarrow> packet res" where
  "NewCoAAck req secret extras = newDynAuthAck CodeCoAACK req secret extras"

definition NewCoANak :: "packet option \<Rightarrow> bytes \<Rightarrow> u32 \<Rightarrow> attribute list \<Rightarrow> packet res" where
  "NewCoANak req secret errorCause extras = newDynAuthNak CodeCoANAK req secret errorCause extras"

definition NewDisconnectAck :: "packet option \<Rightarrow> bytes \<Rightarrow> attribute list \<Rightarrow> packet res" where
  "NewDisconnectAck req secret extras = newDynAuthAck CodeDisconnectACK req secret extras"

definition NewDisconnectNak :: "packet option \<Rightarrow> bytes \<Rightarrow> u32 \<Rightarrow> attribute list \<Rightarrow> packet res" where
  "NewDisconnectNak req secret errorCause extras = newDynAuthNak CodeDisconnectNAK req secret errorCause extras"

section \<open>What the builders return\<close>

lemma attr_Add_Inr_iff:
  "attr_Add as t v = Inr as' \<longleftrightarrow>
    length v \<le> MaxAttributeValueLength \<and> as' = as @ [\<lparr>AType = t, AValue = v\<rparr>]"
  by (auto simp: attr_Add_def)

lemma attr_Add_Inl: "\<not> length v \<le> MaxAttributeValueLength \<Longrightarrow> \<exists>e. attr_Add as t v = Inl e"
  by (simp add: attr_Add_def)

lemma attr_AddUint32_ok: "attr_AddUint32 as t v = Inr (as @ [\<lparr>AType = t, AValue = put32 v\<rparr>])"
  by (simp add: attr_AddUint32_def attr_Add_def MaxAttributeValueLength_def)

lemma add_extras_Inr_iff:
  "add_extras as extras = Inr as' \<longleftrightarrow> wf_attrs extras \<and> as' = as @ extras"
proof (induction extras arbitrary: as)
  case (Cons a extras)
  show ?case
  proof (cases "length (AValue a) \<le> MaxAttributeValueLength")
    case True
    then have "attr_Add as (AType a) (AValue a) = Inr (as @ [a])" by (simp add: attr_Add_Inr_iff)
    with True Cons show ?thesis by simp
  next
    case False
    from attr_Add_Inl [OF this] obtain e where "attr_Add as (AType a) (AValue a) = Inl e" by blast
    with False show ?thesis by simp
  qed
qed auto

lemma add_extras_guarded_Inr_iff:
  "add_extras_guarded as extras = Inr as' \<longleftrightarrow>
    wf_attrs extras \<and> (\<forall>a \<in> set extras. \<not> credential_type (AType a)) \<and> as' = as @ extras"
proof (induction extras arbitrary: as)
  case (Cons a extras)
  show ?case
  proof (cases "length (AValue a) \<le> MaxAttributeValueLength")
    case True
    then have "attr_Add as (AType a) (AValue a) = Inr (as @ [a])" by (simp add: attr_Add_Inr_iff)
    with True Cons show ?thesis by simp
  next
    case False
    from attr_Add_Inl [OF this] obtain e where "attr_Add as (AType a) (AValue a) = Inl e" by blast
    with False show ?thesis by simp
  qed
qed auto

lemma add_errorsD:
  "attr_Add as t v = Inl e \<Longrightarrow> MaxAttributeValueLength < length v"
  "add_extras as extras = Inl e \<Longrightarrow> \<not> wf_attrs extras"
proof -
  show "attr_Add as t v = Inl e \<Longrightarrow> MaxAttributeValueLength < length v"
    by (rule ccontr) (simp add: attr_Add_def)
  show "\<not> wf_attrs extras" if "add_extras as extras = Inl e"
  proof
    assume "wf_attrs extras"
    then have "add_extras as extras = Inr (as @ extras)" by (simp add: add_extras_Inr_iff)
    with that show False by simp
  qed
qed

lemma newDynAuthAck_Inr_iff:
  "newDynAuthAck c req secret extras = Inr p \<longleftrightarrow> (\<exists>r. req = Some r \<and> wf_attrs extras \<and>
     p = \<lparr>Code = c, Identifier = Identifier r, Authenticator = zero16,
          Attributes = extras @ [\<lparr>AType = AttrMessageAuthenticator, AValue = replicate 16 0\<rparr>],
          RequestAuthenticator = Authenticator r, Secret = secret\<rparr>)"
  by (auto dest!: add_errorsD simp: newDynAuthAck_def new_packet_def Let_def add_extras_Inr_iff attr_Add_Inr_iff
      MessageAuthenticatorLength_def MaxAttributeValueLength_def split: option.splits sum.splits)

lemma newDynAuthNak_Inr_iff:
  "newDynAuthNak c req secret ec extras = Inr p \<longleftrightarrow> (\<exists>r. req = Some r \<and> wf_attrs extras \<and>
     p = \<lparr>Code = c, Identifier = Identifier r, Authenticator = zero16,
          Attributes = \<lparr>AType = AttrErrorCause, AValue = put32 ec\<rparr> # extras
            @ [\<lparr>AType = AttrMessageAuthenticator, AValue = replicate 16 0\<rparr>],
          RequestAuthenticator = Authenticator r, Secret = secret\<rparr>)"
  by (auto dest!: add_errorsD simp: newDynAuthNak_def new_packet_def Let_def add_extras_Inr_iff attr_Add_Inr_iff
      attr_AddUint32_ok MessageAuthenticatorLength_def MaxAttributeValueLength_def
      split: option.splits sum.splits)

lemma NewAccountingRequest_Inr_iff:
  "NewAccountingRequest i secret st extras = Inr p \<longleftrightarrow> wf_attrs extras \<and>
     p = (new_packet CodeAccountingRequest i zero16 zero16 secret)
       \<lparr>Attributes := \<lparr>AType = AttrAcctStatusType, AValue = put32 st\<rparr> # extras\<rparr>"
  by (auto dest!: add_errorsD simp: NewAccountingRequest_def Let_def add_extras_Inr_iff attr_AddUint32_ok new_packet_def
      split: sum.splits)

lemma NewAccountingRequestStart_eq:
  "NewAccountingRequestStart i secret extras = NewAccountingRequest i secret AcctStatusStart extras"
  by (simp add: NewAccountingRequestStart_def NewAccountingRequest_def)

lemma NewAccessRequestPAP_InrD:
  assumes "NewAccessRequestPAP (Inr auth) i secret user pass extras = Inr p"
  shows "length user \<le> MaxAttributeValueLength \<and> wf_attrs extras
    \<and> (\<forall>a \<in> set extras. \<not> credential_type (AType a)) \<and> length pass \<le> 128
    \<and> (\<exists>cipher. EncryptUserPassword (bytes_of pass) secret auth = Inr cipher
        \<and> length cipher \<le> 128
        \<and> p = \<lparr>Code = CodeAccessRequest, Identifier = i, Authenticator = auth,
            Attributes = \<lparr>AType = AttrUserName, AValue = bytes_of user\<rparr> # extras
              @ [\<lparr>AType = AttrUserPassword, AValue = cipher\<rparr>],
            RequestAuthenticator = zero16, Secret = secret\<rparr>)"
  using assms EncryptUserPassword_length [of "bytes_of pass" secret auth]
    length_pad_password_le [of "bytes_of pass"]
  by (auto simp: NewAccessRequestPAP_def NewRequestAuthenticator_def Let_def new_packet_def
      attr_AddString_def attr_Add_Inr_iff add_extras_guarded_Inr_iff split: sum.splits)

lemma NewAccessRequestCHAP_InrD:
  assumes "NewAccessRequestCHAP (Inr auth) (Inr chapID) (Inr challenge) i secret user pass extras = Inr p"
  shows "length user \<le> MaxAttributeValueLength \<and> wf_attrs extras
    \<and> (\<forall>a \<in> set extras. \<not> credential_type (AType a)) \<and> length challenge \<le> MaxAttributeValueLength
    \<and> p = \<lparr>Code = CodeAccessRequest, Identifier = i, Authenticator = auth,
            Attributes = \<lparr>AType = AttrUserName, AValue = bytes_of user\<rparr> # extras
              @ [\<lparr>AType = AttrCHAPPassword, AValue = CHAPPassword chapID (bytes_of pass) challenge\<rparr>,
                 \<lparr>AType = AttrCHAPChallenge, AValue = challenge\<rparr>],
            RequestAuthenticator = zero16, Secret = secret\<rparr>"
  using assms
  unfolding NewAccessRequestCHAP_def NewRequestAuthenticator_def Let_def new_packet_def sum.case
    attr_AddString_def packet.simps
  by (simp only: attr_Add_Inr_iff add_extras_guarded_Inr_iff sum.distinct simp_thms split: sum.split_asm)
    simp

end
