(* ===== verification/Radius_Protocol.thy ===== *)
theory Radius_Protocol
  imports Radius_Constructors
begin

text \<open>
  The properties of the RADIUS package (\<^verbatim>\<open>pkg/radius\<close>): codec, authenticators,
  password hiding, vendor attributes and builders.
\<close>

section \<open>Inputs of the examples\<close>

definition demo_secret :: bytes where "demo_secret = bytes_of ''testing123''"

definition demo_request :: packet where
  "demo_request = \<lparr>Code = CodeAccessRequest, Identifier = 7, Authenticator = replicate 16 9,
     Attributes = [\<lparr>AType = AttrUserName, AValue = bytes_of ''bob''\<rparr>,
                   \<lparr>AType = AttrNASPort, AValue = put32 3\<rparr>],
     RequestAuthenticator = zero16, Secret = demo_secret\<rparr>"

definition demo_ack :: packet where
  "demo_ack = \<lparr>Code = CodeCoAACK, Identifier = 7, Authenticator = zero16,
     Attributes = [\<lparr>AType = AttrMessageAuthenticator, AValue = replicate 16 0\<rparr>],
     RequestAuthenticator = replicate 16 9, Secret = demo_secret\<rparr>"

lemma demo_encodable:
  "encodable demo_request (Inr zero16)" "wf_packet demo_request"
  "encodable demo_ack (Inr zero16)" "wf_packet demo_ack"
  by (simp_all add: encodable_def demo_request_def demo_ack_def demo_secret_def wf_packet_def
      maAttrIndex_def MaxAttributeValueLength_def MaxPacketLength_def MessageAuthenticatorLength_def
      isZeroAuth_iff IsResponse_def)

lemma demo_encodes:
  "\<exists>p w. Encode demo_request (Inr zero16) = (p, Inr w)"
  "\<exists>p w. Encode demo_ack (Inr zero16) = (p, Inr w)"
  using Encode_Inr_iff [of demo_request "Inr zero16"] Encode_Inr_iff [of demo_ack "Inr zero16"]
    demo_encodable by simp_all

section \<open>Codec\<close>

text \<open>C1: Packet round trip. Decoding the bytes \<^verbatim>\<open>Encode\<close> returned, followed by any padding
  that keeps the datagram within 4096 bytes, gives back the packet as \<^verbatim>\<open>Encode\<close> left it. That
  packet differs from the one encoded in the Authenticator and, when a Message-Authenticator is
  present, in attribute values of unchanged types and total length only.\<close>

theorem packet_roundtrip:
  assumes "wf_packet p" "\<forall>a. rnd = Inr a \<longrightarrow> length a = 16"
    and "Encode p rnd = (p', Inr w)" "length w + length pad \<le> MaxPacketLength"
  shows "Decode (w @ pad) secret = Inr (p'\<lparr>RequestAuthenticator := zero16, Secret := secret\<rparr>)
    \<and> p' = p\<lparr>Authenticator := Authenticator p', Attributes := Attributes p'\<rparr>
    \<and> map AType (Attributes p') = map AType (Attributes p)
    \<and> length (attrs_wire (Attributes p')) = length (attrs_wire (Attributes p))
    \<and> (maAttrIndex (Attributes p) = None \<longrightarrow> Attributes p' = Attributes p)"
proof -
  note enc = Encode_ok [OF assms(3,1,2)]
  have "Decode (w @ pad) secret = Inr (p'\<lparr>RequestAuthenticator := zero16, Secret := secret\<rparr>)"
    using Decode_wire [OF enc(2), of pad secret] assms(4) unfolding enc(3) by simp
  with enc(1,4,6) enc(5) show ?thesis by blast
qed

theorem packet_roundtrip_witness:
  "\<exists>p w. Encode demo_request (Inr zero16) = (p, Inr w)
    \<and> Decode w [] = Inr (p\<lparr>RequestAuthenticator := zero16, Secret := []\<rparr>)"
proof -
  obtain p w where enc: "Encode demo_request (Inr zero16) = (p, Inr w)"
    using demo_encodes by blast
  have "length w \<le> MaxPacketLength"
    using Encode_ok(2,3) [OF enc demo_encodable(2)] length_packet_wire [of p] by (simp add: wire_ok_def)
  with packet_roundtrip [OF demo_encodable(2) _ enc, of "[]" "[]"] enc show ?thesis by auto
qed

text \<open>C26: Exactly the decodable datagrams. \<^verbatim>\<open>Decode\<close> returns a packet iff the input, of at most
  4096 bytes, is the wire form of that packet followed by padding; the packet's attributes have
  encodable lengths, and its request authenticator is zero. Every other input is an error.\<close>

theorem decode_exactly_wire:
  "Decode data secret = Inr p \<longleftrightarrow>
    wire_ok p \<and> RequestAuthenticator p = zero16 \<and> Secret p = secret
    \<and> length data \<le> MaxPacketLength \<and> (\<exists>pad. data = packet_wire p @ pad)"
proof
  assume r: "wire_ok p \<and> RequestAuthenticator p = zero16 \<and> Secret p = secret
    \<and> length data \<le> MaxPacketLength \<and> (\<exists>pad. data = packet_wire p @ pad)"
  then obtain pad where "data = packet_wire p @ pad" by blast
  with r Decode_wire [of p pad secret] show "Decode data secret = Inr p" by auto
qed (rule Decode_InrD)

text \<open>C30: When encoding succeeds. \<^verbatim>\<open>Encode\<close> returns bytes iff the packet has a secret (or is an
  Access-Request), only values of at most 253 bytes, a total length of at most 4096, a known code, a
  Message-Authenticator of 16 bytes if it has one, and randomness when it needs some.\<close>

theorem encode_accepts_iff:
  assumes "wf_packet p" "\<forall>a. rnd = Inr a \<longrightarrow> length a = 16"
  shows "(\<exists>p' w. Encode p rnd = (p', Inr w)) \<longleftrightarrow> encodable p rnd"
  using assms by (rule Encode_Inr_iff)

theorem encode_accepts_iff_witness:
  "(\<exists>p' w. Encode demo_ack (Inr zero16) = (p', Inr w))
    \<and> \<not> (\<exists>p' w. Encode (demo_ack\<lparr>Secret := []\<rparr>) (Inr zero16) = (p', Inr w))"
  using encode_accepts_iff [of demo_ack "Inr zero16"] demo_encodable
    encode_accepts_iff [of "demo_ack\<lparr>Secret := []\<rparr>" "Inr zero16"]
  by (simp add: wf_packet_def encodable_def demo_ack_def)

section \<open>Authenticators\<close>

text \<open>C31: Message-Authenticator. Whatever a packet with a Message-Authenticator attribute encodes
  to, a receiver that decodes the datagram and knows the secret validates it.\<close>

theorem message_authenticator_validates:
  assumes "wf_packet p" "\<forall>a. rnd = Inr a \<longrightarrow> length a = 16"
    and "Encode p rnd = (p', Inr w)" "maAttrIndex (Attributes p) \<noteq> None"
  shows "\<exists>q. Decode w (Secret p) = Inr q \<and> ValidateMessageAuthenticator q w (Secret p)"
proof -
  note enc = Encode_ok [OF assms(3,1,2)]
  have "length (packet_wire p') + length ([] :: bytes) \<le> MaxPacketLength"
    using enc(2) length_packet_wire [of p'] by (simp add: wire_ok_def)
  from Decode_wire [OF enc(2) this, of "Secret p"]
  have "Decode w (Secret p) = Inr (p'\<lparr>RequestAuthenticator := zero16, Secret := Secret p\<rparr>)"
    unfolding enc(3) by simp
  then show ?thesis
    using Encode_validates_ma [OF assms(3,1,2,4)] by simp
qed

theorem message_authenticator_validates_witness:
  "\<exists>p w q. Encode demo_ack (Inr zero16) = (p, Inr w) \<and> Decode w demo_secret = Inr q
    \<and> ValidateMessageAuthenticator q w demo_secret"
proof -
  obtain p w where enc: "Encode demo_ack (Inr zero16) = (p, Inr w)" using demo_encodes by blast
  have "maAttrIndex (Attributes demo_ack) \<noteq> None" "Secret demo_ack = demo_secret"
    by (simp_all add: demo_ack_def maAttrIndex_def)
  with message_authenticator_validates [OF demo_encodable(4) _ enc] enc show ?thesis by auto
qed

text \<open>Response Authenticator. A reply encoded without a Message-Authenticator validates, after
  decoding, against the authenticator of the request it answers, and the check never panics.\<close>

theorem response_authenticator_validates:
  assumes "wf_packet p" "Encode p rnd = (p', Inr w)" "\<forall>a. rnd = Inr a \<longrightarrow> length a = 16"
    and "IsResponse (Code p)" "maAttrIndex (Attributes p) = None"
  shows "\<exists>q. Decode w (Secret p) = Inr q
    \<and> ValidateResponseAuthenticator q (RequestAuthenticator p) (Secret p) w spare = Some True"
proof -
  note enc = Encode_ok [OF assms(2,1,3)]
  let ?q = "p'\<lparr>RequestAuthenticator := zero16, Secret := Secret p\<rparr>"
  have "length (packet_wire p') + length ([] :: bytes) \<le> MaxPacketLength"
    using enc(2) length_packet_wire [of p'] by (simp add: wire_ok_def)
  from Decode_wire [OF enc(2) this, of "Secret p"] have dec: "Decode w (Secret p) = Inr ?q"
    unfolding enc(3) by simp
  have same: "Code p' = Code p" "Identifier p' = Identifier p" by (subst enc(1), simp)+
  have w: "w = packet_wire ?q" using enc(3) by (simp add: packet_wire_def)
  have "wire_ok ?q" using enc(2) by (simp add: wire_ok_def)
  from ValidateResponse_packet_wire [OF this, of "RequestAuthenticator p" "Secret p" spare]
  have "ValidateResponseAuthenticator ?q (RequestAuthenticator p) (Secret p) w spare = Some True"
    using assms(4) Encode_authenticator(1) [OF assms(2,1,3,4)] enc(5) [OF assms(5)]
    unfolding w [symmetric] by (simp add: same)
  with dec show ?thesis by blast
qed

theorem response_authenticator_validates_witness:
  "\<exists>p w q. Encode (demo_ack\<lparr>Attributes := []\<rparr>) (Inr zero16) = (p, Inr w) \<and> Decode w demo_secret = Inr q
    \<and> ValidateResponseAuthenticator q (replicate 16 9) demo_secret w [] = Some True"
proof -
  let ?p = "demo_ack\<lparr>Attributes := []\<rparr>"
  have "encodable ?p (Inr zero16)" and wf: "wf_packet ?p"
    by (simp_all add: encodable_def demo_ack_def demo_secret_def wf_packet_def
        maAttrIndex_def MaxPacketLength_def)
  then obtain p w where enc: "Encode ?p (Inr zero16) = (p, Inr w)"
    using Encode_Inr_iff [of ?p "Inr zero16"] by auto
  from response_authenticator_validates [OF wf enc, of "[]"] enc show ?thesis
    by (simp add: demo_ack_def maAttrIndex_def)
qed

text \<open>C38: PAP end to end. The server that decodes an encoded PAP Access-Request reads the user name
  and, with the shared secret, the password, whenever the password has no trailing NUL byte and
  the random authenticator is not all zero.\<close>

theorem pap_password_delivered:
  assumes "NewAccessRequestPAP (Inr auth) i secret user pass extras = Inr p"
    and "length auth = 16" "\<not> isZeroAuth auth" "pass = [] \<or> last (bytes_of pass) \<noteq> 0"
    and "Encode p rnd = (p', Inr w)" "\<forall>a. rnd = Inr a \<longrightarrow> length a = 16"
  shows "\<exists>q cipher. Decode w secret = Inr q \<and> attr_GetString (Attributes q) AttrUserName = user
    \<and> attr_Get (Attributes q) AttrUserPassword = Some \<lparr>AType = AttrUserPassword, AValue = cipher\<rparr>
    \<and> DecryptUserPassword cipher secret (Authenticator q) = Inr (bytes_of pass)"
proof -
  from NewAccessRequestPAP_InrD [OF assms(1)] obtain cipher where
    enc: "EncryptUserPassword (bytes_of pass) secret auth = Inr cipher" and
    extras: "\<forall>a \<in> set extras. \<not> credential_type (AType a)" and
    p: "p = \<lparr>Code = CodeAccessRequest, Identifier = i, Authenticator = auth,
            Attributes = \<lparr>AType = AttrUserName, AValue = bytes_of user\<rparr> # extras
              @ [\<lparr>AType = AttrUserPassword, AValue = cipher\<rparr>],
            RequestAuthenticator = zero16, Secret = secret\<rparr>"
    by blast
  have wf: "wf_packet p" using assms(2) by (simp add: p wf_packet_def)
  note ok = Encode_ok [OF assms(5) wf assms(6)]
  let ?q = "p'\<lparr>RequestAuthenticator := zero16, Secret := secret\<rparr>"
  have "length (packet_wire p') + length ([] :: bytes) \<le> MaxPacketLength"
    using ok(2) length_packet_wire [of p'] by (simp add: wire_ok_def)
  from Decode_wire [OF ok(2) this, of secret] have dec: "Decode w secret = Inr ?q"
    unfolding ok(3) by simp
  have "attr_Get extras AttrUserPassword = None"
    using extras by (induction extras) (auto simp: credential_type_def)
  then have get: "attr_Get (Attributes p) AttrUserPassword = Some \<lparr>AType = AttrUserPassword, AValue = cipher\<rparr>"
    "attr_GetString (Attributes p) AttrUserName = user"
    by (simp_all add: p attr_Get_append attr_GetString_def)
  have "Authenticator p' = auth"
    using Encode_authenticator(3) [OF assms(5) wf assms(6)] assms(3) by (simp add: p)
  moreover have "strip_nuls (bytes_of pass) = bytes_of pass"
    using assms(4) by (intro strip_nuls_id) auto
  ultimately show ?thesis
    using dec get DecryptUserPassword_Encrypt [OF enc] Encode_attr_Get [OF assms(5) wf assms(6)]
    by (intro exI [of _ ?q] exI [of _ cipher]) (simp add: attr_GetString_def)
qed

lemma demo_pap:
  "\<exists>p. NewAccessRequestPAP (Inr (replicate 16 9)) 1 demo_secret ''bob'' ''pw'' [] = Inr p
    \<and> Code p = CodeAccessRequest \<and> wf_packet p \<and> encodable p (Inr zero16)"
proof -
  obtain c where c: "EncryptUserPassword (bytes_of ''pw'') demo_secret (replicate 16 9) = Inr c"
    by (simp add: EncryptUserPassword_def)
  then have "length c \<le> 128"
    using EncryptUserPassword_length [OF c] length_pad_password_le [of "bytes_of ''pw''"] by simp
  with c show ?thesis
    by (simp add: NewAccessRequestPAP_def NewRequestAuthenticator_def new_packet_def Let_def
      attr_AddString_def attr_Add_def MaxAttributeValueLength_def wf_packet_def encodable_def
      demo_secret_def isZeroAuth_iff maAttrIndex_def MaxPacketLength_def)
qed

theorem pap_password_delivered_witness:
  "\<exists>p p' w q cipher. NewAccessRequestPAP (Inr (replicate 16 9)) 1 demo_secret ''bob'' ''pw'' [] = Inr p
    \<and> Encode p (Inr zero16) = (p', Inr w) \<and> Decode w demo_secret = Inr q
    \<and> DecryptUserPassword cipher demo_secret (Authenticator q) = Inr (bytes_of ''pw'')"
proof -
  from demo_pap obtain p where p: "NewAccessRequestPAP (Inr (replicate 16 9)) 1 demo_secret ''bob'' ''pw'' [] = Inr p"
    and "wf_packet p" "encodable p (Inr zero16)" by blast
  then obtain p' w where enc: "Encode p (Inr zero16) = (p', Inr w)"
    using Encode_Inr_iff [of p "Inr zero16"] by auto
  have "\<not> isZeroAuth (replicate 16 9)" "last (bytes_of ''pw'') \<noteq> 0"
    by (simp_all add: isZeroAuth_iff bytes_of_def byte_of_char_def)
  with pap_password_delivered [OF p _ _ _ enc] p enc show ?thesis by fastforce
qed

section \<open>Vendor attributes\<close>

text \<open>Vendor attributes. A VSA added to an attribute list is the last one its vendor's listing
  returns; lookups of other vendors are unchanged, and the first VSA of a type wins.\<close>

theorem vendor_attribute_lookup:
  assumes "AddVendorAttribute as vid vt v = Inr as'"
  shows "GetAllVendor as' vid = GetAllVendor as vid
      @ [\<lparr>VA_VendorID = vid, VA_VendorType = vt, VA_Value = v\<rparr>]
    \<and> (\<forall>vid'. vid' \<noteq> vid \<longrightarrow> GetAllVendor as' vid' = GetAllVendor as vid')
    \<and> GetVendor as' vid vt = Some (case GetVendor as vid vt of
         Some u \<Rightarrow> u | None \<Rightarrow> \<lparr>VA_VendorID = vid, VA_VendorType = vt, VA_Value = v\<rparr>)"
proof -
  from assms obtain e where e: "EncodeVSA vid vt v = Inr e"
    and as': "as' = as @ [\<lparr>AType = AttrVendorSpecific, AValue = e\<rparr>]"
    by (auto simp: AddVendorAttribute_def attr_Add_Inr_iff split: sum.splits)
  note dec = EncodeVSA_DecodeVSA(2) [OF e]
  show ?thesis
    by (auto simp: as' GetAllVendor_append dec GetVendor_GetAllVendor first_vsa_append split: option.splits)
qed

theorem vendor_attribute_lookup_witness:
  "\<exists>as'. AddVendorAttribute [] VendorHuawei HuaweiSubscriberQoSProfile (bytes_of ''gold'') = Inr as'
    \<and> map VA_Value (GetAllVendor as' VendorHuawei) = [bytes_of ''gold'']"
proof -
  obtain as' where a: "AddVendorAttribute [] VendorHuawei HuaweiSubscriberQoSProfile (bytes_of ''gold'') = Inr as'"
    by (simp add: AddVendorAttribute_def EncodeVSA_def attr_Add_def MaxAttributeValueLength_def)
  with vendor_attribute_lookup [OF a] show ?thesis by simp
qed

end
