(* ===== verification/Radius_Reply_Example.thy ===== *)
theory Radius_Reply_Example
  imports Radius_Protocol
begin

text \<open>
  A reply the CoA listener sends, followed down to its bytes: \<^verbatim>\<open>NewCoAAck\<close> always adds
  a Message-Authenticator, \<^verbatim>\<open>Encode\<close> computes the Response Authenticator over the attribute
  bytes with the zero placeholder and fills the Message-Authenticator in afterwards. The
  digests of one such reply are evaluated by the kernel's simplifier.
\<close>

section \<open>The digests\<close>

definition ack_head :: bytes where
  "ack_head = [44, 7, 0, 38]"

definition ack_auth :: bytes where
  "ack_auth = [132, 187, 121, 12, 19, 19, 201, 48, 184, 111, 169, 124, 110, 198, 245, 129]"

definition ack_inner :: bytes where
  "ack_inner = [152, 176, 40, 39, 177, 231, 83, 160, 4, 62, 164, 88, 61, 169, 222, 34]"

definition ack_mac :: bytes where
  "ack_mac = [65, 136, 191, 167, 20, 37, 61, 135, 186, 51, 19, 58, 244, 179, 207, 238]"

definition ack_auth_sent :: bytes where
  "ack_auth_sent = [173, 21, 150, 76, 169, 76, 63, 247, 66, 104, 246, 79, 71, 128, 65, 78]"

lemma ack_auth_eval:
  "md5 (ack_head @ replicate 16 9 @ [80, 18] @ replicate 16 0 @ demo_secret) = ack_auth"
  by code_simp

lemma ack_inner_eval:
  "md5 (map (\<lambda>b. b XOR 0x36) (hmac_key demo_secret) @ ack_head @ ack_auth @ [80, 18] @ replicate 16 0)
    = ack_inner"
  by code_simp

lemma ack_mac_eval:
  "md5 (map (\<lambda>b. b XOR 0x5c) (hmac_key demo_secret) @ ack_inner) = ack_mac"
  by code_simp

lemma ack_auth_sent_eval:
  "md5 (ack_head @ replicate 16 9 @ [80, 18] @ ack_mac @ demo_secret) = ack_auth_sent"
  by code_simp

text \<open>The request the reply answers, and the reply as encoded.\<close>

definition coa_request :: packet where
  "coa_request = \<lparr>Code = CodeCoARequest, Identifier = 7, Authenticator = replicate 16 9,
     Attributes = [], RequestAuthenticator = zero16, Secret = demo_secret\<rparr>"

definition ack_encoded :: packet where
  "ack_encoded = demo_ack\<lparr>Authenticator := ack_auth,
     Attributes := [\<lparr>AType = AttrMessageAuthenticator, AValue = ack_mac\<rparr>]\<rparr>"

lemma coa_request_ack: "NewCoAAck (Some coa_request) demo_secret [] = Inr demo_ack"
  by (simp add: NewCoAAck_def newDynAuthAck_Inr_iff demo_ack_def coa_request_def)

lemma put16_38: "put16 (38 :: u16) = [0, 38]"
  by (simp add: put16_def)

lemma ack_lengths [simp]: "length ack_mac = 16" "length ack_auth = 16"
  by (simp_all add: ack_mac_def ack_auth_def)

lemma ack_response_auth:
  "ComputeResponseAuthenticator CodeCoAACK 7 38 (replicate 16 9)
     (attrs_wire [\<lparr>AType = AttrMessageAuthenticator, AValue = replicate 16 0\<rparr>]) demo_secret = ack_auth"
  using ack_auth_eval
  by (simp only: ComputeResponseAuthenticator_def put16_38 ack_head_def attrs_wire_simps attr_wire_def
      append.simps attribute.simps length_replicate of_nat_numeral append_Nil2 numeral_plus_numeral
      append_assoc) simp

lemma ack_message_auth:
  "ComputeMessageAuthenticator (header CodeCoAACK 7 38 ack_auth
     @ attrs_wire [\<lparr>AType = AttrMessageAuthenticator, AValue = replicate 16 0\<rparr>]) demo_secret = ack_mac"
proof -
  have "header CodeCoAACK 7 38 ack_auth
     @ attrs_wire [\<lparr>AType = AttrMessageAuthenticator, AValue = replicate 16 0\<rparr>]
     = ack_head @ ack_auth @ [80, 18] @ replicate 16 0"
    by (simp add: header_def put16_38 ack_head_def attr_wire_def)
  then show ?thesis
    unfolding ComputeMessageAuthenticator_def hmac_md5_def using ack_inner_eval ack_mac_eval by simp
qed

lemma demo_ack_Encode:
  "Encode demo_ack rnd = (ack_encoded, Inr (packet_wire ack_encoded))"
proof -
  let ?as = "[\<lparr>AType = AttrMessageAuthenticator, AValue = replicate 16 0\<rparr>]"
  have len: "MinPacketLength + length (attrs_wire ?as) = 38"
    by (simp add: MinPacketLength_def)
  have e: "encodeAttributes (Attributes demo_ack) = Inr (attrs_wire ?as)"
    by (simp add: demo_ack_def encodeAttributes_ok MaxAttributeValueLength_def)
  have auth: "encode_auth demo_ack rnd 38 (attrs_wire ?as) = Inr (demo_ack\<lparr>Authenticator := ack_auth\<rparr>)"
    using ack_response_auth by (simp add: encode_auth_def demo_ack_def)
  define p where "p = demo_ack\<lparr>Authenticator := ack_auth\<rparr>"
  have p: "Code p = 44" "Identifier p = 7" "Authenticator p = ack_auth" "Attributes p = ?as"
      "Secret p = demo_secret"
    by (simp_all add: p_def demo_ack_def)
  have idx: "maAttrIndex (Attributes p) = Some 0" and off: "findMessageAuthenticatorOffset (Attributes p) 20 = Some 22"
    by (simp_all add: p(4) maAttrIndex_def)
  let ?H = "header 44 7 38 ack_auth"
  have zero: "blit 22 (replicate 16 0) (?H @ attrs_wire ?as) = ?H @ attrs_wire ?as"
    using blit_attr_value [of ?H "replicate 16 0" "\<lparr>AType = AttrMessageAuthenticator, AValue = replicate 16 0\<rparr>" "[]" "[]"]
    by simp
  have fill: "blit 22 ack_mac (?H @ attrs_wire ?as)
      = ?H @ attrs_wire [\<lparr>AType = AttrMessageAuthenticator, AValue = ack_mac\<rparr>]"
    using blit_attr_value [of ?H ack_mac "\<lparr>AType = AttrMessageAuthenticator, AValue = replicate 16 0\<rparr>" "[]" "[]"]
    by simp
  have "encode_ma p (?H @ attrs_wire ?as) = (ack_encoded, Inr (packet_wire ack_encoded))"
    unfolding encode_ma_def idx off option.case Let_def MessageAuthenticatorLength_def zero p(5)
      ack_message_auth fill
    by (simp add: p ack_encoded_def packet_wire_def) (simp add: p_def demo_ack_def)
  then show ?thesis
    unfolding Encode_def e sum.case Let_def len
    using auth by (simp add: demo_ack_def demo_secret_def MaxPacketLength_def p_def)
qed

section \<open>Response Authenticators of replies with a Message-Authenticator\<close>

text \<open>C34: A reply checks out against its request iff the digest over its attributes as sent is the
  digest over its attributes before the Message-Authenticator was filled in.\<close>

theorem response_authenticator_reply_iff:
  assumes "wf_packet p" "Encode p rnd = (p', Inr w)" "\<forall>a. rnd = Inr a \<longrightarrow> length a = 16"
    and "IsResponse (Code p)"
  shows "\<exists>q. Decode w (Secret p) = Inr q
    \<and> ValidateResponseAuthenticator q (RequestAuthenticator p) (Secret p) w spare = Some (
        ComputeResponseAuthenticator (Code p) (Identifier p) (word_of_nat (length w))
          (RequestAuthenticator p) (attrs_wire (Attributes p)) (Secret p)
        = ComputeResponseAuthenticator (Code p) (Identifier p) (word_of_nat (length w))
          (RequestAuthenticator p) (attrs_wire (Attributes p')) (Secret p))"
proof -
  note enc = Encode_ok [OF assms(2,1,3)]
  let ?q = "p'\<lparr>RequestAuthenticator := zero16, Secret := Secret p\<rparr>"
  have "length (packet_wire p') + length ([] :: bytes) \<le> MaxPacketLength"
    using enc(2) length_packet_wire [of p'] by (simp add: wire_ok_def)
  from Decode_wire [OF enc(2) this, of "Secret p"] have dec: "Decode w (Secret p) = Inr ?q"
    unfolding enc(3) by simp
  have same: "Code p' = Code p" "Identifier p' = Identifier p" by (subst enc(1), simp)+
  have w: "w = packet_wire ?q" using enc(3) by (simp add: packet_wire_def)
  have "wire_ok ?q" using enc(2) by (simp add: wire_ok_def)
  from ValidateResponse_packet_wire [OF this, of "RequestAuthenticator p" "Secret p" spare] dec
  show ?thesis
    using assms(4) Encode_authenticator(1) [OF assms(2,1,3,4)]
    unfolding w [symmetric] by (simp add: same)
qed

theorem response_authenticator_reply_iff_witness:
  "\<exists>q. Decode (packet_wire ack_encoded) demo_secret = Inr q
    \<and> ValidateResponseAuthenticator q (replicate 16 9) demo_secret (packet_wire ack_encoded) [] = Some (
        ComputeResponseAuthenticator CodeCoAACK 7 (word_of_nat (length (packet_wire ack_encoded)))
          (replicate 16 9) (attrs_wire (Attributes demo_ack)) demo_secret
        = ComputeResponseAuthenticator CodeCoAACK 7 (word_of_nat (length (packet_wire ack_encoded)))
          (replicate 16 9) (attrs_wire (Attributes ack_encoded)) demo_secret)"
proof -
  have f: "Code demo_ack = CodeCoAACK" "Identifier demo_ack = 7" "Secret demo_ack = demo_secret"
    "RequestAuthenticator demo_ack = replicate 16 9" "IsResponse (Code demo_ack)"
    by (simp_all add: demo_ack_def)
  have r: "\<forall>a. (Inr zero16 :: bytes res) = Inr a \<longrightarrow> length a = 16" by simp
  show ?thesis
    using response_authenticator_reply_iff [OF demo_encodable(4) demo_ack_Encode [of "Inr zero16"] r f(5), of "[]"]
    unfolding f .
qed

text \<open>C35: A CoA-ACK, the reply to one given CoA-Request as \<^verbatim>\<open>NewCoAAck\<close> builds it and \<^verbatim>\<open>Encode\<close> serializes
  it, carries a Response Authenticator that a client applying RFC 2865 (and this package's own
  \<^verbatim>\<open>ValidateResponseAuthenticator\<close>) rejects, although its Message-Authenticator is valid.\<close>

theorem coa_ack_response_authenticator_rejected:
  "\<exists>p p' w q. NewCoAAck (Some coa_request) demo_secret [] = Inr p
    \<and> Encode p rnd = (p', Inr w) \<and> Decode w demo_secret = Inr q
    \<and> ValidateMessageAuthenticator q w demo_secret
    \<and> ValidateResponseAuthenticator q (Authenticator coa_request) demo_secret w spare = Some False"
proof -
  let ?q = "ack_encoded\<lparr>RequestAuthenticator := zero16, Secret := demo_secret\<rparr>"
  have enc: "Encode demo_ack (Inr zero16) = (ack_encoded, Inr (packet_wire ack_encoded))"
    by (rule demo_ack_Encode)
  note ok = Encode_ok [OF enc demo_encodable(4)]
  have wf: "wire_ok ack_encoded" by (rule ok) simp
  have len: "length (packet_wire ack_encoded) = 38"
    using wf length_packet_wire [of ack_encoded] by (simp add: wire_ok_def ack_encoded_def)
  have dec: "Decode (packet_wire ack_encoded) demo_secret = Inr ?q"
    using Decode_wire [OF wf, of "[]" demo_secret] len by (simp add: MaxPacketLength_def)
  have ma: "ValidateMessageAuthenticator ?q (packet_wire ack_encoded) demo_secret"
    using Encode_validates_ma [OF enc demo_encodable(4), of ?q]
    by (simp add: demo_ack_def maAttrIndex_def)
  have sent: "ComputeResponseAuthenticator CodeCoAACK 7 38 (replicate 16 9)
      (attrs_wire [\<lparr>AType = AttrMessageAuthenticator, AValue = ack_mac\<rparr>]) demo_secret = ack_auth_sent"
    using ack_auth_sent_eval
    by (simp add: ComputeResponseAuthenticator_def put16_38 ack_head_def attr_wire_def)
  have q: "Code ?q = 44" "Identifier ?q = 7" "Authenticator ?q = ack_auth"
      "Attributes ?q = [\<lparr>AType = AttrMessageAuthenticator, AValue = ack_mac\<rparr>]"
      "packet_wire ?q = packet_wire ack_encoded" "wire_ok ?q"
    using wf by (simp_all add: ack_encoded_def demo_ack_def packet_wire_def wire_ok_def)
  have "ValidateResponseAuthenticator ?q (replicate 16 9) demo_secret (packet_wire ack_encoded) spare
      = Some (ack_auth = ack_auth_sent)"
    using ValidateResponse_packet_wire [OF q(6), of "replicate 16 9" demo_secret spare] sent
    unfolding q len by (simp add: IsResponse_def)
  moreover have "ack_auth \<noteq> ack_auth_sent" by (simp add: ack_auth_def ack_auth_sent_def)
  moreover have "Authenticator coa_request = replicate 16 9" by (simp add: coa_request_def)
  ultimately have "ValidateResponseAuthenticator ?q (Authenticator coa_request) demo_secret
      (packet_wire ack_encoded) spare = Some False" by simp
  with coa_request_ack demo_ack_Encode [of rnd] dec ma show ?thesis by blast
qed

end
