(* ===== verification/Go_Text.thy ===== *)
theory Go_Text
  imports Prelude
begin

text \<open>
  The parts of Go's \<^verbatim>\<open>strings\<close>, \<^verbatim>\<open>strconv\<close> and \<^verbatim>\<open>net\<close> packages that the configuration loader,
  the API and the summary use on text: \<^verbatim>\<open>TrimSpace\<close>, \<^verbatim>\<open>ToLower\<close>, \<^verbatim>\<open>HasPrefix\<close>,
  \<^verbatim>\<open>Atoi\<close>, \<^verbatim>\<open>SplitHostPort\<close>. Strings are byte sequences, so white space beyond ASCII is
  recognised by its UTF-8 encoding.
\<close>

section \<open>White space\<close>

definition chars :: "nat list \<Rightarrow> string" where
  "chars = map char_of"

text \<open>The encodings of the runes with the property \<^verbatim>\<open>White_Space\<close>.\<close>

definition space_runes :: "string list" where
  "space_runes = map chars ([[9], [10], [11], [12], [13], [32], [0xC2, 0x85], [0xC2, 0xA0], [0xE1, 0x9A, 0x80]]
     @ map (\<lambda>k. [0xE2, 0x80, 0x80 + k]) [0..<11]
     @ [[0xE2, 0x80, 0xA8], [0xE2, 0x80, 0xA9], [0xE2, 0x80, 0xAF], [0xE2, 0x81, 0x9F], [0xE3, 0x80, 0x80]])"

lemma space_runes_nonempty: "w \<in> set space_runes \<Longrightarrow> w \<noteq> []"
  by (auto simp: space_runes_def chars_def)

definition starts_with :: "string \<Rightarrow> string \<Rightarrow> bool" where
  "starts_with p s \<longleftrightarrow> take (length p) s = p"

lemma starts_with_length: "starts_with p s \<Longrightarrow> length p \<le> length s"
  by (metis starts_with_def length_take min.cobounded1)

definition leading_space :: "string list \<Rightarrow> string \<Rightarrow> nat" where
  "leading_space ws s = (case find (\<lambda>w. starts_with w s) ws of None \<Rightarrow> 0 | Some w \<Rightarrow> length w)"

lemma leading_space_le: "leading_space ws s \<le> length s"
  by (auto simp: leading_space_def find_Some_iff dest: starts_with_length split: option.splits)

function trim_left :: "string list \<Rightarrow> string \<Rightarrow> string" where
  "trim_left ws s = (if leading_space ws s = 0 then s else trim_left ws (drop (leading_space ws s) s))"
  by pat_completeness auto
termination
proof (relation "measure (\<lambda>(ws, s). length s)", goal_cases)
  case (2 ws s)
  then show ?case using leading_space_le [of ws s] by auto
qed simp

declare trim_left.simps [simp del]

definition TrimSpace :: "string \<Rightarrow> string" where
  "TrimSpace s = rev (trim_left (map rev space_runes) (rev (trim_left space_runes s)))"

lemma trim_left_fixed [simp]: "leading_space ws (trim_left ws s) = 0"
  by (induction ws s rule: trim_left.induct) (subst trim_left.simps, simp)

lemma trim_left_idem [simp]: "trim_left ws (trim_left ws s) = trim_left ws s"
  by (subst trim_left.simps) simp

lemma trim_left_Nil [simp]: "trim_left ws [] = []"
  by (induction ws "[] :: string" rule: trim_left.induct) (subst trim_left.simps, simp)

lemma TrimSpace_Nil [simp]: "TrimSpace [] = []"
  by (simp add: TrimSpace_def)

text \<open>A character that occurs in no white space encoding is never trimmed.\<close>

lemma trim_left_keeps:
  "c \<in> set s \<Longrightarrow> \<forall>w \<in> set ws. c \<notin> set w \<Longrightarrow> c \<in> set (trim_left ws s)"
proof (induction ws s rule: trim_left.induct)
  case (1 ws s)
  show ?case
  proof (cases "leading_space ws s = 0")
    case False
    have "c \<notin> set (take (leading_space ws s) s)"
    proof (cases "find (\<lambda>w. starts_with w s) ws")
      case (Some w)
      then have "w \<in> set ws" "starts_with w s" by (auto simp: find_Some_iff)
      with "1.prems"(2) Some show ?thesis by (simp add: leading_space_def starts_with_def)
    qed (use False in \<open>simp add: leading_space_def\<close>)
    with "1.prems"(1) have "c \<in> set (drop (leading_space ws s) s)"
      by (metis Un_iff append_take_drop_id set_append)
    from "1.IH" [OF False this "1.prems"(2)] False show ?thesis by (subst trim_left.simps) simp
  qed (use "1.prems" in \<open>subst trim_left.simps, simp\<close>)
qed

lemma TrimSpace_keeps:
  assumes "c \<in> set s" "\<forall>w \<in> set space_runes. c \<notin> set w"
  shows "c \<in> set (TrimSpace s)"
  using trim_left_keeps [of c "rev (trim_left space_runes s)" "map rev space_runes"]
    trim_left_keeps [OF assms] assms(2)
  by (simp add: TrimSpace_def)

text \<open>Printable ASCII stops the trimming, blanks go.\<close>

definition plain_char :: "char \<Rightarrow> bool" where
  "plain_char c \<longleftrightarrow> 33 \<le> (of_char c :: nat) \<and> (of_char c :: nat) \<le> 126"

lemma space_rune_chars: "w \<in> set space_runes \<Longrightarrow> c \<in> set w \<Longrightarrow> \<not> plain_char c"
  by (auto simp: space_runes_def chars_def plain_char_def)

lemma leading_space_plain:
  "s \<noteq> [] \<Longrightarrow> plain_char (hd s) \<Longrightarrow> \<forall>w \<in> set ws. w \<noteq> [] \<and> (\<forall>c \<in> set w. \<not> plain_char c) \<Longrightarrow>
    leading_space ws s = 0"
  by (cases s) (auto simp: leading_space_def starts_with_def find_Some_iff neq_Nil_conv split: option.split
      dest!: nth_mem)

lemma trim_left_plain [simp]:
  "s \<noteq> [] \<Longrightarrow> plain_char (hd s) \<Longrightarrow> trim_left space_runes s = s"
  "s \<noteq> [] \<Longrightarrow> plain_char (hd s) \<Longrightarrow> trim_left (map rev space_runes) s = s"
  by (subst trim_left.simps, subst leading_space_plain;
      auto dest: space_rune_chars space_runes_nonempty)+

lemma trim_left_blank [simp]:
  "trim_left space_runes (CHR '' '' # s) = trim_left space_runes s"
  "trim_left (map rev space_runes) (CHR '' '' # s) = trim_left (map rev space_runes) s"
proof -
  have "CHR '' '' = char_of (32 :: nat)" by code_simp
  then have "leading_space space_runes (CHR '' '' # s) = 1"
    "leading_space (map rev space_runes) (CHR '' '' # s) = 1"
    by (simp_all add: leading_space_def space_runes_def chars_def starts_with_def upt_rec)
  then show "trim_left space_runes (CHR '' '' # s) = trim_left space_runes s"
    "trim_left (map rev space_runes) (CHR '' '' # s) = trim_left (map rev space_runes) s"
    by (subst trim_left.simps; simp)+
qed

section \<open>Case\<close>

text \<open>
  \<^verbatim>\<open>ToLower\<close> maps the letters of an ASCII text; on any other text it consults the Unicode
  tables, which are a parameter.
\<close>

definition lower_char :: "char \<Rightarrow> char" where
  "lower_char c = (let n = of_char c :: nat in if 65 \<le> n \<and> n \<le> 90 then char_of (n + 32) else c)"

definition is_ascii :: "string \<Rightarrow> bool" where
  "is_ascii s \<longleftrightarrow> (\<forall>c \<in> set s. (of_char c :: nat) < 128)"

definition ToLower :: "(string \<Rightarrow> string) \<Rightarrow> string \<Rightarrow> string" where
  "ToLower unicode s = (if is_ascii s then map lower_char s else unicode s)"

section \<open>Integers\<close>

definition ascii_digit :: "char \<Rightarrow> bool" where
  "ascii_digit c \<longleftrightarrow> 48 \<le> (of_char c :: nat) \<and> (of_char c :: nat) \<le> 57"

text \<open>\<^verbatim>\<open>strconv.Atoi\<close> on a 64-bit \<^verbatim>\<open>int\<close>; \<open>None\<close> is either of its errors.\<close>

definition Atoi :: "string \<Rightarrow> int option" where
  "Atoi s = (let neg = starts_with ''-'' s;
                 ds = (if neg \<or> starts_with ''+'' s then tl s else s);
                 v = (if neg then - int (undigits 10 ds) else int (undigits 10 ds))
     in if ds \<noteq> [] \<and> list_all ascii_digit ds \<and> - (2 ^ 63) \<le> v \<and> v < 2 ^ 63 then Some v else None)"

section \<open>Host and port\<close>

definition last_index :: "char \<Rightarrow> string \<Rightarrow> nat option" where
  "last_index c s = map_option (\<lambda>i. length s - 1 - i) (find_index (\<lambda>x. x = c) (rev s))"

definition contains_char :: "char \<Rightarrow> string \<Rightarrow> bool" where
  "contains_char c s \<longleftrightarrow> c \<in> set s"

text \<open>\<^verbatim>\<open>net.SplitHostPort\<close>; \<open>None\<close> is any of its errors.\<close>

definition SplitHostPort :: "string \<Rightarrow> (string \<times> string) option" where
  "SplitHostPort s = (case last_index (CHR '':'') s of
       None \<Rightarrow> None
     | Some i \<Rightarrow>
        if starts_with ''['' s then
          (case find_index (\<lambda>x. x = CHR '']'') s of
             None \<Rightarrow> None
           | Some e \<Rightarrow>
               if e + 1 \<noteq> i then None
               else if contains_char (CHR ''['') (drop 1 s) \<or> contains_char (CHR '']'') (drop (e + 1) s) then None
               else Some (take (e - 1) (drop 1 s), drop (i + 1) s))
        else if contains_char (CHR '':'') (take i s) then None
        else if contains_char (CHR ''['') s \<or> contains_char (CHR '']'') s then None
        else Some (take i s, drop (i + 1) s))"

end
