(* ===== verification/Radius_Dictionary.thy ===== *)
theory Radius_Dictionary
  imports Radius_Attribute Go_Text
begin

text \<open>
  The attribute dictionaries of \<^verbatim>\<open>pkg/radius/dictionary.go\<close>: parsing the two embedded files into
  the six lookup tables, and the lookups. The contents of the files are arguments, as is \<open>fmt_q\<close>, the
  verb \<^verbatim>\<open>%q\<close>. The load runs once; its error is kept.
\<close>

section \<open>Lines and fields\<close>

definition ErrTooLong :: goerr where "ErrTooLong = Sentinel ''bufio.Scanner: token too long''"

definition drop_cr :: "string \<Rightarrow> string" where
  "drop_cr s = (if s \<noteq> [] \<and> last s = CHR 0x0D then butlast s else s)"

text \<open>\<^verbatim>\<open>bufio.Scanner\<close>: a line without its end must be shorter than 64 KiB.\<close>

fun scan_lines :: "string \<Rightarrow> string \<Rightarrow> string list \<times> goerr option" where
  "scan_lines cur [] = (if cur = [] then [] else [drop_cr cur], None)"
| "scan_lines cur (c # cs) =
     (if c = CHR 0x0A then (let (ls, err) = scan_lines [] cs in (drop_cr cur # ls, err))
      else if Suc (length cur) \<ge> 65536 then ([], Some ErrTooLong)
      else scan_lines (cur @ [c]) cs)"

definition add_field :: "string \<Rightarrow> string list \<Rightarrow> string list" where
  "add_field cur fs = (if cur = [] then fs else cur # fs)"

text \<open>\<^verbatim>\<open>strings.Fields\<close>.\<close>

function Fields :: "string \<Rightarrow> string \<Rightarrow> string list" where
  "Fields cur s =
     (case s of [] \<Rightarrow> add_field cur []
      | c # cs \<Rightarrow> if leading_space space_runes s = 0 then Fields (cur @ [c]) cs
          else add_field cur (Fields [] (drop (leading_space space_runes s) s)))"
  by pat_completeness auto
termination
  by (relation "measure (\<lambda>(cur, s). length s)") auto

declare Fields.simps [simp del]

text \<open>\<^verbatim>\<open>strconv.ParseUint(s, 10, bits)\<close>, with \<open>maxv\<close> the largest value of the width.\<close>

fun uint_loop :: "nat \<Rightarrow> nat \<Rightarrow> string \<Rightarrow> string + nat" where
  "uint_loop maxv n [] = Inr n"
| "uint_loop maxv n (c # cs) =
     (if \<not> ascii_digit c then Inl ''invalid syntax''
      else let n1 = n * 10 + digit_val c in if n1 > maxv then Inl ''value out of range'' else uint_loop maxv n1 cs)"

definition ParseUint :: "(string \<Rightarrow> string) \<Rightarrow> nat \<Rightarrow> string \<Rightarrow> nat res" where
  "ParseUint fmt_q bits s =
     (case (if s = [] then Inl ''invalid syntax'' else uint_loop (2 ^ bits - 1) 0 s) of
        Inl msg \<Rightarrow> Inl (Plain (''strconv.ParseUint: parsing '' @ fmt_q s @ '': '' @ msg))
      | Inr n \<Rightarrow> Inr n)"

section \<open>The tables\<close>

record AttributeMeta =
  am_Name :: string
  am_Type :: byte
  am_Kind :: string

record VendorAttributeMeta =
  vm_VendorID :: u32
  vm_VendorName :: string
  vm_VendorType :: byte
  vm_Name :: string
  vm_Kind :: string

record dictionary =
  di_stdAttrByID :: "byte \<Rightarrow> AttributeMeta option"
  di_stdAttrByName :: "string \<Rightarrow> AttributeMeta option"
  di_vendorByID :: "u32 \<Rightarrow> string option"
  di_vendorByName :: "string \<Rightarrow> u32 option"
  di_vsaByID :: "u64 \<Rightarrow> VendorAttributeMeta option"
  di_vsaByName :: "string \<Rightarrow> VendorAttributeMeta option"

definition dictionary_empty :: dictionary where
  "dictionary_empty = \<lparr>di_stdAttrByID = Map.empty, di_stdAttrByName = Map.empty, di_vendorByID = Map.empty,
     di_vendorByName = Map.empty, di_vsaByID = Map.empty, di_vsaByName = Map.empty\<rparr>"

definition vsa_key :: "u32 \<Rightarrow> byte \<Rightarrow> u64" where
  "vsa_key vid vt = push_bit 8 (ucast vid) OR ucast vt"

definition line_error :: "nat \<Rightarrow> string \<Rightarrow> goerr" where
  "line_error lineNo msg = Plain (''line '' @ dec lineNo @ '': '' @ msg)"

definition line_wrap :: "nat \<Rightarrow> string \<Rightarrow> goerr \<Rightarrow> goerr" where
  "line_wrap lineNo msg err = Wrap (''line '' @ dec lineNo @ '': '' @ msg @ '': '') err []"

definition skipped :: "string \<Rightarrow> bool" where
  "skipped line \<longleftrightarrow> line = [] \<or> starts_with ''#'' line"

definition std_line :: "(string \<Rightarrow> string) \<Rightarrow> nat \<Rightarrow> string \<Rightarrow> dictionary \<Rightarrow> goerr + dictionary" where
  "std_line fmt_q lineNo text0 d =
     (let line = TrimSpace text0; fs = Fields [] line in
      if skipped line \<or> length fs < 4 \<or> fs ! 0 \<noteq> ''ATTRIBUTE'' then Inr d
      else case ParseUint fmt_q 8 (fs ! 2) of
        Inl err \<Rightarrow> Inl (line_wrap lineNo (''invalid id '' @ fmt_q (fs ! 2)) err)
      | Inr idVal \<Rightarrow>
         (let meta = \<lparr>am_Name = fs ! 1, am_Type = of_nat idVal, am_Kind = fs ! 3\<rparr> in
          Inr (d\<lparr>di_stdAttrByID := (di_stdAttrByID d)(am_Type meta \<mapsto> meta),
                 di_stdAttrByName := (di_stdAttrByName d)(am_Name meta \<mapsto> meta)\<rparr>)))"

definition vendor_entry :: "(string \<Rightarrow> string) \<Rightarrow> nat \<Rightarrow> string list \<Rightarrow> dictionary \<Rightarrow> goerr + dictionary" where
  "vendor_entry fmt_q lineNo fs d =
     (if length fs < 3 then Inl (line_error lineNo ''VENDOR requires name and id'')
      else case ParseUint fmt_q 32 (fs ! 2) of
        Inl err \<Rightarrow> Inl (line_wrap lineNo (''invalid vendor id '' @ fmt_q (fs ! 2)) err)
      | Inr vid \<Rightarrow> Inr (d\<lparr>di_vendorByID := (di_vendorByID d)(of_nat vid \<mapsto> fs ! 1),
                          di_vendorByName := (di_vendorByName d)(fs ! 1 \<mapsto> of_nat vid)\<rparr>))"

definition vsa_entry :: "(string \<Rightarrow> string) \<Rightarrow> nat \<Rightarrow> string list \<Rightarrow> dictionary \<Rightarrow> goerr + dictionary" where
  "vsa_entry fmt_q lineNo fs d =
     (if length fs < 5 then Inl (line_error lineNo ''VENDOR-ATTRIBUTE requires vendor, name, type, kind'')
      else case di_vendorByName d (fs ! 1) of
        None \<Rightarrow> Inl (line_error lineNo (''unknown VENDOR '' @ fmt_q (fs ! 1)))
      | Some vid \<Rightarrow>
        (case ParseUint fmt_q 8 (fs ! 3) of
           Inl err \<Rightarrow> Inl (line_wrap lineNo (''invalid vendor-type '' @ fmt_q (fs ! 3)) err)
         | Inr vt \<Rightarrow>
            (let meta = \<lparr>vm_VendorID = vid, vm_VendorName = fs ! 1, vm_VendorType = of_nat vt,
                         vm_Name = fs ! 2, vm_Kind = fs ! 4\<rparr> in
             Inr (d\<lparr>di_vsaByID := (di_vsaByID d)(vsa_key vid (vm_VendorType meta) \<mapsto> meta),
                    di_vsaByName := (di_vsaByName d)(vm_Name meta \<mapsto> meta)\<rparr>))))"

definition vendor_line :: "(string \<Rightarrow> string) \<Rightarrow> nat \<Rightarrow> string \<Rightarrow> dictionary \<Rightarrow> goerr + dictionary" where
  "vendor_line fmt_q lineNo text0 d =
     (let line = TrimSpace text0; fs = Fields [] line in
      if skipped line \<or> fs = [] then Inr d
      else if fs ! 0 = ''VENDOR'' then vendor_entry fmt_q lineNo fs d
      else if fs ! 0 = ''VENDOR-ATTRIBUTE'' then vsa_entry fmt_q lineNo fs d
      else Inr d)"

text \<open>The loop over the lines; an error leaves the tables as filled so far.\<close>

fun dict_loop :: "(nat \<Rightarrow> string \<Rightarrow> dictionary \<Rightarrow> goerr + dictionary) \<Rightarrow> nat \<Rightarrow> string list \<Rightarrow> dictionary \<Rightarrow> dictionary \<times> goerr option" where
  "dict_loop step n [] d = (d, None)"
| "dict_loop step n (l # ls) d = (case step (Suc n) l d of Inl err \<Rightarrow> (d, Some err) | Inr d' \<Rightarrow> dict_loop step (Suc n) ls d')"

definition parse_dict :: "(nat \<Rightarrow> string \<Rightarrow> dictionary \<Rightarrow> goerr + dictionary) \<Rightarrow> string \<Rightarrow> dictionary \<Rightarrow> dictionary \<times> goerr option" where
  "parse_dict step content d =
     (let (ls, scanErr) = scan_lines [] content in
      case dict_loop step 0 ls d of (d', Some err) \<Rightarrow> (d', Some err) | (d', None) \<Rightarrow> (d', scanErr))"

definition parseStdDict :: "(string \<Rightarrow> string) \<Rightarrow> string \<Rightarrow> dictionary \<Rightarrow> dictionary \<times> goerr option" where
  "parseStdDict fmt_q = parse_dict (std_line fmt_q)"

definition parseVendorDict :: "(string \<Rightarrow> string) \<Rightarrow> string \<Rightarrow> dictionary \<Rightarrow> dictionary \<times> goerr option" where
  "parseVendorDict fmt_q = parse_dict (vendor_line fmt_q)"

definition loadDicts :: "(string \<Rightarrow> string) \<Rightarrow> string \<Rightarrow> string \<Rightarrow> dictionary \<times> goerr option" where
  "loadDicts fmt_q rfc huawei =
     (case parseStdDict fmt_q rfc dictionary_empty of
        (d, Some err) \<Rightarrow> (d, Some (Wrap ''parse rfc.dict: '' err []))
      | (d, None) \<Rightarrow> (case parseVendorDict fmt_q huawei d of
          (d', Some err) \<Rightarrow> (d', Some (Wrap ''parse huawei.dict: '' err []))
        | (d', None) \<Rightarrow> (d', None)))"

definition DictionaryLoadError :: "(string \<Rightarrow> string) \<Rightarrow> string \<Rightarrow> string \<Rightarrow> goerr option" where
  "DictionaryLoadError fmt_q rfc huawei = snd (loadDicts fmt_q rfc huawei)"

section \<open>Lookups\<close>

definition AttributeName :: "dictionary \<Rightarrow> byte \<Rightarrow> string" where
  "AttributeName d t = (case di_stdAttrByID d t of None \<Rightarrow> [] | Some m \<Rightarrow> am_Name m)"

definition VendorName :: "dictionary \<Rightarrow> u32 \<Rightarrow> string" where
  "VendorName d vid = (case di_vendorByID d vid of None \<Rightarrow> [] | Some v \<Rightarrow> v)"

definition VendorAttributeName :: "dictionary \<Rightarrow> u32 \<Rightarrow> byte \<Rightarrow> string" where
  "VendorAttributeName d vid vt = (case di_vsaByID d (vsa_key vid vt) of None \<Rightarrow> [] | Some m \<Rightarrow> vm_Name m)"

definition LookupAttribute :: "dictionary \<Rightarrow> string \<Rightarrow> AttributeMeta option" where
  "LookupAttribute d n = di_stdAttrByName d n"

definition LookupVendorAttribute :: "dictionary \<Rightarrow> string \<Rightarrow> VendorAttributeMeta option" where
  "LookupVendorAttribute d n = di_vsaByName d n"

section \<open>The tables agree\<close>

lemma vsa_key_inj: "vsa_key v t = vsa_key v' t' \<longleftrightarrow> v = v' \<and> t = t'"
proof
  assume e: "vsa_key v t = vsa_key v' t'"
  have "v = ucast (drop_bit 8 (vsa_key v t)) \<and> t = ucast (vsa_key v t)" for v t
    by (auto simp: vsa_key_def intro!: bit_word_eqI simp: bit_simps)
  then show "v = v' \<and> t = t'" using e by metis
qed simp

text \<open>Entries sit under their own keys, and what one table of a pair knows the other does too.\<close>

definition tables_agree :: "dictionary \<Rightarrow> bool" where
  "tables_agree d \<longleftrightarrow>
     (\<forall>t m. di_stdAttrByID d t = Some m \<longrightarrow> am_Type m = t \<and> di_stdAttrByName d (am_Name m) \<noteq> None) \<and>
     (\<forall>n m. di_stdAttrByName d n = Some m \<longrightarrow> am_Name m = n \<and> di_stdAttrByID d (am_Type m) \<noteq> None) \<and>
     (\<forall>v n. di_vendorByID d v = Some n \<longrightarrow> di_vendorByName d n \<noteq> None) \<and>
     (\<forall>n v. di_vendorByName d n = Some v \<longrightarrow> di_vendorByID d v \<noteq> None) \<and>
     (\<forall>k m. di_vsaByID d k = Some m \<longrightarrow> k = vsa_key (vm_VendorID m) (vm_VendorType m) \<and> di_vsaByName d (vm_Name m) \<noteq> None) \<and>
     (\<forall>n m. di_vsaByName d n = Some m \<longrightarrow> vm_Name m = n \<and> di_vsaByID d (vsa_key (vm_VendorID m) (vm_VendorType m)) \<noteq> None \<and>
        di_vendorByID d (vm_VendorID m) \<noteq> None)"

lemma std_line_agrees: "std_line fmt_q k s d = Inr d' \<Longrightarrow> tables_agree d \<Longrightarrow> tables_agree d'"
  by (auto simp: std_line_def Let_def tables_agree_def split: if_splits sum.splits)

lemma vendor_entry_agrees: "vendor_entry fmt_q k fs d = Inr d' \<Longrightarrow> tables_agree d \<Longrightarrow> tables_agree d'"
  by (auto simp: vendor_entry_def tables_agree_def split: if_splits sum.splits)

lemma vsa_entry_agrees: "vsa_entry fmt_q k fs d = Inr d' \<Longrightarrow> tables_agree d \<Longrightarrow> tables_agree d'"
  by (auto simp: vsa_entry_def Let_def tables_agree_def split: if_splits sum.splits option.splits)

lemma vendor_line_agrees: "vendor_line fmt_q k s d = Inr d' \<Longrightarrow> tables_agree d \<Longrightarrow> tables_agree d'"
  by (auto simp: vendor_line_def Let_def dest: vendor_entry_agrees vsa_entry_agrees split: if_splits)

lemma dict_loop_agrees:
  "(\<And>k s d d'. step k s d = Inr d' \<Longrightarrow> tables_agree d \<Longrightarrow> tables_agree d') \<Longrightarrow> tables_agree d \<Longrightarrow> tables_agree (fst (dict_loop step n ls d))"
  by (induction step n ls d rule: dict_loop.induct) (auto split: sum.splits)

lemma parse_dict_agrees:
  "(\<And>k s d d'. step k s d = Inr d' \<Longrightarrow> tables_agree d \<Longrightarrow> tables_agree d') \<Longrightarrow> tables_agree d \<Longrightarrow> tables_agree (fst (parse_dict step content d))"
  using dict_loop_agrees [of step d 0 "fst (scan_lines [] content)"]
  by (auto simp: parse_dict_def split: prod.splits option.splits)

lemma loadDicts_agrees: "tables_agree (fst (loadDicts fmt_q rfc huawei))"
proof -
  have "tables_agree dictionary_empty" by (simp add: tables_agree_def dictionary_empty_def)
  then have std: "tables_agree (fst (parseStdDict fmt_q rfc dictionary_empty))"
    using parse_dict_agrees [of "std_line fmt_q", OF std_line_agrees] by (simp add: parseStdDict_def)
  then have "tables_agree (fst (parseVendorDict fmt_q huawei (fst (parseStdDict fmt_q rfc dictionary_empty))))"
    using parse_dict_agrees [of "vendor_line fmt_q", OF vendor_line_agrees] by (simp add: parseVendorDict_def)
  with std show ?thesis by (auto simp: loadDicts_def split: prod.splits option.splits)
qed

text \<open>Whatever the embedded files hold and wherever their parse stops: a number that has a name belongs to a name that
  has a number, and the vendor attribute found for a vendor and a type is of that vendor and type.\<close>

lemma dictionary_lookups_agree:
  assumes "loadDicts fmt_q rfc huawei = (d, err)"
  shows "(LookupAttribute d n = Some m \<longrightarrow> am_Name m = n \<and> (\<exists>m'. di_stdAttrByID d (am_Type m) = Some m')) \<and>
    (di_stdAttrByID d t = Some a \<longrightarrow> AttributeName d t = am_Name a \<and> am_Type a = t \<and> LookupAttribute d (am_Name a) \<noteq> None) \<and>
    (di_vsaByID d (vsa_key v x) = Some w \<longrightarrow> VendorAttributeName d v x = vm_Name w \<and> vm_VendorID w = v \<and> vm_VendorType w = x \<and>
       LookupVendorAttribute d (vm_Name w) \<noteq> None) \<and>
    (LookupVendorAttribute d n = Some w \<longrightarrow> vm_Name w = n \<and> di_vendorByID d (vm_VendorID w) \<noteq> None)"
proof -
  have d: "tables_agree d" using loadDicts_agrees [of fmt_q rfc huawei] assms by simp
  have "vm_VendorID w = v \<and> vm_VendorType w = x" if "di_vsaByID d (vsa_key v x) = Some w"
    using d that vsa_key_inj [of v x "vm_VendorID w" "vm_VendorType w"] by (simp add: tables_agree_def)
  with d show ?thesis
    by (auto simp: tables_agree_def LookupAttribute_def LookupVendorAttribute_def AttributeName_def VendorAttributeName_def)
qed

end
