(* ===== verification/Io_IdAlloc.thy ===== *)
theory Io_IdAlloc
  imports Net "HOL-Library.AList"
begin

text \<open>
  The identifier allocator (\<^verbatim>\<open>pkg/io/idalloc.go\<close>): a 256-bit bitmap in four 64-bit words
  per (source, destination) tuple. Each operation runs under the bitmap's lock, so it is a
  function on the state. The contract an allocator gives the sender is the locale
  \<open>id_allocator\<close>, which the model implements.
\<close>

section \<open>One bitmap\<close>

record idBitmap =
  bm_bits :: "u64 list"
  bm_count :: int
  bm_next :: u8

definition idBitmap_zero :: idBitmap where
  "idBitmap_zero = \<lparr>bm_bits = [0, 0, 0, 0], bm_count = 0, bm_next = 0\<rparr>"

definition id_word :: "byte \<Rightarrow> nat" where
  "id_word i = unat i div 64"

definition id_bit :: "byte \<Rightarrow> u64" where
  "id_bit i = push_bit (unat i mod 64) 1"

text \<open>The scan of \<^verbatim>\<open>allocate\<close>, over the remaining values of its loop variable.\<close>

fun alloc_scan :: "idBitmap \<Rightarrow> nat list \<Rightarrow> (byte \<times> idBitmap) option" where
  "alloc_scan b [] = None"
| "alloc_scan b (i # is) =
    (let n = word_of_nat ((unat (bm_next b) + i) mod 256) :: byte in
     if (bm_bits b ! id_word n) AND id_bit n = 0
     then Some (n, b\<lparr>bm_bits := (bm_bits b)[id_word n := (bm_bits b ! id_word n) OR id_bit n],
                     bm_count := bm_count b + 1, bm_next := n + 1\<rparr>)
     else alloc_scan b is)"

definition bm_allocate :: "idBitmap \<Rightarrow> byte option \<times> idBitmap" where
  "bm_allocate b =
     (if bm_count b = 256 then (None, b)
      else case alloc_scan b [0..<256] of
        Some (i, b') \<Rightarrow> (Some i, b')
      | None \<Rightarrow> (None, b))"

definition bm_release :: "idBitmap \<Rightarrow> byte \<Rightarrow> idBitmap" where
  "bm_release b i =
     (if (bm_bits b ! id_word i) AND id_bit i \<noteq> 0
      then b\<lparr>bm_bits := (bm_bits b)[id_word i := (bm_bits b ! id_word i) AND NOT (id_bit i)],
             bm_count := bm_count b - 1\<rparr>
      else b)"

definition bm_inflight :: "idBitmap \<Rightarrow> int" where
  "bm_inflight b = bm_count b"

section \<open>The allocator\<close>

record tuple4 =
  SrcIP :: bytes
  SrcPort :: u16
  DstIP :: bytes
  DstPort :: u16

text \<open>\<^verbatim>\<open>copyIPInto\<close> on a zeroed array; \<open>To16\<close> of what is not an IPv4 address.\<close>

definition copyIPInto :: "bytes \<Rightarrow> bytes" where
  "copyIPInto ip = (case to4 ip of
       Some v4 \<Rightarrow> replicate 10 0 @ [0xff, 0xff] @ v4
     | None \<Rightarrow> if length ip = 16 then ip else replicate 16 0)"

definition MakeTuple :: "udp_addr \<Rightarrow> udp_addr \<Rightarrow> tuple4" where
  "MakeTuple src dst = \<lparr>SrcIP = copyIPInto (fst src), SrcPort = word_of_int (snd src),
     DstIP = copyIPInto (fst dst), DstPort = word_of_int (snd dst)\<rparr>"

type_synonym id_alloc = "(tuple4 \<times> idBitmap) list"

definition NewIDAllocator :: id_alloc where "NewIDAllocator = []"

definition bitmap_of :: "id_alloc \<Rightarrow> tuple4 \<Rightarrow> idBitmap" where
  "bitmap_of a t = (case map_of a t of Some b \<Rightarrow> b | None \<Rightarrow> idBitmap_zero)"

definition Allocate :: "id_alloc \<Rightarrow> tuple4 \<Rightarrow> byte option \<times> id_alloc" where
  "Allocate a t =
     (let (r, b) = bm_allocate (bitmap_of a t) in (r, AList.update t b a))"

definition Release :: "id_alloc \<Rightarrow> tuple4 \<Rightarrow> byte \<Rightarrow> id_alloc" where
  "Release a t i = (case map_of a t of
       None \<Rightarrow> a
     | Some b \<Rightarrow> AList.update t (bm_release b i) a)"

definition Inflight :: "id_alloc \<Rightarrow> tuple4 \<Rightarrow> int" where
  "Inflight a t = (case map_of a t of None \<Rightarrow> 0 | Some b \<Rightarrow> bm_inflight b)"

definition TupleCount :: "id_alloc \<Rightarrow> nat" where
  "TupleCount a = length a"

section \<open>What a bitmap holds\<close>

definition bm_held :: "idBitmap \<Rightarrow> byte set" where
  "bm_held b = {i. bit (bm_bits b ! id_word i) (unat i mod 64)}"

definition bm_inv :: "idBitmap \<Rightarrow> bool" where
  "bm_inv b \<longleftrightarrow> length (bm_bits b) = 4 \<and> bm_count b = int (card (bm_held b))"

lemma id_word_lt: "id_word i < 4"
  using unat_byte_bound [of i] by (simp add: id_word_def less_mult_imp_div_less)

lemma id_coords: "id_word i = id_word j \<Longrightarrow> unat i mod 64 = unat j mod 64 \<Longrightarrow> i = j"
  unfolding id_word_def by (metis div_mult_mod_eq word_unat_eq_iff)

lemma id_bit_and: "(w AND id_bit i = 0) \<longleftrightarrow> \<not> bit w (unat i mod 64)"
proof -
  have "w AND id_bit i = (if bit w (unat i mod 64) then id_bit i else 0)"
    by (rule bit_word_eqI) (auto simp: id_bit_def bit_simps)
  moreover have "id_bit i \<noteq> 0"
  proof
    assume "id_bit i = 0"
    then have "bit (id_bit i) (unat i mod 64) = False" by simp
    then show False by (simp add: id_bit_def bit_simps)
  qed
  ultimately show ?thesis by simp
qed

lemma held_set:
  assumes "length (bm_bits b) = 4"
  shows "bm_held (b\<lparr>bm_bits := (bm_bits b)[id_word i := (bm_bits b ! id_word i) OR id_bit i], bm_count := c, bm_next := n\<rparr>)
      = insert i (bm_held b)"
proof -
  have "bit ((bm_bits b)[id_word i := (bm_bits b ! id_word i) OR id_bit i] ! id_word j) (unat j mod 64)
    \<longleftrightarrow> j = i \<or> bit (bm_bits b ! id_word j) (unat j mod 64)" for j
    using id_word_lt [of i] id_word_lt [of j] assms id_coords [of j i]
    by (cases "id_word j = id_word i") (auto simp: id_bit_def bit_simps)
  then show ?thesis by (auto simp: bm_held_def)
qed

lemma held_clear:
  assumes "length (bm_bits b) = 4"
  shows "bm_held (b\<lparr>bm_bits := (bm_bits b)[id_word i := (bm_bits b ! id_word i) AND NOT (id_bit i)], bm_count := c\<rparr>)
      = bm_held b - {i}"
proof -
  have "bit ((bm_bits b)[id_word i := (bm_bits b ! id_word i) AND NOT (id_bit i)] ! id_word j) (unat j mod 64)
    \<longleftrightarrow> j \<noteq> i \<and> bit (bm_bits b ! id_word j) (unat j mod 64)" for j
    using id_word_lt [of i] id_word_lt [of j] assms id_coords [of j i]
    by (cases "id_word j = id_word i") (auto simp: id_bit_def bit_simps)
  then show ?thesis by (auto simp: bm_held_def)
qed

lemma free_iff: "(bm_bits b ! id_word i) AND id_bit i = 0 \<longleftrightarrow> i \<notin> bm_held b"
  by (simp add: id_bit_and bm_held_def)

lemma alloc_scan_Some:
  "alloc_scan b is = Some (i, b') \<Longrightarrow> length (bm_bits b) = 4 \<Longrightarrow>
    i \<notin> bm_held b \<and> bm_held b' = insert i (bm_held b) \<and> bm_count b' = bm_count b + 1
    \<and> length (bm_bits b') = 4 \<and> bm_next b' = i + 1"
  by (induction b "is" rule: alloc_scan.induct)
    (auto simp: Let_def free_iff held_set split: if_splits)

lemma alloc_scan_None:
  "alloc_scan b is = None \<longleftrightarrow>
    (\<forall>i \<in> set is. word_of_nat ((unat (bm_next b) + i) mod 256) \<in> bm_held b)"
  by (induction b "is" rule: alloc_scan.induct) (auto simp: Let_def free_iff split: if_splits)

text \<open>The scan starts at \<open>bm_next\<close> and wraps around: it visits every identifier.\<close>

lemma scan_visits: "\<exists>i < 256. word_of_nat ((unat (n :: byte) + i) mod 256) = (j :: byte)"
proof (intro exI conjI)
  let ?i = "unat (j - n)"
  show "?i < 256" by (rule unat_byte_bound)
  have "word_of_nat (m mod 256) = (word_of_nat m :: byte)" for m :: nat
    by (simp add: word_of_nat_eq_iff take_bit_eq_mod)
  then have "word_of_nat ((unat n + ?i) mod 256) = (word_of_nat (unat n + ?i) :: byte)" .
  also have "\<dots> = word_of_nat (unat n) + word_of_nat ?i" by (rule of_nat_add)
  also have "\<dots> = n + (j - n)" unfolding of_nat_unat ucast_id ..
  finally show "word_of_nat ((unat n + ?i) mod 256) = j" by simp
qed

lemma finite_byte_set [simp]: "finite (S :: byte set)"
  by (rule finite_subset [OF subset_UNIV]) simp

lemma card_bytes: "card (UNIV :: byte set) = 256"
  by (simp add: card_word)

lemma bm_allocate_Some:
  assumes "bm_allocate b = (Some i, b')" "bm_inv b"
  shows "i \<notin> bm_held b \<and> bm_held b' = insert i (bm_held b) \<and> bm_inv b'"
  using assms alloc_scan_Some [of b "[0..<256]" i b']
  by (auto simp: bm_allocate_def bm_inv_def split: if_splits option.splits)

lemma bm_allocate_None:
  assumes "bm_inv b"
  shows "bm_allocate b = (None, b') \<longleftrightarrow> bm_held b = UNIV \<and> b' = b"
proof -
  have full: "bm_count b = 256 \<longleftrightarrow> bm_held b = UNIV"
    using assms card_bytes card_subset_eq [of UNIV "bm_held b"]
    by (auto simp: bm_inv_def)
  have "alloc_scan b [0..<256] = None \<longleftrightarrow> bm_held b = UNIV"
    unfolding alloc_scan_None using scan_visits [of "bm_next b"]
    by (metis UNIV_I UNIV_eq_I atLeastLessThan_iff le0 set_upt)
  with full show ?thesis
    by (auto simp: bm_allocate_def split: option.splits)
qed

lemma bm_release_ok:
  assumes "bm_inv b"
  shows "bm_held (bm_release b i) = bm_held b - {i} \<and> bm_inv (bm_release b i)"
proof (cases "i \<in> bm_held b")
  case True
  have len: "length (bm_bits b) = 4" using assms by (simp add: bm_inv_def)
  have "card (bm_held b) > 0" using True by (auto simp: card_gt_0_iff)
  with True len assms show ?thesis
    using held_clear [OF len, where i = i and c = "bm_count b - 1"] free_iff [of b i]
    by (simp add: bm_release_def bm_inv_def of_nat_diff)
next
  case False
  then show ?thesis using assms free_iff [of b i] by (simp add: bm_release_def)
qed

lemma bm_zero: "bm_held idBitmap_zero = {}" "bm_inv idBitmap_zero"
proof -
  have "[0, 0, 0, 0 :: u64] ! id_word i = 0" for i
    using id_word_lt [of i] by (auto simp: less_Suc_eq numeral_eq_Suc)
  then show "bm_held idBitmap_zero = {}" by (simp add: bm_held_def idBitmap_zero_def)
  then show "bm_inv idBitmap_zero" by (simp add: bm_inv_def) (simp add: idBitmap_zero_def)
qed

section \<open>The contract of an allocator\<close>

text \<open>
  What the sender relies on: the identifiers held for a key, taking one that is free,
  giving one back, keys independent of each other. A sequence of requests answered by any
  such allocator never hands out an identifier twice without a release in between.
\<close>

datatype 'k id_op = Take 'k byte | Refuse 'k | Give 'k byte

text \<open>A run: the operations with the answers the allocator gave.\<close>

fun alloc_run :: "('s \<Rightarrow> 'k \<Rightarrow> byte option \<times> 's) \<Rightarrow> ('s \<Rightarrow> 'k \<Rightarrow> byte \<Rightarrow> 's) \<Rightarrow>
    's \<Rightarrow> 'k id_op list \<Rightarrow> 's option" where
  "alloc_run alloc give s [] = Some s"
| "alloc_run alloc give s (Take k i # ops) = (case alloc s k of
      (Some j, s') \<Rightarrow> if j = i then alloc_run alloc give s' ops else None | (None, s') \<Rightarrow> None)"
| "alloc_run alloc give s (Refuse k # ops) = (case alloc s k of
      (Some j, s') \<Rightarrow> None | (None, s') \<Rightarrow> alloc_run alloc give s' ops)"
| "alloc_run alloc give s (Give k i # ops) = alloc_run alloc give (give s k i) ops"

locale id_allocator =
  fixes inv :: "'s \<Rightarrow> bool"
    and held :: "'s \<Rightarrow> 'k \<Rightarrow> byte set"
    and alloc :: "'s \<Rightarrow> 'k \<Rightarrow> byte option \<times> 's"
    and give :: "'s \<Rightarrow> 'k \<Rightarrow> byte \<Rightarrow> 's"
  assumes alloc_some: "inv s \<Longrightarrow> alloc s k = (Some i, s') \<Longrightarrow>
      inv s' \<and> i \<notin> held s k \<and> held s' = (held s)(k := insert i (held s k))"
    and alloc_none: "inv s \<Longrightarrow> alloc s k = (None, s') \<Longrightarrow>
      inv s' \<and> held s k = UNIV \<and> held s' = held s"
    and give_back: "inv s \<Longrightarrow> inv (give s k i) \<and> held (give s k i) = (held s)(k := held s k - {i})"
begin

lemma alloc_iff:
  assumes "inv s"
  shows "(\<exists>i s'. alloc s k = (Some i, s')) \<longleftrightarrow> held s k \<noteq> UNIV"
proof (cases "fst (alloc s k)")
  case None
  then have a: "alloc s k = (None, snd (alloc s k))" by (metis prod.collapse)
  have "held s k = UNIV" using alloc_none [OF assms a] by simp
  then show ?thesis by (subst a) simp
next
  case (Some i)
  then have a: "alloc s k = (Some i, snd (alloc s k))" by (metis prod.collapse)
  have "held s k \<noteq> UNIV" using alloc_some [OF assms a] by auto
  then show ?thesis using a by blast
qed

abbreviation run :: "'s \<Rightarrow> 'k id_op list \<Rightarrow> 's option" where
  "run \<equiv> alloc_run alloc give"

lemma run_Take: "run s (Take k i # ops) = Some s' \<longleftrightarrow> (\<exists>s1. alloc s k = (Some i, s1) \<and> run s1 ops = Some s')"
  by (auto split: prod.splits option.splits)

lemma run_Refuse: "run s (Refuse k # ops) = Some s' \<longleftrightarrow> (\<exists>s1. alloc s k = (None, s1) \<and> run s1 ops = Some s')"
  by (auto split: prod.splits option.splits)

lemma run_inv: "run s ops = Some s' \<Longrightarrow> inv s \<Longrightarrow> inv s'"
proof (induction ops arbitrary: s)
  case (Cons op ops)
  show ?case
  proof (cases op)
    case (Take k i)
    with Cons.prems obtain s1 where "alloc s k = (Some i, s1)" "run s1 ops = Some s'"
      by (auto simp only: run_Take)
    with Cons.IH [of s1] alloc_some [of s k i s1] Cons.prems(2) show ?thesis by blast
  next
    case (Refuse k)
    with Cons.prems obtain s1 where "alloc s k = (None, s1)" "run s1 ops = Some s'"
      by (auto simp only: run_Refuse)
    with Cons.IH [of s1] alloc_none [of s k s1] Cons.prems(2) show ?thesis by blast
  next
    case (Give k i)
    with Cons give_back [of s k i] show ?thesis by simp
  qed
qed simp

lemma run_append: "run s (xs @ ys) = Option.bind (run s xs) (\<lambda>s'. run s' ys)"
  by (induction alloc give s xs rule: alloc_run.induct) (auto split: prod.splits option.splits)

lemma held_until_given:
  assumes "run s ops = Some s'" "inv s" "i \<in> held s k" "Give k i \<notin> set ops"
  shows "i \<in> held s' k \<and> Take k i \<notin> set ops"
  using assms
proof (induction ops arbitrary: s)
  case (Cons op ops)
  show ?case
  proof (cases op)
    case (Take k' j)
    with Cons.prems obtain s1 where s1: "alloc s k' = (Some j, s1)" "run s1 ops = Some s'"
      by (auto simp only: run_Take)
    from alloc_some [OF Cons.prems(2) s1(1)] Cons.prems(3) have "inv s1" "i \<in> held s1 k" "j \<notin> held s k'"
      by auto
    with Cons.IH [OF s1(2)] Cons.prems Take show ?thesis by auto
  next
    case (Refuse k')
    with Cons.prems obtain s1 where s1: "alloc s k' = (None, s1)" "run s1 ops = Some s'"
      by (auto simp only: run_Refuse)
    from alloc_none [OF Cons.prems(2) s1(1)] Cons.prems(3) have "inv s1" "i \<in> held s1 k" by auto
    with Cons.IH [OF s1(2)] Cons.prems Refuse show ?thesis by auto
  next
    case (Give k' j)
    from give_back [OF Cons.prems(2), of k' j] Cons.prems(3,4) Give
    have "inv (give s k' j)" "i \<in> held (give s k' j) k" by auto
    moreover have "run (give s k' j) ops = Some s'" using Cons.prems(1) Give by simp
    ultimately show ?thesis using Cons.IH [of "give s k' j"] Cons.prems(4) Give by auto
  qed
qed simp

text \<open>Between two takes of one identifier for one key lies a release of it.\<close>

lemma no_double_take:
  assumes "run s (xs @ Take k i # ys @ Take k i # zs) = Some s'" "inv s"
  shows "Give k i \<in> set ys"
proof (rule ccontr)
  assume no: "Give k i \<notin> set ys"
  from assms(1) obtain s1 s2 where r: "run s xs = Some s1" "alloc s1 k = (Some i, s2)"
      "run s2 (ys @ Take k i # zs) = Some s'"
    by (auto simp only: run_append bind_eq_Some_conv run_Take)
  then obtain s3 where s3: "run s2 ys = Some s3" "run s3 (Take k i # zs) = Some s'"
    by (auto simp only: run_append bind_eq_Some_conv)
  from alloc_some [OF run_inv [OF r(1) assms(2)] r(2)] have h: "inv s2" "i \<in> held s2 k" by auto
  from held_until_given [OF s3(1) h no] run_inv [OF s3(1) h(1)] have "inv s3" "i \<in> held s3 k" by auto
  with s3(2) alloc_some [of s3 k i] show False by (auto simp only: run_Take)
qed

end

section \<open>The model implements it\<close>

definition id_inv :: "id_alloc \<Rightarrow> bool" where
  "id_inv a \<longleftrightarrow> (\<forall>t b. map_of a t = Some b \<longrightarrow> bm_inv b)"

definition id_held :: "id_alloc \<Rightarrow> tuple4 \<Rightarrow> byte set" where
  "id_held a t = bm_held (bitmap_of a t)"

lemma bitmap_of_update: "bitmap_of (AList.update t b a) u = (if u = t then b else bitmap_of a u)"
  by (simp add: bitmap_of_def update_conv')

lemma id_inv_bitmap: "id_inv a \<Longrightarrow> bm_inv (bitmap_of a t)"
  by (auto simp: id_inv_def bitmap_of_def bm_zero split: option.splits)

lemma id_inv_update: "id_inv a \<Longrightarrow> bm_inv b \<Longrightarrow> id_inv (AList.update t b a)"
  by (auto simp: id_inv_def update_conv' split: if_splits)

lemma Release_held:
  "id_inv a \<Longrightarrow> id_inv (Release a t i) \<and> id_held (Release a t i) = (id_held a)(t := id_held a t - {i})"
proof (cases "map_of a t")
  case None
  then have "Release a t i = a" "id_held a t = {}"
    by (simp_all add: Release_def id_held_def bitmap_of_def bm_zero)
  then show "id_inv a \<Longrightarrow> ?thesis" by (simp add: fun_upd_idem)
next
  case (Some b)
  then have b: "bitmap_of a t = b" and r: "Release a t i = AList.update t (bm_release b i) a"
    by (simp_all add: Release_def bitmap_of_def)
  assume inv: "id_inv a"
  from bm_release_ok [OF id_inv_bitmap [OF inv, of t], of i]
  have ok: "bm_held (bm_release b i) = bm_held b - {i}" "bm_inv (bm_release b i)" by (simp_all add: b)
  have "id_held (Release a t i) u = ((id_held a)(t := id_held a t - {i})) u" for u
    by (simp add: r id_held_def bitmap_of_update ok b)
  then show ?thesis using id_inv_update [OF inv ok(2)] r by auto
qed

interpretation ids: id_allocator id_inv id_held Allocate Release
proof
  fix s k i s'
  assume inv: "id_inv s" and a: "Allocate s k = (Some i, s')"
  from a obtain b where b: "bm_allocate (bitmap_of s k) = (Some i, b)" "s' = AList.update k b s"
    by (auto simp: Allocate_def Let_def split: prod.splits)
  from bm_allocate_Some [OF b(1) id_inv_bitmap [OF inv]]
  show "id_inv s' \<and> i \<notin> id_held s k \<and> id_held s' = (id_held s)(k := insert i (id_held s k))"
    by (auto simp: b(2) id_inv_update [OF inv] id_held_def bitmap_of_update fun_eq_iff)
next
  fix s k s'
  assume inv: "id_inv s" and a: "Allocate s k = (None, s')"
  from a obtain b where b: "bm_allocate (bitmap_of s k) = (None, b)" "s' = AList.update k b s"
    by (auto simp: Allocate_def Let_def split: prod.splits)
  from b(1) bm_allocate_None [OF id_inv_bitmap [OF inv], of k b]
  show "id_inv s' \<and> id_held s k = UNIV \<and> id_held s' = id_held s"
    by (auto simp: b(2) id_inv_update [OF inv] id_inv_bitmap [OF inv] id_held_def bitmap_of_update fun_eq_iff)
next
  fix s k i
  assume "id_inv s"
  then show "id_inv (Release s k i) \<and> id_held (Release s k i) = (id_held s)(k := id_held s k - {i})"
    by (rule Release_held)
qed

lemma NewIDAllocator_inv: "id_inv NewIDAllocator" "id_held NewIDAllocator t = {}"
  by (simp_all add: NewIDAllocator_def id_inv_def id_held_def bitmap_of_def bm_zero)

lemma Inflight_card: "id_inv a \<Longrightarrow> Inflight a t = int (card (id_held a t))"
  using id_inv_bitmap [of a t]
  by (auto simp: Inflight_def bm_inflight_def id_held_def bitmap_of_def bm_inv_def bm_zero
      split: option.splits)

section \<open>Properties\<close>

text \<open>C36: Identifiers are not reused while in flight. In any sequence of allocations, refusals and
  releases on an allocator, two allocations of the same identifier on the same tuple have a release
  of it in between.\<close>

theorem identifier_not_reused_in_flight:
  assumes "id_inv a" "alloc_run Allocate Release a (xs @ Take t i # ys @ Take t i # zs) = Some a'"
  shows "Give t i \<in> set ys"
  by (rule ids.no_double_take [OF assms(2,1)])

definition demo_tuple :: tuple4 where
  "demo_tuple = MakeTuple ([127, 0, 0, 1], 40000) ([10, 0, 0, 1], 1812)"

definition full_but_5 :: id_alloc where
  "full_but_5 = [(demo_tuple, \<lparr>bm_bits = [- 33, - 1, - 1, - 1], bm_count = 255, bm_next = 5\<rparr>)]"

lemma bit_minus_33: "n < 64 \<Longrightarrow> bit (- 33 :: u64) n \<longleftrightarrow> n \<noteq> 5"
proof -
  assume n: "n < 64"
  have "bit (push_bit 5 1 :: u64) n \<longleftrightarrow> n = 5"
    using n by (auto simp only: bit_push_bit_iff bit_1_iff) simp_all
  moreover have "(- 33 :: u64) = NOT (push_bit 5 1)" by simp
  ultimately show ?thesis using n by (simp only: bit_not_iff_eq) simp
qed

lemma full_held: "id_held full_but_5 demo_tuple = UNIV - {5}"
proof -
  have "bit ([- 33, - 1, - 1, - 1 :: u64] ! id_word i) (unat i mod 64) \<longleftrightarrow> i \<noteq> 5" for i :: byte
  proof -
    have "bit (- 1 :: u64) (unat i mod 64)" by (simp add: bit_simps)
    moreover have "id_word i = 0 \<or> id_word i \<noteq> 0 \<and> [- 33, - 1, - 1, - 1 :: u64] ! id_word i = - 1"
      using id_word_lt [of i] by (auto simp: less_Suc_eq numeral_eq_Suc)
    moreover have "id_word (5 :: byte) = 0" "unat (5 :: byte) mod 64 = 5" by (simp_all add: id_word_def)
    ultimately show ?thesis using id_coords [of i 5] bit_minus_33 [of "unat i mod 64"] by auto
  qed
  then show ?thesis by (auto simp: id_held_def bitmap_of_def full_but_5_def bm_held_def)
qed

lemma full_inv: "id_inv full_but_5"
proof -
  have "card (UNIV - {5 :: byte}) = 255" using card_bytes by (simp add: card_Diff_singleton)
  with full_held show ?thesis
   by (simp add: id_inv_def bm_inv_def full_but_5_def id_held_def bitmap_of_def)
qed

lemma only_free:
  assumes "id_inv a" "id_held a t = UNIV - {i}"
  shows "\<exists>a'. Allocate a t = (Some i, a') \<and> id_inv a' \<and> id_held a' t = UNIV"
proof -
  obtain j a' where a: "Allocate a t = (Some j, a')" using ids.alloc_iff [OF assms(1), of t] assms(2) by auto
  from ids.alloc_some [OF assms(1) a] assms(2) a show ?thesis by auto
qed

lemma demo_alloc_cycle:
  "\<exists>a'. alloc_run Allocate Release full_but_5
     ([] @ Take demo_tuple 5 # [Give demo_tuple 5] @ Take demo_tuple 5 # []) = Some a'"
proof -
  obtain a1 where a1: "Allocate full_but_5 demo_tuple = (Some 5, a1)" "id_inv a1" "id_held a1 demo_tuple = UNIV"
    using only_free [OF full_inv full_held] by blast
  from ids.give_back [OF a1(2), of demo_tuple 5] a1(3)
  obtain a2 where a2: "Allocate (Release a1 demo_tuple 5) demo_tuple = (Some 5, a2)"
    using only_free [of "Release a1 demo_tuple 5" demo_tuple 5] by auto
  from a1(1) a2 show ?thesis by simp
qed

theorem identifier_not_reused_in_flight_witness:
  "\<exists>a'. alloc_run Allocate Release full_but_5
      ([] @ Take demo_tuple 5 # [Give demo_tuple 5] @ Take demo_tuple 5 # []) = Some a'
    \<and> Give demo_tuple 5 \<in> set [Give demo_tuple (5 :: byte)]"
  using demo_alloc_cycle identifier_not_reused_in_flight [OF full_inv] by blast

text \<open>Allocation fails only on a full tuple, and counts. An identifier is returned iff
  fewer than 256 are in flight for the tuple; it was free, its tuple has one more in flight, and no
  other tuple changes.\<close>

theorem allocate_until_full:
  assumes "id_inv a" "Allocate a t = (r, a')"
  shows "(r \<noteq> None \<longleftrightarrow> Inflight a t < 256) \<and> id_inv a'
    \<and> (\<forall>i. r = Some i \<longrightarrow> i \<notin> id_held a t \<and> Inflight a' t = Inflight a t + 1
          \<and> id_held a' = (id_held a)(t := insert i (id_held a t)))
    \<and> (r = None \<longrightarrow> id_held a' = id_held a)"
proof (cases r)
  case None
  from ids.alloc_none [OF assms(1) assms(2) [unfolded None]]
  have "id_inv a'" "id_held a t = UNIV" "id_held a' = id_held a" by auto
  then show ?thesis using Inflight_card [OF assms(1), of t] card_bytes None by simp
next
  case (Some i)
  from ids.alloc_some [OF assms(1) assms(2) [unfolded Some]]
  have s: "id_inv a'" "i \<notin> id_held a t" "id_held a' = (id_held a)(t := insert i (id_held a t))" by auto
  have "card (id_held a t) < card (UNIV :: byte set)"
    using s(2) by (intro psubset_card_mono) auto
  with s Some Inflight_card [OF assms(1), of t] Inflight_card [OF s(1), of t] card_bytes
  show ?thesis by simp
qed

theorem allocate_until_full_witness:
  "\<exists>i a'. Allocate NewIDAllocator demo_tuple = (Some i, a') \<and> Inflight a' demo_tuple = 1"
proof -
  obtain r a' where a: "Allocate NewIDAllocator demo_tuple = (r, a')" by fastforce
  have "Inflight NewIDAllocator demo_tuple = 0" by (simp add: Inflight_def NewIDAllocator_def)
  with allocate_until_full [OF NewIDAllocator_inv(1) a] a show ?thesis by (cases r) auto
qed

end
