(* ===== verification/Events.thy ===== *)
theory Events
  imports Prelude
begin

text \<open>
  The event and outcome records of \<^verbatim>\<open>pkg/events\<close> with their constructors and string
  constants. A constructor reads the wall clock and the monotonic clock; the readings made
  for one event, with the reading its caller takes for the offset, are a \<open>stamp\<close>.
  Go's signed integer fields are \<open>int\<close>; the conversions at the call sites say which values
  they hold.
\<close>

section \<open>Constants\<close>

abbreviation (input) CategorySubscriberLifecycle :: string where "CategorySubscriberLifecycle \<equiv> ''subscriber_lifecycle''"
abbreviation (input) CategoryPacketOutbound :: string where "CategoryPacketOutbound \<equiv> ''packet_outbound''"
abbreviation (input) CategoryPacketInbound :: string where "CategoryPacketInbound \<equiv> ''packet_inbound''"
abbreviation (input) CategoryCoAInbound :: string where "CategoryCoAInbound \<equiv> ''coa_inbound''"
abbreviation (input) CategoryDisconnectInbound :: string where "CategoryDisconnectInbound \<equiv> ''disconnect_inbound''"
abbreviation (input) CategoryError :: string where "CategoryError \<equiv> ''error''"
abbreviation (input) EventTypeSubscriberCreated :: string where "EventTypeSubscriberCreated \<equiv> ''created''"
abbreviation (input) EventTypeSubscriberActivated :: string where "EventTypeSubscriberActivated \<equiv> ''activated''"
abbreviation (input) EventTypeStateChanged :: string where "EventTypeStateChanged \<equiv> ''state_changed''"
abbreviation (input) EventTypeSubscriberTerminal :: string where "EventTypeSubscriberTerminal \<equiv> ''terminal''"
abbreviation (input) EventTypeRequestSent :: string where "EventTypeRequestSent \<equiv> ''request_sent''"
abbreviation (input) EventTypeRequestRetransmitted :: string where "EventTypeRequestRetransmitted \<equiv> ''request_retransmitted''"
abbreviation (input) EventTypeReplyReceived :: string where "EventTypeReplyReceived \<equiv> ''reply_received''"
abbreviation (input) EventTypeDuplicateReply :: string where "EventTypeDuplicateReply \<equiv> ''duplicate_reply''"
abbreviation (input) EventTypeUnmatchedReply :: string where "EventTypeUnmatchedReply \<equiv> ''unmatched_reply''"
abbreviation (input) EventTypeCoAReceived :: string where "EventTypeCoAReceived \<equiv> ''coa_received''"
abbreviation (input) EventTypeCoAAcked :: string where "EventTypeCoAAcked \<equiv> ''coa_acked''"
abbreviation (input) EventTypeCoANaked :: string where "EventTypeCoANaked \<equiv> ''coa_naked''"
abbreviation (input) EventTypeCoADropped :: string where "EventTypeCoADropped \<equiv> ''coa_dropped''"
abbreviation (input) EventTypeDisconnectReceived :: string where "EventTypeDisconnectReceived \<equiv> ''disconnect_received''"
abbreviation (input) EventTypeDisconnectAcked :: string where "EventTypeDisconnectAcked \<equiv> ''disconnect_acked''"
abbreviation (input) EventTypeDisconnectNaked :: string where "EventTypeDisconnectNaked \<equiv> ''disconnect_naked''"
abbreviation (input) EventTypeValidationFailed :: string where "EventTypeValidationFailed \<equiv> ''validation_failed''"
abbreviation (input) EventTypeInternalError :: string where "EventTypeInternalError \<equiv> ''internal_error''"
abbreviation (input) AuthMethodPAP :: string where "AuthMethodPAP \<equiv> ''pap''"
abbreviation (input) AuthMethodCHAP :: string where "AuthMethodCHAP \<equiv> ''chap''"
abbreviation (input) SubTypePPPoE :: string where "SubTypePPPoE \<equiv> ''pppoe''"
abbreviation (input) SubTypeMAC :: string where "SubTypeMAC \<equiv> ''mac''"
abbreviation (input) FinalStateEstablished :: string where "FinalStateEstablished \<equiv> ''established''"
abbreviation (input) FinalStateAuthFailed :: string where "FinalStateAuthFailed \<equiv> ''auth_failed''"
abbreviation (input) FinalStateAcctFailed :: string where "FinalStateAcctFailed \<equiv> ''acct_failed''"
abbreviation (input) FinalStateTerminated :: string where "FinalStateTerminated \<equiv> ''terminated''"
abbreviation (input) FinalStateInFlight :: string where "FinalStateInFlight \<equiv> ''in_flight''"

definition AllCategories :: "string list" where
  "AllCategories = [CategorySubscriberLifecycle, CategoryPacketOutbound, CategoryPacketInbound,
     CategoryCoAInbound, CategoryDisconnectInbound, CategoryError]"

definition NoIdentifier :: int where "NoIdentifier = -1"

definition NotApplicableMs :: int where "NotApplicableMs = -1"

section \<open>Events\<close>

text \<open>\<open>st_wall\<close> and \<open>st_mono\<close> are the constructor's readings, \<open>st_now\<close> the caller's.\<close>

record stamp =
  st_wall :: int
  st_mono :: int
  st_now :: int

record event =
  EvTimestamp :: int
  EvMonotonicNs :: int
  EvOffsetMs :: int
  EvSubscriberID :: u32
  EvCategory :: string
  EvEventType :: string
  EvState :: string
  EvRadiusCode :: int
  EvIdentifier :: int
  EvLocalAddr :: string
  EvRemoteAddr :: string
  EvPacketBytes :: int
  EvLatencyUs :: int
  EvRetransmitN :: int
  EvErrorCause :: int
  EvErrorMessage :: string
  EvTags :: "string \<rightharpoonup> string"

definition event_zero :: event where
  "event_zero = \<lparr>EvTimestamp = 0, EvMonotonicNs = 0, EvOffsetMs = 0, EvSubscriberID = 0,
     EvCategory = [], EvEventType = [], EvState = [], EvRadiusCode = 0, EvIdentifier = 0,
     EvLocalAddr = [], EvRemoteAddr = [], EvPacketBytes = 0, EvLatencyUs = 0, EvRetransmitN = 0,
     EvErrorCause = 0, EvErrorMessage = [], EvTags = Map.empty\<rparr>"

definition NewSubscriberCreated :: "stamp \<Rightarrow> u32 \<Rightarrow> int \<Rightarrow> string \<Rightarrow> event" where
  "NewSubscriberCreated s subID offsetMs state =
     event_zero\<lparr>EvTimestamp := st_wall s, EvMonotonicNs := st_mono s, EvOffsetMs := offsetMs,
       EvSubscriberID := subID, EvCategory := CategorySubscriberLifecycle, EvEventType := EventTypeSubscriberCreated,
       EvState := state, EvIdentifier := NoIdentifier\<rparr>"

definition NewSubscriberActivated :: "stamp \<Rightarrow> u32 \<Rightarrow> int \<Rightarrow> string \<Rightarrow> event" where
  "NewSubscriberActivated s subID offsetMs state =
     event_zero\<lparr>EvTimestamp := st_wall s, EvMonotonicNs := st_mono s, EvOffsetMs := offsetMs,
       EvSubscriberID := subID, EvCategory := CategorySubscriberLifecycle, EvEventType := EventTypeSubscriberActivated,
       EvState := state, EvIdentifier := NoIdentifier\<rparr>"

definition NewStateChanged :: "stamp \<Rightarrow> u32 \<Rightarrow> int \<Rightarrow> string \<Rightarrow> event" where
  "NewStateChanged s subID offsetMs state =
     event_zero\<lparr>EvTimestamp := st_wall s, EvMonotonicNs := st_mono s, EvOffsetMs := offsetMs,
       EvSubscriberID := subID, EvCategory := CategorySubscriberLifecycle, EvEventType := EventTypeStateChanged,
       EvState := state, EvIdentifier := NoIdentifier\<rparr>"

definition NewTerminal :: "stamp \<Rightarrow> u32 \<Rightarrow> int \<Rightarrow> string \<Rightarrow> event" where
  "NewTerminal s subID offsetMs state =
     event_zero\<lparr>EvTimestamp := st_wall s, EvMonotonicNs := st_mono s, EvOffsetMs := offsetMs,
       EvSubscriberID := subID, EvCategory := CategorySubscriberLifecycle, EvEventType := EventTypeSubscriberTerminal,
       EvState := state, EvIdentifier := NoIdentifier\<rparr>"

definition NewRequestSent :: "stamp \<Rightarrow> u32 \<Rightarrow> int \<Rightarrow> string \<Rightarrow> int \<Rightarrow> int \<Rightarrow> string \<Rightarrow> string \<Rightarrow> int \<Rightarrow> int \<Rightarrow> event" where
  "NewRequestSent s subID offsetMs state code identifier local remote nbytes retryN =
     event_zero\<lparr>EvTimestamp := st_wall s, EvMonotonicNs := st_mono s, EvOffsetMs := offsetMs,
       EvSubscriberID := subID, EvCategory := CategoryPacketOutbound, EvEventType := (if retryN > 0 then EventTypeRequestRetransmitted else EventTypeRequestSent),
       EvState := state, EvRadiusCode := code, EvIdentifier := identifier,
       EvLocalAddr := local, EvRemoteAddr := remote, EvPacketBytes := nbytes,
       EvRetransmitN := retryN\<rparr>"

definition NewReplyReceived :: "stamp \<Rightarrow> u32 \<Rightarrow> int \<Rightarrow> string \<Rightarrow> int \<Rightarrow> int \<Rightarrow> string \<Rightarrow> string \<Rightarrow> int \<Rightarrow> int \<Rightarrow> event" where
  "NewReplyReceived s subID offsetMs state code identifier local remote nbytes latencyUs =
     event_zero\<lparr>EvTimestamp := st_wall s, EvMonotonicNs := st_mono s, EvOffsetMs := offsetMs,
       EvSubscriberID := subID, EvCategory := CategoryPacketInbound, EvEventType := EventTypeReplyReceived,
       EvState := state, EvRadiusCode := code, EvIdentifier := identifier,
       EvLocalAddr := local, EvRemoteAddr := remote, EvPacketBytes := nbytes,
       EvLatencyUs := latencyUs\<rparr>"

definition NewDuplicateReply :: "stamp \<Rightarrow> u32 \<Rightarrow> int \<Rightarrow> int \<Rightarrow> int \<Rightarrow> string \<Rightarrow> string \<Rightarrow> int \<Rightarrow> event" where
  "NewDuplicateReply s subID offsetMs code identifier local remote nbytes =
     event_zero\<lparr>EvTimestamp := st_wall s, EvMonotonicNs := st_mono s, EvOffsetMs := offsetMs,
       EvSubscriberID := subID, EvCategory := CategoryPacketInbound, EvEventType := EventTypeDuplicateReply,
       EvRadiusCode := code, EvIdentifier := identifier, EvLocalAddr := local,
       EvRemoteAddr := remote, EvPacketBytes := nbytes\<rparr>"

definition NewUnmatchedReply :: "stamp \<Rightarrow> int \<Rightarrow> int \<Rightarrow> int \<Rightarrow> string \<Rightarrow> string \<Rightarrow> int \<Rightarrow> event" where
  "NewUnmatchedReply s offsetMs code identifier local remote nbytes =
     event_zero\<lparr>EvTimestamp := st_wall s, EvMonotonicNs := st_mono s, EvOffsetMs := offsetMs,
       EvCategory := CategoryPacketInbound, EvEventType := EventTypeUnmatchedReply, EvRadiusCode := code,
       EvIdentifier := identifier, EvLocalAddr := local, EvRemoteAddr := remote,
       EvPacketBytes := nbytes\<rparr>"

definition NewCoAEvent :: "stamp \<Rightarrow> u32 \<Rightarrow> int \<Rightarrow> string \<Rightarrow> int \<Rightarrow> string \<Rightarrow> string \<Rightarrow> int \<Rightarrow> int \<Rightarrow> int \<Rightarrow> event" where
  "NewCoAEvent s subID offsetMs eventType identifier local remote nbytes responseLatencyUs errorCause =
     event_zero\<lparr>EvTimestamp := st_wall s, EvMonotonicNs := st_mono s, EvOffsetMs := offsetMs,
       EvSubscriberID := subID, EvCategory := CategoryCoAInbound, EvEventType := eventType,
       EvIdentifier := identifier, EvLocalAddr := local, EvRemoteAddr := remote,
       EvPacketBytes := nbytes, EvLatencyUs := responseLatencyUs, EvErrorCause := errorCause\<rparr>"

definition NewDisconnectEvent :: "stamp \<Rightarrow> u32 \<Rightarrow> int \<Rightarrow> string \<Rightarrow> int \<Rightarrow> string \<Rightarrow> string \<Rightarrow> int \<Rightarrow> int \<Rightarrow> int \<Rightarrow> event" where
  "NewDisconnectEvent s subID offsetMs eventType identifier local remote nbytes responseLatencyUs errorCause =
     event_zero\<lparr>EvTimestamp := st_wall s, EvMonotonicNs := st_mono s, EvOffsetMs := offsetMs,
       EvSubscriberID := subID, EvCategory := CategoryDisconnectInbound, EvEventType := eventType,
       EvIdentifier := identifier, EvLocalAddr := local, EvRemoteAddr := remote,
       EvPacketBytes := nbytes, EvLatencyUs := responseLatencyUs, EvErrorCause := errorCause\<rparr>"

definition NewError :: "stamp \<Rightarrow> u32 \<Rightarrow> int \<Rightarrow> string \<Rightarrow> int \<Rightarrow> string \<Rightarrow> event" where
  "NewError s subID offsetMs eventType cause message =
     event_zero\<lparr>EvTimestamp := st_wall s, EvMonotonicNs := st_mono s, EvOffsetMs := offsetMs,
       EvSubscriberID := subID, EvCategory := CategoryError, EvEventType := (if eventType = [] then EventTypeInternalError else eventType),
       EvErrorCause := cause, EvErrorMessage := message, EvIdentifier := NoIdentifier\<rparr>"

section \<open>Outcomes\<close>

record outcome =
  OcSubscriberID :: u32
  OcUsername :: string
  OcAuthMethod :: string
  OcSubType :: string
  OcFinalState :: string
  OcActivatedAtOffsetMs :: int
  OcEstablishedAtOffsetMs :: int
  OcEstablishmentLatencyMs :: int
  OcAuthRetransmits :: int
  OcAcctRetransmits :: int
  OcCoaReceivedCount :: int
  OcDisconnectReceivedAt :: int
  OcFailureReason :: string

section \<open>Submitting events\<close>

text \<open>
  A collector a component submits to is the list of events submitted so far. The clock
  delivers the stamp of the \<open>i\<close>-th event constructed for it.
\<close>

type_synonym clock = "nat \<Rightarrow> stamp"

definition submit :: "clock \<Rightarrow> (stamp \<Rightarrow> event) \<Rightarrow> event list \<Rightarrow> event list" where
  "submit clk mk evs = evs @ [mk (clk (length evs))]"

lemma length_submit [simp]: "length (submit clk mk evs) = Suc (length evs)"
  by (simp add: submit_def)

lemma map_submit:
  "map f (submit clk mk evs) = map f evs @ [f (mk (clk (length evs)))]"
  by (simp add: submit_def)

lemmas event_defs = NewSubscriberCreated_def NewSubscriberActivated_def NewStateChanged_def NewTerminal_def NewRequestSent_def NewReplyReceived_def NewDuplicateReply_def NewUnmatchedReply_def NewCoAEvent_def NewDisconnectEvent_def NewError_def

lemma event_kind [ev_simps]:
  "EvCategory (NewSubscriberCreated s i off st) = CategorySubscriberLifecycle"
  "EvEventType (NewSubscriberCreated s i off st) = EventTypeSubscriberCreated"
  "EvState (NewSubscriberCreated s i off st) = st"
  "EvSubscriberID (NewSubscriberCreated s i off st) = i"
  "EvCategory (NewSubscriberActivated s i off st) = CategorySubscriberLifecycle"
  "EvEventType (NewSubscriberActivated s i off st) = EventTypeSubscriberActivated"
  "EvState (NewSubscriberActivated s i off st) = st"
  "EvSubscriberID (NewSubscriberActivated s i off st) = i"
  "EvCategory (NewStateChanged s i off st) = CategorySubscriberLifecycle"
  "EvEventType (NewStateChanged s i off st) = EventTypeStateChanged"
  "EvState (NewStateChanged s i off st) = st"
  "EvSubscriberID (NewStateChanged s i off st) = i"
  "EvCategory (NewTerminal s i off st) = CategorySubscriberLifecycle"
  "EvEventType (NewTerminal s i off st) = EventTypeSubscriberTerminal"
  "EvState (NewTerminal s i off st) = st"
  "EvSubscriberID (NewTerminal s i off st) = i"
  "EvCategory (NewRequestSent s i off st c idf l r b n) = CategoryPacketOutbound"
  "EvEventType (NewRequestSent s i off st c idf l r b n) = (if n > 0 then EventTypeRequestRetransmitted else EventTypeRequestSent)"
  "EvCategory (NewReplyReceived s i off st c idf l r b n) = CategoryPacketInbound"
  "EvEventType (NewReplyReceived s i off st c idf l r b n) = EventTypeReplyReceived"
  "EvCategory (NewDuplicateReply s i off c idf l r b) = CategoryPacketInbound"
  "EvEventType (NewDuplicateReply s i off c idf l r b) = EventTypeDuplicateReply"
  "EvCategory (NewUnmatchedReply s off c idf l r b) = CategoryPacketInbound"
  "EvEventType (NewUnmatchedReply s off c idf l r b) = EventTypeUnmatchedReply"
  "EvCategory (NewCoAEvent s i off et idf l r b n e) = CategoryCoAInbound"
  "EvEventType (NewCoAEvent s i off et idf l r b n e) = et"
  "EvCategory (NewDisconnectEvent s i off et idf l r b n e) = CategoryDisconnectInbound"
  "EvEventType (NewDisconnectEvent s i off et idf l r b n e) = et"
  "EvCategory (NewError s i off et c m) = CategoryError"
  "EvEventType (NewError s i off et c m) = (if et = [] then EventTypeInternalError else et)"
  by (simp_all add: event_defs)

end
