(* ===== verification/Io_Matcher.thy ===== *)
theory Io_Matcher
  imports Radius_Protocol Io_IdAlloc Events
begin

text \<open>
  The reply matcher (\<^verbatim>\<open>pkg/io/matcher.go\<close>). Pending and recently completed requests are
  association lists; an inflight's identity is the number it got at registration, its reply
  channel (capacity one) and its \<^verbatim>\<open>done\<close> channel are fields of the matcher's state.
  \<^verbatim>\<open>Deliver\<close> takes the lock twice: its two critical sections and the channel send are
  separate functions, composed sequentially in \<open>Deliver\<close> and interleaved with other
  operations in the step relation \<open>mstep\<close>.
\<close>

section \<open>State\<close>

type_synonym match_key = "string \<times> byte"

record inflight =
  if_id :: nat
  if_Request :: packet
  if_SubID :: u32

record completed =
  c_requestAuthenticator :: bytes
  c_subID :: u32
  c_completedAt :: int

record reply_delivery =
  rd_Packet :: packet
  rd_WireBytes :: bytes
  rd_RemoteAddr :: string

record matcher =
  m_pending :: "(match_key \<times> inflight) list"
  m_recentDone :: "(match_key \<times> completed) list"
  m_gcThreshold :: nat
  m_next :: nat
  m_chan :: "(nat \<times> reply_delivery) list"
  m_closed :: "nat list"

definition completedTTL :: int where "completedTTL = 30 * 1000000000"

definition NewReplyMatcher :: matcher where
  "NewReplyMatcher = \<lparr>m_pending = [], m_recentDone = [], m_gcThreshold = 1024,
     m_next = 0, m_chan = [], m_closed = []\<rparr>"

section \<open>Operations\<close>

text \<open>\<^verbatim>\<open>doneOnce.Do(close(done))\<close>.\<close>

definition close_done :: "nat \<Rightarrow> matcher \<Rightarrow> matcher" where
  "close_done i m = (if i \<in> set (m_closed m) then m else m\<lparr>m_closed := i # m_closed m\<rparr>)"

definition Register :: "matcher \<Rightarrow> match_key \<Rightarrow> packet \<Rightarrow> u32 \<Rightarrow> inflight \<times> matcher" where
  "Register m k req subID =
     (let ifl = \<lparr>if_id = m_next m, if_Request = req, if_SubID = subID\<rparr>;
          m1 = (case map_of (m_pending m) k of Some old \<Rightarrow> close_done (if_id old) m | None \<Rightarrow> m)
      in (ifl, m1\<lparr>m_next := m_next m + 1, m_pending := AList.update k ifl (m_pending m1),
                 m_recentDone := AList.delete k (m_recentDone m1)\<rparr>))"

definition Cancel :: "matcher \<Rightarrow> match_key \<Rightarrow> matcher" where
  "Cancel m k = (case map_of (m_pending m) k of
       Some ifl \<Rightarrow> close_done (if_id ifl) (m\<lparr>m_pending := AList.delete k (m_pending m)\<rparr>)
     | None \<Rightarrow> m)"

definition CloseAll :: "matcher \<Rightarrow> matcher" where
  "CloseAll m = (fold (\<lambda>(k, ifl). close_done (if_id ifl)) (m_pending m) m)\<lparr>m_pending := [], m_recentDone := []\<rparr>"

definition m_Inflight :: "matcher \<Rightarrow> nat" where
  "m_Inflight m = length (m_pending m)"

definition gcLocked :: "int \<Rightarrow> matcher \<Rightarrow> matcher" where
  "gcLocked now m =
     (if length (m_recentDone m) < m_gcThreshold m then m
      else m\<lparr>m_recentDone := filter (\<lambda>(k, c). \<not> c_completedAt c < now - completedTTL) (m_recentDone m)\<rparr>)"

text \<open>First critical section of \<^verbatim>\<open>Deliver\<close>.\<close>

definition deliver_lookup :: "matcher \<Rightarrow> match_key \<Rightarrow> inflight option \<times> completed option" where
  "deliver_lookup m k = (case map_of (m_pending m) k of
       Some ifl \<Rightarrow> (Some ifl, None)
     | None \<Rightarrow> (None, map_of (m_recentDone m) k))"

text \<open>Second critical section: claim the request unless it is gone or replaced. \<open>now\<close> and
  \<open>now'\<close> are the two readings of the clock.\<close>

definition deliver_claim :: "int \<Rightarrow> int \<Rightarrow> matcher \<Rightarrow> match_key \<Rightarrow> inflight \<Rightarrow> bool \<times> matcher" where
  "deliver_claim now now' m k ifl = (case map_of (m_pending m) k of
       Some still \<Rightarrow>
         (if if_id still = if_id ifl
          then (True, gcLocked now' (m\<lparr>m_pending := AList.delete k (m_pending m),
                 m_recentDone := AList.update k
                   \<lparr>c_requestAuthenticator = Authenticator (if_Request ifl), c_subID = if_SubID ifl,
                    c_completedAt = now\<rparr> (m_recentDone m)\<rparr>))
          else (False, m))
     | None \<Rightarrow> (False, m))"

text \<open>After the lock: close \<^verbatim>\<open>done\<close> and send, dropping the reply when the channel is full.\<close>

definition deliver_send :: "matcher \<Rightarrow> inflight \<Rightarrow> reply_delivery \<Rightarrow> matcher" where
  "deliver_send m ifl d =
     (let m1 = close_done (if_id ifl) m in
      case map_of (m_chan m1) (if_id ifl) of
        None \<Rightarrow> m1\<lparr>m_chan := (if_id ifl, d) # m_chan m1\<rparr>
      | Some _ \<Rightarrow> m1)"

definition unmatched_event :: "int \<Rightarrow> match_key \<Rightarrow> string \<Rightarrow> packet \<Rightarrow> bytes \<Rightarrow> stamp \<Rightarrow> event" where
  "unmatched_event off k remote reply wire s =
     NewUnmatchedReply s off (sint (Code reply)) (uint (Identifier reply)) (fst k) remote (int (length wire))"

text \<open>The duplicate check and the fall through to unmatched; \<open>None\<close> is a panic.\<close>

definition deliver_dup :: "clock \<Rightarrow> int \<Rightarrow> match_key \<Rightarrow> string \<Rightarrow> packet \<Rightarrow> bytes \<Rightarrow> bytes \<Rightarrow>
    completed option \<Rightarrow> event list \<Rightarrow> (event list \<times> bool) option" where
  "deliver_dup clk off k remote reply wire secret dup evs =
     (let unmatched = Some (submit clk (unmatched_event off k remote reply wire) evs, False) in
      case dup of
        None \<Rightarrow> unmatched
      | Some c \<Rightarrow>
          (case ValidateResponseAuthenticator reply (c_requestAuthenticator c) secret wire [] of
             None \<Rightarrow> None
           | Some True \<Rightarrow> Some (submit clk (\<lambda>s. NewDuplicateReply s (c_subID c) off (sint (Code reply))
                 (uint (Identifier reply)) (fst k) remote (int (length wire))) evs, True)
           | Some False \<Rightarrow> unmatched))"

text \<open>
  \<^verbatim>\<open>Deliver\<close> without interference. The wire bytes come from the read loop, which allocates
  exactly the datagram's length. The key is the local address and the reply's identifier.
\<close>

definition Deliver :: "clock \<Rightarrow> int \<Rightarrow> int \<Rightarrow> matcher \<Rightarrow> event list \<Rightarrow> string \<Rightarrow> string \<Rightarrow> packet \<Rightarrow> bytes \<Rightarrow>
    bytes \<Rightarrow> int \<Rightarrow> (matcher \<times> event list \<times> bool) option" where
  "Deliver clk now now' m evs local remote reply wire secret off =
     (let k = (local, Identifier reply) in
      case deliver_lookup m k of
        (Some ifl, _) \<Rightarrow>
          (case ValidateResponseAuthenticator reply (Authenticator (if_Request ifl)) secret wire [] of
             None \<Rightarrow> None
           | Some False \<Rightarrow> Some (m, submit clk (\<lambda>s. NewError s (if_SubID ifl) off
                 EventTypeValidationFailed 0 ''response authenticator mismatch'') evs, False)
           | Some True \<Rightarrow>
               (case deliver_claim now now' m k ifl of
                  (True, m1) \<Rightarrow> Some (deliver_send m1 ifl
                     \<lparr>rd_Packet = reply, rd_WireBytes = wire, rd_RemoteAddr = remote\<rparr>, evs, True)
                | (False, m1) \<Rightarrow>
                    map_option (\<lambda>(evs', b). (m1, evs', b))
                      (deliver_dup clk off k remote reply wire secret (map_of (m_recentDone m1) k) evs)))
      | (None, dup) \<Rightarrow>
          map_option (\<lambda>(evs', b). (m, evs', b))
            (deliver_dup clk off k remote reply wire secret dup evs))"

section \<open>Concurrent deliveries\<close>

text \<open>
  A receiver goroutine is idle, between the two critical sections of \<^verbatim>\<open>Deliver\<close> with a
  validated reply, or between the second one and the channel send. \<open>s_reg\<close> lists the registrations made so far.
\<close>

datatype phase = Idle | Validated match_key inflight reply_delivery | Claimed inflight reply_delivery

record msys =
  s_m :: matcher
  s_threads :: "nat \<Rightarrow> phase"
  s_reg :: "inflight list"

definition reply_valid :: "bytes \<Rightarrow> inflight \<Rightarrow> reply_delivery \<Rightarrow> bool" where
  "reply_valid secret ifl d \<longleftrightarrow> ValidateResponseAuthenticator (rd_Packet d)
     (Authenticator (if_Request ifl)) secret (rd_WireBytes d) [] = Some True"

inductive mstep :: "bytes \<Rightarrow> msys \<Rightarrow> msys \<Rightarrow> bool" for secret where
  st_register: "Register (s_m s) k req sub = (ifl, m') \<Longrightarrow> mstep secret s (s\<lparr>s_m := m', s_reg := s_reg s @ [ifl]\<rparr>)"
| st_cancel: "mstep secret s (s\<lparr>s_m := Cancel (s_m s) k\<rparr>)"
| st_close: "mstep secret s (s\<lparr>s_m := CloseAll (s_m s)\<rparr>)"
| st_lookup: "s_threads s t = Idle \<Longrightarrow> deliver_lookup (s_m s) k = (Some ifl, dup) \<Longrightarrow>
    reply_valid secret ifl d \<Longrightarrow> mstep secret s (s\<lparr>s_threads := (s_threads s)(t := Validated k ifl d)\<rparr>)"
| st_claim: "s_threads s t = Validated k ifl d \<Longrightarrow> deliver_claim now now' (s_m s) k ifl = (True, m') \<Longrightarrow>
    mstep secret s (s\<lparr>s_m := m', s_threads := (s_threads s)(t := Claimed ifl d)\<rparr>)"
| st_lost: "s_threads s t = Validated k ifl d \<Longrightarrow> deliver_claim now now' (s_m s) k ifl = (False, m') \<Longrightarrow>
    mstep secret s (s\<lparr>s_m := m', s_threads := (s_threads s)(t := Idle)\<rparr>)"
| st_send: "s_threads s t = Claimed ifl d \<Longrightarrow>
    mstep secret s (s\<lparr>s_m := deliver_send (s_m s) ifl d, s_threads := (s_threads s)(t := Idle)\<rparr>)"

inductive_cases mstepE: "mstep secret s s'"

inductive mreach :: "bytes \<Rightarrow> msys \<Rightarrow> bool" for secret where
  mr_init: "mreach secret \<lparr>s_m = NewReplyMatcher, s_threads = \<lambda>_. Idle, s_reg = []\<rparr>"
| mr_step: "mreach secret s \<Longrightarrow> mstep secret s s' \<Longrightarrow> mreach secret s'"

section \<open>Effects of the operations\<close>

abbreviation pend :: "matcher \<Rightarrow> match_key \<rightharpoonup> inflight" where
  "pend m \<equiv> map_of (m_pending m)"

abbreviation recent :: "matcher \<Rightarrow> match_key \<rightharpoonup> completed" where
  "recent m \<equiv> map_of (m_recentDone m)"

lemma close_done_simps [simp]:
  "m_pending (close_done i m) = m_pending m" "m_recentDone (close_done i m) = m_recentDone m"
  "m_next (close_done i m) = m_next m" "m_chan (close_done i m) = m_chan m"
  "m_gcThreshold (close_done i m) = m_gcThreshold m"
  by (simp_all add: close_done_def)

lemma fold_close_simps [simp]:
  "m_next (fold (\<lambda>(k, ifl). close_done (if_id ifl)) xs m) = m_next m"
  "m_chan (fold (\<lambda>(k, ifl). close_done (if_id ifl)) xs m) = m_chan m"
  by (induction xs arbitrary: m) auto

lemma Register_simps:
  assumes "Register m k req sub = (ifl, m')"
  shows "ifl = \<lparr>if_id = m_next m, if_Request = req, if_SubID = sub\<rparr>"
    "pend m' = (pend m)(k \<mapsto> ifl)" "recent m' = (recent m)(k := None)"
    "m_next m' = Suc (m_next m)" "m_chan m' = m_chan m"
proof -
  have "ifl = \<lparr>if_id = m_next m, if_Request = req, if_SubID = sub\<rparr>
    \<and> pend m' = (pend m)(k \<mapsto> ifl) \<and> recent m' = (recent m)(k := None)
    \<and> m_next m' = Suc (m_next m) \<and> m_chan m' = m_chan m"
    using assms
    by (cases "pend m k") (auto simp: Register_def Let_def update_conv' delete_conv')
  then show "ifl = \<lparr>if_id = m_next m, if_Request = req, if_SubID = sub\<rparr>"
    "pend m' = (pend m)(k \<mapsto> ifl)" "recent m' = (recent m)(k := None)"
    "m_next m' = Suc (m_next m)" "m_chan m' = m_chan m" by blast+
qed

lemma Cancel_simps [simp]:
  "pend (Cancel m k) = (pend m)(k := None)" "m_next (Cancel m k) = m_next m"
  "m_chan (Cancel m k) = m_chan m" "m_recentDone (Cancel m k) = m_recentDone m"
  by (auto simp: Cancel_def delete_conv' fun_upd_idem split: option.splits)

lemma CloseAll_simps [simp]:
  "m_pending (CloseAll m) = []" "m_next (CloseAll m) = m_next m" "m_chan (CloseAll m) = m_chan m"
  by (simp_all add: CloseAll_def)

lemma gcLocked_simps [simp]:
  "m_pending (gcLocked now m) = m_pending m" "m_next (gcLocked now m) = m_next m"
  "m_chan (gcLocked now m) = m_chan m"
  by (simp_all add: gcLocked_def)

lemma deliver_claim_True:
  assumes "deliver_claim now now' m k ifl = (True, m')"
  shows "\<exists>still. pend m k = Some still \<and> if_id still = if_id ifl"
    "pend m' = (pend m)(k := None)" "m_next m' = m_next m" "m_chan m' = m_chan m"
  using assms
  by (auto simp: deliver_claim_def delete_conv' split: option.splits if_splits)

lemma deliver_claim_False: "deliver_claim now now' m k ifl = (False, m') \<Longrightarrow> m' = m"
  by (auto simp: deliver_claim_def split: option.splits if_splits)

lemma deliver_send_simps [simp]:
  "m_pending (deliver_send m ifl d) = m_pending m" "m_next (deliver_send m ifl d) = m_next m"
  by (simp_all add: deliver_send_def Let_def split: option.splits)

lemma deliver_send_chan:
  "map_of (m_chan m) (if_id ifl) = None \<Longrightarrow> m_chan (deliver_send m ifl d) = (if_id ifl, d) # m_chan m"
  by (simp add: deliver_send_def Let_def)

section \<open>The invariant of concurrent deliveries\<close>

definition minv :: "bytes \<Rightarrow> msys \<Rightarrow> bool" where
  "minv secret s \<longleftrightarrow>
     (let m = s_m s; reg = s_reg s in
       m_next m = length reg
     \<and> (\<forall>k ifl. pend m k = Some ifl \<longrightarrow> if_id ifl < length reg \<and> reg ! if_id ifl = ifl)
     \<and> (\<forall>k k' i i'. pend m k = Some i \<longrightarrow> pend m k' = Some i' \<longrightarrow> if_id i = if_id i' \<longrightarrow> k = k')
     \<and> (\<forall>t k ifl d. s_threads s t = Validated k ifl d \<longrightarrow>
          if_id ifl < length reg \<and> reg ! if_id ifl = ifl \<and> reply_valid secret ifl d)
     \<and> (\<forall>t ifl d. s_threads s t = Claimed ifl d \<longrightarrow>
          if_id ifl < length reg \<and> reg ! if_id ifl = ifl \<and> reply_valid secret ifl d
          \<and> if_id ifl \<notin> fst ` set (m_chan m)
          \<and> (\<forall>k i. pend m k = Some i \<longrightarrow> if_id i \<noteq> if_id ifl))
     \<and> (\<forall>t t' i i' d d'. s_threads s t = Claimed i d \<longrightarrow> s_threads s t' = Claimed i' d' \<longrightarrow>
          if_id i = if_id i' \<longrightarrow> t = t')
     \<and> distinct (map fst (m_chan m))
     \<and> (\<forall>n d. (n, d) \<in> set (m_chan m) \<longrightarrow> n < length reg \<and> reply_valid secret (reg ! n) d
          \<and> (\<forall>k i. pend m k = Some i \<longrightarrow> if_id i \<noteq> n)))"

lemma minv_init: "minv secret \<lparr>s_m = NewReplyMatcher, s_threads = \<lambda>_. Idle, s_reg = []\<rparr>"
  by (simp add: minv_def NewReplyMatcher_def)

lemma minv_register:
  assumes "minv secret s" "Register (s_m s) k req sub = (ifl, m')"
  shows "minv secret (s\<lparr>s_m := m', s_reg := s_reg s @ [ifl]\<rparr>)"
proof -
  note r = Register_simps [OF assms(2)]
  have n: "m_next (s_m s) = length (s_reg s)" using assms(1) by (simp add: minv_def Let_def)
  have id: "if_id ifl = length (s_reg s)" using r(1) n by simp
  have p: "pend m' k' = Some i \<longleftrightarrow> (if k' = k then i = ifl else pend (s_m s) k' = Some i)" for k' i
    by (auto simp: r(2))
  show ?thesis
    using assms(1) id
    unfolding minv_def Let_def
    apply (simp add: p r(4,5) nth_append del: split_paired_All split_paired_Ex)
    apply (elim conjE)
    apply (intro conjI)
    subgoal by (auto intro: less_SucI simp del: split_paired_All split_paired_Ex) 
    subgoal by (auto simp del: split_paired_All split_paired_Ex) (metis less_irrefl_nat)+
    subgoal by (meson less_SucI)
    subgoal by (metis less_SucI less_irrefl_nat)
    subgoal by (metis less_SucI less_irrefl_nat)
    done
qed

lemma minv_pending_shrinks:
  assumes "minv secret s" "pend m' \<subseteq>\<^sub>m pend (s_m s)" "m_next m' = m_next (s_m s)" "m_chan m' = m_chan (s_m s)"
  shows "minv secret (s\<lparr>s_m := m'\<rparr>)"
proof -
  have p: "pend m' k = Some i \<Longrightarrow> pend (s_m s) k = Some i" for k i
    using assms(2) by (metis domI map_le_def)
  show ?thesis
    using assms(1) unfolding minv_def Let_def
    apply (simp add: assms(3,4) del: split_paired_All split_paired_Ex)
    apply (elim conjE, intro conjI)
    subgoal by (meson p)
    subgoal by (meson p)
    subgoal by (meson p)
    subgoal
    proof (intro allI impI)
      fix n k i
      assume chan: "\<forall>n d. (n, d) \<in> set (m_chan (s_m s)) \<longrightarrow> n < length (s_reg s) \<and>
               reply_valid secret (s_reg s ! n) d \<and> (\<forall>k i. pend (s_m s) k = Some i \<longrightarrow> if_id i \<noteq> n)"
        and ex: "\<exists>d. (n, d) \<in> set (m_chan (s_m s))" and k: "pend m' k = Some i"
      from chan ex p [OF k] show "if_id i \<noteq> n" by blast
    qed
    done
qed

lemma minv_thread_validated:
  assumes "minv secret s" "s_threads s t = Idle" "pend (s_m s) k = Some ifl" "reply_valid secret ifl d"
  shows "minv secret (s\<lparr>s_threads := (s_threads s)(t := Validated k ifl d)\<rparr>)"
  using assms unfolding minv_def Let_def
  by (auto split: if_splits simp del: split_paired_All split_paired_Ex)

lemma minv_thread_idle:
  assumes "minv secret s"
  shows "minv secret (s\<lparr>s_threads := (s_threads s)(t := Idle)\<rparr>)"
  using assms unfolding minv_def Let_def by (auto split: if_splits)

lemma minv_claim:
  assumes "minv secret s" "s_threads s t = Validated k ifl d" "deliver_claim now now' (s_m s) k ifl = (True, m')"
  shows "minv secret (s\<lparr>s_m := m', s_threads := (s_threads s)(t := Claimed ifl d)\<rparr>)"
proof -
  note c = deliver_claim_True [OF assms(3)]
  obtain still where still: "pend (s_m s) k = Some still" "if_id still = if_id ifl" using c(1) by blast
  have p: "pend m' k' = Some i \<longleftrightarrow> k' \<noteq> k \<and> pend (s_m s) k' = Some i" for k' i
    by (simp add: c(2))
  show ?thesis
    using assms(1,2) still
    unfolding minv_def Let_def 
    apply (simp add: c(3,4) p del: split_paired_All split_paired_Ex)
    apply (elim conjE)
    apply (intro conjI)
    subgoal by (auto simp del: split_paired_All split_paired_Ex split: if_splits)
    subgoal by (auto simp del: split_paired_All split_paired_Ex split: if_splits)
    subgoal by (auto simp del: split_paired_All split_paired_Ex split: if_splits) (metis)+
    subgoal by (auto simp del: split_paired_All split_paired_Ex split: if_splits) metis+
    done
qed

lemma minv_send:
  assumes "minv secret s" "s_threads s t = Claimed ifl d"
  shows "minv secret (s\<lparr>s_m := deliver_send (s_m s) ifl d, s_threads := (s_threads s)(t := Idle)\<rparr>)"
proof -
  have "map_of (m_chan (s_m s)) (if_id ifl) = None"
    using assms by (auto simp: minv_def Let_def map_of_eq_None_iff)
  note c = deliver_send_chan [OF this, of d]
  show ?thesis
    using assms
    unfolding minv_def Let_def 
    by (auto simp add: c split: if_splits)
qed
lemma minv_step:
  assumes "minv secret s" "mstep secret s s'"
  shows "minv secret s'"
  using assms(2)
proof cases
  case (st_register k req sub ifl m')
  then show ?thesis using minv_register [OF assms(1)] by simp
next
  case (st_cancel k)
  have "pend (Cancel (s_m s) k) \<subseteq>\<^sub>m pend (s_m s)" by (simp add: map_le_def)
  then show ?thesis using minv_pending_shrinks [OF assms(1)] st_cancel by simp
next
  case st_close
  have "pend (CloseAll (s_m s)) \<subseteq>\<^sub>m pend (s_m s)" by (simp add: map_le_def)
  then show ?thesis using minv_pending_shrinks [OF assms(1)] st_close by simp
next
  case (st_lookup t k ifl dup d)
  then have "pend (s_m s) k = Some ifl" by (auto simp: deliver_lookup_def split: option.splits)
  then show ?thesis using minv_thread_validated [OF assms(1)] st_lookup by simp
next
  case (st_claim t k ifl d now now' m')
  then show ?thesis using minv_claim [OF assms(1)] by simp
next
  case (st_lost t k ifl d now now' m')
  from deliver_claim_False [OF st_lost(3)] have "s' = s\<lparr>s_threads := (s_threads s)(t := Idle)\<rparr>"
    unfolding st_lost(1) by simp
  then show ?thesis using minv_thread_idle [OF assms(1), of t] by simp
next
  case (st_send t ifl d)
  then show ?thesis using minv_send [OF assms(1)] by simp
qed

lemma mreach_minv: "mreach secret s \<Longrightarrow> minv secret s"
  by (induction rule: mreach.induct) (auto intro: minv_init minv_step)

section \<open>Properties\<close>

text \<open>C6: Concurrent deliveries. However registrations, cancellations, shutdown and deliveries on
  any number of goroutines interleave, a request is claimed by at most one delivery, its reply
  channel is empty when the reply is sent (no reply is lost, none is sent twice), a claimed request
  is no longer pending, and every delivered reply passed validation against the request registered
  under that number.\<close>

theorem reply_delivered_at_most_once:
  assumes "mreach secret s"
  shows "(\<forall>t t' i i' d d'. s_threads s t = Claimed i d \<longrightarrow> s_threads s t' = Claimed i' d' \<longrightarrow>
        if_id i = if_id i' \<longrightarrow> t = t')
    \<and> (\<forall>t i d. s_threads s t = Claimed i d \<longrightarrow> map_of (m_chan (s_m s)) (if_id i) = None
        \<and> (\<forall>k j. pend (s_m s) k = Some j \<longrightarrow> if_id j \<noteq> if_id i))
    \<and> distinct (map fst (m_chan (s_m s)))
    \<and> (\<forall>n d. (n, d) \<in> set (m_chan (s_m s)) \<longrightarrow> n < length (s_reg s) \<and> reply_valid secret (s_reg s ! n) d)"
proof -
  have "minv secret s" using assms by (rule mreach_minv)
  note inv = this [unfolded minv_def Let_def]
  show ?thesis
  proof (intro conjI)
    show "\<forall>t t' i i' d d'. s_threads s t = Claimed i d \<longrightarrow> s_threads s t' = Claimed i' d' \<longrightarrow>
        if_id i = if_id i' \<longrightarrow> t = t'" using inv by (elim conjE)
    show "\<forall>t i d. s_threads s t = Claimed i d \<longrightarrow> map_of (m_chan (s_m s)) (if_id i) = None
        \<and> (\<forall>k j. pend (s_m s) k = Some j \<longrightarrow> if_id j \<noteq> if_id i)"
      using inv unfolding map_of_eq_None_iff by (elim conjE) blast
    show "distinct (map fst (m_chan (s_m s)))" using inv by (elim conjE)
    show "\<forall>n d. (n, d) \<in> set (m_chan (s_m s)) \<longrightarrow> n < length (s_reg s) \<and> reply_valid secret (s_reg s ! n) d"
    proof (intro allI impI)
      fix n d assume nd: "(n, d) \<in> set (m_chan (s_m s))"
      from inv have "\<forall>n d. (n, d) \<in> set (m_chan (s_m s)) \<longrightarrow> n < length (s_reg s)
          \<and> reply_valid secret (s_reg s ! n) d \<and> (\<forall>k i. pend (s_m s) k = Some i \<longrightarrow> if_id i \<noteq> n)"
        by (elim conjE)
      from this [rule_format, OF nd] show "n < length (s_reg s) \<and> reply_valid secret (s_reg s ! n) d"
        by (intro conjI; elim conjE)
    qed
  qed
qed

theorem reply_delivered_at_most_once_witness:
  "\<exists>s. mreach demo_secret s \<and> pend (s_m s) (''a'', 1) \<noteq> None \<and> distinct (map fst (m_chan (s_m s)))"
proof -
  let ?s = "\<lparr>s_m = NewReplyMatcher, s_threads = \<lambda>_. Idle, s_reg = []\<rparr>"
  obtain ifl m where r: "Register (s_m ?s) (''a'', 1) demo_request 0 = (ifl, m)" by fastforce
  have "mreach demo_secret (?s\<lparr>s_m := m, s_reg := s_reg ?s @ [ifl]\<rparr>)" (is "mreach _ ?s'")
    by (rule mr_step [OF mr_init st_register [OF r]])
  moreover have "pend (s_m ?s') (''a'', 1) \<noteq> None" using Register_simps(2) [OF r] by simp
  ultimately show ?thesis using reply_delivered_at_most_once [of demo_secret ?s'] by blast
qed

lemma claim_looked_up:
  assumes "pend m k = Some ifl"
  shows "\<exists>m1. deliver_claim now now' m k ifl = (True, m1) \<and> pend m1 = (pend m)(k := None)
    \<and> m_chan m1 = m_chan m"
proof -
  obtain b m1 where c: "deliver_claim now now' m k ifl = (b, m1)" by fastforce
  then have b using assms by (auto simp: deliver_claim_def)
  with c deliver_claim_True [of now now' m k ifl m1] show ?thesis by auto
qed

text \<open>What \<^verbatim>\<open>Deliver\<close> does with a reply. For a pending request, a reply failing validation leaves
  the matcher as it is and yields one validation_failed event, and a valid one is sent on the
  request's channel, once, and ends its pending state. Without a pending request nothing is
  delivered: one event says duplicate or unmatched. In each case exactly one of a delivery and an
  event happens.\<close>

theorem deliver_outcome:
  assumes "Deliver clk now now' m evs local remote reply wire secret off = Some (m', evs', known)"
  defines "k \<equiv> (local, Identifier reply)"
  defines "valid \<equiv> \<lambda>ra. ValidateResponseAuthenticator reply ra secret wire [] = Some True"
  shows "case pend m k of
      Some ifl \<Rightarrow> if valid (Authenticator (if_Request ifl))
        then known \<and> evs' = evs \<and> pend m' = (pend m)(k := None)
          \<and> (map_of (m_chan m) (if_id ifl) = None \<longrightarrow> m_chan m' =
              (if_id ifl, \<lparr>rd_Packet = reply, rd_WireBytes = wire, rd_RemoteAddr = remote\<rparr>) # m_chan m)
        else \<not> known \<and> m' = m \<and> length evs' = Suc (length evs) \<and> EvEventType (last evs') = EventTypeValidationFailed
    | None \<Rightarrow> m' = m \<and> length evs' = Suc (length evs) \<and> (case recent m k of
          Some c \<Rightarrow> known = valid (c_requestAuthenticator c)
            \<and> EvEventType (last evs') = (if known then EventTypeDuplicateReply else EventTypeUnmatchedReply)
        | None \<Rightarrow> \<not> known \<and> EvEventType (last evs') = EventTypeUnmatchedReply)"
proof (cases "pend m k")
  case None
  then have l: "deliver_lookup m k = (None, recent m k)" by (simp add: deliver_lookup_def)
  from assms(1) have "deliver_dup clk off k remote reply wire secret (recent m k) evs = Some (evs', known)"
    and "m' = m"
    unfolding Deliver_def Let_def k_def [symmetric] l by auto
  with None show ?thesis
    by (auto simp: deliver_dup_def valid_def Let_def unmatched_event_def submit_def ev_simps
        split: option.splits bool.splits)
next
  case (Some ifl)
  then have l: "deliver_lookup m k = (Some ifl, None)" by (simp add: deliver_lookup_def)
  note d = assms(1) [unfolded Deliver_def Let_def k_def [symmetric] l prod.case option.case]
  obtain m1 where c: "deliver_claim now now' m k ifl = (True, m1)" "pend m1 = (pend m)(k := None)"
      "m_chan m1 = m_chan m"
    using claim_looked_up [OF Some] by blast
  show ?thesis
  proof (cases "valid (Authenticator (if_Request ifl))")
    case True
    with d have "m' = deliver_send m1 ifl \<lparr>rd_Packet = reply, rd_WireBytes = wire, rd_RemoteAddr = remote\<rparr>"
        "evs' = evs" "known"
      unfolding valid_def by (simp_all add: c(1))
    then show ?thesis using Some True c(2,3) deliver_send_chan [of m1 ifl] by simp
  next
    case False
    with d Some show ?thesis
      by (auto simp: valid_def submit_def ev_simps split: option.splits bool.splits)
  qed
qed

definition demo_clock :: clock where
  "demo_clock = (\<lambda>i. \<lparr>st_wall = 0, st_mono = 0, st_now = 0\<rparr>)"

theorem deliver_outcome_witness:
  "\<exists>m evs known. Deliver demo_clock 0 0 NewReplyMatcher [] ''l'' ''r'' demo_ack [] demo_secret 0 = Some (m, evs, known)
    \<and> m = NewReplyMatcher \<and> EvEventType (last evs) = EventTypeUnmatchedReply"
proof -
  obtain m evs known where
    d: "Deliver demo_clock 0 0 NewReplyMatcher [] ''l'' ''r'' demo_ack [] demo_secret 0 = Some (m, evs, known)"
    by (auto simp: Deliver_def deliver_lookup_def NewReplyMatcher_def deliver_dup_def Let_def)
  have "m_pending NewReplyMatcher = []" "m_recentDone NewReplyMatcher = []"
    by (simp_all add: NewReplyMatcher_def)
  with deliver_outcome [OF d] d show ?thesis by auto
qed

lemma deliver_returns:
  assumes "Decode wire secret = Inr reply"
  shows "\<exists>r. Deliver clk now now' m evs local remote reply wire secret off = Some r"
proof -
  have v: "ValidateResponseAuthenticator reply ra secret wire [] \<noteq> None" for ra
  proof -
    from assms have "20 \<le> unat (get16 (take 2 (drop 2 wire)))" "unat (get16 (take 2 (drop 2 wire))) \<le> length wire"
      by (auto simp: Decode_def Let_def MinPacketLength_def split: if_splits sum.splits)
    then show ?thesis by (auto simp: ValidateResponseAuthenticator_def Let_def)
  qed
  define f where "f ra = the (ValidateResponseAuthenticator reply ra secret wire [])" for ra
  from v have f: "ValidateResponseAuthenticator reply ra secret wire [] = Some (f ra)" for ra
    by (simp add: f_def)
  have d: "\<exists>e b. deliver_dup clk off k remote reply wire secret dup evs = Some (e, b)" for k dup
    by (cases dup) (auto simp: deliver_dup_def Let_def f split: bool.splits)
  show ?thesis
  proof (cases "pend m (local, Identifier reply)")
    case None
    then show ?thesis
      using d [of "(local, Identifier reply)" "recent m (local, Identifier reply)"]
      by (auto simp: Deliver_def Let_def deliver_lookup_def)
  next
    case (Some ifl)
    obtain m1 where "deliver_claim now now' m (local, Identifier reply) ifl = (True, m1)"
      using claim_looked_up [OF Some] by blast
    with Some show ?thesis
      by (cases "f (Authenticator (if_Request ifl))") (auto simp: Deliver_def Let_def deliver_lookup_def f)
  qed
qed

text \<open>C37: Deliver never panics on what the receiver hands it: a packet decoded from the same bytes.\<close>

theorem deliver_total_on_decoded:
  assumes "Decode wire secret = Inr reply"
  shows "\<exists>r. Deliver clk now now' m evs local remote reply wire secret off = Some r"
  using assms by (rule deliver_returns)

theorem deliver_total_on_decoded_witness:
  "\<exists>w reply r. Decode w demo_secret = Inr reply \<and> Code reply = CodeCoAACK
    \<and> Deliver demo_clock 0 0 NewReplyMatcher [] ''l'' ''r'' reply w demo_secret 0 = Some r"
proof -
  let ?p = "demo_ack\<lparr>Authenticator := replicate 16 1\<rparr>"
  have "wire_ok ?p" "length (packet_wire ?p) + length ([] :: bytes) \<le> MaxPacketLength"
    by (simp_all add: wire_ok_def demo_ack_def packet_wire_def MaxAttributeValueLength_def MaxPacketLength_def)
  from Decode_wire [OF this, of demo_secret]
  have "Decode (packet_wire ?p) demo_secret = Inr (?p\<lparr>RequestAuthenticator := zero16, Secret := demo_secret\<rparr>)"
    by simp
  moreover have "Code (?p\<lparr>RequestAuthenticator := zero16, Secret := demo_secret\<rparr>) = CodeCoAACK"
    by (simp add: demo_ack_def)
  ultimately show ?thesis using deliver_total_on_decoded by blast
qed

end
