(* ===== verification/Io_Policy.thy ===== *)
theory Io_Policy
  imports Net
begin

text \<open>
  Retransmit policy, socket selection and port-range binding (\<^verbatim>\<open>pkg/io/io.go\<close>,
  \<^verbatim>\<open>pkg/io/socketpool.go\<close>). Durations are nanoseconds in Go's \<^verbatim>\<open>int64\<close>, with its
  wrap-around written out.
\<close>

section \<open>Retransmit policy\<close>

datatype backoff = BackoffConstant | BackoffLinear | BackoffExponential | BackoffOther int

record retransmit_policy =
  InitialTimeout :: int
  MaxRetries :: int
  PolicyBackoff :: backoff
  BackoffBase :: int

text \<open>Products are reduced to 64 bits; \<^verbatim>\<open>1 << (n-1)\<close> is a 64-bit shift.\<close>

definition shl64 :: "nat \<Rightarrow> int" where
  "shl64 k = (if k < 64 then wrap64 (2 ^ k) else 0)"

definition timeoutFor :: "retransmit_policy \<Rightarrow> nat \<Rightarrow> int" where
  "timeoutFor p n =
     (if n = 0 then InitialTimeout p
      else case PolicyBackoff p of
        BackoffLinear \<Rightarrow> wrap64 (BackoffBase p * int n)
      | BackoffExponential \<Rightarrow> wrap64 (BackoffBase p * shl64 (n - 1))
      | _ \<Rightarrow> BackoffBase p)"

text \<open>The sender waits \<open>timeoutFor\<close>, or the initial timeout where that is not positive.\<close>

definition wait_for :: "retransmit_policy \<Rightarrow> nat \<Rightarrow> int" where
  "wait_for p n = (if timeoutFor p n \<le> 0 then InitialTimeout p else timeoutFor p n)"

definition second_ns :: int where "second_ns = 1000000000"

definition millisecond_ns :: int where "millisecond_ns = 1000000"

definition maxAttempts :: "retransmit_policy \<Rightarrow> nat" where
  "maxAttempts p = (let m = wrap64 (MaxRetries p + 1) in if m < 1 then 1 else nat m)"

text \<open>The conversion \<^verbatim>\<open>int32(x)\<close>.\<close>

definition i32 :: "int \<Rightarrow> int" where
  "i32 x = signed_take_bit 31 x"

section \<open>The socket pool\<close>

text \<open>
  A bound socket is its local address. \<open>listen\<close> is the operating system's answer to a bind
  request; a failed bind closes the sockets opened so far, which are returned with the error.
\<close>

record socket_pool =
  sp_sockets :: "udp_addr list"
  sp_rrIdx :: u64
  sp_closed :: bool

definition ErrNoSockets :: goerr where
  "ErrNoSockets = Sentinel ''io: no source IPs configured''"

text \<open>The \<^verbatim>\<open>for port\<close> loop on one address; sockets are opened in the order of the ports.\<close>

fun bind_ports :: "(udp_addr \<Rightarrow> udp_addr res) \<Rightarrow> bytes \<Rightarrow> int list \<Rightarrow> udp_addr list \<Rightarrow>
    udp_addr list res \<times> udp_addr list" where
  "bind_ports listen ip [] opened = (Inr opened, [])"
| "bind_ports listen ip (port # ports) opened =
    (case listen (ip, port) of
       Inl err \<Rightarrow> (Inl (Wrap (''bind '' @ ip_string ip @ '':'' @ fmt_d port @ '': '') err ''''), opened)
     | Inr s \<Rightarrow> bind_ports listen ip ports (opened @ [s]))"

fun bind_ips :: "(udp_addr \<Rightarrow> udp_addr res) \<Rightarrow> int \<Rightarrow> int \<Rightarrow> bytes list \<Rightarrow> udp_addr list \<Rightarrow>
    udp_addr list res \<times> udp_addr list" where
  "bind_ips listen lo hi [] opened = (Inr opened, [])"
| "bind_ips listen lo hi (ip # ips) opened =
    (if ip = [] then (Inl (Plain ''io: nil source IP''), opened)
     else if lo = 0 \<and> hi = 0 then
       (case listen (ip, 0) of
          Inl err \<Rightarrow> (Inl (Wrap (''bind '' @ ip_string ip @ '': ephemeral: '') err ''''), opened)
        | Inr s \<Rightarrow> bind_ips listen lo hi ips (opened @ [s]))
     else (case bind_ports listen ip [lo..hi] opened of
          (Inl err, closed) \<Rightarrow> (Inl err, closed)
        | (Inr opened', _) \<Rightarrow> bind_ips listen lo hi ips opened'))"

text \<open>The result, and the sockets that were closed again.\<close>

definition NewSocketPool :: "(udp_addr \<Rightarrow> udp_addr res) \<Rightarrow> bytes list \<Rightarrow> int \<Rightarrow> int \<Rightarrow>
    socket_pool res \<times> udp_addr list" where
  "NewSocketPool listen srcIPs portLo portHi =
     (if srcIPs = [] then (Inl ErrNoSockets, [])
      else if portLo < 0 \<or> portHi < 0 \<or> portLo > 65535 \<or> portHi > 65535
      then (Inl (Plain (''io: invalid port range ['' @ fmt_d portLo @ '','' @ fmt_d portHi @ '']'')), [])
      else if portLo > portHi
      then (Inl (Plain (''io: port range lo ('' @ fmt_d portLo @ '') > hi ('' @ fmt_d portHi @ '')'')), [])
      else case bind_ips listen portLo portHi srcIPs [] of
        (Inl err, closed) \<Rightarrow> (Inl err, closed)
      | (Inr sockets, _) \<Rightarrow> (Inr \<lparr>sp_sockets = sockets, sp_rrIdx = 0, sp_closed = False\<rparr>, []))"

definition Pick :: "socket_pool \<Rightarrow> udp_addr option \<times> socket_pool" where
  "Pick p = (if sp_sockets p = [] then (None, p)
     else (Some (sp_sockets p ! (unat (sp_rrIdx p) mod length (sp_sockets p))),
           p\<lparr>sp_rrIdx := sp_rrIdx p + 1\<rparr>))"

text \<open>
  \<open>None\<close> is a panic: negating the least \<^verbatim>\<open>int\<close> leaves it negative, so the remainder can be
  a negative index. \<open>Some None\<close> is the nil socket of an empty pool.
\<close>

definition PickAt :: "socket_pool \<Rightarrow> int \<Rightarrow> udp_addr option option" where
  "PickAt p i = (if sp_sockets p = [] then Some None
     else let j = (if i < 0 then wrap64 (- i) else i);
              n = int (length (sp_sockets p));
              r = j - n * tdiv j n in
       if r < 0 then None else Some (Some (sp_sockets p ! nat r)))"

definition pool_Close :: "socket_pool \<Rightarrow> socket_pool" where
  "pool_Close p = p\<lparr>sp_closed := True\<rparr>"

section \<open>Facts\<close>

lemma i32_small: "n < 2 ^ 31 \<Longrightarrow> i32 (int n) = int n"
  by (simp add: i32_def signed_take_bit_int_eq_self)

lemma shl64_small: "k < 63 \<Longrightarrow> shl64 k = 2 ^ k"
proof -
  assume "k < 63"
  then have "(2 :: int) ^ k < 2 ^ 63" by (intro power_strict_increasing) auto
  then have "wrap64 (2 ^ k) = 2 ^ k" by (intro wrap64_nonneg) simp_all
  then show ?thesis using \<open>k < 63\<close> by (simp add: shl64_def)
qed

lemma timeoutFor_linear:
  "PolicyBackoff p = BackoffLinear \<Longrightarrow> 0 < n \<Longrightarrow> 0 \<le> BackoffBase p \<Longrightarrow> BackoffBase p * int n < 2 ^ 63 \<Longrightarrow>
    timeoutFor p n = BackoffBase p * int n"
  by (simp add: timeoutFor_def wrap64_nonneg)

lemma timeoutFor_exponential:
  assumes "PolicyBackoff p = BackoffExponential" "0 < n" "0 < BackoffBase p" "BackoffBase p * 2 ^ (n - 1) < 2 ^ 63"
  shows "timeoutFor p n = BackoffBase p * 2 ^ (n - 1)"
proof -
  have "1 * 2 ^ (n - 1) \<le> BackoffBase p * 2 ^ (n - 1)"
    using assms(3) by (intro mult_right_mono) auto
  with assms(4) have "(2 :: int) ^ (n - 1) < 2 ^ 63" by linarith
  then have "n - 1 < 63" by (rule power_less_imp_less_exp [rotated]) simp
  then show ?thesis using assms by (simp add: timeoutFor_def shl64_small wrap64_nonneg)
qed

lemma PickAt_nonneg:
  assumes "sp_sockets p \<noteq> []" "0 \<le> i"
  shows "PickAt p i = Some (Some (sp_sockets p ! nat (i mod int (length (sp_sockets p)))))"
proof -
  have r: "i - int (length (sp_sockets p)) * tdiv i (int (length (sp_sockets p))) = i mod int (length (sp_sockets p))"
    using assms by (simp add: tdiv_nonneg minus_mult_div_eq_mod)
  have nonneg: "(i < 0) = False" "(i mod int (length (sp_sockets p)) < 0) = False" "(sp_sockets p = []) = False"
    using assms by (simp_all add: not_less)
  show ?thesis unfolding PickAt_def Let_def nonneg(1,3) if_False r nonneg(2) ..
qed

lemma wait_for_pos: "0 < InitialTimeout p \<Longrightarrow> 0 < wait_for p n"
  by (simp add: wait_for_def)

lemma bind_ports_Inr:
  "bind_ports listen ip ports opened = (Inr socks, closed) \<Longrightarrow>
    closed = [] \<and> (\<exists>new. socks = opened @ new \<and> map listen (map (\<lambda>p. (ip, p)) ports) = map Inr new)"
proof (induction ports arbitrary: opened)
  case (Cons port ports)
  then obtain s where s: "listen (ip, port) = Inr s" "bind_ports listen ip ports (opened @ [s]) = (Inr socks, closed)"
    by (auto split: sum.splits)
  from Cons.IH [OF s(2)] s(1) show ?case by auto
qed simp

lemma bind_ports_Inl:
  "bind_ports listen ip ports opened = (Inl err, closed) \<Longrightarrow> \<exists>new. closed = opened @ new"
proof (induction ports arbitrary: opened)
  case (Cons port ports)
  show ?case
  proof (cases "listen (ip, port)")
    case (Inr s)
    with Cons.prems have "bind_ports listen ip ports (opened @ [s]) = (Inl err, closed)" by simp
    from Cons.IH [OF this] show ?thesis by auto
  qed (use Cons.prems in simp)
qed simp

text \<open>The waits of the retransmit policy. With a positive initial timeout every wait is positive:
  the initial timeout first, then the backoff curve (base, base times \<open>n\<close>, base times \<open>2^(n-1)\<close>) as
  long as it fits in 63 bits; from the 65th retransmit on an exponential policy waits the initial
  timeout again.\<close>

theorem retransmit_waits:
  assumes "0 < InitialTimeout p" "0 < BackoffBase p"
  shows "0 < wait_for p n \<and> wait_for p 0 = InitialTimeout p
    \<and> (0 < n \<longrightarrow> PolicyBackoff p = BackoffConstant \<longrightarrow> wait_for p n = BackoffBase p)
    \<and> (0 < n \<longrightarrow> PolicyBackoff p = BackoffLinear \<longrightarrow> BackoffBase p * int n < 2 ^ 63 \<longrightarrow>
          wait_for p n = BackoffBase p * int n)
    \<and> (0 < n \<longrightarrow> PolicyBackoff p = BackoffExponential \<longrightarrow> BackoffBase p * 2 ^ (n - 1) < 2 ^ 63 \<longrightarrow>
          wait_for p n = BackoffBase p * 2 ^ (n - 1))
    \<and> (64 < n \<longrightarrow> PolicyBackoff p = BackoffExponential \<longrightarrow> wait_for p n = InitialTimeout p)"
proof (intro conjI impI)
  show "0 < wait_for p n" using assms(1) by (rule wait_for_pos)
  show "wait_for p 0 = InitialTimeout p" by (simp add: wait_for_def timeoutFor_def)
  show "wait_for p n = BackoffBase p" if "0 < n" "PolicyBackoff p = BackoffConstant"
    using that assms by (simp add: wait_for_def timeoutFor_def)
  show "wait_for p n = BackoffBase p * int n"
    if "0 < n" "PolicyBackoff p = BackoffLinear" "BackoffBase p * int n < 2 ^ 63"
    using timeoutFor_linear [OF that(2,1) _ that(3)] that(1) assms(2)
    by (simp add: wait_for_def mult_le_0_iff)
  show "wait_for p n = BackoffBase p * 2 ^ (n - 1)"
    if "0 < n" "PolicyBackoff p = BackoffExponential" "BackoffBase p * 2 ^ (n - 1) < 2 ^ 63"
    using timeoutFor_exponential [OF that(2,1) assms(2) that(3)] assms(2)
    by (simp add: wait_for_def mult_le_0_iff)
  show "wait_for p n = InitialTimeout p" if "64 < n" "PolicyBackoff p = BackoffExponential"
  proof -
    have "\<not> n - 1 < 64" using that(1) by linarith
    then have "timeoutFor p n = 0" using that by (simp add: timeoutFor_def shl64_def)
    then show ?thesis by (simp add: wait_for_def)
  qed
qed

theorem retransmit_waits_witness:
  "wait_for \<lparr>InitialTimeout = 3 * second_ns, MaxRetries = 3, PolicyBackoff = BackoffExponential,
     BackoffBase = second_ns\<rparr> 3 = 4 * second_ns"
  using retransmit_waits [of "\<lparr>InitialTimeout = 3 * second_ns, MaxRetries = 3,
     PolicyBackoff = BackoffExponential, BackoffBase = second_ns\<rparr>" 3]
  by (simp add: second_ns_def)

end
