(* ===== verification/Io_Sender.thy ===== *)
theory Io_Sender
  imports Io_Matcher Io_Policy
begin

text \<open>
  The engine and its two paths (\<^verbatim>\<open>pkg/io/io.go\<close>, \<^verbatim>\<open>sender.go\<close>, \<^verbatim>\<open>receiver.go\<close>): sending a
  request with retransmits, and dispatching an inbound datagram. The state is the engine's:
  socket pool, identifier allocator, matcher, events submitted. What the environment
  contributes to one transmission attempt (back-off waits, randomness, the write's result,
  the datagrams the receiver delivers during the wait, how the wait ends) is an
  \<open>attempt_env\<close>.
\<close>

section \<open>Results\<close>

datatype 'a ret = Ok 'a | Err goerr | Panic

definition ErrIdentifierExhausted :: goerr where
  "ErrIdentifierExhausted = Sentinel ''io: identifier space exhausted across all source tuples''"

definition ErrFinalTimeout :: goerr where
  "ErrFinalTimeout = Sentinel ''io: final retransmit timeout''"

definition ErrNotStarted :: goerr where
  "ErrNotStarted = Sentinel ''io: engine not started''"

definition ErrAlreadyStarted :: goerr where
  "ErrAlreadyStarted = Sentinel ''io: engine already started''"

record send_result =
  sr_Reply :: packet
  sr_LatencyUs :: int
  sr_RetransmitN :: nat
  sr_LocalAddr :: udp_addr
  sr_Identifier :: byte

section \<open>The engine\<close>

record engine_opts =
  o_SourceIPs :: "bytes list"
  o_PortRangeLo :: int
  o_PortRangeHi :: int
  o_Secret :: bytes
  o_ReadBufBytes :: int
  o_AllocBackoffStep :: int
  o_AllocMaxWait :: int
  o_HasHandler :: bool

record engine =
  e_opts :: engine_opts
  e_pool :: socket_pool
  e_ids :: id_alloc
  e_matcher :: matcher
  e_events :: "event list"
  e_startedAt :: int
  e_stopped :: bool

definition NewEngine :: "(udp_addr \<Rightarrow> udp_addr res) \<Rightarrow> engine_opts \<Rightarrow> engine res" where
  "NewEngine listen opts =
     (if o_SourceIPs opts = [] then Inl ErrNoSockets
      else if o_Secret opts = [] then Inl (Plain ''io: shared secret required'')
      else
        let opts1 = (if o_ReadBufBytes opts \<le> 0 then opts\<lparr>o_ReadBufBytes := int MaxPacketLength\<rparr> else opts);
            opts2 = (if o_AllocBackoffStep opts1 \<le> 0
                     then opts1\<lparr>o_AllocBackoffStep := 5 * millisecond_ns\<rparr> else opts1);
            opts3 = (if o_AllocMaxWait opts2 \<le> 0
                     then opts2\<lparr>o_AllocMaxWait := 100 * millisecond_ns\<rparr> else opts2)
        in case fst (NewSocketPool listen (o_SourceIPs opts3) (o_PortRangeLo opts3) (o_PortRangeHi opts3)) of
             Inl err \<Rightarrow> Inl (Wrap ''bind socket pool: '' err '''')
           | Inr pool \<Rightarrow> Inr \<lparr>e_opts = opts3, e_pool = pool, e_ids = NewIDAllocator,
               e_matcher = NewReplyMatcher, e_events = [], e_startedAt = 0, e_stopped = False\<rparr>)"

text \<open>\<open>now\<close> is the reading of the clock, in nanoseconds.\<close>

definition engine_Start :: "int \<Rightarrow> engine \<Rightarrow> engine \<times> goerr option" where
  "engine_Start now e =
     (if e_stopped e then (e, Some (Plain ''io: engine has been stopped, create a new one''))
      else if e_startedAt e \<noteq> 0 then (e, Some ErrAlreadyStarted)
      else (e\<lparr>e_startedAt := now\<rparr>, None))"

definition engine_Stop :: "engine \<Rightarrow> engine" where
  "engine_Stop e =
     (if e_stopped e then e
      else e\<lparr>e_stopped := True, e_matcher := CloseAll (e_matcher e), e_pool := pool_Close (e_pool e)\<rparr>)"

definition offsetMs :: "int \<Rightarrow> int \<Rightarrow> int" where
  "offsetMs startedAt now = (if startedAt = 0 then 0 else tdiv (now - startedAt) 1000000)"

datatype net_addr = UDPAddr udp_addr | NilAddr | NamedAddr string

definition resolveDst :: "(string \<Rightarrow> udp_addr res) \<Rightarrow> net_addr \<Rightarrow> udp_addr res" where
  "resolveDst resolve dst = (case dst of
       UDPAddr u \<Rightarrow> Inr u
     | NilAddr \<Rightarrow> Inl (Plain ''io: nil destination address'')
     | NamedAddr s \<Rightarrow> resolve s)"

section \<open>Allocating on any tuple\<close>

text \<open>The inner loop over the sockets, from index \<open>start\<close>.\<close>

fun alloc_sockets :: "engine \<Rightarrow> udp_addr \<Rightarrow> int \<Rightarrow> nat list \<Rightarrow>
    engine \<times> (udp_addr \<times> tuple4 \<times> byte) option ret" where
  "alloc_sockets e dst start [] = (e, Ok None)"
| "alloc_sockets e dst start (i # is) =
    (case PickAt (e_pool e) (wrap64 (start + int i)) of
       None \<Rightarrow> (e, Panic)
     | Some None \<Rightarrow> alloc_sockets e dst start is
     | Some (Some sock) \<Rightarrow>
         (let tuple = MakeTuple sock dst; (r, ids) = Allocate (e_ids e) tuple; e' = e\<lparr>e_ids := ids\<rparr> in
          case r of
            Some n \<Rightarrow> (e', Ok (Some (sock, tuple, n)))
          | None \<Rightarrow> alloc_sockets e' dst start is))"

definition next_start :: "engine \<Rightarrow> int \<times> engine" where
  "next_start e = (let p = e_pool e in
     (wrap64 (uint (sp_rrIdx p)), e\<lparr>e_pool := p\<lparr>sp_rrIdx := sp_rrIdx p + 1\<rparr>\<rparr>))"

text \<open>
  The outer loop. \<open>retries\<close> lists the waits after full rounds: \<open>None\<close> when the back-off step
  elapsed, \<open>Some err\<close> when the context ended; the deadline has passed at its end.
\<close>

fun alloc_rounds :: "engine \<Rightarrow> udp_addr \<Rightarrow> int \<Rightarrow> goerr option list \<Rightarrow>
    engine \<times> (udp_addr \<times> tuple4 \<times> byte) ret" where
  "alloc_rounds e dst start retries =
    (case alloc_sockets e dst start [0..<length (sp_sockets (e_pool e))] of
       (e1, Panic) \<Rightarrow> (e1, Panic)
     | (e1, Err err) \<Rightarrow> (e1, Err err)
     | (e1, Ok (Some r)) \<Rightarrow> (e1, Ok r)
     | (e1, Ok None) \<Rightarrow>
         (case retries of
            [] \<Rightarrow> (e1, Err ErrIdentifierExhausted)
          | Some err # _ \<Rightarrow> (e1, Err err)
          | None # rest \<Rightarrow> (let (start', e2) = next_start e1 in alloc_rounds e2 dst start' rest)))"

definition allocateOnAnyTuple :: "engine \<Rightarrow> udp_addr \<Rightarrow> goerr option list \<Rightarrow>
    engine \<times> (udp_addr \<times> tuple4 \<times> byte) ret" where
  "allocateOnAnyTuple e dst retries =
     (let (start, e1) = next_start e in alloc_rounds e1 dst start retries)"

section \<open>Dispatching a datagram\<close>

text \<open>
  The receiver decodes and routes. The result names what was handed to the server handler,
  if anything; \<open>now\<close> and \<open>now'\<close> are the matcher's clock readings, \<open>off\<close> the offset passed on.
\<close>

datatype routed = ToMatcher bool | ToHandler packet | Dropped

definition dispatch :: "clock \<Rightarrow> int \<Rightarrow> int \<Rightarrow> bytes \<Rightarrow> bool \<Rightarrow> int \<Rightarrow> int \<Rightarrow> engine \<Rightarrow> string \<Rightarrow> string \<Rightarrow> bytes \<Rightarrow>
    engine \<times> routed ret" where
  "dispatch clk now now' secret has_handler startedAt rcvNow e local remote wire =
     (case Decode wire secret of
        Inl err \<Rightarrow> (e\<lparr>e_events := submit clk (\<lambda>s. NewError s 0 (offsetMs startedAt (st_now s))
            EventTypeValidationFailed 0 (''radius decode: '' @ err_msg err)) (e_events e)\<rparr>, Ok Dropped)
      | Inr pkt \<Rightarrow>
          if IsResponse (Code pkt) then
            (case Deliver clk now now' (e_matcher e) (e_events e) local remote pkt wire secret
                    (offsetMs startedAt rcvNow) of
               None \<Rightarrow> (e, Panic)
             | Some (m, evs, known) \<Rightarrow> (e\<lparr>e_matcher := m, e_events := evs\<rparr>, Ok (ToMatcher known)))
          else if Code pkt = CodeCoARequest \<or> Code pkt = CodeDisconnectRequest then
            (if has_handler then (e, Ok (ToHandler pkt))
             else (e\<lparr>e_events := submit clk (\<lambda>s.
                 if Code pkt = CodeCoARequest
                 then NewCoAEvent s 0 (offsetMs startedAt (st_now s)) EventTypeCoADropped
                        (uint (Identifier pkt)) local remote (int (length wire)) 0 0
                 else NewDisconnectEvent s 0 (offsetMs startedAt (st_now s)) EventTypeDisconnectReceived
                        (uint (Identifier pkt)) local remote (int (length wire)) 0 0) (e_events e)\<rparr>, Ok Dropped))
          else (e\<lparr>e_events := submit clk (\<lambda>s. NewUnmatchedReply s (offsetMs startedAt (st_now s))
                 (sint (Code pkt)) (uint (Identifier pkt)) local remote (int (length wire))) (e_events e)\<rparr>,
                Ok Dropped))"

section \<open>Sending\<close>

text \<open>One datagram the receiver handles while the sender waits.\<close>

record inbound =
  in_local :: string
  in_remote :: string
  in_wire :: bytes
  in_now :: int
  in_now' :: int
  in_rcv :: int

datatype wait_end = WaitCtx goerr | WaitTimer

record attempt_env =
  ae_retries :: "goerr option list"
  ae_build :: "byte \<Rightarrow> packet option res"
  ae_rnd :: "bytes res"
  ae_write :: "goerr option"
  ae_inbound :: "inbound list"
  ae_end :: wait_end
  ae_race :: bool
  ae_latencyUs :: int

text \<open>
  The wait: datagrams are dispatched until the request's channel holds a reply, which is taken
  from it; \<open>Ok None\<close> when the inbound list ends first. When a reply and the end of the wait are
  ready together the \<^verbatim>\<open>select\<close> may take either; \<open>race\<close> says it takes the end.
\<close>

definition take_reply :: "matcher \<Rightarrow> inflight \<Rightarrow> (reply_delivery \<times> matcher) option" where
  "take_reply m ifl = (case map_of (m_chan m) (if_id ifl) of
       None \<Rightarrow> None
     | Some d \<Rightarrow> Some (d, m\<lparr>m_chan := AList.delete (if_id ifl) (m_chan m)\<rparr>))"

fun wait_reply :: "clock \<Rightarrow> bool \<Rightarrow> bytes \<Rightarrow> engine \<Rightarrow> inflight \<Rightarrow> inbound list \<Rightarrow> engine \<times> reply_delivery option ret" where
  "wait_reply clk race secret e ifl ins =
    (case (if race then None else take_reply (e_matcher e) ifl) of
       Some (d, m) \<Rightarrow> (e\<lparr>e_matcher := m\<rparr>, Ok (Some d))
     | None \<Rightarrow>
         (case ins of
            [] \<Rightarrow> (e, Ok None)
          | i # rest \<Rightarrow>
              (case dispatch clk (in_now i) (in_now' i) secret (o_HasHandler (e_opts e)) (e_startedAt e) (in_rcv i) e
                      (in_local i) (in_remote i) (in_wire i) of
                 (e', Panic) \<Rightarrow> (e', Panic)
               | (e', _) \<Rightarrow> wait_reply clk race secret e' ifl rest)))"

definition release_id :: "engine \<Rightarrow> tuple4 \<Rightarrow> byte \<Rightarrow> engine" where
  "release_id e t i = e\<lparr>e_ids := Release (e_ids e) t i\<rparr>"

definition cancel_key :: "engine \<Rightarrow> match_key \<Rightarrow> engine" where
  "cancel_key e k = e\<lparr>e_matcher := Cancel (e_matcher e) k\<rparr>"

text \<open>The \<^verbatim>\<open>select\<close> after the write: a reply, the end of the context, or the timer
  (\<open>Ok None\<close>, after which the loop goes on).\<close>

definition await :: "clock \<Rightarrow> engine \<Rightarrow> u32 \<Rightarrow> nat \<Rightarrow> attempt_env \<Rightarrow> udp_addr \<Rightarrow> tuple4 \<Rightarrow> byte \<Rightarrow> inflight \<Rightarrow>
    engine \<times> send_result option ret" where
  "await clk e3 subID attempt env sock tuple i ifl =
     (case wait_reply clk (ae_race env) (o_Secret (e_opts e3)) e3 ifl (ae_inbound env) of
        (e4, Panic) \<Rightarrow> (e4, Panic)
      | (e4, Err err) \<Rightarrow> (e4, Err err)
      | (e4, Ok (Some rd)) \<Rightarrow>
          (let e5 = release_id e4 tuple i in
           (e5\<lparr>e_events := submit clk (\<lambda>s. NewReplyReceived s subID
              (offsetMs (e_startedAt e5) (st_now s)) [] (sint (Code (rd_Packet rd))) (uint i)
              (udp_addr_string sock) (rd_RemoteAddr rd) (int (length (rd_WireBytes rd)))
              (ae_latencyUs env)) (e_events e5)\<rparr>,
            Ok (Some \<lparr>sr_Reply = rd_Packet rd, sr_LatencyUs = ae_latencyUs env,
              sr_RetransmitN = attempt, sr_LocalAddr = sock, sr_Identifier = i\<rparr>)))
      | (e4, Ok None) \<Rightarrow>
          (let e5 = release_id (cancel_key e4 (udp_addr_string sock, i)) tuple i in
           case ae_end env of
             WaitCtx err \<Rightarrow> (e5, Err err)
           | WaitTimer \<Rightarrow> (e5, Ok None)))"

text \<open>From the registration with the matcher to the end of the attempt.\<close>

definition transmit :: "clock \<Rightarrow> engine \<Rightarrow> udp_addr \<Rightarrow> u32 \<Rightarrow> nat \<Rightarrow> attempt_env \<Rightarrow> udp_addr \<Rightarrow> tuple4 \<Rightarrow> byte \<Rightarrow>
    packet \<Rightarrow> bytes \<Rightarrow> engine \<times> send_result option ret" where
  "transmit clk e1 udst subID attempt env sock tuple i req wire =
     (let k = (udp_addr_string sock, i);
          (ifl, m) = Register (e_matcher e1) k req subID;
          e2 = e1\<lparr>e_matcher := m\<rparr>
      in case ae_write env of
        Some werr \<Rightarrow>
          (let e3 = release_id (cancel_key e2 k) tuple i in
           (e3\<lparr>e_events := submit clk (\<lambda>s. NewError s subID (offsetMs (e_startedAt e3) (st_now s))
               EventTypeInternalError 0 (''udp write: '' @ err_msg werr)) (e_events e3)\<rparr>,
            Err (Wrap (''io: udp write (attempt '' @ dec attempt @ ''): '') werr '''')))
      | None \<Rightarrow>
          await clk (e2\<lparr>e_events := submit clk (\<lambda>s. NewRequestSent s subID
                 (offsetMs (e_startedAt e2) (st_now s)) [] (sint (Code req)) (uint i) (udp_addr_string sock)
                 (udp_addr_string udst) (int (length wire)) (i32 (int attempt))) (e_events e2)\<rparr>)
            subID attempt env sock tuple i ifl)"

text \<open>One attempt.\<close>

definition send_attempt :: "clock \<Rightarrow> engine \<Rightarrow> udp_addr \<Rightarrow> u32 \<Rightarrow> nat \<Rightarrow> attempt_env \<Rightarrow>
    engine \<times> send_result option ret" where
  "send_attempt clk e udst subID attempt env =
     (case allocateOnAnyTuple e udst (ae_retries env) of
        (e1, Panic) \<Rightarrow> (e1, Panic)
      | (e1, Err err) \<Rightarrow> (e1, Err err)
      | (e1, Ok (sock, tuple, i)) \<Rightarrow>
        (case ae_build env i of
           Inl err \<Rightarrow> (release_id e1 tuple i,
             Err (Wrap (''io: build request (attempt '' @ dec attempt @ ''): '') err ''''))
         | Inr None \<Rightarrow> (release_id e1 tuple i, Err (Plain ''io: build returned nil packet''))
         | Inr (Some req0) \<Rightarrow>
           (case Encode (req0\<lparr>Identifier := i\<rparr>) (ae_rnd env) of
              (req, Inl err) \<Rightarrow> (release_id e1 tuple i,
                Err (Wrap (''io: encode request (attempt '' @ dec attempt @ ''): '') err ''''))
            | (req, Inr wire) \<Rightarrow> transmit clk e1 udst subID attempt env sock tuple i req wire)))"

fun send_loop :: "clock \<Rightarrow> engine \<Rightarrow> udp_addr \<Rightarrow> u32 \<Rightarrow> (nat \<Rightarrow> attempt_env) \<Rightarrow> nat \<Rightarrow> nat \<Rightarrow>
    engine \<times> send_result ret" where
  "send_loop clk e udst subID env attempt 0 = (e, Err ErrFinalTimeout)"
| "send_loop clk e udst subID env attempt (Suc left) =
    (case send_attempt clk e udst subID attempt (env attempt) of
       (e', Panic) \<Rightarrow> (e', Panic)
     | (e', Err err) \<Rightarrow> (e', Err err)
     | (e', Ok (Some r)) \<Rightarrow> (e', Ok r)
     | (e', Ok None) \<Rightarrow> send_loop clk e' udst subID env (Suc attempt) left)"

definition runSend :: "clock \<Rightarrow> (string \<Rightarrow> udp_addr res) \<Rightarrow> engine \<Rightarrow> net_addr \<Rightarrow> retransmit_policy \<Rightarrow> u32 \<Rightarrow>
    (nat \<Rightarrow> attempt_env) \<Rightarrow> engine \<times> send_result ret" where
  "runSend clk resolve e dst policy subID env =
     (case resolveDst resolve dst of
        Inl err \<Rightarrow> (e, Err (Wrap ''io: resolve dst: '' err ''''))
      | Inr udst \<Rightarrow> send_loop clk e udst subID env 0 (maxAttempts policy))"

definition engine_Send :: "clock \<Rightarrow> (string \<Rightarrow> udp_addr res) \<Rightarrow> engine \<Rightarrow> net_addr \<Rightarrow> retransmit_policy \<Rightarrow> u32 \<Rightarrow>
    (nat \<Rightarrow> attempt_env) \<Rightarrow> engine \<times> send_result ret" where
  "engine_Send clk resolve e dst policy subID env =
     (if e_startedAt e = 0 then (e, Err ErrNotStarted)
      else let policy' = (if InitialTimeout policy \<le> 0
                          then policy\<lparr>InitialTimeout := 5 * second_ns\<rparr> else policy)
           in runSend clk resolve e dst policy' subID env)"

declare wait_reply.simps [simp del] alloc_rounds.simps [simp del]

section \<open>Frames\<close>

text \<open>What allocation leaves alone, and what it does to the identifiers.\<close>

lemma next_start_frame:
  assumes "next_start e = (st, e')"
  shows "e_ids e' = e_ids e \<and> e_matcher e' = e_matcher e \<and> e_events e' = e_events e
    \<and> e_opts e' = e_opts e \<and> e_startedAt e' = e_startedAt e"
  using assms by (auto simp: next_start_def Let_def)

definition alloc_effect :: "engine \<Rightarrow> engine \<Rightarrow> (tuple4 \<times> byte) option \<Rightarrow> bool" where
  "alloc_effect e e' r \<longleftrightarrow> id_inv (e_ids e') \<and> e_matcher e' = e_matcher e \<and> e_events e' = e_events e
     \<and> e_opts e' = e_opts e \<and> e_startedAt e' = e_startedAt e
     \<and> (case r of
          None \<Rightarrow> id_held (e_ids e') = id_held (e_ids e)
        | Some (t, i) \<Rightarrow> i \<notin> id_held (e_ids e) t
            \<and> id_held (e_ids e') = (id_held (e_ids e))(t := insert i (id_held (e_ids e) t)))"

lemma alloc_effect_trans:
  "alloc_effect e e1 None \<Longrightarrow> alloc_effect e1 e2 r \<Longrightarrow> alloc_effect e e2 r"
  by (auto simp: alloc_effect_def split: option.splits prod.splits)

lemma alloc_effect_refl: "id_inv (e_ids e) \<Longrightarrow> alloc_effect e e None"
  by (simp add: alloc_effect_def)

lemma alloc_effect_next_start: "id_inv (e_ids e) \<Longrightarrow> next_start e = (st, e') \<Longrightarrow> alloc_effect e e' None"
  using next_start_frame [of e st e'] by (simp add: alloc_effect_def)

definition alloc_result :: "(udp_addr \<times> tuple4 \<times> byte) option ret \<Rightarrow> (tuple4 \<times> byte) option" where
  "alloc_result r = (case r of Ok (Some (s, t, i)) \<Rightarrow> Some (t, i) | _ \<Rightarrow> None)"

lemma alloc_sockets_effect:
  "alloc_sockets e dst start is = (e', r) \<Longrightarrow> id_inv (e_ids e) \<Longrightarrow> alloc_effect e e' (alloc_result r)"
proof (induction "is" arbitrary: e)
  case Nil
  then show ?case by (auto simp: alloc_result_def alloc_effect_refl)
next
  case (Cons i "is")
  show ?case
  proof (cases "PickAt (e_pool e) (wrap64 (start + int i))")
    case None
    with Cons.prems show ?thesis by (auto simp: alloc_result_def alloc_effect_refl)
  next
    case (Some s)
    show ?thesis
    proof (cases s)
      case None
      with Some Cons show ?thesis by simp
    next
      case sock: (Some a)
      let ?t = "MakeTuple a dst"
      obtain q ids where al: "Allocate (e_ids e) ?t = (q, ids)" by fastforce
      show ?thesis
      proof (cases q)
        case (Some n)
        with al ids.alloc_some [OF Cons.prems(2), of ?t n ids] \<open>PickAt _ _ = Some s\<close> sock Cons.prems(1)
        show ?thesis by (auto simp: alloc_result_def alloc_effect_def)
      next
        case None
        with al ids.alloc_none [OF Cons.prems(2), of ?t ids]
        have "alloc_effect e (e\<lparr>e_ids := ids\<rparr>) None" and inv: "id_inv ids"
          by (auto simp: alloc_effect_def)
        moreover have "alloc_sockets (e\<lparr>e_ids := ids\<rparr>) dst start is = (e', r)"
          using Cons.prems(1) \<open>PickAt _ _ = Some s\<close> sock al None by simp
        ultimately show ?thesis
          using Cons.IH [of "e\<lparr>e_ids := ids\<rparr>"] alloc_effect_trans by simp
      qed
    qed
  qed
qed

definition alloc_result' :: "(udp_addr \<times> tuple4 \<times> byte) ret \<Rightarrow> (tuple4 \<times> byte) option" where
  "alloc_result' r = (case r of Ok (s, t, i) \<Rightarrow> Some (t, i) | _ \<Rightarrow> None)"

lemma alloc_rounds_effect:
  "alloc_rounds e dst start retries = (e', r) \<Longrightarrow> id_inv (e_ids e) \<Longrightarrow> alloc_effect e e' (alloc_result' r)"
proof (induction retries arbitrary: e start)
  case Nil
  obtain e1 q where a: "alloc_sockets e dst start [0..<length (sp_sockets (e_pool e))] = (e1, q)"
    by fastforce
  from alloc_sockets_effect [OF a Nil.prems(2)] Nil.prems(1) a show ?case
    by (auto simp: alloc_rounds.simps [of e] alloc_result_def alloc_result'_def
        split: ret.splits option.splits prod.splits)
next
  case (Cons b rest)
  obtain e1 q where a: "alloc_sockets e dst start [0..<length (sp_sockets (e_pool e))] = (e1, q)"
    by fastforce
  note eff = alloc_sockets_effect [OF a Cons.prems(2)]
  show ?case
  proof (cases "q = Ok None \<and> b = None")
    case True
    obtain st e2 where n: "next_start e1 = (st, e2)" by fastforce
    have e1: "alloc_effect e e1 None" using eff True by (simp add: alloc_result_def)
    then have inv1: "id_inv (e_ids e1)" by (simp add: alloc_effect_def)
    then have inv: "id_inv (e_ids e2)" using next_start_frame [OF n] by simp
    have "alloc_rounds e2 dst st rest = (e', r)"
      using Cons.prems(1) a True n by (simp add: alloc_rounds.simps [of e])
    from Cons.IH [OF this inv] show ?thesis
      using alloc_effect_trans [OF e1] alloc_effect_trans [OF alloc_effect_next_start [OF inv1 n]] by blast
  next
    case False
    with Cons.prems(1) a eff show ?thesis
      by (auto simp: alloc_rounds.simps [of e] alloc_result_def alloc_result'_def
          split: ret.splits option.splits prod.splits)
  qed
qed

lemma allocateOnAnyTuple_effect:
  assumes "allocateOnAnyTuple e dst retries = (e', r)" "id_inv (e_ids e)"
  shows "alloc_effect e e' (alloc_result' r)"
proof -
  obtain st e1 where n: "next_start e = (st, e1)" by fastforce
  with assms(1) have a: "alloc_rounds e1 dst st retries = (e', r)" by (simp add: allocateOnAnyTuple_def)
  note f = alloc_effect_next_start [OF assms(2) n]
  then have "id_inv (e_ids e1)" by (simp add: alloc_effect_def)
  from alloc_effect_trans [OF f alloc_rounds_effect [OF a this]] show ?thesis .
qed

end
