(* ===== verification/Io_Sending.thy ===== *)
theory Io_Sending
  imports Io_Sender
begin

text \<open>
  What the send path guarantees: deliveries are runs of the interleaved matcher, identifiers
  and pending entries are given back on every exit, the number of transmissions is bounded,
  and a reply returned was validated against the request sent.
\<close>


section \<open>Deliveries and the matcher's invariant\<close>

definition msys_of :: "matcher \<Rightarrow> inflight list \<Rightarrow> msys" where
  "msys_of m reg = \<lparr>s_m = m, s_threads = (\<lambda>_. Idle), s_reg = reg\<rparr>"

text \<open>The sequential \<open>Deliver\<close> is a run of the interleaved system.\<close>

lemma deliver_is_run:
  assumes "Deliver clk now now' m evs local remote reply wire secret off = Some (m', evs', known)"
  shows "(mstep secret)\<^sup>*\<^sup>* (msys_of m reg) (msys_of m' reg)"
proof (cases "pend m (local, Identifier reply)")
  case None
  then have "m' = m"
    using assms by (auto simp: Deliver_def Let_def deliver_lookup_def)
  then show ?thesis by simp
next
  case (Some ifl)
  let ?k = "(local, Identifier reply)"
  let ?d = "\<lparr>rd_Packet = reply, rd_WireBytes = wire, rd_RemoteAddr = remote\<rparr>"
  let ?s = "msys_of m reg"
  from Some have l: "deliver_lookup m ?k = (Some ifl, None)" by (simp add: deliver_lookup_def)
  obtain m1 where c: "deliver_claim now now' m ?k ifl = (True, m1)" using claim_looked_up [OF Some] by blast
  show ?thesis
  proof (cases "reply_valid secret ifl ?d")
    case False
    then have "m' = m" using assms l
      by (auto simp: Deliver_def Let_def reply_valid_def split: option.splits bool.splits)
    then show ?thesis by simp
  next
    case True
    then have m': "m' = deliver_send m1 ifl ?d"
      using assms l c by (auto simp: Deliver_def Let_def reply_valid_def)
    let ?s1 = "?s\<lparr>s_threads := (s_threads ?s)(0 := Validated ?k ifl ?d)\<rparr>"
    let ?s2 = "?s1\<lparr>s_m := m1, s_threads := (s_threads ?s1)(0 := Claimed ifl ?d)\<rparr>"
    let ?s3 = "?s2\<lparr>s_m := deliver_send (s_m ?s2) ifl ?d, s_threads := (s_threads ?s2)(0 := Idle)\<rparr>"
    have "mstep secret ?s ?s1"
      by (rule st_lookup [where dup = None]) (use True l in \<open>simp_all add: msys_of_def\<close>)
    moreover have "mstep secret ?s1 ?s2"
      by (rule st_claim [where k = ?k and now = now and now' = now']) (use c in \<open>simp_all add: msys_of_def\<close>)
    moreover have "mstep secret ?s2 ?s3"
      by (rule st_send) simp
    moreover have "?s3 = msys_of m' reg" by (simp add: m' msys_of_def fun_eq_iff)
    ultimately show ?thesis by (metis (no_types, lifting) converse_rtranclp_into_rtranclp rtranclp.rtrancl_refl)
  qed
qed

lemma minv_run: "(mstep secret)\<^sup>*\<^sup>* s s' \<Longrightarrow> minv secret s \<Longrightarrow> minv secret s'"
  by (induction rule: rtranclp_induct) (auto intro: minv_step)

definition mok :: "bytes \<Rightarrow> matcher \<Rightarrow> inflight list \<Rightarrow> bool" where
  "mok secret m reg \<longleftrightarrow> minv secret (msys_of m reg)"

lemma mok_deliver:
  "mok secret m reg \<Longrightarrow> Deliver clk now now' m evs local remote reply wire secret off = Some (m', evs', known) \<Longrightarrow>
    mok secret m' reg"
  using minv_run deliver_is_run unfolding mok_def by blast

lemma mok_register:
  "mok secret m reg \<Longrightarrow> Register m k req sub = (ifl, m') \<Longrightarrow> mok secret m' (reg @ [ifl])"
  using minv_register [of secret "msys_of m reg" k req sub ifl m'] by (simp add: mok_def msys_of_def)

lemma mok_cancel: "mok secret m reg \<Longrightarrow> mok secret (Cancel m k) reg"
  using minv_step [of secret "msys_of m reg", OF _ st_cancel] by (simp add: mok_def msys_of_def)

lemma mok_take:
  assumes "mok secret m reg" "take_reply m ifl = Some (d, m')"
  shows "mok secret m' reg" "pend m' = pend m"
    "reply_valid secret (reg ! if_id ifl) d" "\<forall>k i. pend m k = Some i \<longrightarrow> if_id i \<noteq> if_id ifl"
proof -
  from assms(2) have d: "map_of (m_chan m) (if_id ifl) = Some d"
    and m': "m' = m\<lparr>m_chan := AList.delete (if_id ifl) (m_chan m)\<rparr>"
    by (auto simp: take_reply_def split: option.splits)
  have sub: "set (AList.delete (if_id ifl) (m_chan m)) \<subseteq> set (m_chan m)"
    by (auto simp: AList.delete_eq)
  have dist: "distinct (map fst (m_chan m)) \<Longrightarrow> distinct (map fst (AList.delete (if_id ifl) (m_chan m)))"
    by (rule distinct_delete)
  show "pend m' = pend m" by (simp add: m')
  show "mok secret m' reg"
    using assms(1) sub dist
    unfolding mok_def minv_def Let_def msys_of_def m' by (auto dest: subsetD)
     (use sub in fast)
  from map_of_SomeD [OF d] assms(1)
  show "reply_valid secret (reg ! if_id ifl) d" "\<forall>k i. pend m k = Some i \<longrightarrow> if_id i \<noteq> if_id ifl"
    unfolding mok_def minv_def Let_def msys_of_def by auto
qed

lemma deliver_pending_shrinks:
  "Deliver clk now now' m evs local remote reply wire secret off = Some (m', evs', known) \<Longrightarrow> pend m' \<subseteq>\<^sub>m pend m"
proof -
  assume d: "Deliver clk now now' m evs local remote reply wire secret off = Some (m', evs', known)"
  show ?thesis
  proof (cases "pend m (local, Identifier reply)")
    case None
    then have "m' = m" using d by (auto simp: Deliver_def Let_def deliver_lookup_def)
    then show ?thesis by simp
  next
    case (Some ifl)
    obtain m1 where c: "deliver_claim now now' m (local, Identifier reply) ifl = (True, m1)"
        "pend m1 = (pend m)((local, Identifier reply) := None)"
      using claim_looked_up [OF Some] by blast
    with d Some show ?thesis
      by (auto simp: Deliver_def Let_def deliver_lookup_def map_le_def split: option.splits bool.splits if_split_asm)
  qed
qed

text \<open>Where the reply on a request's channel comes from: a datagram read on the socket of its key, whose
  identifier is the key's.\<close>

definition arrived :: "bytes \<Rightarrow> match_key \<Rightarrow> inbound \<Rightarrow> reply_delivery \<Rightarrow> bool" where
  "arrived secret k i d \<longleftrightarrow> Decode (in_wire i) secret = Inr (rd_Packet d) \<and> rd_WireBytes d = in_wire i
     \<and> k = (in_local i, Identifier (rd_Packet d))"

lemma deliver_arrival:
  assumes "mok secret m reg" "\<forall>k' i. pend m k' = Some i \<longrightarrow> if_id i = n \<longrightarrow> k' = k" "Decode (in_wire i) secret = Inr pkt"
    and "Deliver clk now now' m evs (in_local i) (in_remote i) pkt (in_wire i) secret off = Some (m', evs', known)"
    and "map_of (m_chan m') n = Some d"
  shows "map_of (m_chan m) n = Some d \<or> arrived secret k i d"
proof (cases "pend m (in_local i, Identifier pkt)")
  case None
  then show ?thesis using assms(5) deliver_outcome [OF assms(4)] by simp
next
  case (Some ifl)
  have "\<forall>n d. (n, d) \<in> set (m_chan m) \<longrightarrow> (\<forall>k i. pend m k = Some i \<longrightarrow> if_id i \<noteq> n)"
    using assms(1) by (simp add: mok_def minv_def Let_def msys_of_def del: split_paired_All)
  with Some have "map_of (m_chan m) (if_id ifl) = None" by (metis map_of_SomeD not_None_eq)
  moreover have "if_id ifl = n \<Longrightarrow> k = (in_local i, Identifier pkt)" using assms(2) Some by blast
  ultimately show ?thesis
    using Some assms(3,5) deliver_outcome [OF assms(4)] by (auto simp: arrived_def split: if_splits)
qed

section \<open>Outbound events\<close>

text \<open>The number an event carries is the attempt as an \<^verbatim>\<open>int32\<close>.\<close>

abbreviation (input) event_number :: "nat \<Rightarrow> int" where
  "event_number n \<equiv> i32 (int n)"

definition outs :: "event list \<Rightarrow> int list" where
  "outs evs = map EvRetransmitN (filter (\<lambda>v. EvCategory v = CategoryPacketOutbound) evs)"

lemma outs_submit:
  "outs (submit clk mk evs) = outs evs @ (if EvCategory (mk (clk (length evs))) = CategoryPacketOutbound
     then [EvRetransmitN (mk (clk (length evs)))] else [])"
  by (simp add: outs_def submit_def)

lemma deliver_outs:
  "Deliver clk now now' m evs local remote reply wire secret off = Some (m', evs', known) \<Longrightarrow> outs evs' = outs evs"
  by (auto simp: Deliver_def Let_def deliver_dup_def unmatched_event_def outs_submit ev_simps
      split: option.splits bool.splits prod.splits)

section \<open>The send path\<close>

text \<open>What a step of the engine may change: \<open>engine_ok\<close> holds before and after, nothing new is
  pending, options and start time stay.\<close>

definition engine_ok :: "inflight list \<Rightarrow> engine \<Rightarrow> bool" where
  "engine_ok reg e \<longleftrightarrow> id_inv (e_ids e) \<and> mok (o_Secret (e_opts e)) (e_matcher e) reg"

definition same_setup :: "engine \<Rightarrow> engine \<Rightarrow> bool" where
  "same_setup e e' \<longleftrightarrow> e_opts e' = e_opts e \<and> e_startedAt e' = e_startedAt e"

lemma dispatch_effect:
  assumes "dispatch clk now now' (o_Secret (e_opts e)) hh sa rcv e local remote wire = (e', r)"
    "engine_ok reg e"
  shows "engine_ok reg e' \<and> same_setup e e' \<and> id_held (e_ids e') = id_held (e_ids e)
    \<and> pend (e_matcher e') \<subseteq>\<^sub>m pend (e_matcher e) \<and> outs (e_events e') = outs (e_events e)"
proof (cases "Decode wire (o_Secret (e_opts e))")
  case (Inl err)
  with assms show ?thesis
    by (auto simp: dispatch_def engine_ok_def same_setup_def outs_submit ev_simps)
next
  case (Inr pkt)
  show ?thesis
  proof (cases "IsResponse (Code pkt)")
    case False
    with Inr assms show ?thesis
      by (auto simp: dispatch_def engine_ok_def same_setup_def outs_submit ev_simps split: if_splits)
  next
    case True
    show ?thesis
    proof (cases "Deliver clk now now' (e_matcher e) (e_events e) local remote pkt wire
        (o_Secret (e_opts e)) (offsetMs sa rcv)")
      case None
      with Inr True assms show ?thesis by (auto simp: dispatch_def engine_ok_def same_setup_def)
    next
      case (Some a)
      then obtain m evs known where d: "Deliver clk now now' (e_matcher e) (e_events e) local remote pkt wire
          (o_Secret (e_opts e)) (offsetMs sa rcv) = Some (m, evs, known)" by (cases a) auto
      with Inr True assms(1) have e': "e' = e\<lparr>e_matcher := m, e_events := evs\<rparr>"
        by (simp add: dispatch_def)
      show ?thesis
        using assms(2) mok_deliver [OF _ d] deliver_pending_shrinks [OF d] deliver_outs [OF d]
        by (simp add: e' engine_ok_def same_setup_def)
    qed
  qed
qed

lemma map_le_trans3: "f \<subseteq>\<^sub>m g \<Longrightarrow> g \<subseteq>\<^sub>m h \<Longrightarrow> f \<subseteq>\<^sub>m h"
  by (rule map_le_trans)

lemma wait_reply_effect:
  assumes "wait_reply clk race (o_Secret (e_opts e)) e ifl ins = (e', r)" "engine_ok reg e"
  shows "engine_ok reg e' \<and> same_setup e e' \<and> id_held (e_ids e') = id_held (e_ids e)
    \<and> pend (e_matcher e') \<subseteq>\<^sub>m pend (e_matcher e) \<and> outs (e_events e') = outs (e_events e)
    \<and> (\<forall>d. r = Ok (Some d) \<longrightarrow> reply_valid (o_Secret (e_opts e)) (reg ! if_id ifl) d
         \<and> (\<forall>k i. pend (e_matcher e') k = Some i \<longrightarrow> if_id i \<noteq> if_id ifl))
    \<and> (\<forall>err. r \<noteq> Err err)"
  using assms
proof (induction ins arbitrary: e)
  case Nil
  show ?case
  proof (cases "if race then None else take_reply (e_matcher e) ifl")
    case None
    with Nil show ?thesis by (auto simp: wait_reply.simps [of _ _ _ e] same_setup_def)
  next
    case (Some dm)
    obtain d m where dm: "dm = (d, m)" by (cases dm)
    then have t: "take_reply (e_matcher e) ifl = Some (d, m)" using Some by (simp split: if_splits)
    with Nil(1) Some dm have "e' = e\<lparr>e_matcher := m\<rparr>" "r = Ok (Some d)"
      by (auto simp: wait_reply.simps [of _ _ _ e])
    then show ?thesis
      using Nil(2) mok_take [OF _ t] by (auto simp: engine_ok_def same_setup_def)
  qed
next
  case (Cons i rest)
  show ?case
  proof (cases "if race then None else take_reply (e_matcher e) ifl")
    case (Some dm)
    obtain d m where dm: "dm = (d, m)" by (cases dm)
    then have t: "take_reply (e_matcher e) ifl = Some (d, m)" using Some by (simp split: if_splits)
    with Cons(2) Some dm have "e' = e\<lparr>e_matcher := m\<rparr>" "r = Ok (Some d)"
      by (auto simp: wait_reply.simps [of _ _ _ e])
    then show ?thesis
      using Cons(3) mok_take [OF _ t] by (auto simp: engine_ok_def same_setup_def)
  next
    case None
    obtain e1 q where d: "dispatch clk (in_now i) (in_now' i) (o_Secret (e_opts e)) (o_HasHandler (e_opts e)) (e_startedAt e)
        (in_rcv i) e (in_local i) (in_remote i) (in_wire i) = (e1, q)" by fastforce
    note f = dispatch_effect [OF d Cons(3)]
    show ?thesis
    proof (cases "q = Panic")
      case True
      with Cons(2) None d have "e' = e1" "r = Panic" by (auto simp: wait_reply.simps [of _ _ _ e])
      with f show ?thesis by simp
    next
      case False
      with Cons(2) None d have w: "wait_reply clk race (o_Secret (e_opts e)) e1 ifl rest = (e', r)"
        by (auto simp: wait_reply.simps [of _ _ _ e] split: ret.splits)
      from f have "o_Secret (e_opts e1) = o_Secret (e_opts e)" by (simp add: same_setup_def)
      with Cons.IH [of e1] w f show ?thesis
        by (auto simp: same_setup_def intro: map_le_trans3)
    qed
  qed
qed

text \<open>A reply the wait returns was on the channel before, or arrived during the wait.\<close>

lemma dispatch_arrival:
  assumes "dispatch clk (in_now i) (in_now' i) (o_Secret (e_opts e)) hh sa rcv e (in_local i) (in_remote i) (in_wire i) = (e', r)"
    "engine_ok reg e" "\<forall>k' i. pend (e_matcher e) k' = Some i \<longrightarrow> if_id i = n \<longrightarrow> k' = k"
    "map_of (m_chan (e_matcher e')) n = Some d"
  shows "map_of (m_chan (e_matcher e)) n = Some d \<or> arrived (o_Secret (e_opts e)) k i d"
proof (cases "Decode (in_wire i) (o_Secret (e_opts e))")
  case (Inl err)
  with assms(1,4) show ?thesis by (auto simp: dispatch_def)
next
  case (Inr pkt)
  show ?thesis
  proof (cases "IsResponse (Code pkt)")
    case False
    with Inr assms(1,4) show ?thesis by (auto simp: dispatch_def split: if_splits)
  next
    case True
    show ?thesis
    proof (cases "Deliver clk (in_now i) (in_now' i) (e_matcher e) (e_events e) (in_local i) (in_remote i) pkt (in_wire i)
        (o_Secret (e_opts e)) (offsetMs sa rcv)")
      case None
      with Inr True assms(1,4) show ?thesis by (auto simp: dispatch_def)
    next
      case (Some a)
      then obtain m evs known where d: "Deliver clk (in_now i) (in_now' i) (e_matcher e) (e_events e) (in_local i) (in_remote i)
          pkt (in_wire i) (o_Secret (e_opts e)) (offsetMs sa rcv) = Some (m, evs, known)" by (cases a) auto
      with Inr True assms(1) have "e_matcher e' = m" by (auto simp: dispatch_def)
      moreover have "mok (o_Secret (e_opts e)) (e_matcher e) reg" using assms(2) by (simp add: engine_ok_def)
      ultimately show ?thesis using deliver_arrival [OF _ assms(3) Inr d] assms(4) by blast
    qed
  qed
qed

lemma wait_reply_arrival:
  assumes "wait_reply clk race (o_Secret (e_opts e)) e ifl ins = (e', Ok (Some d))" "engine_ok reg e"
    "\<forall>k' i. pend (e_matcher e) k' = Some i \<longrightarrow> if_id i = if_id ifl \<longrightarrow> k' = k"
  shows "map_of (m_chan (e_matcher e)) (if_id ifl) = Some d \<or> (\<exists>i \<in> set ins. arrived (o_Secret (e_opts e)) k i d)"
  using assms
proof (induction ins arbitrary: e)
  case Nil
  then show ?case by (auto simp: wait_reply.simps [of _ _ _ e] take_reply_def split: option.splits if_splits)
next
  case (Cons i rest)
  show ?case
  proof (cases "if race then None else take_reply (e_matcher e) ifl")
    case (Some dm)
    with Cons(2) show ?thesis by (auto simp: wait_reply.simps [of _ _ _ e] take_reply_def split: option.splits if_splits)
  next
    case None
    obtain e1 q where d: "dispatch clk (in_now i) (in_now' i) (o_Secret (e_opts e)) (o_HasHandler (e_opts e)) (e_startedAt e)
        (in_rcv i) e (in_local i) (in_remote i) (in_wire i) = (e1, q)" by fastforce
    note f = dispatch_effect [OF d Cons(3)]
    have w: "wait_reply clk race (o_Secret (e_opts e1)) e1 ifl rest = (e', Ok (Some d))"
      using Cons(2) None d f by (auto simp: wait_reply.simps [of _ _ _ e] same_setup_def split: ret.splits)
    have "\<forall>k' i. pend (e_matcher e1) k' = Some i \<longrightarrow> if_id i = if_id ifl \<longrightarrow> k' = k"
      using f Cons(4) by (metis domI map_le_def)
    from Cons.IH [OF w _ this] f have "map_of (m_chan (e_matcher e1)) (if_id ifl) = Some d
        \<or> (\<exists>i \<in> set rest. arrived (o_Secret (e_opts e)) k i d)" by (simp add: same_setup_def)
    then show ?thesis using dispatch_arrival [OF d Cons(3,4)] by auto
  qed
qed

definition send_effect :: "engine \<Rightarrow> engine \<Rightarrow> inflight list \<Rightarrow> bool" where
  "send_effect e e' reg \<longleftrightarrow> (\<exists>reg'. engine_ok (reg @ reg') e') \<and> same_setup e e'
     \<and> id_held (e_ids e') = id_held (e_ids e) \<and> pend (e_matcher e') \<subseteq>\<^sub>m pend (e_matcher e)"

lemma release_after_take:
  assumes "id_inv (e_ids e)" "id_held (e_ids e) = (h)(t := insert i (h t))" "i \<notin> h t"
  shows "id_inv (e_ids (release_id e t i)) \<and> id_held (e_ids (release_id e t i)) = h"
  using Release_held [OF assms(1), of t i] assms(2,3) by (simp add: release_id_def)

lemma release_frame [simp]:
  "e_opts (release_id e t i) = e_opts e" "e_startedAt (release_id e t i) = e_startedAt e"
  "e_matcher (release_id e t i) = e_matcher e" "e_events (release_id e t i) = e_events e"
  "e_opts (cancel_key e k) = e_opts e" "e_startedAt (cancel_key e k) = e_startedAt e"
  "e_ids (cancel_key e k) = e_ids e" "e_events (cancel_key e k) = e_events e"
  "e_matcher (cancel_key e k) = Cancel (e_matcher e) k"
  by (simp_all add: release_id_def cancel_key_def)

text \<open>
  The engine after the wait, \<open>e4\<close>, against the engine before the attempt: one identifier more is
  held, and nothing but the request's own key may be pending in addition.
\<close>

lemma wait_phase:
  assumes ok: "engine_ok reg e"
    and al: "allocateOnAnyTuple e udst rs = (e1, Ok (sock, t, i))"
    and rg: "Register (e_matcher e1) k req sub = (ifl, m)"
    and ev: "outs evs = outs (e_events e1) @ [n]"
    and w: "wait_reply clk race (o_Secret (e_opts e)) (e1\<lparr>e_matcher := m, e_events := evs\<rparr>) ifl ins = (e4, r)"
  shows "engine_ok (reg @ [ifl]) e4" "same_setup e e4"
    "id_held (e_ids e4) = (id_held (e_ids e))(t := insert i (id_held (e_ids e) t))" "i \<notin> id_held (e_ids e) t"
    "pend (e_matcher e4) \<subseteq>\<^sub>m (pend (e_matcher e))(k \<mapsto> ifl)"
    "outs (e_events e4) = outs (e_events e) @ [n]"
    "r = Ok (Some d) \<Longrightarrow> reply_valid (o_Secret (e_opts e)) ifl d \<and> pend (e_matcher e4) k = None"
    "if_Request ifl = req" "r \<noteq> Err err"
    "r = Ok (Some d) \<Longrightarrow> \<exists>i \<in> set ins. arrived (o_Secret (e_opts e)) k i d"
proof -
  have inv: "id_inv (e_ids e)" "mok (o_Secret (e_opts e)) (e_matcher e) reg"
    using ok by (auto simp: engine_ok_def)
  from allocateOnAnyTuple_effect [OF al inv(1)]
  have a: "id_inv (e_ids e1)" "e_matcher e1 = e_matcher e" "e_events e1 = e_events e" "same_setup e e1"
    "i \<notin> id_held (e_ids e) t" "id_held (e_ids e1) = (id_held (e_ids e))(t := insert i (id_held (e_ids e) t))"
    by (auto simp: alloc_effect_def alloc_result'_def same_setup_def)
  note r = Register_simps [OF rg]
  let ?e3 = "e1\<lparr>e_matcher := m, e_events := evs\<rparr>"
  have sec: "o_Secret (e_opts ?e3) = o_Secret (e_opts e)" using a(4) by (simp add: same_setup_def)
  have mk: "mok (o_Secret (e_opts e)) m (reg @ [ifl])"
    using mok_register [OF inv(2)] rg a(2) by simp
  then have ok3: "engine_ok (reg @ [ifl]) ?e3" using a(1) sec by (simp add: engine_ok_def)
  have len: "if_id ifl = length reg"
    using inv(2) r(1) a(2) by (simp add: mok_def minv_def Let_def msys_of_def)
  note f = wait_reply_effect [OF w [folded sec] ok3]
  show "engine_ok (reg @ [ifl]) e4" using f by blast
  show "same_setup e e4" using f a(4) by (simp add: same_setup_def)
  show "id_held (e_ids e4) = (id_held (e_ids e))(t := insert i (id_held (e_ids e) t))" using f a(6) by simp
  show "i \<notin> id_held (e_ids e) t" by (rule a)
  show sub4: "pend (e_matcher e4) \<subseteq>\<^sub>m (pend (e_matcher e))(k \<mapsto> ifl)" using f r(2) a(2) by simp
  show "outs (e_events e4) = outs (e_events e) @ [n]" using f ev a(3) by simp
  show "if_Request ifl = req" by (simp add: r(1))
  show "r \<noteq> Err err" using f by blast
  have "if_id i = if_id ifl \<Longrightarrow> k' = k" if "pend m k' = Some i" for k' i
  proof -
    have "pend m k = Some ifl" using r(2) by simp
    with mk that show "if_id i = if_id ifl \<Longrightarrow> k' = k" unfolding mok_def minv_def Let_def msys_of_def msys.simps by meson
  qed
  moreover have "map_of (m_chan m) (if_id ifl) = None"
    using inv(2) len r(5) a(2) by (fastforce simp: mok_def minv_def Let_def msys_of_def map_of_eq_None_iff)
  ultimately show "\<exists>i \<in> set ins. arrived (o_Secret (e_opts e)) k i d" if "r = Ok (Some d)"
    using wait_reply_arrival [OF w [folded sec, unfolded that] ok3, of k] sec by auto
  assume rd: "r = Ok (Some d)"
  from f have "\<forall>d. r = Ok (Some d) \<longrightarrow> reply_valid (o_Secret (e_opts ?e3)) ((reg @ [ifl]) ! if_id ifl) d
      \<and> (\<forall>k i. pend (e_matcher e4) k = Some i \<longrightarrow> if_id i \<noteq> if_id ifl)"
    by (elim conjE)
  from this [rule_format, OF rd]
  have "reply_valid (o_Secret (e_opts e)) ((reg @ [ifl]) ! if_id ifl) d
      \<and> (\<forall>k i. pend (e_matcher e4) k = Some i \<longrightarrow> if_id i \<noteq> if_id ifl)"
    unfolding sec .
  note vn = this
  note v = vn [THEN conjunct1] and no = vn [THEN conjunct2]
  have "pend (e_matcher e4) k = None"
  proof (rule ccontr)
    assume "pend (e_matcher e4) k \<noteq> None"
    then obtain j where j: "pend (e_matcher e4) k = Some j" by blast
    have "pend (e_matcher e4) k = ((pend (e_matcher e))(k \<mapsto> ifl)) k"
      using sub4 j unfolding map_le_def by blast
    with j have "j = ifl" by simp
    with no j show False by blast
  qed
  with v len show "reply_valid (o_Secret (e_opts e)) ifl d \<and> pend (e_matcher e4) k = None" by simp
qed

lemma pend_removed: "f \<subseteq>\<^sub>m g(k \<mapsto> x) \<Longrightarrow> f(k := None) \<subseteq>\<^sub>m g"
  by (auto simp: map_le_def dom_def split: if_split_asm)

lemma pend_removed': "f \<subseteq>\<^sub>m g(k \<mapsto> x) \<Longrightarrow> f k = None \<Longrightarrow> f \<subseteq>\<^sub>m g"
  using pend_removed [of f g k x] by (simp add: fun_upd_idem)

text \<open>
  A result answers a request: it is a datagram that arrived on the socket the request was sent from, decoded,
  with the identifier the request was sent with, and its Response Authenticator is right for the packet
  that went out.
\<close>

definition answered :: "bytes \<Rightarrow> (byte \<Rightarrow> packet \<Rightarrow> bool) \<Rightarrow> inbound list \<Rightarrow> send_result \<Rightarrow> bool" where
  "answered secret sent ins x \<longleftrightarrow> (\<exists>req. \<exists>d \<in> set ins. sent (sr_Identifier x) req
     \<and> Decode (in_wire d) secret = Inr (sr_Reply x) \<and> in_local d = udp_addr_string (sr_LocalAddr x)
     \<and> Identifier (sr_Reply x) = sr_Identifier x
     \<and> ValidateResponseAuthenticator (sr_Reply x) (Authenticator req) secret (in_wire d) [] = Some True)"

text \<open>What an attempt leaves behind and returns.\<close>

definition attempt_post :: "engine \<Rightarrow> inflight list \<Rightarrow> nat \<Rightarrow> engine \<Rightarrow> send_result option ret \<Rightarrow>
    (byte \<Rightarrow> packet \<Rightarrow> bool) \<Rightarrow> inbound list \<Rightarrow> bool" where
  "attempt_post e reg n e' r sent ins \<longleftrightarrow> send_effect e e' reg
     \<and> (outs (e_events e') = outs (e_events e) \<or> outs (e_events e') = outs (e_events e) @ [i32 (int n)])
     \<and> (\<forall>x. r = Ok x \<longrightarrow> outs (e_events e') = outs (e_events e) @ [i32 (int n)])
     \<and> (\<forall>x. r = Ok (Some x) \<longrightarrow> sr_RetransmitN x = n \<and> answered (o_Secret (e_opts e)) sent ins x)"

lemma attempt_post_err:
  "send_effect e e' reg \<Longrightarrow> outs (e_events e') = outs (e_events e) \<Longrightarrow> attempt_post e reg n e' (Err err) sent ins"
  by (simp add: attempt_post_def)

lemma await_effect:
  assumes ok: "engine_ok reg e"
    and al: "allocateOnAnyTuple e udst rs = (e1, Ok (sock, t, i))"
    and rg: "Register (e_matcher e1) (udp_addr_string sock, i) req sub = (ifl, m)"
    and ev: "outs evs = outs (e_events e1) @ [i32 (int n)]"
    and st: "await clk (e1\<lparr>e_matcher := m, e_events := evs\<rparr>) sub n env sock t i ifl = (e', r)"
    and np: "r \<noteq> Panic" and sent: "sent i req"
  shows "attempt_post e reg n e' r sent (ae_inbound env)"
proof -
  let ?k = "(udp_addr_string sock, i)"
  let ?e3 = "e1\<lparr>e_matcher := m, e_events := evs\<rparr>"
  have sec: "o_Secret (e_opts ?e3) = o_Secret (e_opts e)"
    using allocateOnAnyTuple_effect [OF al] ok by (simp add: engine_ok_def alloc_effect_def)
  obtain e4 wr where w: "wait_reply clk (ae_race env) (o_Secret (e_opts e)) ?e3 ifl (ae_inbound env) = (e4, wr)"
    by fastforce
  note wp = wait_phase [OF ok al rg ev w]
  note step = st [unfolded await_def sec w]
  have inv4: "id_inv (e_ids e4)" and mok4: "mok (o_Secret (e_opts e)) (e_matcher e4) (reg @ [ifl])"
    using wp(1,2) by (simp_all add: engine_ok_def same_setup_def)
  note late = release_after_take [OF inv4 wp(3,4)]
  show ?thesis
  proof (cases wr)
    case Panic
    with np step show ?thesis by simp
  next
    case (Err err)
    with wp(9) [of err] show ?thesis by blast
  next
    case (Ok o4)
    show ?thesis
    proof (cases o4)
      case None
      have e5: "e' = release_id (cancel_key e4 ?k) t i" and rr: "r = Ok None \<or> (\<exists>err. r = Err err)"
        using step Ok None by (auto simp: Let_def split: wait_end.splits)
      have "id_inv (e_ids e') \<and> id_held (e_ids e') = id_held (e_ids e)"
        using late by (simp add: e5 release_id_def cancel_key_def)
      then have "send_effect e e' reg"
        using wp(2) mok_cancel [OF mok4, of ?k] pend_removed [OF wp(5)]
        by (auto simp: send_effect_def engine_ok_def same_setup_def e5 intro!: exI [of _ "[ifl]"])
      moreover have "outs (e_events e') = outs (e_events e) @ [i32 (int n)]" using wp(6) by (simp add: e5)
      ultimately show ?thesis using rr by (auto simp: attempt_post_def)
    next
      case (Some rd)
      from wp(7) [of rd] Ok Some have v: "reply_valid (o_Secret (e_opts e)) ifl rd" "pend (e_matcher e4) ?k = None"
        by simp_all
      from step Ok Some obtain evs' where e5: "e' = (release_id e4 t i)\<lparr>e_events := evs'\<rparr>"
        and evs': "outs evs' = outs (e_events e4)"
        and rr: "r = Ok (Some \<lparr>sr_Reply = rd_Packet rd, sr_LatencyUs = ae_latencyUs env, sr_RetransmitN = n,
            sr_LocalAddr = sock, sr_Identifier = i\<rparr>)"
        by (auto simp: Let_def outs_submit ev_simps)
      have "send_effect e e' reg"
        using late wp(2) mok4 pend_removed' [OF wp(5) v(2)]
        by (auto simp: send_effect_def engine_ok_def same_setup_def e5 intro!: exI [of _ "[ifl]"])
      moreover from wp(10) [of rd] Ok Some have "\<exists>d \<in> set (ae_inbound env). arrived (o_Secret (e_opts e)) ?k d rd" by simp
      ultimately show ?thesis
        using v(1) wp(6,8) evs' sent
        by (auto simp: attempt_post_def answered_def arrived_def rr reply_valid_def e5 intro!: exI [of _ req])
    qed
  qed
qed

lemma transmit_effect:
  assumes ok: "engine_ok reg e"
    and al: "allocateOnAnyTuple e udst rs = (e1, Ok (sock, t, i))"
    and st: "transmit clk e1 udst sub n env sock t i req wire = (e', r)"
    and np: "r \<noteq> Panic" and sent: "sent i req"
  shows "attempt_post e reg n e' r sent (ae_inbound env)"
proof -
  let ?k = "(udp_addr_string sock, i)"
  obtain ifl m where rg: "Register (e_matcher e1) ?k req sub = (ifl, m)" by fastforce
  have inv: "id_inv (e_ids e)" "mok (o_Secret (e_opts e)) (e_matcher e) reg"
    using ok by (auto simp: engine_ok_def)
  have a: "id_inv (e_ids e1)" "e_matcher e1 = e_matcher e" "e_events e1 = e_events e" "same_setup e e1"
    "i \<notin> id_held (e_ids e) t" "id_held (e_ids e1) = (id_held (e_ids e))(t := insert i (id_held (e_ids e) t))"
    using allocateOnAnyTuple_effect [OF al inv(1)]
    by (auto simp: alloc_effect_def alloc_result'_def same_setup_def)
  show ?thesis
  proof (cases "ae_write env")
    case (Some werr)
    with st obtain evs err where e': "e' = (release_id (cancel_key (e1\<lparr>e_matcher := m\<rparr>) ?k) t i)\<lparr>e_events := evs\<rparr>"
      and evs: "outs evs = outs (e_events e1)" and r: "r = Err err"
      by (auto simp: transmit_def rg Let_def outs_submit ev_simps)
    have "mok (o_Secret (e_opts e)) m (reg @ [ifl])"
      using mok_register [OF inv(2)] rg a(2) by simp
    moreover have "pend (Cancel m ?k) \<subseteq>\<^sub>m pend (e_matcher e)"
      using Register_simps(2) [OF rg] a(2) pend_removed [of "pend m" "pend (e_matcher e)" ?k ifl] by simp
    ultimately have "send_effect e e' reg"
      using release_after_take [OF a(1,6,5)] a(4) mok_cancel [of _ m "reg @ [ifl]" ?k]
      by (auto simp: send_effect_def engine_ok_def same_setup_def release_id_def cancel_key_def e'
          intro!: exI [of _ "[ifl]"])
    then show ?thesis unfolding r by (rule attempt_post_err) (simp add: e' evs a(3))
  next
    case None
    with st obtain evs where "await clk (e1\<lparr>e_matcher := m, e_events := evs\<rparr>) sub n env sock t i ifl = (e', r)"
      "outs evs = outs (e_events e1) @ [i32 (int n)]"
      by (auto simp: transmit_def rg Let_def outs_submit ev_simps NewRequestSent_def)
    from await_effect [where sent = sent, OF ok al rg this(2,1) np sent] show ?thesis .
  qed
qed

text \<open>One attempt. Everything is given back on each exit.\<close>

definition sent_by :: "attempt_env \<Rightarrow> byte \<Rightarrow> packet \<Rightarrow> bool" where
  "sent_by env i req \<longleftrightarrow> (\<exists>req0 w. ae_build env i = Inr (Some req0)
     \<and> Encode (req0\<lparr>Identifier := i\<rparr>) (ae_rnd env) = (req, Inr w))"

lemma send_attempt_effect:
  assumes st: "send_attempt clk e udst sub n env = (e', r)" and ok: "engine_ok reg e" and np: "r \<noteq> Panic"
  shows "attempt_post e reg n e' r (sent_by env) (ae_inbound env)"
proof -
  have inv: "id_inv (e_ids e)" "mok (o_Secret (e_opts e)) (e_matcher e) reg"
    using ok by (auto simp: engine_ok_def)
  obtain e1 q where al: "allocateOnAnyTuple e udst (ae_retries env) = (e1, q)" by fastforce
  note eff = allocateOnAnyTuple_effect [OF al inv(1)]
  show ?thesis
  proof (cases q)
    case Panic
    with st np al show ?thesis by (simp add: send_attempt_def)
  next
    case (Err err)
    with st al have "e' = e1" "r = Err err" by (auto simp: send_attempt_def)
    moreover have "send_effect e e1 reg" "e_events e1 = e_events e"
      using eff inv(2) by (auto simp: send_effect_def engine_ok_def same_setup_def alloc_effect_def
          alloc_result'_def Err intro!: exI [of _ "[]"])
    ultimately show ?thesis by (simp add: attempt_post_err)
  next
    case (Ok x)
    obtain sock t i where x: "x = (sock, t, i)" by (cases x)
    note al' = al [unfolded Ok x]
    note st' = st [unfolded send_attempt_def al' prod.case ret.case]
    from eff have a: "id_inv (e_ids e1)" "e_matcher e1 = e_matcher e" "e_events e1 = e_events e" "same_setup e e1"
      "i \<notin> id_held (e_ids e) t" "id_held (e_ids e1) = (id_held (e_ids e))(t := insert i (id_held (e_ids e) t))"
      by (auto simp: alloc_effect_def alloc_result'_def same_setup_def Ok x)
    have "send_effect e (release_id e1 t i) reg"
      using release_after_take [OF a(1,6,5)] inv(2) a(2,4)
      by (auto simp: send_effect_def engine_ok_def same_setup_def intro!: exI [of _ "[]"])
    then have early: "attempt_post e reg n (release_id e1 t i) (Err err) (sent_by env) (ae_inbound env)" for err
      by (rule attempt_post_err) (simp add: a(3))
    show ?thesis
    proof (cases "ae_build env i")
      case (Inl err)
      with st' early show ?thesis by auto
    next
      case (Inr ob)
      note build = this
      show ?thesis
      proof (cases ob)
        case None
        with st' early build show ?thesis by auto
      next
        case (Some req0)
        obtain req er where enc: "Encode (req0\<lparr>Identifier := i\<rparr>) (ae_rnd env) = (req, er)" by fastforce
        show ?thesis
        proof (cases er)
          case (Inl err)
          with st' early build Some enc show ?thesis by auto
        next
          case (Inr wire)
          with st' build Some enc have "transmit clk e1 udst sub n env sock t i req wire = (e', r)" by simp
          from transmit_effect [where sent = "sent_by env", OF ok al' this np] show ?thesis
            using build Some enc Inr by (auto simp: sent_by_def)
        qed
      qed
    qed
  qed
qed

lemma send_effect_trans:
  assumes "send_effect e e1 reg" "\<And>reg'. engine_ok (reg @ reg') e1 \<Longrightarrow> send_effect e1 e2 (reg @ reg')"
  shows "send_effect e e2 reg"
proof -
  from assms(1) obtain r1 where 1: "engine_ok (reg @ r1) e1" "same_setup e e1"
    "id_held (e_ids e1) = id_held (e_ids e)" "pend (e_matcher e1) \<subseteq>\<^sub>m pend (e_matcher e)"
    by (auto simp: send_effect_def)
  from assms(2) [OF 1(1)] obtain r2 where 2: "engine_ok (reg @ r1 @ r2) e2" "same_setup e1 e2"
    "id_held (e_ids e2) = id_held (e_ids e1)" "pend (e_matcher e2) \<subseteq>\<^sub>m pend (e_matcher e1)"
    by (auto simp: send_effect_def)
  have "pend (e_matcher e2) \<subseteq>\<^sub>m pend (e_matcher e)" by (rule map_le_trans3 [OF 2(4) 1(4)])
  with 1 2 show ?thesis by (auto simp: send_effect_def same_setup_def)
qed

text \<open>The loop: transmissions are numbered consecutively.\<close>

lemma send_loop_effect:
  assumes "send_loop clk e udst sub env n left = (e', r)" "engine_ok reg e" "r \<noteq> Panic"
  shows "send_effect e e' reg
    \<and> (\<exists>k \<le> left. outs (e_events e') = outs (e_events e) @ map event_number [n..<n + k]
         \<and> (\<forall>x. r = Ok x \<longrightarrow> k = Suc (sr_RetransmitN x - n) \<and> n \<le> sr_RetransmitN x))
    \<and> (\<forall>x. r = Ok x \<longrightarrow> answered (o_Secret (e_opts e)) (sent_by (env (sr_RetransmitN x))) (ae_inbound (env (sr_RetransmitN x))) x)"
  using assms
proof (induction left arbitrary: e n reg)
  case 0
  then have "e' = e" "r = Err ErrFinalTimeout" by simp_all
  moreover have "send_effect e e reg"
    using 0(2) unfolding send_effect_def same_setup_def by (metis append_Nil2 map_le_refl)
  ultimately show ?case by simp
next
  case (Suc left)
  obtain e1 q where at: "send_attempt clk e udst sub n (env n) = (e1, q)" by fastforce
  have np: "q \<noteq> Panic" using Suc.prems(1,3) at by auto
  note post = send_attempt_effect [OF at Suc.prems(2) np, unfolded attempt_post_def]
  note eff = post [THEN conjunct1]
  note outs1 = post [THEN conjunct2, THEN conjunct1]
  note outs2 = post [THEN conjunct2, THEN conjunct2, THEN conjunct1, rule_format]
  note reply = post [THEN conjunct2, THEN conjunct2, THEN conjunct2, rule_format]
  show ?case
  proof (cases q)
    case Panic
    with np show ?thesis by simp
  next
    case (Err err)
    with Suc.prems(1) at have e': "e' = e1" "r = Err err" by auto
    from outs1 consider "outs (e_events e1) = outs (e_events e)" | "outs (e_events e1) = outs (e_events e) @ [i32 (int n)]"
      by blast
    then have "\<exists>k \<le> Suc left. outs (e_events e1) = outs (e_events e) @ map event_number [n..<n + k]"
    proof cases
      case 1
      then show ?thesis by (intro exI [of _ 0]) simp
    next
      case 2
      then show ?thesis by (intro exI [of _ 1]) simp
    qed
    with eff e' show ?thesis by simp
  next
    case (Ok o1)
    show ?thesis
    proof (cases o1)
      case (Some x)
      with Suc.prems(1) at Ok have e': "e' = e1" "r = Ok x" by auto
      have "outs (e_events e1) = outs (e_events e) @ map event_number [n..<n + 1]" using outs2 [OF Ok] by simp
      with eff reply [OF Ok [unfolded Some]] show ?thesis unfolding e' by (auto intro!: exI [of _ "Suc 0"])
    next
      case None
      with Suc.prems(1) at Ok have rest: "send_loop clk e1 udst sub env (Suc n) left = (e', r)" by simp
      have o1: "outs (e_events e1) = outs (e_events e) @ [i32 (int n)]" by (rule outs2 [OF Ok])
      have sec: "o_Secret (e_opts e1) = o_Secret (e_opts e)"
        using eff by (auto simp: send_effect_def same_setup_def)
      obtain reg1 where reg1: "engine_ok (reg @ reg1) e1" using eff by (auto simp: send_effect_def)
      note IH = Suc.IH [OF rest _ Suc.prems(3)]
      have "send_effect e e' reg"
        by (rule send_effect_trans [OF eff]) (rule IH [THEN conjunct1])
      moreover note IH1 = IH [OF reg1]
      from IH1 [THEN conjunct2, THEN conjunct1] obtain k where k: "k \<le> left"
          "outs (e_events e') = outs (e_events e1) @ map event_number [Suc n..<Suc n + k]"
          "\<forall>x. r = Ok x \<longrightarrow> k = Suc (sr_RetransmitN x - Suc n) \<and> Suc n \<le> sr_RetransmitN x" by blast
      have "outs (e_events e') = outs (e_events e) @ map event_number [n..<n + Suc k]"
        using k(2) o1 by (simp add: upt_conv_Cons del: upt_Suc)
      with k have "\<exists>k \<le> Suc left. outs (e_events e') = outs (e_events e) @ map event_number [n..<n + k]
         \<and> (\<forall>x. r = Ok x \<longrightarrow> k = Suc (sr_RetransmitN x - n) \<and> n \<le> sr_RetransmitN x)"
        by (intro exI [of _ "Suc k"]) (auto simp del: upt_Suc)
      moreover from IH1 [THEN conjunct2, THEN conjunct2] have "\<forall>x. r = Ok x \<longrightarrow> answered (o_Secret (e_opts e)) (sent_by (env (sr_RetransmitN x))) (ae_inbound (env (sr_RetransmitN x))) x"
        unfolding sec .
      ultimately show ?thesis by (intro conjI)
    qed
  qed
qed

section \<open>Properties\<close>

text \<open>C11: Sending leaves nothing behind. On every return of \<^verbatim>\<open>runSend\<close> (reply, exhausted retries,
  cancelled context, build, encode or write error, no identifier) the identifiers held are those
  held before, and no request is pending that was not pending before.\<close>

theorem send_releases_everything:
  assumes "runSend clk resolve e dst policy sub env = (e', r)" "engine_ok reg e" "r \<noteq> Panic"
  shows "id_held (e_ids e') = id_held (e_ids e) \<and> id_inv (e_ids e')
    \<and> pend (e_matcher e') \<subseteq>\<^sub>m pend (e_matcher e)"
proof (cases "resolveDst resolve dst")
  case (Inl err)
  with assms show ?thesis by (auto simp: runSend_def engine_ok_def)
next
  case (Inr udst)
  with assms(1) have "send_loop clk e udst sub env 0 (maxAttempts policy) = (e', r)" by (simp add: runSend_def)
  from send_loop_effect [OF this assms(2,3)] show ?thesis by (auto simp: send_effect_def engine_ok_def)
qed

text \<open>C24: Bounded, numbered transmissions and a validated reply. \<^verbatim>\<open>runSend\<close> emits at most
  \<^verbatim>\<open>MaxRetries + 1\<close> request events (the sum wraps as an \<^verbatim>\<open>int\<close>; at least one is allowed), which carry the numbers
  of the attempts as \<^verbatim>\<open>int32\<close>: 0, 1, 2, ... up to \<open>2 ^ 31\<close> of them. A result names the last one as its retransmit
  count; its reply is a datagram that arrived during that attempt, on the socket and with the identifier
  the attempt used, and its Response Authenticator is right for the packet that attempt encoded.\<close>

theorem send_bounded_and_validated:
  assumes "runSend clk resolve e dst policy sub env = (e', r)" "engine_ok reg e" "r \<noteq> Panic"
  shows "\<exists>k \<le> max 1 (nat (wrap64 (MaxRetries policy + 1))).
      outs (e_events e') = outs (e_events e) @ map (\<lambda>n. i32 (int n)) [0..<k]
      \<and> (k \<le> 2 ^ 31 \<longrightarrow> outs (e_events e') = outs (e_events e) @ map int [0..<k])
      \<and> (\<forall>x. r = Ok x \<longrightarrow> k = Suc (sr_RetransmitN x)
          \<and> (\<exists>req. \<exists>d \<in> set (ae_inbound (env (sr_RetransmitN x))).
              sent_by (env (sr_RetransmitN x)) (sr_Identifier x) req
              \<and> Decode (in_wire d) (o_Secret (e_opts e)) = Inr (sr_Reply x)
              \<and> in_local d = udp_addr_string (sr_LocalAddr x) \<and> Identifier (sr_Reply x) = sr_Identifier x
              \<and> ValidateResponseAuthenticator (sr_Reply x) (Authenticator req) (o_Secret (e_opts e)) (in_wire d) [] = Some True))"
proof (cases "resolveDst resolve dst")
  case (Inl err)
  with assms show ?thesis by (auto simp: runSend_def intro!: exI [of _ 0])
next
  case (Inr udst)
  with assms(1) have "send_loop clk e udst sub env 0 (maxAttempts policy) = (e', r)" by (simp add: runSend_def)
  from send_loop_effect [OF this assms(2,3)] obtain k where k: "k \<le> maxAttempts policy"
    "outs (e_events e') = outs (e_events e) @ map (\<lambda>n. i32 (int n)) [0..<k]"
    "\<forall>x. r = Ok x \<longrightarrow> k = Suc (sr_RetransmitN x)"
    "\<forall>x. r = Ok x \<longrightarrow> answered (o_Secret (e_opts e)) (sent_by (env (sr_RetransmitN x))) (ae_inbound (env (sr_RetransmitN x))) x"
    by auto
  have "maxAttempts policy = max 1 (nat (wrap64 (MaxRetries policy + 1)))"
    by (auto simp: maxAttempts_def Let_def)
  moreover have "k \<le> 2 ^ 31 \<Longrightarrow> map (\<lambda>n. i32 (int n)) [0..<k] = map int [0..<k]"
    by (intro map_cong refl i32_small) auto
  ultimately show ?thesis
    using k by (intro exI [of _ k] conjI allI impI) (auto simp: answered_def)
qed

definition demo_engine :: engine where
  "demo_engine = \<lparr>e_opts = \<lparr>o_SourceIPs = [[127, 0, 0, 1]], o_PortRangeLo = 0, o_PortRangeHi = 0,
       o_Secret = demo_secret, o_ReadBufBytes = 4096, o_AllocBackoffStep = 5000000, o_AllocMaxWait = 100000000, o_HasHandler = False\<rparr>,
     e_pool = \<lparr>sp_sockets = [([127, 0, 0, 1], 40000)], sp_rrIdx = 0, sp_closed = False\<rparr>,
     e_ids = NewIDAllocator, e_matcher = NewReplyMatcher, e_events = [], e_startedAt = 1, e_stopped = False\<rparr>"

definition demo_policy :: retransmit_policy where
  "demo_policy = \<lparr>InitialTimeout = 3, MaxRetries = 0, PolicyBackoff = BackoffConstant, BackoffBase = 1\<rparr>"

definition demo_env :: "nat \<Rightarrow> attempt_env" where
  "demo_env n = \<lparr>ae_retries = [], ae_build = (\<lambda>i. Inl (Plain ''no packet'')), ae_rnd = Inr zero16,
     ae_write = None, ae_inbound = [], ae_end = WaitTimer, ae_race = False, ae_latencyUs = 0\<rparr>"

lemma demo_engine_ok: "engine_ok [] demo_engine"
  using minv_init [of demo_secret] NewIDAllocator_inv(1)
  by (simp add: engine_ok_def demo_engine_def mok_def msys_of_def)

lemma demo_alloc:
  obtains s i where "allocateOnAnyTuple demo_engine ([10, 0, 0, 1], 1812) []
      = (s, Ok (([127, 0, 0, 1], 40000), MakeTuple ([127, 0, 0, 1], 40000) ([10, 0, 0, 1], 1812), i))"
proof -
  have p: "PickAt (e_pool demo_engine) 0 = Some (Some ([127, 0, 0, 1], 40000))"
    using PickAt_nonneg [of "e_pool demo_engine" 0] by (simp add: demo_engine_def)
  obtain a i where al: "Allocate NewIDAllocator (MakeTuple ([127, 0, 0, 1], 40000) ([10, 0, 0, 1], 1812)) = (Some i, a)"
    using ids.alloc_iff [OF NewIDAllocator_inv(1), of "MakeTuple ([127, 0, 0, 1], 40000) ([10, 0, 0, 1], 1812)"]
    by (auto simp: NewIDAllocator_inv(2))
  obtain s where "allocateOnAnyTuple demo_engine ([10, 0, 0, 1], 1812) []
      = (s, Ok (([127, 0, 0, 1], 40000), MakeTuple ([127, 0, 0, 1], 40000) ([10, 0, 0, 1], 1812), i))"
    using p al by (simp add: allocateOnAnyTuple_def next_start_def alloc_rounds.simps PickAt_def demo_engine_def Let_def tdiv_def)
  then show thesis by (rule that)
qed

lemma demo_attempts: "maxAttempts demo_policy = Suc 0"
  by (simp add: maxAttempts_def demo_policy_def wrap64_nonneg)

lemma demo_send:
  "\<exists>e err. runSend demo_clock (\<lambda>_. Inl (Plain [])) demo_engine (UDPAddr ([10, 0, 0, 1], 1812)) demo_policy 1 demo_env
     = (e, Err err)"
  by (rule demo_alloc) (simp add: runSend_def resolveDst_def demo_attempts send_attempt_def demo_env_def)

text \<open>A request without attributes and the answer to it.\<close>

definition demo_request :: "byte \<Rightarrow> packet" where
  "demo_request i = \<lparr>Code = CodeAccessRequest, Identifier = i, Authenticator = replicate 16 9, Attributes = [],
     RequestAuthenticator = zero16, Secret = demo_secret\<rparr>"

definition demo_accept :: "byte \<Rightarrow> packet" where
  "demo_accept i = \<lparr>Code = CodeAccessAccept, Identifier = i, Authenticator = zero16, Attributes = [],
     RequestAuthenticator = replicate 16 9, Secret = demo_secret\<rparr>"

lemma demo_request_encodes:
  "\<exists>p w. Encode (demo_request i) (Inr zero16) = (p, Inr w) \<and> Authenticator p = replicate 16 9"
proof -
  have wf: "wf_packet (demo_request i)" and r: "\<forall>a. Inr zero16 = Inr a \<longrightarrow> length a = 16"
    by (simp_all add: demo_request_def wf_packet_def)
  have "encodable (demo_request i) (Inr zero16)"
    by (simp add: encodable_def demo_request_def demo_secret_def maAttrIndex_def MaxPacketLength_def)
  with Encode_Inr_iff [OF wf r] obtain p w where enc: "Encode (demo_request i) (Inr zero16) = (p, Inr w)" by blast
  have "\<not> isZeroAuth (replicate 16 9)" by (simp add: isZeroAuth_iff)
  with Encode_authenticator(3) [OF enc wf r] enc show ?thesis by (simp add: demo_request_def)
qed

lemma demo_accept_wire:
  "\<exists>w q. Decode w demo_secret = Inr q \<and> Code q = CodeAccessAccept \<and> Identifier q = i
     \<and> ValidateResponseAuthenticator q (replicate 16 9) demo_secret w [] = Some True"
proof -
  let ?p = "demo_accept i"
  have wf: "wf_packet ?p" and r: "\<forall>a. Inr zero16 = Inr a \<longrightarrow> length a = 16"
    by (simp_all add: demo_accept_def wf_packet_def)
  have resp: "IsResponse (Code ?p)" by (simp add: demo_accept_def IsResponse_def)
  have "encodable ?p (Inr zero16)"
    by (simp add: encodable_def demo_accept_def demo_secret_def maAttrIndex_def MaxPacketLength_def IsResponse_def)
  with Encode_Inr_iff [OF wf r] obtain p' w where enc: "Encode ?p (Inr zero16) = (p', Inr w)" by blast
  note E = Encode_ok [OF enc wf r]
  let ?q = "p'\<lparr>RequestAuthenticator := zero16, Secret := demo_secret\<rparr>"
  have w: "w = packet_wire ?q" "wire_ok ?q" using E(2,3) by (simp_all add: packet_wire_def wire_ok_def)
  have f: "Code p' = CodeAccessAccept" "Identifier p' = i" by (subst E(1), simp add: demo_accept_def)+
  have as: "Attributes p' = Attributes ?p" using E(5) by (simp add: demo_accept_def maAttrIndex_def)
  have "length (packet_wire p') + length ([] :: bytes) \<le> MaxPacketLength"
    using E(2) length_packet_wire [of p'] by (simp add: wire_ok_def)
  from Decode_wire [OF E(2) this, of demo_secret] have d: "Decode w demo_secret = Inr ?q" by (simp add: E(3))
  have "ValidateResponseAuthenticator ?q (replicate 16 9) demo_secret w [] = Some True"
    using ValidateResponse_packet_wire [OF w(2), of "replicate 16 9" demo_secret "[]"] Encode_authenticator(1) [OF enc wf r resp] resp
    unfolding w(1) [symmetric] by (simp add: f as) (simp add: demo_accept_def)
  with d f show ?thesis by (intro exI [of _ w] exI [of _ ?q]) simp
qed

definition demo_reply_env :: "bytes \<Rightarrow> nat \<Rightarrow> attempt_env" where
  "demo_reply_env w n = \<lparr>ae_retries = [], ae_build = (\<lambda>i. Inr (Some (demo_request i))), ae_rnd = Inr zero16, ae_write = None,
     ae_inbound = [\<lparr>in_local = udp_addr_string ([127, 0, 0, 1], 40000), in_remote = ''10.0.0.1:1812'', in_wire = w,
       in_now = 5, in_now' = 6, in_rcv = 4\<rparr>], ae_end = WaitTimer, ae_race = False, ae_latencyUs = 7\<rparr>"

lemma demo_answered:
  "\<exists>w e x. runSend demo_clock (\<lambda>_. Inl (Plain [])) demo_engine (UDPAddr ([10, 0, 0, 1], 1812)) demo_policy 1 (demo_reply_env w)
     = (e, Ok x) \<and> sr_RetransmitN x = 0"
proof (rule demo_alloc)
  fix e1 and i :: byte
  let ?sock = "([127, 0, 0, 1], 40000) :: udp_addr" and ?dst = "([10, 0, 0, 1], 1812) :: udp_addr"
  let ?k = "(udp_addr_string ?sock, i)"
  assume al: "allocateOnAnyTuple demo_engine ?dst [] = (e1, Ok (?sock, MakeTuple ?sock ?dst, i))"
  obtain p w0 where enc: "Encode (demo_request i) (Inr zero16) = (p, Inr w0)" "Authenticator p = replicate 16 9"
    using demo_request_encodes by blast
  obtain w q where w: "Decode w demo_secret = Inr q" "Code q = CodeAccessAccept" "Identifier q = i"
    "ValidateResponseAuthenticator q (replicate 16 9) demo_secret w [] = Some True"
    using demo_accept_wire [of i] by blast
  have "id_inv (e_ids demo_engine)" using demo_engine_ok by (simp add: engine_ok_def)
  from allocateOnAnyTuple_effect [OF al this] have e1: "e_matcher e1 = NewReplyMatcher" "o_Secret (e_opts e1) = demo_secret"
    by (simp_all add: alloc_effect_def demo_engine_def)
  obtain ifl m where rg: "Register NewReplyMatcher ?k p 1 = (ifl, m)" by fastforce
  note r = Register_simps [OF rg]
  have pend: "pend m (udp_addr_string ?sock, Identifier q) = Some ifl" using r(2) w(3) by simp
  have chan: "m_chan m = []" using r(5) by (simp add: NewReplyMatcher_def)
  have auth: "Authenticator (if_Request ifl) = replicate 16 9" using r(1) enc(2) by simp
  have dlv: "\<exists>m' evs' known. Deliver demo_clock 5 6 m evs (udp_addr_string ?sock) ''10.0.0.1:1812'' q w demo_secret off = Some (m', evs', known)
      \<and> (\<exists>d. m_chan m' = [(if_id ifl, d)])" for evs off
  proof -
    obtain m' evs' known where d: "Deliver demo_clock 5 6 m evs (udp_addr_string ?sock) ''10.0.0.1:1812'' q w demo_secret off = Some (m', evs', known)"
      using deliver_returns [OF w(1)] by (metis prod_cases3)
    from deliver_outcome [OF d] pend chan auth w(4) d show ?thesis by auto
  qed
  have "\<exists>e' x. send_attempt demo_clock demo_engine ?dst 1 0 (demo_reply_env w 0) = (e', Ok (Some x)) \<and> sr_RetransmitN x = 0"
  proof -
    have req: "(demo_request i)\<lparr>Identifier := i\<rparr> = demo_request i" by (simp add: demo_request_def)
    have wait: "\<exists>e' d. wait_reply demo_clock False demo_secret e3 ifl (ae_inbound (demo_reply_env w 0)) = (e', Ok (Some d))"
      if e3: "e_matcher e3 = m" for e3
    proof -
      obtain m' evs' known d where d: "Deliver demo_clock 5 6 m (e_events e3) (udp_addr_string ?sock) ''10.0.0.1:1812'' q w demo_secret
          (offsetMs (e_startedAt e3) 4) = Some (m', evs', known)" "m_chan m' = [(if_id ifl, d)]" using dlv by blast
      then show ?thesis
        using w(1,2) e3 chan
        by (simp add: wait_reply.simps demo_reply_env_def dispatch_def take_reply_def IsResponse_def)
    qed
    have env: "ae_retries (demo_reply_env w 0) = []" "ae_build (demo_reply_env w 0) i = Inr (Some (demo_request i))"
      "ae_rnd (demo_reply_env w 0) = Inr zero16" "ae_write (demo_reply_env w 0) = None" "ae_race (demo_reply_env w 0) = False"
      by (simp_all add: demo_reply_env_def)
    have "\<exists>e' x. await demo_clock e3 1 0 (demo_reply_env w 0) ?sock (MakeTuple ?sock ?dst) i ifl = (e', Ok (Some x)) \<and> sr_RetransmitN x = 0"
      if e3: "e_matcher e3 = m" "o_Secret (e_opts e3) = demo_secret" for e3
    proof -
      from wait [OF e3(1)] obtain e' d where
        "wait_reply demo_clock False demo_secret e3 ifl (ae_inbound (demo_reply_env w 0)) = (e', Ok (Some d))" by blast
      then show ?thesis by (simp add: await_def env e3(2) Let_def)
    qed
    then show ?thesis by (simp add: send_attempt_def env al req enc(1) transmit_def e1 rg Let_def)
  qed
  then obtain e' x where "send_attempt demo_clock demo_engine ?dst 1 0 (demo_reply_env w 0) = (e', Ok (Some x))" "sr_RetransmitN x = 0"
    by blast
  then show ?thesis by (intro exI [of _ w] exI [of _ e'] exI [of _ x]) (simp add: runSend_def resolveDst_def demo_attempts)
qed

theorem send_releases_everything_witness:
  "\<exists>e. id_held (e_ids e) = id_held NewIDAllocator \<and> (\<exists>err. runSend demo_clock (\<lambda>_. Inl (Plain []))
     demo_engine (UDPAddr ([10, 0, 0, 1], 1812)) demo_policy 1 demo_env = (e, Err err))"
proof -
  obtain e err where s: "runSend demo_clock (\<lambda>_. Inl (Plain [])) demo_engine (UDPAddr ([10, 0, 0, 1], 1812))
      demo_policy 1 demo_env = (e, Err err)" using demo_send by blast
  moreover have "e_ids demo_engine = NewIDAllocator" by (simp add: demo_engine_def)
  ultimately show ?thesis using send_releases_everything [OF s demo_engine_ok] by auto
qed

theorem send_bounded_and_validated_witness:
  "\<exists>w e x. runSend demo_clock (\<lambda>_. Inl (Plain [])) demo_engine (UDPAddr ([10, 0, 0, 1], 1812)) demo_policy 1 (demo_reply_env w)
      = (e, Ok x) \<and> outs (e_events e) = [0] \<and> Decode w demo_secret = Inr (sr_Reply x) \<and> Identifier (sr_Reply x) = sr_Identifier x"
proof -
  obtain w e x where s: "runSend demo_clock (\<lambda>_. Inl (Plain [])) demo_engine (UDPAddr ([10, 0, 0, 1], 1812))
      demo_policy 1 (demo_reply_env w) = (e, Ok x)" and n: "sr_RetransmitN x = 0" using demo_answered by blast
  have "ae_inbound (demo_reply_env w 0) = [\<lparr>in_local = udp_addr_string ([127, 0, 0, 1], 40000), in_remote = ''10.0.0.1:1812'',
      in_wire = w, in_now = 5, in_now' = 6, in_rcv = 4\<rparr>]" "outs (e_events demo_engine) = []"
    "o_Secret (e_opts demo_engine) = demo_secret"
    by (simp_all add: demo_reply_env_def demo_engine_def outs_def)
  with send_bounded_and_validated [OF s demo_engine_ok] s n show ?thesis
    by (intro exI [of _ w] exI [of _ e] exI [of _ x]) fastforce
qed

end
