(* ===== verification/Io_Receiver.thy ===== *)
theory Io_Receiver
  imports Io_Sending
begin

text \<open>
  The receiver of \<^verbatim>\<open>pkg/io/receiver.go\<close>: a goroutine per socket reads datagrams and dispatches
  them, interleaved with the others datagram by datagram. A schedule lists, for the socket whose
  goroutine runs next, what its read returned.
\<close>

section \<open>The receiver\<close>

record receiver =
  rc_hasHandler :: bool
  rc_secret :: bytes
  rc_bufBytes :: int
  rc_startedAt :: int
  rc_stopped :: bool
  rc_reading :: "nat list"

definition NewReceiver :: "bool \<Rightarrow> bytes \<Rightarrow> int \<Rightarrow> receiver" where
  "NewReceiver has_handler secret bufBytes =
     \<lparr>rc_hasHandler = has_handler, rc_secret = secret,
      rc_bufBytes = (if bufBytes \<le> 0 then int MaxPacketLength else bufBytes),
      rc_startedAt = 0, rc_stopped = False, rc_reading = []\<rparr>"

text \<open>\<open>rc_reading\<close> are the sockets, by index, whose loop has not returned.\<close>

definition receiver_Start :: "int \<Rightarrow> socket_pool \<Rightarrow> receiver \<Rightarrow> receiver" where
  "receiver_Start now pool r =
     (if rc_startedAt r \<noteq> 0 then r
      else r\<lparr>rc_startedAt := now, rc_reading := [0..<length (sp_sockets pool)]\<rparr>)"

definition receiver_Stop :: "receiver \<Rightarrow> socket_pool \<Rightarrow> receiver \<times> socket_pool" where
  "receiver_Stop r pool = (if rc_stopped r then (r, pool) else (r\<lparr>rc_stopped := True\<rparr>, pool_Close pool))"

text \<open>What a read returned: a datagram of the kernel, with the clock readings its dispatch sees and
  whether the context is cancelled after it, or an error.\<close>

datatype udp_read = UdpData inbound bool | UdpError goerr bool

type_synonym handed = "packet \<times> bytes \<times> string \<times> string"

text \<open>One iteration of the loop of socket \<open>i\<close>; \<open>None\<close> is a panic. A datagram longer than the buffer is
  cut to it.\<close>

definition read_once :: "clock \<Rightarrow> nat \<Rightarrow> udp_read \<Rightarrow> receiver \<Rightarrow> engine \<Rightarrow> (receiver \<times> engine \<times> handed list) option" where
  "read_once clk i rd r e =
     (case rd of
        UdpError err closed \<Rightarrow>
          (let r' = r\<lparr>rc_reading := removeAll i (rc_reading r)\<rparr> in
           if rc_stopped r \<or> closed then Some (r', e, [])
           else Some (r', e\<lparr>e_events := submit clk (\<lambda>s. NewError s 0 (offsetMs (rc_startedAt r) (st_now s))
               EventTypeInternalError 0 (''udp read: '' @ err_msg err)) (e_events e)\<rparr>, []))
      | UdpData d cancelled \<Rightarrow>
          (let wire = take (nat (rc_bufBytes r)) (in_wire d);
               r' = (if cancelled then r\<lparr>rc_reading := removeAll i (rc_reading r)\<rparr> else r)
           in case dispatch clk (in_now d) (in_now' d) (rc_secret r) (rc_hasHandler r) (rc_startedAt r) (in_rcv d) e
                     (in_local d) (in_remote d) wire of
                (e', Ok (ToHandler p)) \<Rightarrow> Some (r', e', [(p, wire, in_remote d, in_local d)])
              | (e', Ok res) \<Rightarrow> Some (r', e', [])
              | (e', _) \<Rightarrow> None))"

text \<open>The goroutines under a schedule; a socket whose loop has returned reads nothing any more.\<close>

fun read_loops :: "clock \<Rightarrow> (nat \<times> udp_read) list \<Rightarrow> receiver \<Rightarrow> engine \<Rightarrow> (receiver \<times> engine \<times> handed list) option" where
  "read_loops clk [] r e = Some (r, e, [])"
| "read_loops clk ((i, rd) # sched) r e =
     (if i \<notin> set (rc_reading r) then read_loops clk sched r e
      else case read_once clk i rd r e of
        None \<Rightarrow> None
      | Some (r1, e1, h1) \<Rightarrow> map_option (\<lambda>(r2, e2, h2). (r2, e2, h1 @ h2)) (read_loops clk sched r1 e1))"

text \<open>The datagrams a schedule reads, and the errors it reports.\<close>

fun reads_done :: "(nat \<times> udp_read) list \<Rightarrow> bool \<Rightarrow> nat list \<Rightarrow> nat \<times> nat" where
  "reads_done [] stopped reading = (0, 0)"
| "reads_done ((i, rd) # sched) stopped reading =
     (if i \<notin> set reading then reads_done sched stopped reading
      else case rd of
        UdpData d cancelled \<Rightarrow>
          (let (n, m) = reads_done sched stopped (if cancelled then removeAll i reading else reading) in (Suc n, m))
      | UdpError err closed \<Rightarrow>
          (let (n, m) = reads_done sched stopped (removeAll i reading) in (n, if stopped \<or> closed then m else Suc m)))"

section \<open>Counting\<close>

lemma deliver_counts:
  assumes "mok secret m reg" "Decode wire secret = Inr reply"
  shows "\<exists>m' evs' known. Deliver clk now now' m evs local remote reply wire secret off = Some (m', evs', known) \<and>
    length (m_chan m') + length evs' = Suc (length (m_chan m) + length evs)"
proof -
  obtain m' evs' known where d: "Deliver clk now now' m evs local remote reply wire secret off = Some (m', evs', known)"
    using deliver_returns [OF assms(2)] by (metis prod_cases3)
  note o = deliver_outcome [OF d]
  have free: "map_of (m_chan m) (if_id ifl) = None" if "pend m k = Some ifl" for k ifl
  proof -
    have "\<forall>n d. (n, d) \<in> set (m_chan m) \<longrightarrow> (\<forall>k i. pend m k = Some i \<longrightarrow> if_id i \<noteq> n)"
      using assms(1) by (simp add: mok_def minv_def Let_def msys_of_def del: split_paired_All)
    with that have "if_id ifl \<notin> fst ` set (m_chan m)" by (metis imageE prod.collapse)
    then show ?thesis by (simp add: map_of_eq_None_iff)
  qed
  show ?thesis
  proof (cases "pend m (local, Identifier reply)")
    case None
    with o d show ?thesis by auto
  next
    case (Some ifl)
    with o d free [OF Some] show ?thesis by (auto split: if_splits)
  qed
qed

lemma dispatch_counts:
  assumes "engine_ok reg e" "o_Secret (e_opts e) = secret"
  shows "\<exists>e' res. dispatch clk now now' secret hh sa rcv e local remote wire = (e', Ok res) \<and>
    engine_ok reg e' \<and> o_Secret (e_opts e') = secret \<and>
    length (m_chan (e_matcher e')) + length (e_events e') + (case res of ToHandler p \<Rightarrow> 1 | _ \<Rightarrow> 0) =
      Suc (length (m_chan (e_matcher e)) + length (e_events e))"
proof -
  obtain e' res where d: "dispatch clk now now' secret hh sa rcv e local remote wire = (e', res)" by fastforce
  from dispatch_effect [OF d [folded assms(2)] assms(1)] have ok: "engine_ok reg e'" "o_Secret (e_opts e') = secret"
    using assms(2) by (simp_all add: same_setup_def)
  show ?thesis
  proof (cases "Decode wire secret")
    case (Inl err)
    with d ok show ?thesis by (auto simp: dispatch_def)
  next
    case (Inr pkt)
    show ?thesis
    proof (cases "IsResponse (Code pkt)")
      case True
      have "mok secret (e_matcher e) reg" using assms by (simp add: engine_ok_def)
      from deliver_counts [OF this Inr, of clk now now' "e_events e" local remote "offsetMs sa rcv"]
      show ?thesis using d ok Inr True by (auto simp: dispatch_def)
    next
      case False
      with d ok Inr show ?thesis by (auto simp: dispatch_def split: if_splits)
    qed
  qed
qed


lemma read_once_counts:
  assumes "engine_ok reg e" "o_Secret (e_opts e) = rc_secret r"
  shows "\<exists>r' e' h. read_once clk i rd r e = Some (r', e', h) \<and> engine_ok reg e' \<and> o_Secret (e_opts e') = rc_secret r' \<and>
    rc_stopped r' = rc_stopped r \<and>
    rc_reading r' = (case rd of UdpData d False \<Rightarrow> rc_reading r | _ \<Rightarrow> removeAll i (rc_reading r)) \<and>
    length h + length (m_chan (e_matcher e')) + length (e_events e') =
      length (m_chan (e_matcher e)) + length (e_events e) +
      (case rd of UdpData d c \<Rightarrow> 1 | UdpError err closed \<Rightarrow> if rc_stopped r \<or> closed then 0 else 1)"
proof (cases rd)
  case (UdpError err closed)
  with assms show ?thesis by (auto simp: read_once_def engine_ok_def Let_def)
next
  case (UdpData d c)
  from dispatch_counts [OF assms, of clk "in_now d" "in_now' d" "rc_hasHandler r" "rc_startedAt r" "in_rcv d" "in_local d"
      "in_remote d" "take (nat (rc_bufBytes r)) (in_wire d)"]
  obtain e' res where d: "dispatch clk (in_now d) (in_now' d) (rc_secret r) (rc_hasHandler r) (rc_startedAt r) (in_rcv d) e
      (in_local d) (in_remote d) (take (nat (rc_bufBytes r)) (in_wire d)) = (e', Ok res)"
    "engine_ok reg e'" "o_Secret (e_opts e') = rc_secret r"
    "length (m_chan (e_matcher e')) + length (e_events e') + (case res of ToHandler p \<Rightarrow> 1 | _ \<Rightarrow> 0) =
      Suc (length (m_chan (e_matcher e)) + length (e_events e))" by blast
  then show ?thesis using UdpData by (cases res; cases c) (simp_all add: read_once_def Let_def)
qed

lemma read_loops_counts:
  assumes "engine_ok reg e" "o_Secret (e_opts e) = rc_secret r"
  shows "\<exists>r' e' h. read_loops clk sched r e = Some (r', e', h) \<and> engine_ok reg e' \<and>
    length h + length (m_chan (e_matcher e')) + length (e_events e') =
      length (m_chan (e_matcher e)) + length (e_events e) +
      (let (n, k) = reads_done sched (rc_stopped r) (rc_reading r) in n + k)"
  using assms
proof (induction sched arbitrary: r e)
  case (Cons s sched)
  obtain i rd where s: "s = (i, rd)" by fastforce
  show ?case
  proof (cases "i \<in> set (rc_reading r)")
    case False
    with s Cons show ?thesis by simp
  next
    case True
    from read_once_counts [OF Cons.prems, of clk i rd] obtain r1 e1 h1 where 1: "read_once clk i rd r e = Some (r1, e1, h1)"
      "engine_ok reg e1" "o_Secret (e_opts e1) = rc_secret r1" "rc_stopped r1 = rc_stopped r"
      "rc_reading r1 = (case rd of UdpData d False \<Rightarrow> rc_reading r | _ \<Rightarrow> removeAll i (rc_reading r))"
      "length h1 + length (m_chan (e_matcher e1)) + length (e_events e1) =
        length (m_chan (e_matcher e)) + length (e_events e) +
        (case rd of UdpData d c \<Rightarrow> 1 | UdpError err closed \<Rightarrow> if rc_stopped r \<or> closed then 0 else 1)" by blast
    from Cons.IH [OF 1(2,3)] obtain r2 e2 h2 where 2: "read_loops clk sched r1 e1 = Some (r2, e2, h2)" "engine_ok reg e2"
      "length h2 + length (m_chan (e_matcher e2)) + length (e_events e2) =
        length (m_chan (e_matcher e1)) + length (e_events e1) +
        (let (n, k) = reads_done sched (rc_stopped r1) (rc_reading r1) in n + k)" by blast
    have "(let (n, k) = reads_done (s # sched) (rc_stopped r) (rc_reading r) in n + k) =
        (let (n, k) = reads_done sched (rc_stopped r1) (rc_reading r1) in n + k) +
        (case rd of UdpData d c \<Rightarrow> 1 | UdpError err closed \<Rightarrow> if rc_stopped r \<or> closed then 0 else 1)"
      using True 1(4,5) by (cases rd) (simp_all add: s Let_def case_prod_beta split: bool.splits)
    with 1(1,6) 2 True show ?thesis by (simp add: s)
  qed
qed simp

section \<open>Properties\<close>

text \<open>C12: Whatever datagrams the sockets receive and however their goroutines take turns, no receive loop
  panics, and every datagram read has exactly one outcome: it is handed to the handler, put on the reply
  channel of its request, or reported in one event. The only other events are one per read error that is
  not the closing of the socket.\<close>

theorem receiver_conserves_datagrams:
  assumes "engine_ok reg e" "o_Secret (e_opts e) = secret"
  shows "\<exists>r' e' handed n k. read_loops clk sched (receiver_Start now (e_pool e) (NewReceiver hh secret bufBytes)) e = Some (r', e', handed) \<and>
    reads_done sched False [0..<length (sp_sockets (e_pool e))] = (n, k) \<and> engine_ok reg e' \<and>
    length handed + length (m_chan (e_matcher e')) + length (e_events e') =
      length (m_chan (e_matcher e)) + length (e_events e) + n + k"
proof -
  define r where "r = receiver_Start now (e_pool e) (NewReceiver hh secret bufBytes)"
  have r: "rc_secret r = secret" "rc_stopped r = False" "rc_reading r = [0..<length (sp_sockets (e_pool e))]"
    by (simp_all add: r_def receiver_Start_def NewReceiver_def)
  from read_loops_counts [of reg e r clk sched] assms(1,2) r show ?thesis unfolding r_def [symmetric]
    by (cases "reads_done sched False [0..<length (sp_sockets (e_pool e))]") auto
qed

lemma receiver_conserves_datagrams_witness:
  "\<exists>r e h. read_loops demo_clock
     [(0, UdpData \<lparr>in_local = ''l'', in_remote = ''r'', in_wire = [1, 2], in_now = 0, in_now' = 0, in_rcv = 0\<rparr> False),
      (0, UdpError (Plain ''gone'') True)]
     (receiver_Start 1 (e_pool demo_engine) (NewReceiver False demo_secret 0)) demo_engine = Some (r, e, h) \<and>
     length h + length (m_chan (e_matcher e)) + length (e_events e) = 1"
proof -
  have o: "o_Secret (e_opts demo_engine) = demo_secret" "m_chan (e_matcher demo_engine) = []" "e_events demo_engine = []"
    by (simp_all add: demo_engine_def NewReplyMatcher_def)
  have d: "reads_done [(0, UdpData d False), (0, UdpError (Plain ''gone'') True)] False [0..<length (sp_sockets (e_pool demo_engine))] = (1, 0)"
    for d by (simp add: demo_engine_def)
  show ?thesis
    using receiver_conserves_datagrams [OF demo_engine_ok o(1), of demo_clock "[(0, UdpData \<lparr>in_local = ''l'', in_remote = ''r'',
        in_wire = [1, 2], in_now = 0, in_now' = 0, in_rcv = 0\<rparr> False), (0, UdpError (Plain ''gone'') True)]" 1 False 0]
    unfolding d by (auto simp: o simp del: read_loops.simps)
qed

end
