(* ===== verification/Float64.thy ===== *)
theory Float64
  imports Prelude Complex_Main "HOL-Library.Log_Nat"
begin

text \<open>
  Go's \<^verbatim>\<open>float64\<close>: finite values are the rationals they denote (the sign of zero is not
  kept), each operation is the exact one followed by rounding to nearest, ties to even.
\<close>

datatype float64 = NaN | Inf bool | Fin rat

definition ilog2 :: "rat \<Rightarrow> int" where
  "ilog2 a = (let (p, q) = quotient_of a; k = bitlen p - bitlen q in if 2 powi k \<le> a then k else k - 1)"

definition round_even :: "rat \<Rightarrow> int" where
  "round_even q = (let f = \<lfloor>q\<rfloor>; d = q - of_int f in
     if d < 1 / 2 then f else if 1 / 2 < d then f + 1 else if even f then f else f + 1)"

definition ulp_exp :: "rat \<Rightarrow> int" where
  "ulp_exp a = max (ilog2 a - 52) (- 1074)"

definition round_mag :: "rat \<Rightarrow> rat" where
  "round_mag a = (if a = 0 then 0 else of_int (round_even (a / 2 powi ulp_exp a)) * 2 powi ulp_exp a)"

definition fround :: "rat \<Rightarrow> float64" where
  "fround x = (let y = round_mag \<bar>x\<bar> in if 2 ^ 1024 \<le> y then Inf (x < 0) else Fin (sgn x * y))"

section \<open>Operations\<close>

text \<open>An infinity carries whether it is negative.\<close>

fun fneg_sign :: "float64 \<Rightarrow> bool" where
  "fneg_sign NaN = False" | "fneg_sign (Inf n) = n" | "fneg_sign (Fin x) = (x < 0)"

fun fmul :: "float64 \<Rightarrow> float64 \<Rightarrow> float64" where
  "fmul (Fin x) (Fin y) = fround (x * y)"
| "fmul NaN y = NaN"
| "fmul x NaN = NaN"
| "fmul (Inf n) y = (if y = Fin 0 then NaN else Inf (n \<noteq> fneg_sign y))"
| "fmul x (Inf n) = (if x = Fin 0 then NaN else Inf (fneg_sign x \<noteq> n))"

fun fadd :: "float64 \<Rightarrow> float64 \<Rightarrow> float64" where
  "fadd (Fin x) (Fin y) = fround (x + y)"
| "fadd NaN y = NaN"
| "fadd x NaN = NaN"
| "fadd (Inf n) (Inf m) = (if n = m then Inf n else NaN)"
| "fadd (Inf n) y = Inf n"
| "fadd x (Inf n) = Inf n"

fun fneg :: "float64 \<Rightarrow> float64" where
  "fneg NaN = NaN" | "fneg (Inf n) = Inf (\<not> n)" | "fneg (Fin x) = Fin (- x)"

definition fsub :: "float64 \<Rightarrow> float64 \<Rightarrow> float64" where
  "fsub x y = fadd x (fneg y)"

text \<open>Division by a non-zero finite value, or of and by infinities; zero divisors are positive.\<close>

fun fdiv :: "float64 \<Rightarrow> float64 \<Rightarrow> float64" where
  "fdiv (Fin x) (Fin y) = (if y = 0 then (if x = 0 then NaN else Inf (x < 0)) else fround (x / y))"
| "fdiv NaN y = NaN"
| "fdiv x NaN = NaN"
| "fdiv (Inf n) (Inf m) = NaN"
| "fdiv (Inf n) (Fin y) = Inf (n \<noteq> (y < 0))"
| "fdiv (Fin x) (Inf m) = Fin 0"

fun flt :: "float64 \<Rightarrow> float64 \<Rightarrow> bool" where
  "flt (Fin x) (Fin y) = (x < y)"
| "flt NaN y = False"
| "flt x NaN = False"
| "flt (Inf n) (Inf m) = (n \<and> \<not> m)"
| "flt (Inf n) (Fin y) = n"
| "flt (Fin x) (Inf m) = (\<not> m)"

definition fle :: "float64 \<Rightarrow> float64 \<Rightarrow> bool" where
  "fle x y \<longleftrightarrow> flt x y \<or> (x = y \<and> x \<noteq> NaN)"

definition f_of_int :: "int \<Rightarrow> float64" where
  "f_of_int n = fround (of_int n)"

text \<open>
  Conversion to a 64-bit integer truncates; the language leaves the result open when the
  value does not fit, \<open>ovf\<close> is what the machine delivers then.
\<close>

definition trunc_rat :: "rat \<Rightarrow> int" where
  "trunc_rat x = (if 0 \<le> x then \<lfloor>x\<rfloor> else - \<lfloor>- x\<rfloor>)"

fun f_to_int64 :: "int \<Rightarrow> float64 \<Rightarrow> int" where
  "f_to_int64 ovf (Fin x) = (if - (2 ^ 63) \<le> trunc_rat x \<and> trunc_rat x < 2 ^ 63 then trunc_rat x else ovf)"
| "f_to_int64 ovf NaN = ovf"
| "f_to_int64 ovf (Inf n) = ovf"

section \<open>Binary exponents\<close>

lemma ilog2_bounds:
  assumes "0 < a"
  shows "2 powi ilog2 a \<le> a" "a < 2 powi (ilog2 a + 1)"
proof -
  obtain p q where pq: "quotient_of a = (p, q)" by fastforce
  have q: "0 < q" using quotient_of_denom_pos [OF pq] .
  have a: "a = of_int p / of_int q" using quotient_of_div [OF pq] .
  with assms q have p: "0 < p" by (simp add: zero_less_divide_iff)
  define m n where "m = nat (bitlen p - 1)" and "n = nat (bitlen q - 1)"
  have bl: "bitlen p = int m + 1" "bitlen q = int n + 1"
    using bitlen_bounds [OF p] bitlen_bounds [OF q] p q
    by (auto simp: m_def n_def intro: le_neq_trans)
  have "2 ^ m \<le> p \<and> p < 2 ^ Suc m" "2 ^ n \<le> q \<and> q < 2 ^ Suc n"
    using bitlen_bounds [OF p] bitlen_bounds [OF q] bl by (simp_all add: nat_add_distrib)
  then have "(of_int (2 ^ m) :: rat) \<le> of_int p" "(of_int p :: rat) < of_int (2 ^ Suc m)"
    "(of_int (2 ^ n) :: rat) \<le> of_int q" "(of_int q :: rat) < of_int (2 ^ Suc n)"
    by (simp_all only: of_int_le_iff of_int_less_iff)
  then have P: "(2::rat) ^ m \<le> of_int p" "(of_int p :: rat) < 2 ^ Suc m"
    and Q: "(2::rat) ^ n \<le> of_int q" "(of_int q :: rat) < 2 ^ Suc n"
    by simp_all
  have split: "(2::rat) powi (int i - int j) = 2 ^ i / 2 ^ j" for i j
    by (simp add: power_int_diff)
  define k where "k = bitlen p - bitlen q"
  have k: "k = int m - int n" by (simp add: k_def bl)
  have lo: "2 powi (k - 1) \<le> a"
  proof -
    have "k - 1 = int m - int (Suc n)" by (simp add: k)
    then have "(2::rat) powi (k - 1) = 2 ^ m / 2 ^ Suc n" by (simp only: split)
    also have "\<dots> \<le> of_int p / of_int q" using P Q p q by (intro frac_le) auto
    finally show ?thesis by (simp add: a)
  qed
  have hi: "a < 2 powi (k + 1)"
  proof -
    have "of_int p / of_int q < (2 ^ Suc m / 2 ^ n :: rat)" using P Q p q by (intro frac_less) auto
    moreover have "k + 1 = int (Suc m) - int n" by (simp add: k)
    then have "2 ^ Suc m / 2 ^ n = (2::rat) powi (k + 1)" by (simp only: split)
    ultimately show ?thesis by (simp only: a)
  qed
  have il: "ilog2 a = (if 2 powi k \<le> a then k else k - 1)"
    by (simp add: ilog2_def pq k_def Let_def)
  show "2 powi ilog2 a \<le> a" "a < 2 powi (ilog2 a + 1)"
    using lo hi by (auto simp: il)
qed

lemma powi_less_iff: "(2::rat) powi i < 2 powi j \<longleftrightarrow> i < j"
  using power_int_strict_increasing [of i j "2 :: rat"] power_int_increasing [of j i "2 :: rat"]
  by (cases "i < j") auto

lemma powi_le_iff: "(2::rat) powi i \<le> 2 powi j \<longleftrightarrow> i \<le> j"
  by (simp flip: not_less add: powi_less_iff)

lemma ilog2_mono: "0 < a \<Longrightarrow> a \<le> b \<Longrightarrow> ilog2 a \<le> ilog2 b"
proof -
  assume ab: "0 < a" "a \<le> b"
  then have "2 powi ilog2 a < (2::rat) powi (ilog2 b + 1)"
    using ilog2_bounds [of a] ilog2_bounds [of b] by linarith
  then show ?thesis by (simp add: powi_less_iff)
qed

lemma ulp_exp_mono: "0 < a \<Longrightarrow> a \<le> b \<Longrightarrow> ulp_exp a \<le> ulp_exp b"
  using ilog2_mono [of a b] by (auto simp: ulp_exp_def)

section \<open>Rounding is monotone and exact on small integers\<close>

lemma round_even_error: "\<bar>of_int (round_even q) - q\<bar> \<le> 1 / 2"
proof -
  have "of_int \<lfloor>q\<rfloor> \<le> q" "q < of_int \<lfloor>q\<rfloor> + 1" by linarith+
  then show ?thesis by (auto simp: round_even_def Let_def abs_le_iff)
qed

lemma round_even_of_int [simp]: "round_even (of_int k) = k"
  by (simp add: round_even_def)

lemma round_even_mono: "x \<le> y \<Longrightarrow> round_even x \<le> round_even y"
proof -
  assume xy: "x \<le> y"
  then have f: "\<lfloor>x\<rfloor> \<le> \<lfloor>y\<rfloor>" by (rule floor_mono)
  have fl: "of_int \<lfloor>x\<rfloor> \<le> x" "x < of_int \<lfloor>x\<rfloor> + 1" "of_int \<lfloor>y\<rfloor> \<le> y" "y < of_int \<lfloor>y\<rfloor> + 1" by linarith+
  show ?thesis
  proof (cases "\<lfloor>x\<rfloor> = \<lfloor>y\<rfloor>")
    case True
    then show ?thesis using xy by (auto simp: round_even_def Let_def)
  next
    case False
    with f have "\<lfloor>x\<rfloor> + 1 \<le> \<lfloor>y\<rfloor>" by linarith
    then show ?thesis by (auto simp: round_even_def Let_def)
  qed
qed

lemma round_even_ge: "of_int k \<le> x \<Longrightarrow> k \<le> round_even x"
  using round_even_mono [of "of_int k" x] by simp

lemma round_even_le: "x \<le> of_int k \<Longrightarrow> round_even x \<le> k"
  using round_even_mono [of x "of_int k"] by simp


lemma powi_int: "0 \<le> k \<Longrightarrow> (2::rat) powi k = of_int (2 ^ nat k)"
  by (simp add: power_int_def)

lemma ilog2_unique: "2 powi k \<le> a \<Longrightarrow> a < 2 powi (k + 1) \<Longrightarrow> ilog2 a = k"
proof -
  assume k: "2 powi k \<le> a" "a < 2 powi (k + 1)"
  have a: "0 < a" using less_le_trans [OF zero_less_power_int k(1)] by simp
  have "(2::rat) powi k < 2 powi (ilog2 a + 1)" "(2::rat) powi ilog2 a < 2 powi (k + 1)"
    using ilog2_bounds [OF a] k by linarith+
  then show ?thesis by (simp add: powi_less_iff)
qed

lemma round_mag_nonneg: "0 \<le> a \<Longrightarrow> 0 \<le> round_mag a"
  using round_even_ge [of 0 "a / 2 powi ulp_exp a"] by (simp add: round_mag_def)

lemma round_mag_error:
  assumes "0 < a" shows "\<bar>round_mag a - a\<bar> \<le> 2 powi ulp_exp a / 2"
proof -
  define u :: rat where "u = 2 powi ulp_exp a"
  have u: "0 < u" by (simp add: u_def)
  have "round_mag a - a = (of_int (round_even (a / u)) - a / u) * u"
    using assms u by (simp add: round_mag_def u_def field_simps)
  then have "\<bar>round_mag a - a\<bar> = \<bar>of_int (round_even (a / u)) - a / u\<bar> * u"
    using u by (simp add: abs_mult)
  also have "\<dots> \<le> 1 / 2 * u" using round_even_error [of "a / u"] u by (intro mult_right_mono) auto
  finally show ?thesis by (simp add: u_def)
qed

lemma round_mag_le_grid:
  assumes "0 < a" "a \<le> 2 powi k" "ulp_exp a \<le> k" shows "round_mag a \<le> 2 powi k"
proof -
  have "a / 2 powi ulp_exp a \<le> 2 powi k / 2 powi ulp_exp a"
    using assms by (simp add: divide_right_mono)
  also have "\<dots> = of_int (2 ^ nat (k - ulp_exp a))"
    using assms powi_int [of "k - ulp_exp a"] by (simp add: power_int_diff)
  finally have "round_even (a / 2 powi ulp_exp a) \<le> 2 ^ nat (k - ulp_exp a)" by (rule round_even_le)
  then have "of_int (round_even (a / 2 powi ulp_exp a)) \<le> (of_int (2 ^ nat (k - ulp_exp a)) :: rat)"
    by (simp only: of_int_le_iff)
  then have "of_int (round_even (a / 2 powi ulp_exp a)) \<le> (2 :: rat) powi (k - ulp_exp a)"
    using assms powi_int [of "k - ulp_exp a"] by simp
  then show ?thesis using assms by (simp add: round_mag_def power_int_diff field_simps)
qed

lemma round_mag_ge_grid:
  assumes "0 < a" "2 powi k \<le> a" "ulp_exp a \<le> k" shows "2 powi k \<le> round_mag a"
proof -
  have "of_int (2 ^ nat (k - ulp_exp a)) = (2 :: rat) powi k / 2 powi ulp_exp a"
    using assms powi_int [of "k - ulp_exp a"] by (simp add: power_int_diff)
  also have "\<dots> \<le> a / 2 powi ulp_exp a"
    using assms by (simp add: divide_right_mono)
  finally have "2 ^ nat (k - ulp_exp a) \<le> round_even (a / 2 powi ulp_exp a)" by (rule round_even_ge)
  then have "(of_int (2 ^ nat (k - ulp_exp a)) :: rat) \<le> of_int (round_even (a / 2 powi ulp_exp a))"
    by (simp only: of_int_le_iff)
  then have "(2 :: rat) powi (k - ulp_exp a) \<le> of_int (round_even (a / 2 powi ulp_exp a))"
    using assms powi_int [of "k - ulp_exp a"] by simp
  then show ?thesis using assms by (simp add: round_mag_def power_int_diff field_simps)
qed

lemma round_mag_mono:
  assumes "0 \<le> a" "a \<le> b" shows "round_mag a \<le> round_mag b"
proof (cases "a = 0")
  case True
  then show ?thesis using round_mag_nonneg [of b] assms by (simp add: round_mag_def)
next
  case False
  with assms have a: "0 < a" and b: "0 < b" by linarith+
  show ?thesis
  proof (cases "ulp_exp a = ulp_exp b")
    case True
    have "round_even (a / 2 powi ulp_exp b) \<le> round_even (b / 2 powi ulp_exp b)"
      using assms by (intro round_even_mono) (simp add: divide_right_mono)
    then show ?thesis using a b by (simp add: round_mag_def True)
  next
    case False
    then have lt: "ulp_exp a < ulp_exp b" using ulp_exp_mono [OF a assms(2)] by simp
    then have eb: "ulp_exp b = ilog2 b - 52" and ab: "ilog2 a < ilog2 b"
      using ilog2_mono [OF a assms(2)] by (auto simp: ulp_exp_def split: if_splits)
    have "round_mag a \<le> 2 powi (ilog2 b)"
    proof (rule round_mag_le_grid [OF a])
      have "(2 :: rat) powi (ilog2 a + 1) \<le> 2 powi ilog2 b" using ab by (simp add: powi_le_iff)
      then show "a \<le> 2 powi ilog2 b" using ilog2_bounds(2) [OF a] by linarith
      show "ulp_exp a \<le> ilog2 b" using lt eb by linarith
    qed
    also have "\<dots> \<le> round_mag b"
      using ilog2_bounds(1) [OF b] eb by (intro round_mag_ge_grid [OF b]) auto
    finally show ?thesis .
  qed
qed

lemma round_mag_0 [simp]: "round_mag 0 = 0"
  by (simp add: round_mag_def)

lemma fround_mono:
  assumes "x \<le> y" shows "fle (fround x) (fround y)"
proof -
  have "fle (fround x) (fround y)" if "0 \<le> x"
    using round_mag_mono [of x y] that assms
    by (cases "x = 0"; cases "y = 0") (auto simp: fround_def fle_def Let_def sgn_if)
  moreover have "fle (fround x) (fround y)" if "y \<le> 0"
    using round_mag_mono [of "- y" "- x"] that assms
    by (cases "x = 0"; cases "y = 0") (auto simp: fround_def fle_def Let_def sgn_if)
  moreover have "fle (fround x) (fround y)" if "x < 0" "0 < y"
    using round_mag_nonneg [of "- x"] round_mag_nonneg [of y] that
    by (auto simp: fround_def fle_def Let_def sgn_if)
  ultimately show ?thesis by (meson linorder_not_le less_imp_le)
qed

text \<open>Small magnitudes: no overflow, and the error is relative.\<close>

lemma fround_pos:
  assumes "0 < x" "x < 2 ^ 62" shows "fround x = Fin (round_mag x)"
proof -
  have "ilog2 x < 62"
    using ilog2_bounds(1) [OF assms(1)] assms(2) powi_less_iff [of "ilog2 x" 62] by simp
  then have "round_mag x \<le> 2 powi 62"
    using assms by (intro round_mag_le_grid) (auto simp: ulp_exp_def)
  also have "\<dots> < 2 ^ 1024" by simp
  finally show ?thesis using assms by (simp add: fround_def Let_def)
qed

lemma round_mag_int:
  assumes "0 < n" "n \<le> 2 ^ 53" shows "round_mag (of_int n) = of_int n"
proof -
  have n: "0 < (of_int n :: rat)" using assms by simp
  have "(of_int n :: rat) \<le> of_int (2 ^ 53)" using assms(2) by (simp only: of_int_le_iff)
  then have "(2 :: rat) powi ilog2 (of_int n) \<le> 2 powi 53"
    using ilog2_bounds(1) [OF n] by simp
  then have k: "ilog2 (of_int n) \<le> 53" by (simp only: powi_le_iff)
  have "1 \<le> (of_int n :: rat)" using assms by simp
  then have "(2 :: rat) powi 0 < 2 powi (ilog2 (of_int n) + 1)"
    using ilog2_bounds(2) [OF n] by simp
  then have k0: "0 \<le> ilog2 (of_int n)" by (simp only: powi_less_iff)
  show ?thesis
  proof (cases "ilog2 (of_int n) = 53")
    case True
    then have "n = 2 ^ 53" using ilog2_bounds(1) [OF n] assms by simp
    then show ?thesis using round_even_of_int [of "2 ^ 52"] by (simp add: round_mag_def ulp_exp_def True [unfolded \<open>n = 2 ^ 53\<close>, simplified])
  next
    case False
    with k have e: "ulp_exp (of_int n) = - (52 - ilog2 (of_int n))" "0 \<le> 52 - ilog2 (of_int n)"
      using k0 by (auto simp: ulp_exp_def)
    define j where "j = 52 - ilog2 (of_int n)"
    have j: "ulp_exp (of_int n) = - j" "0 \<le> j" using e by (simp_all add: j_def)
    have "(of_int n :: rat) / 2 powi ulp_exp (of_int n) = of_int (n * 2 ^ nat j)"
      using powi_int [of j] j by (simp add: power_int_minus divide_inverse)
    then show ?thesis
      using powi_int [of j] j assms by (simp add: round_mag_def power_int_minus del: of_int_mult) (simp add: field_simps)
  qed
qed

lemma round_even_eq: "\<bar>q - of_int k\<bar> < 1 / 2 \<Longrightarrow> round_even q = k"
  using round_even_error [of q] by linarith

lemma round_mag_fraction:
  "2 powi k \<le> a \<Longrightarrow> a < 2 powi (k + 1) \<Longrightarrow> 0 < a \<Longrightarrow> - 1022 \<le> k \<Longrightarrow>
   \<bar>a / 2 powi (k - 52) - of_int m\<bar> < 1 / 2 \<Longrightarrow> round_mag a = of_int m * 2 powi (k - 52)"
  by (simp add: round_mag_def ulp_exp_def ilog2_unique round_even_eq)

lemma f_of_int_small: "0 \<le> n \<Longrightarrow> n \<le> 2 ^ 53 \<Longrightarrow> f_of_int n = Fin (of_int n)"
proof (cases "n = 0")
  case False
  assume n: "0 \<le> n" "n \<le> 2 ^ 53"
  then have "(of_int n :: rat) \<le> of_int (2 ^ 53)" by (simp only: of_int_le_iff)
  then have "(of_int n :: rat) < 2 ^ 62" by simp
  with n False show ?thesis by (simp add: f_of_int_def fround_pos round_mag_int)
qed (simp add: f_of_int_def fround_def)

text \<open>Rounding at most doubles; small values stay finite.\<close>

lemma round_mag_le_double: "0 < a \<Longrightarrow> round_mag a \<le> 2 * a"
proof -
  assume a: "0 < a"
  define u :: rat where "u = 2 powi ulp_exp a"
  have u: "0 < u" by (simp add: u_def)
  show ?thesis
  proof (cases "u \<le> 2 * a")
    case True
    then show ?thesis using abs_le_D1 [OF round_mag_error [OF a]] by (simp add: u_def)
  next
    case False
    then have "0 < a / u" "a / u < 1 / 2" using a u by (simp_all add: field_simps)
    then have "round_even (a / u) = 0" by (intro round_even_eq) simp
    then show ?thesis using a by (simp add: round_mag_def u_def)
  qed
qed

lemma fround_small:
  assumes "0 \<le> x" "x < 2 ^ 62" shows "\<exists>y. fround x = Fin y \<and> 0 \<le> y \<and> y \<le> 2 * x"
proof (cases "x = 0")
  case True
  then show ?thesis by (simp add: fround_def)
next
  case False
  then show ?thesis
    using assms fround_pos [of x] round_mag_nonneg [of x] round_mag_le_double [of x] by auto
qed

lemma fround_small_mono:
  assumes "0 \<le> x" "x \<le> y" "y < 2 ^ 62" "fround x = Fin a" "fround y = Fin b" shows "a \<le> b"
  using fround_mono [OF assms(2)] assms(4,5) by (auto simp: fle_def)

end
