(* ===== verification/Config.thy ===== *)
theory Config
  imports Net Go_Text Float64
begin

text \<open>
  The scenario configuration (\<^verbatim>\<open>pkg/config\<close>): the structs, the table of defaults, the
  two custom validators, the credentials loader and the \<^verbatim>\<open>Load\<close> entry points. The file
  system, the TOML decoder with its metadata and the struct validator are parameters; CSV
  reading is the sequence of results of \<^verbatim>\<open>csv.Reader.Read\<close>, whose end is \<^verbatim>\<open>io.EOF\<close>.
\<close>

section \<open>The structs\<close>

record target =
  tg_AuthAddress :: string
  tg_AcctAddress :: string
  tg_SharedSecret :: string

record coa_listener =
  cl_BindAddress :: string
  cl_SharedSecret :: string

record subscribers =
  su_Count :: int
  su_CredentialsFile :: string
  su_AuthMethodPapPct :: int
  su_TypePppoePct :: int
  su_IncludeAcctStart :: bool

record source =
  so_IPs :: "string list"
  so_PortRange :: "int \<times> int"

record nas =
  nas_IPAddress :: string
  nas_Identifier :: string
  nas_Huawei :: "string \<rightharpoonup> string"

record retransmit =
  rt_InitialTimeoutMs :: int
  rt_MaxRetries :: int
  rt_Backoff :: string
  rt_BackoffBaseMs :: int

record cold_start_cfg =
  cs_MuSec :: float64
  cs_SigmaSec :: float64
  cs_TruncateSigma :: float64

record uniform_cfg =
  un_DurationSec :: float64

record pessimal_cfg =
  pe_BurstWindowMs :: int

text \<open>\<open>sc_CoaStorm\<close> says whether the empty struct is present.\<close>

record scenario =
  sc_Type :: string
  sc_HardTimeoutSec :: int
  sc_ColdStart :: "cold_start_cfg option"
  sc_Uniform :: "uniform_cfg option"
  sc_Pessimal :: "pessimal_cfg option"
  sc_CoaStorm :: bool

record output_cfg =
  op_Directory :: string
  op_FlushIntervalSec :: int

record config =
  cfg_Target :: target
  cfg_CoaListener :: coa_listener
  cfg_Subscribers :: subscribers
  cfg_Source :: source
  cfg_NAS :: nas
  cfg_Retransmit :: retransmit
  cfg_Scenario :: scenario
  cfg_Output :: output_cfg

record credential =
  cr_Username :: string
  cr_Password :: string
  cr_AuthMethod :: string
  cr_SubType :: string
  cr_NASPortID :: string
  cr_MACAddress :: string

section \<open>Defaults\<close>

fun split_key_loop :: "string \<Rightarrow> string \<Rightarrow> string list \<Rightarrow> string list" where
  "split_key_loop [] cur out = out @ [cur]"
| "split_key_loop (c # cs) cur out =
     (if c = CHR ''.'' then split_key_loop cs [] (out @ [cur]) else split_key_loop cs (cur @ [c]) out)"

definition splitTomlKey :: "string \<Rightarrow> string list" where
  "splitTomlKey key = split_key_loop key [] []"

text \<open>\<open>meta\<close> is \<^verbatim>\<open>MetaData.IsDefined\<close> of the decoded file, absent for a nil pointer.\<close>

definition missing :: "(string list \<Rightarrow> bool) option \<Rightarrow> string \<Rightarrow> bool" where
  "missing meta key = (case meta of None \<Rightarrow> True | Some defined \<Rightarrow> \<not> defined (splitTomlKey key))"

definition default_subscribers :: "(string \<Rightarrow> bool) \<Rightarrow> subscribers \<Rightarrow> subscribers" where
  "default_subscribers miss s =
     (let s1 = (if miss ''subscribers.auth_method_pap_pct'' \<and> su_AuthMethodPapPct s = 0
                then s\<lparr>su_AuthMethodPapPct := 100\<rparr> else s);
          s2 = (if miss ''subscribers.type_pppoe_pct'' \<and> su_TypePppoePct s1 = 0
                then s1\<lparr>su_TypePppoePct := 100\<rparr> else s1)
      in if miss ''subscribers.include_acct_start'' then s2\<lparr>su_IncludeAcctStart := True\<rparr> else s2)"

definition default_retransmit :: "(string \<Rightarrow> bool) \<Rightarrow> retransmit \<Rightarrow> retransmit" where
  "default_retransmit miss r =
     (let r1 = (if miss ''retransmit.initial_timeout_ms'' \<and> rt_InitialTimeoutMs r = 0
                then r\<lparr>rt_InitialTimeoutMs := 5000\<rparr> else r);
          r2 = (if miss ''retransmit.max_retries'' \<and> rt_MaxRetries r1 = 0
                then r1\<lparr>rt_MaxRetries := 3\<rparr> else r1);
          r3 = (if miss ''retransmit.backoff'' \<and> rt_Backoff r2 = []
                then r2\<lparr>rt_Backoff := ''exponential''\<rparr> else r2)
      in if miss ''retransmit.backoff_base_ms'' \<and> rt_BackoffBaseMs r3 = 0
         then r3\<lparr>rt_BackoffBaseMs := 1000\<rparr> else r3)"

definition default_scenario :: "(string \<Rightarrow> bool) \<Rightarrow> scenario \<Rightarrow> scenario" where
  "default_scenario miss s =
     (if miss ''scenario.hard_timeout_sec'' \<and> sc_HardTimeoutSec s = 0
      then s\<lparr>sc_HardTimeoutSec := 300\<rparr> else s)"

definition default_output :: "(string \<Rightarrow> bool) \<Rightarrow> output_cfg \<Rightarrow> output_cfg" where
  "default_output miss p =
     (let p1 = (if miss ''output.directory'' \<and> op_Directory p = []
                then p\<lparr>op_Directory := ''results''\<rparr> else p)
      in if miss ''output.flush_interval_sec'' \<and> op_FlushIntervalSec p1 = 0
         then p1\<lparr>op_FlushIntervalSec := 30\<rparr> else p1)"

definition default_source :: "(string \<Rightarrow> bool) \<Rightarrow> source \<Rightarrow> source" where
  "default_source miss s =
     (if miss ''source.port_range'' \<and> so_PortRange s = (0, 0)
      then s\<lparr>so_PortRange := (10000, 60000)\<rparr> else s)"

text \<open>A nil configuration is left alone.\<close>

definition ApplyDefaultsWithMeta :: "config option \<Rightarrow> (string list \<Rightarrow> bool) option \<Rightarrow> config option" where
  "ApplyDefaultsWithMeta cfg meta = map_option (\<lambda>c. c\<lparr>
     cfg_Subscribers := default_subscribers (missing meta) (cfg_Subscribers c),
     cfg_Retransmit := default_retransmit (missing meta) (cfg_Retransmit c),
     cfg_Scenario := default_scenario (missing meta) (cfg_Scenario c),
     cfg_Output := default_output (missing meta) (cfg_Output c),
     cfg_Source := default_source (missing meta) (cfg_Source c)\<rparr>) cfg"

definition ApplyDefaults :: "config option \<Rightarrow> config option" where
  "ApplyDefaults cfg = ApplyDefaultsWithMeta cfg None"

section \<open>Validation\<close>

definition validateHostport :: "string \<Rightarrow> bool" where
  "validateHostport s =
     (if s = [] then False
      else case SplitHostPort s of
        None \<Rightarrow> False
      | Some (host, port) \<Rightarrow>
          if TrimSpace host = [] then False
          else case Atoi port of None \<Rightarrow> False | Some p \<Rightarrow> p \<ge> 1 \<and> p \<le> 65535)"

text \<open>\<open>stat\<close> is \<^verbatim>\<open>os.Stat\<close>: whether the mode is regular, or nothing on an error.\<close>

definition validateFileExists :: "(string \<Rightarrow> bool option) \<Rightarrow> string \<Rightarrow> bool" where
  "validateFileExists stat path =
     (if path = [] then False else case stat path of None \<Rightarrow> False | Some regular \<Rightarrow> regular)"

text \<open>
  The conditions the \<^verbatim>\<open>validate\<close> tags of the structs name, with the custom validators
  and the built-in \<^verbatim>\<open>ip\<close> as arguments.
\<close>

definition positive_float :: "float64 \<Rightarrow> bool" where
  "positive_float f \<longleftrightarrow> flt (Fin 0) f"

definition config_tags :: "(string \<Rightarrow> bool) \<Rightarrow> (string \<Rightarrow> bool) \<Rightarrow> (string \<Rightarrow> bool) \<Rightarrow> config \<Rightarrow> bool" where
  "config_tags hostport file ip c \<longleftrightarrow>
     hostport (tg_AuthAddress (cfg_Target c)) \<and> hostport (tg_AcctAddress (cfg_Target c))
     \<and> tg_SharedSecret (cfg_Target c) \<noteq> []
     \<and> hostport (cl_BindAddress (cfg_CoaListener c)) \<and> cl_SharedSecret (cfg_CoaListener c) \<noteq> []
     \<and> 1 \<le> su_Count (cfg_Subscribers c) \<and> su_Count (cfg_Subscribers c) \<le> 1000000
     \<and> file (su_CredentialsFile (cfg_Subscribers c))
     \<and> 0 \<le> su_AuthMethodPapPct (cfg_Subscribers c) \<and> su_AuthMethodPapPct (cfg_Subscribers c) \<le> 100
     \<and> 0 \<le> su_TypePppoePct (cfg_Subscribers c) \<and> su_TypePppoePct (cfg_Subscribers c) \<le> 100
     \<and> so_IPs (cfg_Source c) \<noteq> [] \<and> list_all ip (so_IPs (cfg_Source c)) \<and> so_PortRange (cfg_Source c) \<noteq> (0, 0)
     \<and> ip (nas_IPAddress (cfg_NAS c)) \<and> nas_Identifier (cfg_NAS c) \<noteq> []
     \<and> sc_Type (cfg_Scenario c) \<in> {''cold_start'', ''uniform'', ''pessimal'', ''coa_storm''}
     \<and> (case sc_ColdStart (cfg_Scenario c) of None \<Rightarrow> True | Some k \<Rightarrow>
          positive_float (cs_MuSec k) \<and> positive_float (cs_SigmaSec k) \<and> fle (Fin 1) (cs_TruncateSigma k))
     \<and> (case sc_Uniform (cfg_Scenario c) of None \<Rightarrow> True | Some u \<Rightarrow> positive_float (un_DurationSec u))
     \<and> (case sc_Pessimal (cfg_Scenario c) of None \<Rightarrow> True | Some p \<Rightarrow> 0 \<le> pe_BurstWindowMs p)
     \<and> op_Directory (cfg_Output c) \<noteq> []"

text \<open>
  \<open>v\<close> is the third-party validator: given the two registered functions and a configuration
  it returns its report. What the code relies on is that no report means the tags hold.
\<close>

type_synonym 'r struct_validator = "(string \<Rightarrow> bool) \<Rightarrow> (string \<Rightarrow> bool) \<Rightarrow> config \<Rightarrow> 'r option"

definition validator_sound :: "(string \<Rightarrow> bool) \<Rightarrow> 'r struct_validator \<Rightarrow> bool" where
  "validator_sound ip v \<longleftrightarrow> (\<forall>hostport file c. v hostport file c = None \<longrightarrow> config_tags hostport file ip c)"

definition Validate :: "'r struct_validator \<Rightarrow> (string \<Rightarrow> bool option) \<Rightarrow> config \<Rightarrow> 'r option" where
  "Validate v stat cfg = v validateHostport (validateFileExists stat) cfg"

lemma default_retransmit_fields:
  "default_retransmit m b = b\<lparr>
     rt_InitialTimeoutMs := (if m ''retransmit.initial_timeout_ms'' \<and> rt_InitialTimeoutMs b = 0 then 5000
       else rt_InitialTimeoutMs b),
     rt_MaxRetries := (if m ''retransmit.max_retries'' \<and> rt_MaxRetries b = 0 then 3 else rt_MaxRetries b),
     rt_Backoff := (if m ''retransmit.backoff'' \<and> rt_Backoff b = [] then ''exponential'' else rt_Backoff b),
     rt_BackoffBaseMs := (if m ''retransmit.backoff_base_ms'' \<and> rt_BackoffBaseMs b = 0 then 1000
       else rt_BackoffBaseMs b)\<rparr>"
  by (simp add: default_retransmit_def Let_def)

end
