(* ===== verification/Config_Load.thy ===== *)
theory Config_Load
  imports Config
begin

text \<open>
  Loading credentials and configurations (\<^verbatim>\<open>pkg/config/credentials.go\<close>,
  \<^verbatim>\<open>load.go\<close>). Messages are the constructors of \<open>load_error\<close>. The main result is that
  the loader returns the credentials of exactly the rows that are not blank, all of them
  acceptable, or names the first row that is not.
\<close>

section \<open>Errors\<close>

text \<open>Row numbers count the rows read so far, the header being row 1.\<close>

datatype 'r load_error =
    CredPathEmpty
  | CredOpen goerr
  | CredFileEmpty
  | CredHeader goerr
  | CredMissingColumn string
  | CredRead int goerr
  | CredEmptyUsername int
  | CredEmptyPassword int
  | CredBadAuthMethod int string
  | CredBadSubType int string
  | ConfigPathEmpty
  | ConfigRead goerr
  | ConfigParse goerr
  | ConfigInvalid 'r
  | LoadingCredentials "'r load_error"
  | TooFewCredentials int int

section \<open>The header and the fields of a row\<close>

definition colUsername :: string where "colUsername = ''username''"
definition colPassword :: string where "colPassword = ''password''"
definition colAuthMethod :: string where "colAuthMethod = ''auth_method''"
definition colSubType :: string where "colSubType = ''sub_type''"
definition colNASPortID :: string where "colNASPortID = ''nas_port_id''"
definition colMACAddress :: string where "colMACAddress = ''mac_address''"

type_synonym header_index = "string \<rightharpoonup> nat"

fun index_loop :: "(string \<Rightarrow> string) \<Rightarrow> nat \<Rightarrow> string list \<Rightarrow> header_index \<Rightarrow> header_index" where
  "index_loop uni i [] out = out"
| "index_loop uni i (h # hs) out =
     (let key = ToLower uni (TrimSpace h) in
      if key = [] then index_loop uni (i + 1) hs out
      else if out key = None then index_loop uni (i + 1) hs (out(key \<mapsto> i))
      else index_loop uni (i + 1) hs out)"

definition indexHeader :: "(string \<Rightarrow> string) \<Rightarrow> string list \<Rightarrow> header_index" where
  "indexHeader uni header = index_loop uni 0 header Map.empty"

definition field :: "string list \<Rightarrow> header_index \<Rightarrow> string \<Rightarrow> string" where
  "field rcd idx name = (case idx name of
       None \<Rightarrow> []
     | Some i \<Rightarrow> if i \<ge> length rcd then [] else TrimSpace (rcd ! i))"

definition isBlankRecord :: "string list \<Rightarrow> bool" where
  "isBlankRecord rcd \<longleftrightarrow> list_all (\<lambda>v. TrimSpace v = []) rcd"

definition row_credential :: "(string \<Rightarrow> string) \<Rightarrow> header_index \<Rightarrow> string list \<Rightarrow> credential" where
  "row_credential uni idx rcd =
     \<lparr>cr_Username = field rcd idx colUsername,
      cr_Password = field rcd idx colPassword,
      cr_AuthMethod = ToLower uni (field rcd idx colAuthMethod),
      cr_SubType = ToLower uni (field rcd idx colSubType),
      cr_NASPortID = field rcd idx colNASPortID,
      cr_MACAddress = field rcd idx colMACAddress\<rparr>"

definition check_row :: "int \<Rightarrow> credential \<Rightarrow> 'r load_error option" where
  "check_row rowNum c =
     (if cr_Username c = [] then Some (CredEmptyUsername rowNum)
      else if cr_Password c = [] then Some (CredEmptyPassword rowNum)
      else if cr_AuthMethod c \<noteq> [] \<and> cr_AuthMethod c \<noteq> ''pap'' \<and> cr_AuthMethod c \<noteq> ''chap''
      then Some (CredBadAuthMethod rowNum (cr_AuthMethod c))
      else if cr_SubType c \<noteq> [] \<and> cr_SubType c \<noteq> ''pppoe'' \<and> cr_SubType c \<noteq> ''mac''
      then Some (CredBadSubType rowNum (cr_SubType c))
      else None)"

section \<open>Reading the file\<close>

type_synonym csv_read = "goerr + string list"

fun rows_loop :: "(string \<Rightarrow> string) \<Rightarrow> header_index \<Rightarrow> int \<Rightarrow> csv_read list \<Rightarrow> credential list \<Rightarrow>
    'r load_error + credential list" where
  "rows_loop uni idx rowNum [] creds = Inr creds"
| "rows_loop uni idx rowNum (Inl err # reads) creds = Inl (CredRead (rowNum + 1) err)"
| "rows_loop uni idx rowNum (Inr rcd # reads) creds =
     (if isBlankRecord rcd then rows_loop uni idx (rowNum + 1) reads creds
      else let c = row_credential uni idx rcd in
        case check_row (rowNum + 1) c of
          Some err \<Rightarrow> Inl err
        | None \<Rightarrow> rows_loop uni idx (rowNum + 1) reads (creds @ [c]))"

text \<open>\<open>openf\<close> opens the file and delivers the results of the successive reads.\<close>

definition LoadCredentials :: "(string \<Rightarrow> string) \<Rightarrow> (string \<Rightarrow> goerr + csv_read list) \<Rightarrow> string \<Rightarrow>
    'r load_error + credential list" where
  "LoadCredentials uni openf path =
     (if path = [] then Inl CredPathEmpty
      else case openf path of
        Inl err \<Rightarrow> Inl (CredOpen err)
      | Inr reads \<Rightarrow>
        (case reads of
           [] \<Rightarrow> Inl CredFileEmpty
         | Inl err # _ \<Rightarrow> Inl (CredHeader err)
         | Inr header # rows \<Rightarrow>
             (let idx = indexHeader uni header in
              if idx colUsername = None then Inl (CredMissingColumn colUsername)
              else if idx colPassword = None then Inl (CredMissingColumn colPassword)
              else rows_loop uni idx 1 rows [])))"

section \<open>Loading a configuration\<close>

text \<open>
  \<open>readf\<close> is \<^verbatim>\<open>os.ReadFile\<close>, \<open>decode\<close> the TOML decoder on the zero configuration with its
  metadata.
\<close>

definition LoadConfigOnly :: "(string \<Rightarrow> goerr + bytes) \<Rightarrow> (string \<Rightarrow> goerr + config \<times> (string list \<Rightarrow> bool)) \<Rightarrow>
    'r struct_validator \<Rightarrow> (string \<Rightarrow> bool option) \<Rightarrow> string \<Rightarrow> 'r load_error + config" where
  "LoadConfigOnly readf decode v stat path =
     (if path = [] then Inl ConfigPathEmpty
      else case readf path of
        Inl err \<Rightarrow> Inl (ConfigRead err)
      | Inr data \<Rightarrow>
        (case decode (string_of data) of
           Inl err \<Rightarrow> Inl (ConfigParse err)
         | Inr (cfg, md) \<Rightarrow>
             (let cfg' = the (ApplyDefaultsWithMeta (Some cfg) (Some md)) in
              case Validate v stat cfg' of
                Some r \<Rightarrow> Inl (ConfigInvalid r)
              | None \<Rightarrow> Inr cfg')))"

definition Load :: "(string \<Rightarrow> string) \<Rightarrow> (string \<Rightarrow> goerr + csv_read list) \<Rightarrow> (string \<Rightarrow> goerr + bytes) \<Rightarrow>
    (string \<Rightarrow> goerr + config \<times> (string list \<Rightarrow> bool)) \<Rightarrow> 'r struct_validator \<Rightarrow> (string \<Rightarrow> bool option) \<Rightarrow>
    string \<Rightarrow> 'r load_error + config \<times> credential list" where
  "Load uni openf readf decode v stat path =
     (case LoadConfigOnly readf decode v stat path of
        Inl err \<Rightarrow> Inl err
      | Inr cfg \<Rightarrow>
        (case LoadCredentials uni openf (su_CredentialsFile (cfg_Subscribers cfg)) of
           Inl err \<Rightarrow> Inl (LoadingCredentials err)
         | Inr creds \<Rightarrow>
             if int (length creds) < su_Count (cfg_Subscribers cfg)
             then Inl (TooFewCredentials (int (length creds)) (su_Count (cfg_Subscribers cfg)))
             else Inr (cfg, creds)))"

section \<open>The rows\<close>

definition credential_ok :: "credential \<Rightarrow> bool" where
  "credential_ok c \<longleftrightarrow> cr_Username c \<noteq> [] \<and> cr_Password c \<noteq> []
     \<and> cr_AuthMethod c \<in> {[], ''pap'', ''chap''} \<and> cr_SubType c \<in> {[], ''pppoe'', ''mac''}"

lemma check_row_None: "check_row n c = None \<longleftrightarrow> credential_ok c"
  by (auto simp: check_row_def credential_ok_def)

definition is_row :: "csv_read \<Rightarrow> bool" where
  "is_row r \<longleftrightarrow> \<not> isl r"

lemma is_row_simps [simp]: "is_row (Inr r)" "\<not> is_row (Inl e)"
  by (simp_all add: is_row_def)

text \<open>The credentials a list of reads stands for: those of the rows that are not blank.\<close>

definition data_rows :: "csv_read list \<Rightarrow> string list list" where
  "data_rows reads = filter (\<lambda>r. \<not> isBlankRecord r) (map projr (filter is_row reads))"

lemma data_rows_simps [simp]:
  "data_rows [] = []"
  "data_rows (Inl e # reads) = data_rows reads"
  "data_rows (Inr r # reads) = (if isBlankRecord r then data_rows reads else r # data_rows reads)"
  by (simp_all add: data_rows_def)

lemma rows_loop_Inr_iff:
  "(rows_loop uni idx n reads creds :: 'r load_error + credential list) = Inr cs \<longleftrightarrow>
     list_all is_row reads \<and> list_all (\<lambda>r. credential_ok (row_credential uni idx r)) (data_rows reads)
     \<and> cs = creds @ map (row_credential uni idx) (data_rows reads)"
proof (induction reads arbitrary: n creds)
  case (Cons r reads)
  have refused: "\<not> credential_ok c" if "check_row k c = Some (e :: 'r load_error)" for k c e
    using that by (metis check_row_None option.distinct(1))
  show ?case
    by (cases r) (auto simp: Let_def Cons.IH check_row_None dest: refused split: option.split)
qed auto

text \<open>A failure is at the first row that cannot be read or is refused.\<close>

definition row_fault :: "(string \<Rightarrow> string) \<Rightarrow> header_index \<Rightarrow> int \<Rightarrow> csv_read \<Rightarrow> 'r load_error option" where
  "row_fault uni idx n r = (case r of
       Inl err \<Rightarrow> Some (CredRead n err)
     | Inr rcd \<Rightarrow> if isBlankRecord rcd then None else check_row n (row_credential uni idx rcd))"

lemma row_fault_None:
  "row_fault uni idx n r = None \<longleftrightarrow>
    is_row r \<and> list_all (\<lambda>r. credential_ok (row_credential uni idx r)) (data_rows [r])"
  by (cases r) (auto simp: row_fault_def check_row_None)

lemma row_fault_rows:
  "row_fault uni idx n (Inl err) = Some (CredRead n err)"
  "row_fault uni idx n (Inr r) = (if isBlankRecord r then None else check_row n (row_credential uni idx r))"
  by (simp_all add: row_fault_def)

lemma first_index_Cons:
  "(\<exists>i < length (x # xs). P i ((x # xs) ! i) = Some e \<and> (\<forall>j < i. P j ((x # xs) ! j) = None)) \<longleftrightarrow>
     P 0 x = Some e \<or> P 0 x = None \<and> (\<exists>i < length xs. P (Suc i) (xs ! i) = Some e \<and> (\<forall>j < i. P (Suc j) (xs ! j) = None))"
  by (simp add: Ex_less_Suc2 All_less_Suc2) auto

lemma rows_loop_Inl_iff:
  "(rows_loop uni idx n reads creds :: 'r load_error + credential list) = Inl e \<longleftrightarrow>
     (\<exists>i < length reads. row_fault uni idx (n + int i + 1) (reads ! i) = Some e
        \<and> (\<forall>j < i. row_fault uni idx (n + int j + 1) (reads ! j) = (None :: 'r load_error option)))"
proof (induction reads arbitrary: n creds)
  case (Cons r reads)
  have eq: "n + int (Suc i) + 1 = n + 1 + int i + 1" for i by simp
  show ?case
    by (subst first_index_Cons [where P = "\<lambda>i. row_fault uni idx (n + int i + 1)"], cases r)
      (auto simp: row_fault_rows Let_def eq Cons.IH simp del: of_nat_Suc split: option.split)
qed simp

section \<open>Properties\<close>

text \<open>C39: Loading credentials succeeds exactly when the file opens, its header names the username and
  the password column, every row can be read, and every row that is not blank has a username, a password,
  and an authentication method and subscriber type that are absent or known; the credentials are those
  rows', in order.\<close>

theorem load_credentials_exact:
  "(LoadCredentials uni openf path :: 'r load_error + credential list) = Inr creds \<longleftrightarrow>
     path \<noteq> [] \<and> (\<exists>header rows. openf path = Inr (Inr header # rows)
       \<and> colUsername \<in> dom (indexHeader uni header) \<and> colPassword \<in> dom (indexHeader uni header)
       \<and> list_all is_row rows
       \<and> list_all (\<lambda>r. credential_ok (row_credential uni (indexHeader uni header) r)) (data_rows rows)
       \<and> creds = map (row_credential uni (indexHeader uni header)) (data_rows rows))"
  by (auto simp: LoadCredentials_def Let_def rows_loop_Inr_iff dom_def split: sum.splits list.splits)

text \<open>When the header is in order, loading fails exactly at the first row that cannot be read or is
  refused, with the error that row stands for and its number in the file.\<close>

theorem load_credentials_first_fault:
  assumes "path \<noteq> []" "openf path = Inr (Inr header # rows)"
    "colUsername \<in> dom (indexHeader uni header)" "colPassword \<in> dom (indexHeader uni header)"
  shows "(LoadCredentials uni openf path :: 'r load_error + credential list) = Inl e \<longleftrightarrow>
     (\<exists>i < length rows. row_fault uni (indexHeader uni header) (int i + 2) (rows ! i) = Some e
        \<and> list_all (\<lambda>j. row_fault uni (indexHeader uni header) (int j + 2) (rows ! j) = (None :: 'r load_error option)) [0..<i])"
proof -
  have "(LoadCredentials uni openf path :: 'r load_error + credential list) = Inl e
      \<longleftrightarrow> (rows_loop uni (indexHeader uni header) 1 rows [] :: 'r load_error + credential list) = Inl e"
    using assms by (auto simp: LoadCredentials_def Let_def)
  then show ?thesis
    by (simp add: rows_loop_Inl_iff list_all_iff Ball_def add.commute [of 2])
qed

definition demo_rows :: "string \<Rightarrow> goerr + csv_read list" where
  "demo_rows path = Inr [Inr [''Username'', '' password ''], Inr [''alice'', ''a''], Inr ['' '', ''''],
     Inr [''bob'', '' '']]"

theorem load_credentials_first_fault_witness:
  "(LoadCredentials id demo_rows ''c.csv'' :: unit load_error + credential list) = Inl (CredEmptyPassword 4)"
proof -
  let ?h = "[''Username'', '' password '']"
  let ?rows = "[Inr [''alice'', ''a''], Inr ['' '', []], Inr [''bob'', '' '']] :: csv_read list"
  have lower: "ToLower id ''Username'' = ''username''" "ToLower id ''password'' = ''password''" by code_simp+
  have keys: "ToLower id (TrimSpace ''Username'') = ''username''" "ToLower id (TrimSpace '' password '') = ''password''"
    by (simp_all add: TrimSpace_def plain_char_def lower)
  have idx: "indexHeader id ?h = [''username'' \<mapsto> 0, ''password'' \<mapsto> 1]"
    by (simp add: indexHeader_def Let_def keys)
  have cols: "indexHeader id ?h colUsername = Some 0" "indexHeader id ?h colPassword = Some 1"
    by (simp_all add: idx colUsername_def colPassword_def)
  have blank: "TrimSpace ''alice'' = ''alice''" "TrimSpace ''a'' = ''a''" "TrimSpace '' '' = []"
    "TrimSpace ''bob'' = ''bob''" by (simp_all add: TrimSpace_def plain_char_def)
  have rows: "demo_rows ''c.csv'' = Inr (Inr ?h # ?rows)" by (simp add: demo_rows_def)
  have faults: "row_fault id (indexHeader id ?h) 2 (?rows ! 0) = (None :: unit load_error option)"
    "row_fault id (indexHeader id ?h) 3 (?rows ! Suc 0) = (None :: unit load_error option)"
    "row_fault id (indexHeader id ?h) 4 (?rows ! 2) = (Some (CredEmptyPassword 4) :: unit load_error option)"
    by (simp_all add: row_fault_def isBlankRecord_def check_row_def row_credential_def field_def idx blank ToLower_def
      is_ascii_def colUsername_def colPassword_def colAuthMethod_def colSubType_def colNASPortID_def colMACAddress_def)
  show ?thesis
  proof (rule iffD2 [OF load_credentials_first_fault [where openf = demo_rows and path = "''c.csv''", OF _ rows]])
    show "\<exists>i < length ?rows. row_fault id (indexHeader id ?h) (int i + 2) (?rows ! i) = (Some (CredEmptyPassword 4) :: unit load_error option)
      \<and> list_all (\<lambda>j. row_fault id (indexHeader id ?h) (int j + 2) (?rows ! j) = (None :: unit load_error option)) [0..<i]"
      by (intro exI [of _ 2] conjI) (use faults in \<open>simp_all add: upt_rec numeral_2_eq_2\<close>)
  qed (simp_all add: cols dom_def)
qed

lemma Load_InrD:
  assumes "Load uni openf readf decode v stat path = Inr (cfg, creds)"
  shows "LoadConfigOnly readf decode v stat path = Inr cfg"
    "LoadCredentials uni openf (su_CredentialsFile (cfg_Subscribers cfg)) = (Inr creds :: 'r load_error + credential list)"
    "su_Count (cfg_Subscribers cfg) \<le> int (length creds)"
  using assms by (auto simp: Load_def LoadCredentials_def rows_loop_Inr_iff Let_def split: sum.splits if_splits list.splits)

lemma LoadConfigOnly_InrD:
  assumes "LoadConfigOnly readf decode v stat path = Inr cfg"
  shows "Validate v stat cfg = None"
  using assms by (auto simp: LoadConfigOnly_def Let_def split: sum.splits if_splits option.splits)

lemma LoadCredentials_InrD:
  "LoadCredentials uni openf path = Inr creds \<Longrightarrow> list_all credential_ok creds"
  by (auto simp: LoadCredentials_def Let_def rows_loop_Inr_iff list_all_iff split: sum.splits list.splits if_splits)

text \<open>C40: What a successful \<^verbatim>\<open>Load\<close> hands to a run, given that a report-free validation means the tags
  hold: the addresses are host and port with a port in range, the secrets are not empty, the pool has
  between one and a million subscribers, there is an acceptable credential for each of them, and there is
  a source address and an activation curve of a known type.\<close>

theorem loaded_run_is_usable:
  assumes "validator_sound ip v" "Load uni openf readf decode v stat path = Inr (cfg, creds)"
  shows "validateHostport (tg_AuthAddress (cfg_Target cfg)) \<and> validateHostport (tg_AcctAddress (cfg_Target cfg))
    \<and> validateHostport (cl_BindAddress (cfg_CoaListener cfg))
    \<and> tg_SharedSecret (cfg_Target cfg) \<noteq> [] \<and> cl_SharedSecret (cfg_CoaListener cfg) \<noteq> []
    \<and> 1 \<le> su_Count (cfg_Subscribers cfg) \<and> su_Count (cfg_Subscribers cfg) \<le> 1000000
    \<and> su_Count (cfg_Subscribers cfg) \<le> int (length creds) \<and> list_all credential_ok creds
    \<and> so_IPs (cfg_Source cfg) \<noteq> []
    \<and> sc_Type (cfg_Scenario cfg) \<in> {''cold_start'', ''uniform'', ''pessimal'', ''coa_storm''}"
proof -
  note L = Load_InrD [OF assms(2)]
  have tags: "config_tags validateHostport (validateFileExists stat) ip cfg"
    using LoadConfigOnly_InrD [OF L(1)] assms(1) by (simp add: validator_sound_def Validate_def)
  moreover have "list_all credential_ok creds"
    using L(2) [where 'r = unit] by (rule LoadCredentials_InrD)
  ultimately show ?thesis using L(3) by (simp add: config_tags_def)
qed

text \<open>A configuration file that loads, with the validator that checks the tags.\<close>

definition demo_config :: config where
  "demo_config = \<lparr>cfg_Target = \<lparr>tg_AuthAddress = ''10.0.0.1:1812'', tg_AcctAddress = ''10.0.0.1:1813'',
       tg_SharedSecret = ''s3cret''\<rparr>,
     cfg_CoaListener = \<lparr>cl_BindAddress = ''0.0.0.0:3799'', cl_SharedSecret = ''s3cret''\<rparr>,
     cfg_Subscribers = \<lparr>su_Count = 1, su_CredentialsFile = ''c.csv'', su_AuthMethodPapPct = 0,
       su_TypePppoePct = 0, su_IncludeAcctStart = False\<rparr>,
     cfg_Source = \<lparr>so_IPs = [''10.0.0.2''], so_PortRange = (0, 0)\<rparr>,
     cfg_NAS = \<lparr>nas_IPAddress = ''10.0.0.2'', nas_Identifier = ''nas'', nas_Huawei = Map.empty\<rparr>,
     cfg_Retransmit = \<lparr>rt_InitialTimeoutMs = 0, rt_MaxRetries = 0, rt_Backoff = [], rt_BackoffBaseMs = 0\<rparr>,
     cfg_Scenario = \<lparr>sc_Type = ''pessimal'', sc_HardTimeoutSec = 0, sc_ColdStart = None, sc_Uniform = None,
       sc_Pessimal = None, sc_CoaStorm = False\<rparr>,
     cfg_Output = \<lparr>op_Directory = [], op_FlushIntervalSec = 0\<rparr>\<rparr>"

definition demo_open :: "string \<Rightarrow> goerr + csv_read list" where
  "demo_open path = Inr [Inr [''username'', ''password''], Inr [''alice'', ''a'']]"

definition demo_validator :: "unit struct_validator" where
  "demo_validator hostport file c = (if config_tags hostport file (\<lambda>_. True) c then None else Some ())"

theorem loaded_run_is_usable_witness:
  "\<exists>cfg. Load id demo_open (\<lambda>_. Inr []) (\<lambda>_. Inr (demo_config, \<lambda>_. False)) demo_validator (\<lambda>_. Some True) ''f.toml''
       = Inr (cfg, [row_credential id [''username'' \<mapsto> 0, ''password'' \<mapsto> 1] [''alice'', ''a'']])
     \<and> validateHostport (tg_AcctAddress (cfg_Target cfg))"
proof -
  have hp: "validateHostport ''10.0.0.1:1812''" "validateHostport ''10.0.0.1:1813''" "validateHostport ''0.0.0.0:3799''"
    by (simp_all add: validateHostport_def SplitHostPort_def last_index_def starts_with_def contains_char_def
        TrimSpace_def plain_char_def Atoi_def ascii_digit_def undigits_def digit_val_def Let_def)
  let ?cfg = "the (ApplyDefaultsWithMeta (Some demo_config) (Some (\<lambda>_. False)))"
  let ?creds = "[row_credential id [''username'' \<mapsto> 0, ''password'' \<mapsto> 1] [''alice'', ''a'']]"
  note defaults = ApplyDefaultsWithMeta_def default_subscribers_def default_retransmit_def
    default_scenario_def default_output_def default_source_def missing_def demo_config_def Let_def
  have tags: "config_tags validateHostport (validateFileExists (\<lambda>_. Some True)) (\<lambda>_. True) ?cfg"
    by (simp add: config_tags_def defaults hp validateFileExists_def)
  have only: "LoadConfigOnly (\<lambda>_. Inr []) (\<lambda>_. Inr (demo_config, \<lambda>_. False)) demo_validator (\<lambda>_. Some True) ''f.toml''
      = Inr ?cfg"
    by (simp add: LoadConfigOnly_def Validate_def demo_validator_def tags)
  have lower: "ToLower id ''username'' = ''username''" "ToLower id ''password'' = ''password''" by code_simp+
  have trims: "TrimSpace ''username'' = ''username''" "TrimSpace ''password'' = ''password''"
    "TrimSpace ''alice'' = ''alice''" "TrimSpace ''a'' = ''a''" by (simp_all add: TrimSpace_def plain_char_def)
  have idx: "indexHeader id [''username'', ''password''] = [''username'' \<mapsto> 0, ''password'' \<mapsto> 1]"
    by (simp add: indexHeader_def Let_def lower trims)
  have creds: "(LoadCredentials id demo_open ''c.csv'' :: unit load_error + credential list) = Inr ?creds"
    by (simp add: LoadCredentials_def demo_open_def idx colUsername_def colPassword_def Let_def isBlankRecord_def trims
        check_row_def row_credential_def field_def colAuthMethod_def colSubType_def ToLower_def is_ascii_def)
  have at: "su_CredentialsFile (cfg_Subscribers ?cfg) = ''c.csv''" "su_Count (cfg_Subscribers ?cfg) = 1"
    by (simp_all add: defaults)
  have loaded: "Load id demo_open (\<lambda>_. Inr []) (\<lambda>_. Inr (demo_config, \<lambda>_. False)) demo_validator (\<lambda>_. Some True) ''f.toml''
      = Inr (?cfg, ?creds)"
    by (simp add: Load_def only at creds)
  have sound: "validator_sound (\<lambda>_. True) demo_validator"
    by (simp add: validator_sound_def demo_validator_def)
  from loaded loaded_run_is_usable [OF sound loaded] show ?thesis by blast
qed

text \<open>Applying the defaults twice changes nothing more, and a file that defines every key keeps all
  of its values, zeros included.\<close>

lemma defaults_idempotent:
  "ApplyDefaultsWithMeta (ApplyDefaultsWithMeta cfg meta) meta = ApplyDefaultsWithMeta cfg meta
    \<and> ApplyDefaultsWithMeta cfg (Some (\<lambda>_. True)) = cfg"
proof
  have "default_subscribers m (default_subscribers m a) = default_subscribers m a" for m a
    by (cases a) (simp add: default_subscribers_def Let_def)
  moreover have "default_retransmit m (default_retransmit m b) = default_retransmit m b" for m b
    by (simp add: default_retransmit_fields)
  moreover have "default_scenario m (default_scenario m c) = default_scenario m c" for m c
    by (simp add: default_scenario_def)
  moreover have "default_output m (default_output m d) = default_output m d" for m d
    by (cases d) (simp add: default_output_def Let_def)
  moreover have "default_source m (default_source m e) = default_source m e" for m e
    by (simp add: default_source_def)
  ultimately show "ApplyDefaultsWithMeta (ApplyDefaultsWithMeta cfg meta) meta = ApplyDefaultsWithMeta cfg meta"
    by (cases cfg) (simp_all add: ApplyDefaultsWithMeta_def)
  show "ApplyDefaultsWithMeta cfg (Some (\<lambda>_. True)) = cfg"
    by (cases cfg) (simp_all add: ApplyDefaultsWithMeta_def missing_def default_subscribers_def default_retransmit_def
        default_scenario_def default_output_def default_source_def)
qed

end
