(* ===== verification/Subscriber.thy ===== *)
theory Subscriber
  imports Config_Load Io_Sender Radius_Constructors
begin

text \<open>
  The virtual subscriber (\<^verbatim>\<open>pkg/subscriber/state.go\<close>, \<^verbatim>\<open>subscriber.go\<close>): states, the
  policy derived from the configuration, construction with its session identity, the two
  requests it builds, the inbound callbacks and the termination step with its outcome
  record. A zero \<^verbatim>\<open>time.Time\<close> is \<open>None\<close>, other times are nanosecond readings.
\<close>

section \<open>States\<close>

datatype sub_state = StateIdle | StateAuthSent | StateAuthRetry | StateAuthFailed | StateAcctSent
  | StateAcctRetry | StateAcctFailed | StateEstablished | StateTerminated

fun state_label :: "sub_state \<Rightarrow> string" where
  "state_label StateIdle = ''idle''"
| "state_label StateAuthSent = ''auth_sent''"
| "state_label StateAuthRetry = ''auth_retry''"
| "state_label StateAuthFailed = ''auth_failed''"
| "state_label StateAcctSent = ''acct_sent''"
| "state_label StateAcctRetry = ''acct_retry''"
| "state_label StateAcctFailed = ''acct_failed''"
| "state_label StateEstablished = ''established''"
| "state_label StateTerminated = ''terminated''"

fun IsTerminal :: "sub_state \<Rightarrow> bool" where
  "IsTerminal StateAuthFailed = True"
| "IsTerminal StateAcctFailed = True"
| "IsTerminal StateEstablished = True"
| "IsTerminal StateTerminated = True"
| "IsTerminal _ = False"

fun IsFailure :: "sub_state \<Rightarrow> bool" where
  "IsFailure StateAuthFailed = True"
| "IsFailure StateAcctFailed = True"
| "IsFailure _ = False"

section \<open>The retransmit policy\<close>

definition PolicyFromConfig :: "int \<Rightarrow> int \<Rightarrow> string \<Rightarrow> int \<Rightarrow> retransmit_policy" where
  "PolicyFromConfig initialTimeoutMs maxRetries back backoffBaseMs =
     (let p0 = \<lparr>InitialTimeout = wrap64 (initialTimeoutMs * millisecond_ns), MaxRetries = maxRetries,
                PolicyBackoff = (if back = ''linear'' then BackoffLinear
                  else if back = ''constant'' \<or> back = ''fixed'' then BackoffConstant
                  else BackoffExponential),
                BackoffBase = wrap64 (backoffBaseMs * millisecond_ns)\<rparr>;
          p1 = (if InitialTimeout p0 \<le> 0 then p0\<lparr>InitialTimeout := 5 * second_ns\<rparr> else p0);
          p2 = (if MaxRetries p1 \<le> 0 then p1\<lparr>MaxRetries := 3\<rparr> else p1)
      in if BackoffBase p2 \<le> 0 then p2\<lparr>BackoffBase := 1 * second_ns\<rparr> else p2)"

definition policy_of :: "config \<Rightarrow> retransmit_policy" where
  "policy_of cfg = PolicyFromConfig (rt_InitialTimeoutMs (cfg_Retransmit cfg)) (rt_MaxRetries (cfg_Retransmit cfg))
     (rt_Backoff (cfg_Retransmit cfg)) (rt_BackoffBaseMs (cfg_Retransmit cfg))"

section \<open>The subscriber\<close>

text \<open>\<open>sb_deps\<close> is the start time of the run whose dependencies were stored, once they are;
  \<^verbatim>\<open>Run\<close> stores them only with a collector.\<close>

record subscriber =
  sb_id :: u32
  sb_credential :: credential
  sb_authMethod :: string
  sb_subType :: string
  sb_nasPort :: u32
  sb_sessionID :: string
  sb_framedIP :: bytes
  sb_callingStaID :: string
  sb_nasPortID :: string
  sb_state :: sub_state
  sb_activatedAt :: "int option"
  sb_establishedAt :: "int option"
  sb_disconnectedAt :: "int option"
  sb_authRetransmits :: int
  sb_acctRetransmits :: int
  sb_coaCount :: int
  sb_failureReason :: string
  sb_deps :: "int option option"

definition pickAuthMethod :: "credential \<Rightarrow> config option \<Rightarrow> string" where
  "pickAuthMethod cred cfg =
     (if cr_AuthMethod cred \<noteq> [] then cr_AuthMethod cred
      else case cfg of
        None \<Rightarrow> AuthMethodPAP
      | Some c \<Rightarrow> if su_AuthMethodPapPct (cfg_Subscribers c) \<ge> 100 then AuthMethodPAP
                 else if su_AuthMethodPapPct (cfg_Subscribers c) \<le> 0 then AuthMethodCHAP
                 else AuthMethodPAP)"

definition pickSubType :: "credential \<Rightarrow> config option \<Rightarrow> string" where
  "pickSubType cred cfg =
     (if cr_SubType cred \<noteq> [] then cr_SubType cred
      else case cfg of
        None \<Rightarrow> SubTypePPPoE
      | Some c \<Rightarrow> if su_TypePppoePct (cfg_Subscribers c) \<ge> 100 then SubTypePPPoE
                 else if su_TypePppoePct (cfg_Subscribers c) \<le> 0 then SubTypeMAC
                 else SubTypePPPoE)"

definition session_id :: "u32 \<Rightarrow> string" where
  "session_id i = ''radstorm-'' @ hex_pad 8 (unat i)"

definition framed_ip :: "u32 \<Rightarrow> bytes" where
  "framed_ip i = [10, ucast (drop_bit 16 i), ucast (drop_bit 8 i), ucast i]"

definition NewSubscriber :: "u32 \<Rightarrow> credential \<Rightarrow> config option \<Rightarrow> subscriber" where
  "NewSubscriber i cred cfg =
     \<lparr>sb_id = i, sb_credential = cred, sb_authMethod = pickAuthMethod cred cfg,
      sb_subType = pickSubType cred cfg, sb_nasPort = i, sb_sessionID = session_id i,
      sb_framedIP = framed_ip i,
      sb_callingStaID = (if cr_MACAddress cred \<noteq> [] then cr_MACAddress cred
        else ''02:72:73:'' @ hex_pad 2 (unat (put32 i ! 1)) @ '':'' @ hex_pad 2 (unat (put32 i ! 2))
             @ '':'' @ hex_pad 2 (unat (put32 i ! 3))),
      sb_nasPortID = (if cr_NASPortID cred \<noteq> [] then cr_NASPortID cred else ''0/0/'' @ dec (unat i)),
      sb_state = StateIdle, sb_activatedAt = None, sb_establishedAt = None, sb_disconnectedAt = None,
      sb_authRetransmits = 0, sb_acctRetransmits = 0, sb_coaCount = 0, sb_failureReason = [],
      sb_deps = None\<rparr>"

section \<open>The requests\<close>

text \<open>A build closure gets the randomness of its call; a nil IP has no \<^verbatim>\<open>To4\<close>.\<close>

record build_rnd =
  br_auth :: "bytes res"
  br_id :: "byte res"
  br_chal :: "bytes res"

type_synonym builder = "build_rnd \<Rightarrow> byte \<Rightarrow> packet option res"

definition nas_ip_attr :: "config \<Rightarrow> attribute list" where
  "nas_ip_attr cfg = (case Option.bind (ParseIP (nas_IPAddress (cfg_NAS cfg))) to4 of
       None \<Rightarrow> [] | Some ip \<Rightarrow> [\<lparr>AType = AttrNASIPAddress, AValue = ip\<rparr>])"

definition nas_port_type :: "subscriber \<Rightarrow> u32" where
  "nas_port_type s = (if sb_subType s = SubTypeMAC then NASPortTypeEthernet else NASPortTypeVirtual)"

definition access_extras :: "config \<Rightarrow> subscriber \<Rightarrow> attribute list" where
  "access_extras cfg s =
     nas_ip_attr cfg
     @ [\<lparr>AType = AttrNASPort, AValue = put32 (sb_nasPort s)\<rparr>]
     @ (if sb_subType s = SubTypePPPoE
        then [\<lparr>AType = AttrServiceType, AValue = put32 ServiceTypeFramed\<rparr>,
              \<lparr>AType = AttrFramedProtocol, AValue = put32 FramedProtocolPPP\<rparr>] else [])
     @ [\<lparr>AType = AttrCallingStationID, AValue = bytes_of (sb_callingStaID s)\<rparr>,
        \<lparr>AType = AttrNASIdentifier, AValue = bytes_of (nas_Identifier (cfg_NAS cfg))\<rparr>,
        \<lparr>AType = AttrNASPortType, AValue = put32 (nas_port_type s)\<rparr>,
        \<lparr>AType = AttrNASPortID, AValue = bytes_of (sb_nasPortID s)\<rparr>]"

definition buildAccessRequest :: "config \<Rightarrow> subscriber \<Rightarrow> builder" where
  "buildAccessRequest cfg s rnd i =
     map_sum id Some
       (let secret = bytes_of (tg_SharedSecret (cfg_Target cfg));
            username = cr_Username (sb_credential s); password = cr_Password (sb_credential s) in
        if sb_authMethod s = AuthMethodCHAP
        then NewAccessRequestCHAP (br_auth rnd) (br_id rnd) (br_chal rnd) i secret username password (access_extras cfg s)
        else NewAccessRequestPAP (br_auth rnd) i secret username password (access_extras cfg s))"

definition accounting_extras :: "config \<Rightarrow> subscriber \<Rightarrow> attribute list" where
  "accounting_extras cfg s =
     [\<lparr>AType = AttrUserName, AValue = bytes_of (cr_Username (sb_credential s))\<rparr>]
     @ nas_ip_attr cfg
     @ [\<lparr>AType = AttrNASPort, AValue = put32 (sb_nasPort s)\<rparr>,
        \<lparr>AType = AttrFramedIPAddress, AValue = sb_framedIP s\<rparr>,
        \<lparr>AType = AttrCallingStationID, AValue = bytes_of (sb_callingStaID s)\<rparr>,
        \<lparr>AType = AttrNASIdentifier, AValue = bytes_of (nas_Identifier (cfg_NAS cfg))\<rparr>,
        \<lparr>AType = AttrAcctSessionID, AValue = bytes_of (sb_sessionID s)\<rparr>,
        \<lparr>AType = AttrAcctAuthentic, AValue = put32 AcctAuthenticRADIUS\<rparr>,
        \<lparr>AType = AttrNASPortType, AValue = put32 (nas_port_type s)\<rparr>,
        \<lparr>AType = AttrNASPortID, AValue = bytes_of (sb_nasPortID s)\<rparr>]"

definition buildAccountingStart :: "config \<Rightarrow> subscriber \<Rightarrow> builder" where
  "buildAccountingStart cfg s rnd i =
     map_sum id Some (NewAccountingRequestStart i (bytes_of (tg_SharedSecret (cfg_Target cfg)))
       (accounting_extras cfg s))"

section \<open>Offsets\<close>

definition sub_offsetMs :: "int option \<Rightarrow> int \<Rightarrow> int" where
  "sub_offsetMs T0 now = (case T0 of None \<Rightarrow> 0 | Some t0 \<Rightarrow> milliseconds (time_sub now t0))"

definition toOffsetMs :: "int option \<Rightarrow> int option \<Rightarrow> int" where
  "toOffsetMs T0 t = (case (t, T0) of (Some t, Some t0) \<Rightarrow> milliseconds (time_sub t t0) | _ \<Rightarrow> NotApplicableMs)"

section \<open>The collector's sink and the outcome record\<close>

record sink =
  sk_events :: "event list"
  sk_outcomes :: "outcome list"

definition emit :: "clock \<Rightarrow> (stamp \<Rightarrow> event) \<Rightarrow> sink \<Rightarrow> sink" where
  "emit clk mk k = k\<lparr>sk_events := submit clk mk (sk_events k)\<rparr>"

definition record_outcome :: "outcome \<Rightarrow> sink \<Rightarrow> sink" where
  "record_outcome oc k = k\<lparr>sk_outcomes := sk_outcomes k @ [oc]\<rparr>"

definition buildOutcome :: "int option \<Rightarrow> subscriber \<Rightarrow> sub_state \<Rightarrow> string \<Rightarrow> outcome" where
  "buildOutcome T0 s terminal failureReason =
     (let out = \<lparr>OcSubscriberID = sb_id s, OcUsername = cr_Username (sb_credential s),
            OcAuthMethod = sb_authMethod s, OcSubType = sb_subType s, OcFinalState = state_label terminal,
            OcActivatedAtOffsetMs = toOffsetMs T0 (sb_activatedAt s),
            OcEstablishedAtOffsetMs = NotApplicableMs, OcEstablishmentLatencyMs = NotApplicableMs,
            OcAuthRetransmits = sb_authRetransmits s, OcAcctRetransmits = sb_acctRetransmits s,
            OcCoaReceivedCount = sb_coaCount s, OcDisconnectReceivedAt = NotApplicableMs,
            OcFailureReason = failureReason\<rparr>;
          out1 = (case sb_establishedAt s of
            None \<Rightarrow> out
          | Some est \<Rightarrow>
             (let o1 = out\<lparr>OcEstablishedAtOffsetMs := toOffsetMs T0 (Some est)\<rparr> in
              case sb_activatedAt s of
                None \<Rightarrow> o1
              | Some act \<Rightarrow> o1\<lparr>OcEstablishmentLatencyMs := milliseconds (time_sub est act)\<rparr>));
          out2 = (case sb_disconnectedAt s of
            None \<Rightarrow> out1 | Some d \<Rightarrow> out1\<lparr>OcDisconnectReceivedAt := toOffsetMs T0 (Some d)\<rparr>)
      in if terminal = StateEstablished \<and> failureReason = [] then out2\<lparr>OcFailureReason := []\<rparr> else out2)"

section \<open>Transitions and callbacks\<close>

definition sub_transition :: "clock \<Rightarrow> int option \<Rightarrow> sub_state \<Rightarrow> string \<Rightarrow> subscriber \<times> sink \<Rightarrow> subscriber \<times> sink" where
  "sub_transition clk T0 next reason = (\<lambda>(s, k).
     if sb_state s = next then (s, k)
     else (s\<lparr>sb_state := next\<rparr>,
           emit clk (\<lambda>st. let ev = NewStateChanged st (sb_id s) (sub_offsetMs T0 (st_now st)) (state_label next) in
             if reason \<noteq> [] then ev\<lparr>EvErrorMessage := reason\<rparr> else ev) k))"

text \<open>\<open>estNow\<close> is the reading taken when the session becomes established.\<close>

definition terminate :: "clock \<Rightarrow> int option \<Rightarrow> int \<Rightarrow> sub_state \<Rightarrow> string \<Rightarrow> subscriber \<times> sink \<Rightarrow> subscriber \<times> sink" where
  "terminate clk T0 estNow terminal failureReason = (\<lambda>(s, k).
     let prevState = sb_state s;
         s1 = s\<lparr>sb_state := terminal\<rparr>;
         s2 = (if terminal = StateEstablished then s1\<lparr>sb_establishedAt := Some estNow\<rparr> else s1);
         s3 = (if failureReason \<noteq> [] then s2\<lparr>sb_failureReason := failureReason\<rparr> else s2);
         k1 = (if prevState \<noteq> terminal
               then emit clk (\<lambda>st. NewStateChanged st (sb_id s) (sub_offsetMs T0 (st_now st)) (state_label terminal)) k
               else k);
         k2 = emit clk (\<lambda>st. NewTerminal st (sb_id s) (sub_offsetMs T0 (st_now st)) (state_label terminal)) k1
     in (s3, record_outcome (buildOutcome T0 s3 terminal failureReason) k2))"

definition packet_id :: "packet option \<Rightarrow> int" where
  "packet_id p = (case p of None \<Rightarrow> NoIdentifier | Some p \<Rightarrow> uint (Identifier p))"

definition OnCoA :: "clock \<Rightarrow> packet option \<Rightarrow> subscriber \<times> sink \<Rightarrow> subscriber \<times> sink" where
  "OnCoA clk p = (\<lambda>(s, k).
     let s1 = s\<lparr>sb_coaCount := i32 (sb_coaCount s + 1)\<rparr> in
     case sb_deps s of
       None \<Rightarrow> (s1, k)
     | Some T0 \<Rightarrow> (s1, emit clk (\<lambda>st. NewCoAEvent st (sb_id s) (sub_offsetMs T0 (st_now st))
         EventTypeCoAReceived (packet_id p) [] [] 0 0 0) k))"

text \<open>\<open>dnow\<close> is the reading for the disconnect time; the state event repeats the offset of the
  disconnect event.\<close>

definition OnDisconnect :: "clock \<Rightarrow> int \<Rightarrow> packet option \<Rightarrow> subscriber \<times> sink \<Rightarrow> subscriber \<times> sink" where
  "OnDisconnect clk dnow p = (\<lambda>(s, k).
     case sb_deps s of
       None \<Rightarrow> (s, k)
     | Some T0 \<Rightarrow>
         if sb_state s = StateTerminated then (s, k)
         else
           (let s1 = s\<lparr>sb_state := StateTerminated, sb_disconnectedAt := Some dnow\<rparr>;
                off = sub_offsetMs T0 (st_now (clk (length (sk_events k))));
                k1 = emit clk (\<lambda>st. NewDisconnectEvent st (sb_id s) off EventTypeDisconnectReceived
                       (packet_id p) [] [] 0 0 0) k;
                k2 = emit clk (\<lambda>st. NewStateChanged st (sb_id s) off (state_label StateTerminated)) k1
            in (s1, record_outcome (buildOutcome T0 s1 StateTerminated ''Disconnect-Request received'') k2)))"

end
