(* ===== verification/Subscriber_Run.thy ===== *)
theory Subscriber_Run
  imports Subscriber
begin

text \<open>
  The life of a subscriber (\<^verbatim>\<open>Subscriber.Run\<close>). The sender is a parameter: it takes a
  world, a destination, the build closure, a policy and the subscriber, and returns the two
  results of the Go method (a pointer and an error, either of which may be nil), or \<open>None\<close> when
  it panics. The callbacks the server listener makes while a send is under way are
  arguments of the run.
\<close>

section \<open>The sender\<close>

record send_reply =
  fr_Reply :: "packet option"
  fr_LatencyUs :: int
  fr_RetransmitN :: int
  fr_LocalAddr :: net_addr

type_synonym send_ret = "send_reply option \<times> goerr option"

type_synonym 'w sender = "'w \<Rightarrow> net_addr \<Rightarrow> builder \<Rightarrow> retransmit_policy \<Rightarrow> u32 \<Rightarrow> 'w \<times> send_ret option"

text \<open>The dependencies; absent fields are nil, \<open>dp_Collector\<close> says whether there is a collector.\<close>

record 'w deps =
  dp_Sender :: "'w sender option"
  dp_Collector :: bool
  dp_Config :: "config option"
  dp_AuthDst :: net_addr
  dp_AcctDst :: net_addr
  dp_T0 :: "int option"

section \<open>Helpers\<close>

fun addrString :: "net_addr \<Rightarrow> string" where
  "addrString NilAddr = []"
| "addrString (UDPAddr u) = udp_addr_string u"
| "addrString (NamedAddr s) = s"

fun has_timeout :: "string \<Rightarrow> bool" where
  "has_timeout [] = False"
| "has_timeout (c # cs) = (take 7 (c # cs) = ''timeout'' \<or> has_timeout cs)"

definition isFinalTimeoutErr :: "goerr option \<Rightarrow> bool" where
  "isFinalTimeoutErr err = (case err of
       None \<Rightarrow> False
     | Some e \<Rightarrow> if err_is e ErrFinalTimeout then True else has_timeout (err_msg e))"

definition recordAuthRetransmits :: "send_reply option \<Rightarrow> subscriber \<Rightarrow> subscriber" where
  "recordAuthRetransmits res s = (case res of
       None \<Rightarrow> s | Some r \<Rightarrow> s\<lparr>sb_authRetransmits := i32 (fr_RetransmitN r)\<rparr>)"

definition recordAcctRetransmits :: "send_reply option \<Rightarrow> subscriber \<Rightarrow> subscriber" where
  "recordAcctRetransmits res s = (case res of
       None \<Rightarrow> s | Some r \<Rightarrow> s\<lparr>sb_acctRetransmits := i32 (fr_RetransmitN r)\<rparr>)"

text \<open>\<open>rnd\<close> is the randomness re-encoding the reply may ask for.\<close>

definition emitReplyEvent :: "clock \<Rightarrow> bytes res \<Rightarrow> int option \<Rightarrow> send_reply option \<Rightarrow> net_addr \<Rightarrow> string \<Rightarrow>
    subscriber \<times> sink \<Rightarrow> subscriber \<times> sink" where
  "emitReplyEvent clk rnd T0 res dst currentState = (\<lambda>(s, k).
     case res of
       None \<Rightarrow> (s, k)
     | Some r \<Rightarrow>
        (case fr_Reply r of
           None \<Rightarrow> (s, k)
         | Some reply \<Rightarrow>
             (let nbytes = (case snd (Encode reply rnd) of Inl _ \<Rightarrow> 0 | Inr wire \<Rightarrow> int (length wire)) in
              (s, emit clk (\<lambda>st. NewReplyReceived st (sb_id s) (sub_offsetMs T0 (st_now st)) currentState
                    (sint (Code reply)) (uint (Identifier reply)) (addrString (fr_LocalAddr r)) (addrString dst)
                    nbytes (fr_LatencyUs r)) k))))"

datatype callback = CbCoA "packet option" | CbDisconnect int "packet option"

fun run_callback :: "clock \<Rightarrow> callback \<Rightarrow> subscriber \<times> sink \<Rightarrow> subscriber \<times> sink" where
  "run_callback clk (CbCoA p) x = OnCoA clk p x"
| "run_callback clk (CbDisconnect now p) x = OnDisconnect clk now p x"

section \<open>The phases\<close>

text \<open>
  What the code draws from one send: how the run ends (\<open>Inl\<close> the terminal state and the
  reason), or that it goes on. \<open>exhausted\<close> tells the phase from the other.
\<close>

definition auth_verdict :: "clock \<Rightarrow> bytes res \<Rightarrow> int option \<Rightarrow> retransmit_policy \<Rightarrow> net_addr \<Rightarrow> send_ret \<Rightarrow>
    subscriber \<times> sink \<Rightarrow> (subscriber \<times> sink) \<times> (sub_state \<times> string) option" where
  "auth_verdict clk rnd T0 policy dst ret = (\<lambda>(s, k).
     let (res, err) = ret; s1 = recordAuthRetransmits res s in
     if err \<noteq> None \<or> res = None then
       (let reason = (case err of None \<Rightarrow> ''auth send error'' | Some e \<Rightarrow> err_msg e);
            s2 = (if res = None \<and> err \<noteq> None \<and> isFinalTimeoutErr err
                  then s1\<lparr>sb_authRetransmits := i32 (MaxRetries policy)\<rparr> else s1)
        in ((s2, k), Some (StateAuthFailed, reason)))
     else
       (case fr_Reply (the res) of
          None \<Rightarrow> ((s1, k), Some (StateAuthFailed, ''auth: nil reply''))
        | Some reply \<Rightarrow>
            (let x = emitReplyEvent clk rnd T0 res dst (state_label StateAuthSent) (s1, k) in
             if Code reply = CodeAccessAccept then (x, None)
             else if Code reply = CodeAccessReject then (x, Some (StateAuthFailed, ''Access-Reject''))
             else (x, Some (StateAuthFailed, ''unexpected auth reply code '' @ dec (unat (Code reply)))))))"

definition acct_verdict :: "clock \<Rightarrow> bytes res \<Rightarrow> int option \<Rightarrow> retransmit_policy \<Rightarrow> net_addr \<Rightarrow> send_ret \<Rightarrow>
    subscriber \<times> sink \<Rightarrow> (subscriber \<times> sink) \<times> (sub_state \<times> string)" where
  "acct_verdict clk rnd T0 policy dst ret = (\<lambda>(s, k).
     let (res, err) = ret; s1 = recordAcctRetransmits res s in
     if err \<noteq> None \<or> res = None then
       (let reason = (case err of None \<Rightarrow> ''acct send error'' | Some e \<Rightarrow> err_msg e);
            s2 = (if res = None \<and> err \<noteq> None \<and> isFinalTimeoutErr err
                  then s1\<lparr>sb_acctRetransmits := i32 (MaxRetries policy)\<rparr> else s1)
        in ((s2, k), (StateAcctFailed, reason)))
     else
       (case fr_Reply (the res) of
          None \<Rightarrow> ((s1, k), (StateAcctFailed, ''acct: nil reply''))
        | Some reply \<Rightarrow>
            (let x = emitReplyEvent clk rnd T0 res dst (state_label StateAcctSent) (s1, k) in
             if Code reply \<noteq> CodeAccountingResponse
             then (x, (StateAcctFailed, ''unexpected acct reply code '' @ dec (unat (Code reply))))
             else (x, (StateEstablished, [])))))"

text \<open>The guards and the resolution of the targets; \<open>resolve\<close> is \<^verbatim>\<open>ResolveUDPAddr\<close>.\<close>

definition run_checks :: "(string \<Rightarrow> udp_addr res) \<Rightarrow> 'w deps \<Rightarrow> ('w sender \<times> config \<times> net_addr \<times> net_addr) res" where
  "run_checks resolve deps =
     (case dp_Sender deps of None \<Rightarrow> Inl (Plain ''subscriber: Deps.Sender is nil'') | Some sendf \<Rightarrow>
      if \<not> dp_Collector deps then Inl (Plain ''subscriber: Deps.Collector is nil'') else
      (case dp_Config deps of None \<Rightarrow> Inl (Plain ''subscriber: Deps.Config is nil'') | Some cfg \<Rightarrow>
       (case (if dp_AuthDst deps = NilAddr
              then map_sum (\<lambda>e. Wrap ''resolve auth address: '' e '''') UDPAddr (resolve (tg_AuthAddress (cfg_Target cfg)))
              else Inr (dp_AuthDst deps)) of
          Inl err \<Rightarrow> Inl err
        | Inr authDst \<Rightarrow>
         (case (if dp_AcctDst deps = NilAddr \<and> su_IncludeAcctStart (cfg_Subscribers cfg)
                then map_sum (\<lambda>e. Wrap ''resolve acct address: '' e '''') UDPAddr (resolve (tg_AcctAddress (cfg_Target cfg)))
                else Inr (dp_AcctDst deps)) of
            Inl err \<Rightarrow> Inl err
          | Inr acctDst \<Rightarrow> Inr (sendf, cfg, authDst, acctDst)))))"

text \<open>Storing the dependencies, the activation, and the move to the first phase.\<close>

definition run_activate :: "clock \<Rightarrow> int option \<Rightarrow> subscriber \<times> sink \<Rightarrow> subscriber \<times> sink" where
  "run_activate clk T0 = (\<lambda>(s, k).
     let now = st_now (clk (length (sk_events k)));
         s1 = s\<lparr>sb_deps := Some T0, sb_activatedAt := Some now\<rparr>;
         k1 = emit clk (\<lambda>st. NewSubscriberActivated st (sb_id s) (sub_offsetMs T0 now) (state_label StateIdle)) k
     in sub_transition clk T0 StateAuthSent [] (s1, k1))"

text \<open>\<open>cbs\<close> and \<open>cbs'\<close> are the callbacks during the two sends.\<close>

definition Run :: "clock \<Rightarrow> (string \<Rightarrow> udp_addr res) \<Rightarrow> bytes res \<Rightarrow> int \<Rightarrow> 'w deps \<Rightarrow> callback list \<Rightarrow> callback list \<Rightarrow>
    'w \<Rightarrow> subscriber \<Rightarrow> sink \<Rightarrow> ('w \<times> (subscriber \<times> sink) \<times> sub_state \<times> goerr option) option" where
  "Run clk resolve rnd estNow deps cbs cbs' w s k =
     (case run_checks resolve deps of
        Inl err \<Rightarrow> Some (w, (s, k), StateIdle, Some err)
      | Inr (sendf, cfg, authDst, acctDst) \<Rightarrow>
        (let T0 = dp_T0 deps; policy = policy_of cfg;
             x1 = run_activate clk T0 (s, k);
             (w1, ret) = sendf w authDst (buildAccessRequest cfg s) policy (sb_id s);
             x2 = fold (run_callback clk) cbs x1
         in case ret of
           None \<Rightarrow> None
         | Some ret \<Rightarrow>
           (case auth_verdict clk rnd T0 policy authDst ret x2 of
              (x3, Some (st, reason)) \<Rightarrow> Some (w1, terminate clk T0 estNow st reason x3, st, None)
            | (x3, None) \<Rightarrow>
              if \<not> su_IncludeAcctStart (cfg_Subscribers cfg)
              then Some (w1, terminate clk T0 estNow StateEstablished [] x3, StateEstablished, None)
              else
                (let x4 = sub_transition clk T0 StateAcctSent [] x3;
                     (w2, ret') = sendf w1 acctDst (buildAccountingStart cfg s) policy (sb_id s);
                     x5 = fold (run_callback clk) cbs' x4
                 in case ret' of
                   None \<Rightarrow> None
                 | Some ret' \<Rightarrow>
                   (case acct_verdict clk rnd T0 policy acctDst ret' x5 of
                      (x6, st, reason) \<Rightarrow> Some (w2, terminate clk T0 estNow st reason x6, st, None))))))"

end
