(* ===== verification/Subscriber_Life.thy ===== *)
theory Subscriber_Life
  imports Subscriber_Run
begin

text \<open>
  What a run does to the subscriber and the collector: the documented life cycle as a step
  relation, the trace of states a run emits, and the outcomes it and the callbacks submit.
\<close>

section \<open>The documented life cycle\<close>

text \<open>The diagram in \<^verbatim>\<open>state.go\<close>; a retry state is left the way the state it retries is.\<close>

inductive lifecycle :: "sub_state \<Rightarrow> sub_state \<Rightarrow> bool" where
  activate: "lifecycle StateIdle StateAuthSent"
| auth_retry: "lifecycle StateAuthSent StateAuthRetry"
| auth_resent: "lifecycle StateAuthRetry StateAuthSent"
| auth_failed: "lifecycle StateAuthSent StateAuthFailed"
| accepted: "lifecycle StateAuthSent StateAcctSent"
| accepted_directly: "lifecycle StateAuthSent StateEstablished"
| acct_retry: "lifecycle StateAcctSent StateAcctRetry"
| acct_resent: "lifecycle StateAcctRetry StateAcctSent"
| acct_failed: "lifecycle StateAcctSent StateAcctFailed"
| established: "lifecycle StateAcctSent StateEstablished"
| disconnected: "lifecycle StateEstablished StateTerminated"

code_pred (modes: i \<Rightarrow> i \<Rightarrow> bool) lifecycle .

inductive_simps lifecycle_from [simp]:
  "lifecycle StateIdle s" "lifecycle StateAuthSent s" "lifecycle StateAcctSent s"
  "lifecycle StateEstablished s" "lifecycle StateTerminated s" "lifecycle StateAuthFailed s"
  "lifecycle StateAcctFailed s"

fun path :: "sub_state \<Rightarrow> sub_state list \<Rightarrow> bool" where
  "path s [] = True"
| "path s (t # ts) = (lifecycle s t \<and> path t ts)"

definition state_trace :: "event list \<Rightarrow> string list" where
  "state_trace evs = map EvState (filter (\<lambda>e. EvEventType e = EventTypeStateChanged) evs)"

definition terminals :: "event list \<Rightarrow> string list" where
  "terminals evs = map EvState (filter (\<lambda>e. EvEventType e = EventTypeSubscriberTerminal) evs)"

lemma state_label_inj [simp]: "state_label s = state_label t \<longleftrightarrow> s = t"
  by (cases s; cases t) simp_all

lemma trace_append: "state_trace (a @ b) = state_trace a @ state_trace b" "terminals (a @ b) = terminals a @ terminals b"
  by (simp_all add: state_trace_def terminals_def)

lemma trace_emit:
  "sk_events (emit clk mk k) = sk_events k @ [mk (clk (length (sk_events k)))]"
  "sk_outcomes (emit clk mk k) = sk_outcomes k"
  "sk_events (record_outcome oc k) = sk_events k"
  "sk_outcomes (record_outcome oc k) = sk_outcomes k @ [oc]"
  by (simp_all add: emit_def record_outcome_def submit_def)

lemma trace_Cons:
  "state_trace (e # es) = (if EvEventType e = EventTypeStateChanged then [EvState e] else []) @ state_trace es"
  "terminals (e # es) = (if EvEventType e = EventTypeSubscriberTerminal then [EvState e] else []) @ terminals es"
  "state_trace [] = []" "terminals [] = []"
  by (simp_all add: state_trace_def terminals_def)

lemma event_message [ev_simps]:
  "EvEventType (e\<lparr>EvErrorMessage := m\<rparr>) = EvEventType e" "EvState (e\<lparr>EvErrorMessage := m\<rparr>) = EvState e"
  by simp_all

lemmas sink_simps = trace_append trace_emit trace_Cons ev_simps Let_def

section \<open>What each step does\<close>

text \<open>The part of the subscriber no step changes after the dependencies are stored.\<close>

definition same_sub :: "subscriber \<Rightarrow> subscriber \<Rightarrow> bool" where
  "same_sub s s' \<longleftrightarrow> sb_id s' = sb_id s \<and> sb_credential s' = sb_credential s \<and> sb_authMethod s' = sb_authMethod s
     \<and> sb_subType s' = sb_subType s \<and> sb_sessionID s' = sb_sessionID s \<and> sb_framedIP s' = sb_framedIP s
     \<and> sb_deps s' = sb_deps s"

lemma same_sub_refl [simp]: "same_sub s s"
  by (simp add: same_sub_def)

lemma same_sub_trans: "same_sub a b \<Longrightarrow> same_sub b c \<Longrightarrow> same_sub a c"
  by (simp add: same_sub_def)

text \<open>\<open>adds ts us os\<close>: the states, terminal states and outcomes a step adds.\<close>

definition adds :: "sink \<Rightarrow> sink \<Rightarrow> string list \<Rightarrow> string list \<Rightarrow> outcome list \<Rightarrow> bool" where
  "adds k k' ts us os \<longleftrightarrow> state_trace (sk_events k') = state_trace (sk_events k) @ ts
     \<and> terminals (sk_events k') = terminals (sk_events k) @ us
     \<and> sk_outcomes k' = sk_outcomes k @ os"

lemma adds_refl: "adds k k [] [] []"
  by (simp add: adds_def)

lemma adds_trans: "adds k k1 ts us os \<Longrightarrow> adds k1 k2 ts' us' os' \<Longrightarrow> adds k k2 (ts @ ts') (us @ us') (os @ os')"
  by (simp add: adds_def)

lemma sub_transition_effect:
  assumes "sub_transition clk T0 next reason (s, k) = (s', k')"
  shows "same_sub s s' \<and> sb_state s' = next
    \<and> adds k k' (if sb_state s = next then [] else [state_label next]) [] []"
proof (cases "sb_state s = next")
  case False
  with assms show ?thesis
    by (cases "reason = []") (auto simp: sub_transition_def same_sub_def adds_def sink_simps)
qed (use assms in \<open>simp add: sub_transition_def adds_refl\<close>)

lemma terminate_effect:
  assumes "terminate clk T0 est t reason (s, k) = (s', k')"
  shows "same_sub s s' \<and> sb_state s' = t \<and> sb_activatedAt s' = sb_activatedAt s
    \<and> sb_establishedAt s' = (if t = StateEstablished then Some est else sb_establishedAt s)
    \<and> sb_authRetransmits s' = sb_authRetransmits s \<and> sb_acctRetransmits s' = sb_acctRetransmits s
    \<and> adds k k' (if sb_state s = t then [] else [state_label t]) [state_label t] [buildOutcome T0 s' t reason]"
  using assms
  by (cases "t = StateEstablished"; cases "reason = []"; cases "sb_state s = t")
    (auto simp: terminate_def same_sub_def adds_def sink_simps)

lemma OnCoA_effect:
  assumes "OnCoA clk p (s, k) = (s', k')"
  shows "same_sub s s' \<and> sb_state s' = sb_state s \<and> adds k k' [] [] []"
  using assms by (cases "sb_deps s") (auto simp: OnCoA_def same_sub_def adds_def sink_simps)

text \<open>A disconnect acts once: on a terminated subscriber it does nothing.\<close>

lemma OnDisconnect_effect:
  assumes "OnDisconnect clk now p (s, k) = (s', k')" "sb_deps s = Some T0"
  shows "same_sub s s' \<and> sb_state s' = StateTerminated
    \<and> (if sb_state s = StateTerminated then s' = s \<and> k' = k
       else adds k k' [''terminated''] [] [buildOutcome T0 s' StateTerminated ''Disconnect-Request received''])"
  using assms by (cases "sb_state s = StateTerminated")
    (auto simp: OnDisconnect_def same_sub_def adds_def sink_simps)

text \<open>A batch of callbacks: only the first disconnect leaves a trace.\<close>

fun is_coa :: "callback \<Rightarrow> bool" where
  "is_coa (CbCoA p) = True"
| "is_coa (CbDisconnect now p) = False"

lemma callbacks_effect:
  assumes "fold (run_callback clk) cbs (s, k) = (s', k')" "sb_deps s = Some T0"
  shows "same_sub s s' \<and>
    (if list_all is_coa cbs \<or> sb_state s = StateTerminated
     then sb_state s' = sb_state s \<and> adds k k' [] [] []
     else sb_state s' = StateTerminated
       \<and> (\<exists>oc. OcFinalState oc = ''terminated'' \<and> adds k k' [''terminated''] [] [oc]))"
  using assms
proof (induction cbs arbitrary: s k)
  case Nil
  then show ?case by (simp add: adds_refl)
next
  case (Cons cb cbs)
  obtain s1 k1 where c: "run_callback clk cb (s, k) = (s1, k1)" by fastforce
  with Cons.prems(1) have f: "fold (run_callback clk) cbs (s1, k1) = (s', k')" by simp
  show ?case
  proof (cases cb)
    case (CbCoA p)
    with OnCoA_effect [of clk p s k s1 k1] c have e: "same_sub s s1" "sb_state s1 = sb_state s" "adds k k1 [] [] []"
      by auto
    then have "sb_deps s1 = Some T0" using Cons.prems(2) by (simp add: same_sub_def)
    from Cons.IH [OF f this] e CbCoA show ?thesis
      using same_sub_trans [OF e(1)] adds_trans [OF e(3)] by (auto split: if_splits)
  next
    case (CbDisconnect now p)
    with OnDisconnect_effect [of clk now p s k s1 k1 T0] c Cons.prems(2)
    have e: "same_sub s s1" "sb_state s1 = StateTerminated" and
      d: "if sb_state s = StateTerminated then s1 = s \<and> k1 = k
        else adds k k1 [''terminated''] [] [buildOutcome T0 s1 StateTerminated ''Disconnect-Request received'']"
      by auto
    have "sb_deps s1 = Some T0" using Cons.prems(2) e(1) by (simp add: same_sub_def)
    from Cons.IH [OF f this] e(2) have r: "same_sub s1 s'" "sb_state s' = StateTerminated" "adds k1 k' [] [] []"
      by simp_all
    have fin: "OcFinalState (buildOutcome T0 x StateTerminated m) = ''terminated''" for x m
      by (auto simp: buildOutcome_def Let_def split: option.split)
    show ?thesis
    proof (cases "sb_state s = StateTerminated")
      case True
      with r d e same_sub_trans [OF e(1) r(1)] show ?thesis by auto
    next
      case False
      with d have "adds k k1 [''terminated''] [] [buildOutcome T0 s1 StateTerminated ''Disconnect-Request received'']"
        by simp
      from adds_trans [OF this r(3)] fin have "\<exists>oc. OcFinalState oc = ''terminated'' \<and> adds k k' [''terminated''] [] [oc]"
        by auto
      with False CbDisconnect r(2) same_sub_trans [OF e(1) r(1)] show ?thesis by auto
    qed
  qed
qed

lemma emitReplyEvent_effect:
  assumes "emitReplyEvent clk rnd T0 res dst st (s, k) = (s', k')"
  shows "s' = s \<and> adds k k' [] [] []"
  using assms
  by (cases res; cases "fr_Reply (the res)") (auto simp: emitReplyEvent_def adds_def sink_simps)

section \<open>The verdicts\<close>

definition replied :: "send_ret \<Rightarrow> code \<Rightarrow> bool" where
  "replied ret c \<longleftrightarrow> snd ret = None \<and> (case fst ret of None \<Rightarrow> False | Some r \<Rightarrow>
     (case fr_Reply r of None \<Rightarrow> False | Some p \<Rightarrow> Code p = c))"

lemma auth_verdict_effect:
  assumes "auth_verdict clk rnd T0 policy dst ret (s, k) = ((s', k'), v)"
  shows "same_sub s s' \<and> sb_state s' = sb_state s \<and> adds k k' [] [] []
    \<and> (v = None \<longleftrightarrow> replied ret CodeAccessAccept) \<and> (v \<noteq> None \<longrightarrow> fst (the v) = StateAuthFailed)"
proof -
  obtain res err where ret: "ret = (res, err)" by fastforce
  have rec: "same_sub s (recordAuthRetransmits res s)" "sb_state (recordAuthRetransmits res s) = sb_state s"
    by (cases res; simp add: recordAuthRetransmits_def same_sub_def)+
  show ?thesis
  proof (cases "err \<noteq> None \<or> res = None")
    case True
    with assms rec show ?thesis
      by (auto simp: auth_verdict_def ret Let_def replied_def same_sub_def adds_refl split: if_splits option.splits)
  next
    case False
    then obtain r where r: "err = None" "res = Some r" by auto
    show ?thesis
    proof (cases "fr_Reply r")
      case None
      with assms rec r show ?thesis
        by (auto simp: auth_verdict_def ret Let_def replied_def same_sub_def adds_refl)
    next
      case (Some p)
      obtain s1 k1 where e: "emitReplyEvent clk rnd T0 res dst (state_label StateAuthSent) (recordAuthRetransmits res s, k)
          = (s1, k1)" by fastforce
      with assms r Some have "(s', k') = (s1, k1)" "v = (if Code p = CodeAccessAccept then None
          else if Code p = CodeAccessReject then Some (StateAuthFailed, ''Access-Reject'')
          else Some (StateAuthFailed, ''unexpected auth reply code '' @ dec (unat (Code p))))"
        by (auto simp: auth_verdict_def ret Let_def split: if_splits)
      with emitReplyEvent_effect [OF e] rec r Some show ?thesis
        by (auto simp: replied_def ret)
    qed
  qed
qed

lemma acct_verdict_effect:
  assumes "acct_verdict clk rnd T0 policy dst ret (s, k) = ((s', k'), st, reason)"
  shows "same_sub s s' \<and> sb_state s' = sb_state s \<and> adds k k' [] [] []
    \<and> st = (if replied ret CodeAccountingResponse then StateEstablished else StateAcctFailed)"
proof -
  obtain res err where ret: "ret = (res, err)" by fastforce
  have rec: "same_sub s (recordAcctRetransmits res s)" "sb_state (recordAcctRetransmits res s) = sb_state s"
    by (cases res; simp add: recordAcctRetransmits_def same_sub_def)+
  show ?thesis
  proof (cases "err \<noteq> None \<or> res = None")
    case True
    with assms rec show ?thesis
      by (auto simp: acct_verdict_def ret Let_def replied_def same_sub_def adds_refl split: if_splits option.splits)
  next
    case False
    then obtain r where r: "err = None" "res = Some r" by auto
    show ?thesis
    proof (cases "fr_Reply r")
      case None
      with assms rec r show ?thesis
        by (auto simp: acct_verdict_def ret Let_def replied_def same_sub_def adds_refl)
    next
      case (Some p)
      obtain s1 k1 where e: "emitReplyEvent clk rnd T0 res dst (state_label StateAcctSent) (recordAcctRetransmits res s, k)
          = (s1, k1)" by fastforce
      with assms r Some have "(s', k') = (s1, k1)"
        "st = (if Code p = CodeAccountingResponse then StateEstablished else StateAcctFailed)"
        by (auto simp: acct_verdict_def ret Let_def split: if_splits)
      with emitReplyEvent_effect [OF e] rec r Some show ?thesis
        by (auto simp: replied_def ret)
    qed
  qed
qed

lemma run_activate_effect:
  assumes "run_activate clk T0 (s, k) = (s', k')" "sb_state s = StateIdle"
  shows "sb_deps s' = Some T0 \<and> sb_state s' = StateAuthSent \<and> sb_id s' = sb_id s
    \<and> sb_credential s' = sb_credential s \<and> adds k k' [''auth_sent''] [] []"
proof -
  define s1 where "s1 = s\<lparr>sb_deps := Some T0, sb_activatedAt := Some (st_now (clk (length (sk_events k))))\<rparr>"
  define k1 where "k1 = emit clk (\<lambda>st. NewSubscriberActivated st (sb_id s)
      (sub_offsetMs T0 (st_now (clk (length (sk_events k))))) (state_label StateIdle)) k"
  have "sub_transition clk T0 StateAuthSent [] (s1, k1) = (s', k')"
    using assms(1) by (simp add: run_activate_def s1_def k1_def Let_def)
  from sub_transition_effect [OF this] have "same_sub s1 s'" "sb_state s' = StateAuthSent"
      "adds k1 k' [''auth_sent''] [] []"
    using assms(2) by (simp_all add: s1_def)
  moreover have "adds k k1 [] [] []" by (simp add: k1_def adds_def sink_simps)
  ultimately show ?thesis
    using adds_trans [of k k1 "[]" "[]" "[]" k'] by (auto simp: same_sub_def s1_def)
qed

section \<open>The whole run\<close>

text \<open>The same counted by the labels of the outcomes.\<close>

definition labels :: "sink \<Rightarrow> sink \<Rightarrow> string list \<Rightarrow> string list \<Rightarrow> string list \<Rightarrow> bool" where
  "labels k k' ts us fs \<longleftrightarrow> state_trace (sk_events k') = state_trace (sk_events k) @ ts
     \<and> terminals (sk_events k') = terminals (sk_events k) @ us
     \<and> map OcFinalState (sk_outcomes k') = map OcFinalState (sk_outcomes k) @ fs"

lemma labels_of_adds: "adds k k' ts us os \<Longrightarrow> labels k k' ts us (map OcFinalState os)"
  by (simp add: adds_def labels_def)

lemma labels_trans: "labels k k1 ts us os \<Longrightarrow> labels k1 k2 ts' us' os' \<Longrightarrow> labels k k2 (ts @ ts') (us @ us') (os @ os')"
  by (simp add: labels_def)

definition dropped :: "callback list \<Rightarrow> string list" where
  "dropped cbs = (if list_all is_coa cbs then [] else [''terminated''])"

lemma callbacks_labels:
  assumes "fold (run_callback clk) cbs (s, k) = (s', k')" "sb_deps s = Some T0" "sb_state s \<noteq> StateTerminated"
  shows "sb_deps s' = Some T0 \<and> sb_state s' \<in> {sb_state s, StateTerminated}
    \<and> labels k k' (dropped cbs) [] (dropped cbs)"
  using callbacks_effect [OF assms(1,2)] assms(2,3)
  by (auto simp: dropped_def same_sub_def dest: labels_of_adds split: if_splits)

lemma final_state_outcome [simp]: "OcFinalState (buildOutcome T0 s t reason) = state_label t"
  by (auto simp: buildOutcome_def Let_def split: option.split)

lemma terminate_labels:
  assumes "terminate clk T0 est t reason (s, k) = (s', k')" "sb_state s \<noteq> t"
  shows "sb_state s' = t \<and> labels k k' [state_label t] [state_label t] [state_label t]"
  using terminate_effect [OF assms(1)] assms(2) by (auto dest: labels_of_adds)

text \<open>What happens up to the end of the first send, and of the second.\<close>

lemma first_phase:
  assumes "run_activate clk T0 (s, k) = x1" "sb_state s = StateIdle"
    "auth_verdict clk rnd T0 policy dst ret (fold (run_callback clk) cbs x1) = ((s3, k3), v)"
  shows "sb_deps s3 = Some T0 \<and> sb_state s3 \<in> {StateAuthSent, StateTerminated}
    \<and> (v = None \<longleftrightarrow> replied ret CodeAccessAccept) \<and> (v \<noteq> None \<longrightarrow> fst (the v) = StateAuthFailed)
    \<and> labels k k3 (''auth_sent'' # dropped cbs) [] (dropped cbs)"
proof -
  obtain s1 k1 where x1: "x1 = (s1, k1)" by fastforce
  obtain s2 k2 where x2: "fold (run_callback clk) cbs (s1, k1) = (s2, k2)" by fastforce
  from run_activate_effect [of clk T0 s k s1 k1] assms(1,2) x1
  have a: "sb_deps s1 = Some T0" "sb_state s1 = StateAuthSent" "labels k k1 [''auth_sent''] [] []"
    by (auto dest: labels_of_adds)
  from callbacks_labels [OF x2 a(1)] a(2)
  have b: "sb_deps s2 = Some T0" "sb_state s2 \<in> {StateAuthSent, StateTerminated}" "labels k1 k2 (dropped cbs) [] (dropped cbs)"
    by auto
  from auth_verdict_effect [of clk rnd T0 policy dst ret s2 k2 s3 k3 v] assms(3) x1 x2
  have c: "same_sub s2 s3" "sb_state s3 = sb_state s2" "labels k2 k3 [] [] []"
      "v = None \<longleftrightarrow> replied ret CodeAccessAccept" "v \<noteq> None \<longrightarrow> fst (the v) = StateAuthFailed"
    by (auto dest: labels_of_adds)
  with b labels_trans [OF labels_trans [OF a(3) b(3)] c(3)] show ?thesis
    by (simp add: same_sub_def)
qed

lemma second_phase:
  assumes "sub_transition clk T0 StateAcctSent [] (s3, k3) = x4" "sb_deps s3 = Some T0" "sb_state s3 \<noteq> StateAcctSent"
    "acct_verdict clk rnd T0 policy dst ret (fold (run_callback clk) cbs x4) = ((s6, k6), st, reason)"
  shows "sb_state s6 \<in> {StateAcctSent, StateTerminated}
    \<and> st = (if replied ret CodeAccountingResponse then StateEstablished else StateAcctFailed)
    \<and> labels k3 k6 (''acct_sent'' # dropped cbs) [] (dropped cbs)"
proof -
  obtain s4 k4 where x4: "x4 = (s4, k4)" by fastforce
  obtain s5 k5 where x5: "fold (run_callback clk) cbs (s4, k4) = (s5, k5)" by fastforce
  from sub_transition_effect [of clk T0 StateAcctSent "[]" s3 k3 s4 k4] assms(1-3) x4
  have a: "sb_deps s4 = Some T0" "sb_state s4 = StateAcctSent" "labels k3 k4 [''acct_sent''] [] []"
    by (auto simp: same_sub_def dest: labels_of_adds)
  from callbacks_labels [OF x5 a(1)] a(2)
  have b: "sb_state s5 \<in> {StateAcctSent, StateTerminated}" "labels k4 k5 (dropped cbs) [] (dropped cbs)"
    by auto
  from acct_verdict_effect [of clk rnd T0 policy dst ret s5 k5 s6 k6 st reason] assms(4) x4 x5
  have c: "sb_state s6 = sb_state s5" "labels k5 k6 [] [] []"
      "st = (if replied ret CodeAccountingResponse then StateEstablished else StateAcctFailed)"
    by (auto dest: labels_of_adds)
  with b labels_trans [OF labels_trans [OF a(3) b(2)] c(2)] show ?thesis
    by simp
qed

text \<open>The states a run goes through, from the two answers and the disconnects in between.\<close>

definition run_states :: "bool \<Rightarrow> bool \<Rightarrow> bool \<Rightarrow> string list \<Rightarrow> string list \<Rightarrow> string list" where
  "run_states accepted acct answered d d' =
     ''auth_sent'' # d @ (if \<not> accepted then [''auth_failed'']
       else if \<not> acct then [''established'']
       else ''acct_sent'' # d' @ [if answered then ''established'' else ''acct_failed''])"

definition run_outcomes :: "bool \<Rightarrow> bool \<Rightarrow> sub_state \<Rightarrow> string list \<Rightarrow> string list \<Rightarrow> string list" where
  "run_outcomes accepted acct st d d' = d @ (if accepted \<and> acct then d' else []) @ [state_label st]"

definition run_end :: "bool \<Rightarrow> bool \<Rightarrow> bool \<Rightarrow> sub_state" where
  "run_end accepted acct answered = (if \<not> accepted then StateAuthFailed
     else if acct \<and> \<not> answered then StateAcctFailed else StateEstablished)"

lemma run_effect:
  assumes run: "Run clk resolve rnd est deps cbs cbs' w s k = Some (w', (s', k'), st, err)"
    and ok: "run_checks resolve deps = Inr (sendf, cfg, authDst, acctDst)"
    and idle: "sb_state s = StateIdle"
  obtains w1 ret ret' where "sendf w authDst (buildAccessRequest cfg s) (policy_of cfg) (sb_id s) = (w1, Some ret)"
    "replied ret CodeAccessAccept \<and> su_IncludeAcctStart (cfg_Subscribers cfg) \<longrightarrow>
       sendf w1 acctDst (buildAccountingStart cfg s) (policy_of cfg) (sb_id s) = (w', Some ret')"
    "err = None" "sb_state s' = st"
    "st = run_end (replied ret CodeAccessAccept) (su_IncludeAcctStart (cfg_Subscribers cfg)) (replied ret' CodeAccountingResponse)"
    "labels k k' (run_states (replied ret CodeAccessAccept) (su_IncludeAcctStart (cfg_Subscribers cfg))
         (replied ret' CodeAccountingResponse) (dropped cbs) (dropped cbs')) [state_label st]
       (run_outcomes (replied ret CodeAccessAccept) (su_IncludeAcctStart (cfg_Subscribers cfg)) st (dropped cbs) (dropped cbs'))"
proof -
  let ?acct = "su_IncludeAcctStart (cfg_Subscribers cfg)"
  obtain x1 where x1: "run_activate clk (dp_T0 deps) (s, k) = x1" by simp
  obtain w1 r where send: "sendf w authDst (buildAccessRequest cfg s) (policy_of cfg) (sb_id s) = (w1, r)" by fastforce
  with run ok obtain ret where r: "r = Some ret"
    by (cases r) (simp_all add: Run_def Let_def)
  obtain s3 k3 v where v: "auth_verdict clk rnd (dp_T0 deps) (policy_of cfg) authDst ret (fold (run_callback clk) cbs x1)
      = ((s3, k3), v)" by (metis surj_pair)
  note p1 = first_phase [OF x1 idle v]
  have sts: "sb_state s3 \<noteq> StateAuthFailed" "sb_state s3 \<noteq> StateEstablished" "sb_state s3 \<noteq> StateAcctSent"
    using p1 by auto
  have lab1: "labels k k3 (''auth_sent'' # dropped cbs) [] (dropped cbs)" using p1 by blast
  show ?thesis
  proof (cases "v = None \<and> ?acct")
    case False
    define t where "t = (if v = None then StateEstablished else StateAuthFailed)"
    obtain reason where t: "terminate clk (dp_T0 deps) est t reason (s3, k3) = (s', k') \<and> st = t \<and> err = None"
      using run ok send r v x1 False p1
      by (cases v) (auto simp: Run_def Let_def t_def split: if_splits prod.splits)
    then have "sb_state s' = t" "labels k3 k' [state_label t] [state_label t] [state_label t]"
      using terminate_labels [of clk "dp_T0 deps" est t reason s3 k3 s' k'] sts by (auto simp: t_def)
    with labels_trans [OF lab1 this(2)] t p1 False that [OF send [unfolded r], of ret]
    show ?thesis by (auto simp: t_def run_end_def run_states_def run_outcomes_def split: if_splits)
  next
    case True
    obtain x4 where x4: "sub_transition clk (dp_T0 deps) StateAcctSent [] (s3, k3) = x4" by simp
    obtain w2 r' where send': "sendf w1 acctDst (buildAccountingStart cfg s) (policy_of cfg) (sb_id s) = (w2, r')" by fastforce
    with run ok send r v x1 x4 True obtain ret' where r': "r' = Some ret'"
      by (cases r') (simp_all add: Run_def Let_def)
    obtain s6 k6 t reason where v': "acct_verdict clk rnd (dp_T0 deps) (policy_of cfg) acctDst ret'
        (fold (run_callback clk) cbs' x4) = ((s6, k6), t, reason)" by (metis surj_pair)
    have t: "terminate clk (dp_T0 deps) est t reason (s6, k6) = (s', k')" "st = t" "err = None" "w' = w2"
      using run ok send r v x1 x4 send' r' v' True by (auto simp: Run_def Let_def)
    have "sb_deps s3 = Some (dp_T0 deps)" using p1 by blast
    note p2 = second_phase [OF x4 this sts(3) v']
    then have "sb_state s6 \<noteq> t" by auto
    from terminate_labels [OF t(1) this] have "sb_state s' = t" "labels k6 k' [state_label t] [state_label t] [state_label t]"
      by auto
    moreover have "labels k3 k6 (''acct_sent'' # dropped cbs') [] (dropped cbs')" using p2 by blast
    ultimately have "labels k k' ((''auth_sent'' # dropped cbs) @ (''acct_sent'' # dropped cbs') @ [state_label t]) [state_label t]
        (dropped cbs @ dropped cbs' @ [state_label t])"
      using labels_trans [OF lab1 labels_trans] by fastforce
    with \<open>sb_state s' = t\<close> t p1 p2 True send' r' that [OF send [unfolded r], of ret'] show ?thesis
      by (auto simp: run_end_def run_states_def run_outcomes_def split: if_splits)
  qed
qed

end
