(* ===== verification/Subscriber_Props.thy ===== *)
theory Subscriber_Props
  imports Subscriber_Life
begin

text \<open>
  The properties of a subscriber's run, stated on what the collector receives, and a demo run
  they are instantiated on.
\<close>

section \<open>A demo run\<close>

text \<open>The sender answers the first send with an Access-Accept, the second with an
  Accounting-Response.\<close>

definition demo_reply :: "code \<Rightarrow> packet" where
  "demo_reply c = \<lparr>Code = c, Identifier = 7, Authenticator = zero16, Attributes = [],
     RequestAuthenticator = zero16, Secret = [1]\<rparr>"

definition demo_sender :: "nat sender" where
  "demo_sender n dst b p i = (Suc n, Some (Some \<lparr>fr_Reply = Some (demo_reply (if n = 0 then CodeAccessAccept
       else CodeAccountingResponse)), fr_LatencyUs = 5, fr_RetransmitN = 1, fr_LocalAddr = NilAddr\<rparr>, None))"

definition demo_run_config :: "bool \<Rightarrow> config" where
  "demo_run_config acct = demo_config\<lparr>cfg_Subscribers := (cfg_Subscribers demo_config)\<lparr>su_IncludeAcctStart := acct\<rparr>\<rparr>"

definition demo_deps :: "bool \<Rightarrow> nat deps" where
  "demo_deps acct = \<lparr>dp_Sender = Some demo_sender, dp_Collector = True, dp_Config = Some (demo_run_config acct),
     dp_AuthDst = UDPAddr ([10, 0, 0, 1], 1812), dp_AcctDst = UDPAddr ([10, 0, 0, 1], 1813), dp_T0 = Some 0\<rparr>"

definition demo_sub :: subscriber where
  "demo_sub = NewSubscriber 5 \<lparr>cr_Username = ''alice'', cr_Password = ''a'', cr_AuthMethod = [], cr_SubType = [],
     cr_NASPortID = [], cr_MACAddress = []\<rparr> None"

definition demo_sink :: sink where
  "demo_sink = \<lparr>sk_events = [], sk_outcomes = []\<rparr>"

lemma demo_checks: "run_checks resolve (demo_deps acct)
    = Inr (demo_sender, demo_run_config acct, UDPAddr ([10, 0, 0, 1], 1812), UDPAddr ([10, 0, 0, 1], 1813))"
  by (simp add: run_checks_def demo_deps_def)

lemma demo_idle: "sb_state demo_sub = StateIdle"
  by (simp add: demo_sub_def NewSubscriber_def)

lemma demo_run_returns:
  "\<exists>w x st err. Run clk resolve rnd est (demo_deps acct) cbs cbs' 0 demo_sub demo_sink = Some (w, x, st, err)"
proof -
  obtain x where "auth_verdict clk rnd (dp_T0 (demo_deps acct)) (policy_of (demo_run_config acct))
      (UDPAddr ([10, 0, 0, 1], 1812)) (Some \<lparr>fr_Reply = Some (demo_reply CodeAccessAccept), fr_LatencyUs = 5,
        fr_RetransmitN = 1, fr_LocalAddr = NilAddr\<rparr>, None)
      (fold (run_callback clk) cbs (run_activate clk (dp_T0 (demo_deps acct)) (demo_sub, demo_sink))) = (x, None)"
    by (simp add: auth_verdict_def demo_reply_def Let_def split_beta)
  then show ?thesis
    by (simp add: Run_def demo_checks Let_def demo_sender_def split_beta)
qed

section \<open>Properties\<close>

text \<open>C23: A run that is not disconnected follows the documented life cycle. From idle, with only CoA
  callbacks around it, the states it announces are a path of the life cycle from idle to the state it
  returns, which is terminal; it announces exactly one terminal event and submits exactly one outcome,
  both for that state.\<close>

theorem run_follows_lifecycle:
  assumes "Run clk resolve rnd est deps cbs cbs' w s k = Some (w', (s', k'), st, err)"
    "run_checks resolve deps = Inr (sendf, cfg, authDst, acctDst)" "sb_state s = StateIdle"
    "list_all is_coa cbs" "list_all is_coa cbs'"
  shows "\<exists>p. path StateIdle (p @ [st]) \<and> IsTerminal st \<and> sb_state s' = st \<and> err = None
     \<and> state_trace (sk_events k') = state_trace (sk_events k) @ map state_label (p @ [st])
     \<and> terminals (sk_events k') = terminals (sk_events k) @ [state_label st]
     \<and> map OcFinalState (sk_outcomes k') = map OcFinalState (sk_outcomes k) @ [state_label st]"
proof -
  obtain w1 ret ret' where e: "err = None" "sb_state s' = st"
    "st = run_end (replied ret CodeAccessAccept) (su_IncludeAcctStart (cfg_Subscribers cfg)) (replied ret' CodeAccountingResponse)"
    "labels k k' (run_states (replied ret CodeAccessAccept) (su_IncludeAcctStart (cfg_Subscribers cfg))
         (replied ret' CodeAccountingResponse) (dropped cbs) (dropped cbs')) [state_label st]
       (run_outcomes (replied ret CodeAccessAccept) (su_IncludeAcctStart (cfg_Subscribers cfg)) st (dropped cbs) (dropped cbs'))"
    using assms(1-3) by (rule run_effect)
  define p where "p = StateAuthSent # (if replied ret CodeAccessAccept \<and> su_IncludeAcctStart (cfg_Subscribers cfg)
      then [StateAcctSent] else [])"
  have "dropped cbs = []" "dropped cbs' = []" using assms(4,5) by (simp_all add: dropped_def)
  with e show ?thesis
    by (intro exI [of _ p]) (auto simp: labels_def p_def run_end_def run_states_def run_outcomes_def)
qed

theorem run_follows_lifecycle_witness:
  "\<exists>p s' k'. (\<exists>w st err. Run demo_clock (\<lambda>_. Inl (Plain [])) (Inr zero16) 9 (demo_deps True) [CbCoA None] [] 0
       demo_sub demo_sink = Some (w, (s', k'), st, err)) \<and> path StateIdle p \<and> p \<noteq> [] \<and> length (sk_outcomes k') = 1"
proof -
  obtain w s' k' st err where r: "Run demo_clock (\<lambda>_. Inl (Plain [])) (Inr zero16) 9 (demo_deps True) [CbCoA None] [] 0
       demo_sub demo_sink = Some (w, (s', k'), st, err)" using demo_run_returns by (metis surj_pair)
  from run_follows_lifecycle [OF r demo_checks demo_idle] obtain p where
    "path StateIdle (p @ [st])" "map OcFinalState (sk_outcomes k') = [state_label st]"
    by (auto simp: demo_sink_def)
  moreover from this(2) have "length (sk_outcomes k') = 1" by (metis length_map length_Cons list.size(3) One_nat_def)
  ultimately show ?thesis using r by blast
qed

text \<open>C2: Whatever callbacks arrive while a run waits for its answers, it ends established exactly when
  the first send returned an Access-Accept without error and, if accounting is on, the second one an
  Accounting-Response; it ends with one terminal event, and its own outcome is the last one, after one
  outcome per wait during which a disconnect arrived. A disconnect in flight is therefore overruled.\<close>

theorem run_outcome_exact:
  assumes "Run clk resolve rnd est deps cbs cbs' w s k = Some (w', (s', k'), st, err)"
    "run_checks resolve deps = Inr (sendf, cfg, authDst, acctDst)" "sb_state s = StateIdle"
  shows "\<exists>w1 ret ret'. sendf w authDst (buildAccessRequest cfg s) (policy_of cfg) (sb_id s) = (w1, Some ret)
     \<and> (replied ret CodeAccessAccept \<and> su_IncludeAcctStart (cfg_Subscribers cfg) \<longrightarrow>
          sendf w1 acctDst (buildAccountingStart cfg s) (policy_of cfg) (sb_id s) = (w', Some ret'))
     \<and> (st = StateEstablished \<longleftrightarrow> replied ret CodeAccessAccept
          \<and> (su_IncludeAcctStart (cfg_Subscribers cfg) \<longrightarrow> replied ret' CodeAccountingResponse))
     \<and> sb_state s' = st
     \<and> terminals (sk_events k') = terminals (sk_events k) @ [state_label st]
     \<and> map OcFinalState (sk_outcomes k') = map OcFinalState (sk_outcomes k) @ dropped cbs
         @ (if replied ret CodeAccessAccept \<and> su_IncludeAcctStart (cfg_Subscribers cfg) then dropped cbs' else [])
         @ [state_label st]"
proof -
  obtain w1 ret ret' where e: "sendf w authDst (buildAccessRequest cfg s) (policy_of cfg) (sb_id s) = (w1, Some ret)"
    "replied ret CodeAccessAccept \<and> su_IncludeAcctStart (cfg_Subscribers cfg) \<longrightarrow>
       sendf w1 acctDst (buildAccountingStart cfg s) (policy_of cfg) (sb_id s) = (w', Some ret')"
    "err = None" "sb_state s' = st"
    "st = run_end (replied ret CodeAccessAccept) (su_IncludeAcctStart (cfg_Subscribers cfg)) (replied ret' CodeAccountingResponse)"
    "labels k k' (run_states (replied ret CodeAccessAccept) (su_IncludeAcctStart (cfg_Subscribers cfg))
         (replied ret' CodeAccountingResponse) (dropped cbs) (dropped cbs')) [state_label st]
       (run_outcomes (replied ret CodeAccessAccept) (su_IncludeAcctStart (cfg_Subscribers cfg)) st (dropped cbs) (dropped cbs'))"
    using assms by (rule run_effect)
  from e(5) have "st = StateEstablished \<longleftrightarrow> replied ret CodeAccessAccept
      \<and> (su_IncludeAcctStart (cfg_Subscribers cfg) \<longrightarrow> replied ret' CodeAccountingResponse)"
    by (auto simp: run_end_def)
  with e show ?thesis
    by (intro exI [of _ w1] exI [of _ ret] exI [of _ ret']) (auto simp: labels_def run_outcomes_def)
qed

theorem run_outcome_exact_witness:
  "\<exists>s' k' st. (\<exists>w err. Run demo_clock (\<lambda>_. Inl (Plain [])) (Inr zero16) 9 (demo_deps False) [CbDisconnect 4 None] [] 0
       demo_sub demo_sink = Some (w, (s', k'), st, err)) \<and> st = StateEstablished
     \<and> map OcFinalState (sk_outcomes k') = [''terminated'', ''established'']"
proof -
  obtain w s' k' st err where r: "Run demo_clock (\<lambda>_. Inl (Plain [])) (Inr zero16) 9 (demo_deps False) [CbDisconnect 4 None] [] 0
       demo_sub demo_sink = Some (w, (s', k'), st, err)" using demo_run_returns by (metis surj_pair)
  from run_outcome_exact [OF r demo_checks demo_idle]
  have "st = StateEstablished \<and> map OcFinalState (sk_outcomes k') = [''terminated'', ''established'']"
    by (auto simp: demo_sender_def demo_reply_def demo_run_config_def demo_config_def demo_sink_def replied_def dropped_def)
  then have "st = StateEstablished" "map OcFinalState (sk_outcomes k') = [''terminated'', ''established'']" by simp_all
  with r show ?thesis by (intro exI [of _ s'] exI [of _ k'] exI [of _ st] conjI exI [of _ w] exI [of _ err])
qed

text \<open>A second disconnect does nothing: not to the subscriber, not to the collector.\<close>

theorem disconnect_idempotent:
  "OnDisconnect clk now2 p2 (OnDisconnect clk now1 p1 (s, k)) = OnDisconnect clk now1 p1 (s, k)"
  by (cases "sb_deps s") (auto simp: OnDisconnect_def Let_def)

text \<open>Every configuration gives a policy with positive waits and at least one retransmit: values that
  are zero, negative or overflow the nanosecond count fall back to five seconds, three retries and one
  second; in particular a configured zero of retries becomes three.\<close>

theorem policy_from_config_positive:
  "0 < InitialTimeout (PolicyFromConfig t r b base) \<and> 0 < MaxRetries (PolicyFromConfig t r b base)
    \<and> 0 < BackoffBase (PolicyFromConfig t r b base)
    \<and> MaxRetries (PolicyFromConfig t 0 b base) = 3
    \<and> 0 < wait_for (PolicyFromConfig t r b base) n"
  by (simp add: PolicyFromConfig_def Let_def second_ns_def wait_for_def)

end
