(* ===== verification/Subscriber_Pool.thy ===== *)
theory Subscriber_Pool
  imports Subscriber_Props
begin

text \<open>
  The pool of subscribers and its indexes (\<^verbatim>\<open>pkg/subscriber/pool.go\<close>, \<^verbatim>\<open>lookup.go\<close>). A pointer
  to a subscriber is its position in the pool; nil is \<open>None\<close>.
\<close>

section \<open>Construction\<close>

record pool =
  po_all :: "subscriber list"
  po_byID :: "u32 \<rightharpoonup> nat"
  po_byUsername :: "string \<rightharpoonup> nat"
  po_bySessionID :: "string \<rightharpoonup> nat"
  po_byFramedIP :: "string \<rightharpoonup> nat"

definition empty_pool :: pool where
  "empty_pool = \<lparr>po_all = [], po_byID = Map.empty, po_byUsername = Map.empty, po_bySessionID = Map.empty,
     po_byFramedIP = Map.empty\<rparr>"

text \<open>The digits are written from the right; the code's buffer holds twelve of them.\<close>

fun digits_loop :: "nat \<Rightarrow> string \<Rightarrow> string" where
  "digits_loop idx acc = (if idx = 0 then acc else digits_loop (idx div 10) (char_of (48 + idx mod 10) # acc))"

declare digits_loop.simps [simp del]

definition formatRecycledUsername :: "string \<Rightarrow> nat \<Rightarrow> string" where
  "formatRecycledUsername base idx = base @ ''+'' @ (if idx = 0 then ''0'' else digits_loop idx [])"

definition pool_credential :: "credential list \<Rightarrow> nat \<Rightarrow> credential" where
  "pool_credential creds i =
     (let cred = creds ! (i mod length creds) in
      if i \<ge> length creds then cred\<lparr>cr_Username := formatRecycledUsername (cr_Username cred) i\<rparr> else cred)"

definition pool_add :: "credential list \<Rightarrow> config \<Rightarrow> nat \<Rightarrow> pool \<Rightarrow> pool" where
  "pool_add creds cfg i p =
     (let s = NewSubscriber (word_of_nat i) (pool_credential creds i) (Some cfg); ptr = length (po_all p) in
      p\<lparr>po_all := po_all p @ [s],
        po_byID := (po_byID p)(sb_id s \<mapsto> ptr),
        po_byUsername := (po_byUsername p)(cr_Username (sb_credential s) \<mapsto> ptr),
        po_bySessionID := (po_bySessionID p)(sb_sessionID s \<mapsto> ptr),
        po_byFramedIP := (po_byFramedIP p)(ip_string (sb_framedIP s) \<mapsto> ptr)\<rparr>)"

definition NewPool :: "credential list \<Rightarrow> config option \<Rightarrow> pool" where
  "NewPool creds cfg = (case cfg of
       None \<Rightarrow> empty_pool
     | Some c \<Rightarrow>
         if su_Count (cfg_Subscribers c) \<le> 0 \<or> creds = [] then empty_pool
         else fold (pool_add creds c) [0..<nat (su_Count (cfg_Subscribers c))] empty_pool)"

section \<open>Lookups\<close>

definition pool_Len :: "pool \<Rightarrow> nat" where
  "pool_Len p = length (po_all p)"

definition pool_Get :: "pool \<Rightarrow> u32 \<Rightarrow> nat option" where
  "pool_Get p i = po_byID p i"

definition LookupByUsername :: "pool \<Rightarrow> string \<Rightarrow> nat option" where
  "LookupByUsername p u = (if u = [] then None else po_byUsername p u)"

definition LookupBySessionID :: "pool \<Rightarrow> string \<Rightarrow> nat option" where
  "LookupBySessionID p s = (if s = [] then None else po_bySessionID p s)"

definition LookupByFramedIP :: "pool \<Rightarrow> string \<Rightarrow> nat option" where
  "LookupByFramedIP p ip = (if ip = [] then None else po_byFramedIP p ip)"

definition pool_Range :: "(subscriber \<Rightarrow> 'a \<Rightarrow> 'a) \<Rightarrow> pool \<Rightarrow> 'a \<Rightarrow> 'a" where
  "pool_Range f p = fold f (po_all p)"

definition pool_Lookup :: "pool \<Rightarrow> packet option \<Rightarrow> nat option" where
  "pool_Lookup p pkt = (case pkt of
       None \<Rightarrow> None
     | Some packet \<Rightarrow>
        (let s = attr_GetString (Attributes packet) AttrAcctSessionID in
         case (if s \<noteq> [] then LookupBySessionID p s else None) of
           Some sub \<Rightarrow> Some sub
         | None \<Rightarrow>
            (let u = attr_GetString (Attributes packet) AttrUserName in
             case (if u \<noteq> [] then LookupByUsername p u else None) of
               Some sub \<Rightarrow> Some sub
             | None \<Rightarrow>
                (case attr_GetIPv4 (Attributes packet) AttrFramedIPAddress of
                   None \<Rightarrow> None
                 | Some ip \<Rightarrow> LookupByFramedIP p (ip_string ip)))))"

definition BuildLookup :: "pool option \<Rightarrow> packet option \<Rightarrow> nat option" where
  "BuildLookup p = (case p of None \<Rightarrow> (\<lambda>_. None) | Some p \<Rightarrow> (\<lambda>pkt. pool_Lookup p pkt))"

section \<open>Indexes built by overwriting\<close>

text \<open>\<open>last_at f n\<close> is the map that takes each value of \<open>f\<close> below \<open>n\<close> to its last position.\<close>

definition last_at :: "(nat \<Rightarrow> 'k) \<Rightarrow> nat \<Rightarrow> 'k \<rightharpoonup> nat" where
  "last_at f n = fold (\<lambda>i m. m(f i \<mapsto> i)) [0..<n] Map.empty"

lemma last_at_0 [simp]: "last_at f 0 = Map.empty"
  by (simp add: last_at_def)

lemma last_at_Suc [simp]: "last_at f (Suc n) = (last_at f n)(f n \<mapsto> n)"
  by (simp add: last_at_def)

lemma last_at_Some_iff:
  "last_at f n k = Some i \<longleftrightarrow> i < n \<and> f i = k \<and> (\<forall>j. i < j \<longrightarrow> j < n \<longrightarrow> f j \<noteq> k)"
  by (induction n) (auto simp: less_Suc_eq)

lemma last_at_None_iff: "last_at f n k = None \<longleftrightarrow> (\<forall>i < n. f i \<noteq> k)"
  by (induction n) (auto simp: less_Suc_eq)

lemma last_at_inj: "inj_on f {..<n} \<Longrightarrow> i < n \<Longrightarrow> last_at f n (f i) = Some i"
  by (auto simp: last_at_Some_iff inj_on_def)

definition pool_sub :: "credential list \<Rightarrow> config \<Rightarrow> nat \<Rightarrow> subscriber" where
  "pool_sub creds cfg i = NewSubscriber (word_of_nat i) (pool_credential creds i) (Some cfg)"

lemma pool_fold:
  "fold (pool_add creds cfg) [0..<n] empty_pool =
     \<lparr>po_all = map (pool_sub creds cfg) [0..<n],
      po_byID = last_at (\<lambda>i. sb_id (pool_sub creds cfg i)) n,
      po_byUsername = last_at (\<lambda>i. cr_Username (sb_credential (pool_sub creds cfg i))) n,
      po_bySessionID = last_at (\<lambda>i. sb_sessionID (pool_sub creds cfg i)) n,
      po_byFramedIP = last_at (\<lambda>i. ip_string (sb_framedIP (pool_sub creds cfg i))) n\<rparr>"
proof (induction n)
  case 0
  show ?case by (simp add: empty_pool_def)
next
  case (Suc n)
  show ?case
    by (simp add: Suc) (simp add: pool_add_def Let_def fun_upd_def flip: pool_sub_def)
qed

lemma pool_sub_fields [simp]:
  "sb_id (pool_sub creds cfg i) = word_of_nat i"
  "sb_sessionID (pool_sub creds cfg i) = session_id (word_of_nat i)"
  "sb_framedIP (pool_sub creds cfg i) = framed_ip (word_of_nat i)"
  "sb_credential (pool_sub creds cfg i) = pool_credential creds i"
  by (simp_all add: pool_sub_def NewSubscriber_def)

section \<open>Identities are distinct\<close>

lemma word_of_nat_inj32: "i < 2 ^ 32 \<Longrightarrow> j < 2 ^ 32 \<Longrightarrow> (word_of_nat i :: u32) = word_of_nat j \<Longrightarrow> i = j"
  by (drule arg_cong [of _ _ unat]) (simp add: unat_of_nat take_bit_nat_eq_self)

lemma session_id_inj: "session_id a = session_id b \<longleftrightarrow> a = b"
  by (simp add: session_id_def hex_pad_inj word_unat_eq_iff)

lemma framed_ip_inj:
  assumes "a < 2 ^ 24" "b < 2 ^ 24" "ip_string (framed_ip a) = ip_string (framed_ip b)"
  shows "a = b"
proof -
  have "framed_ip a = framed_ip b"
    using assms(3) dotted_inj [of "framed_ip a" "framed_ip b"] by (simp add: ip_string_4 framed_ip_def)
  then have bytes: "ucast (drop_bit 16 a) = (ucast (drop_bit 16 b) :: byte)"
    "ucast (drop_bit 8 a) = (ucast (drop_bit 8 b) :: byte)" "ucast a = (ucast b :: byte)"
    by (simp_all add: framed_ip_def)
  show ?thesis
  proof (rule bit_word_eqI)
    fix n assume "n < LENGTH(32)"
    then consider "n < 8" | "8 \<le> n" "n < 16" | "16 \<le> n" "n < 24" | "24 \<le> n" "n < 32" by fastforce
    then show "bit a n = bit b n"
    proof cases
      case 1
      then show ?thesis using arg_cong [OF bytes(3), of "\<lambda>w. bit w n"] by (simp add: bit_simps)
    next
      case 2
      then have "n - 8 < 8" by arith
      then show ?thesis using 2 arg_cong [OF bytes(2), of "\<lambda>w. bit w (n - 8)"] by (simp add: bit_simps)
    next
      case 3
      then have "n - 16 < 8" by arith
      then show ?thesis using 3 arg_cong [OF bytes(1), of "\<lambda>w. bit w (n - 16)"] by (simp add: bit_simps)
    next
      case 4
      have "\<not> bit w n" if "w < 2 ^ 24" for w :: u32
      proof -
        have "unat w < 2 ^ 24" using that by (simp add: word_less_nat_alt)
        then have "drop_bit 24 w = 0"
          by (simp only: word_unat_eq_iff unsigned_drop_bit_eq) (simp add: drop_bit_eq_div div_less take_bit_nat_eq_self)
        then have "\<not> bit (drop_bit 24 w) (n - 24)" by simp
        with 4(1) show ?thesis by (simp add: bit_simps)
      qed
      then show ?thesis using assms by simp
    qed
  qed
qed

lemma digits_loop_radix: "0 < idx \<Longrightarrow> digits_loop idx acc = radix 10 idx @ acc"
proof (induction idx acc rule: digits_loop.induct)
  case (1 idx acc)
  have digit: "char_of (48 + d) = digit_char d" if "d < 10" for d :: nat
    using that by (simp add: digit_char_def)
  show ?case
  proof (cases "idx < 10")
    case True
    with 1 digit show ?thesis
      by (simp add: digits_loop.simps [of idx] digits_loop.simps [of 0] radix.simps [of _ idx])
  next
    case False
    then have "0 < idx div 10" by simp
    with 1 False digit show ?thesis
      by (simp add: digits_loop.simps [of idx] radix.simps [of _ idx])
  qed
qed

lemma formatRecycledUsername_dec: "formatRecycledUsername base idx = base @ ''+'' @ dec idx"
proof -
  have "CHR ''0'' = char_of (48 :: nat)" by code_simp
  then show ?thesis by (simp add: formatRecycledUsername_def digits_loop_radix dec_def radix.simps [of _ 0] digit_char_def)
qed

lemma NewPool_some:
  assumes "0 < su_Count (cfg_Subscribers cfg)" "creds \<noteq> []"
  shows "NewPool creds (Some cfg) = fold (pool_add creds cfg) [0..<nat (su_Count (cfg_Subscribers cfg))] empty_pool"
  using assms by (simp add: NewPool_def)

text \<open>What a pool built from at most \<open>2^24\<close> subscribers satisfies.\<close>

definition pool_ok :: "pool \<Rightarrow> bool" where
  "pool_ok p \<longleftrightarrow>
     (\<forall>i < length (po_all p). pool_Get p (sb_id (po_all p ! i)) = Some i
        \<and> LookupBySessionID p (sb_sessionID (po_all p ! i)) = Some i
        \<and> LookupByFramedIP p (ip_string (sb_framedIP (po_all p ! i))) = Some i)
     \<and> (\<forall>u i. LookupByUsername p u = Some i \<longleftrightarrow> u \<noteq> [] \<and> i < length (po_all p)
          \<and> cr_Username (sb_credential (po_all p ! i)) = u
          \<and> (\<forall>j. i < j \<longrightarrow> j < length (po_all p) \<longrightarrow> cr_Username (sb_credential (po_all p ! j)) \<noteq> u))
     \<and> (\<forall>s i. LookupBySessionID p s = Some i \<longrightarrow> i < length (po_all p) \<and> sb_sessionID (po_all p ! i) = s)
     \<and> (\<forall>s i. LookupByFramedIP p s = Some i \<longrightarrow> i < length (po_all p) \<and> ip_string (sb_framedIP (po_all p ! i)) = s)"

lemma dotted_not_Nil [simp]: "dotted v \<noteq> []"
  by (simp add: dotted_def)

lemma session_id_not_Nil [simp]: "session_id i \<noteq> []"
  by (simp add: session_id_def)

lemma word_of_nat_24: "i < 2 ^ 24 \<Longrightarrow> (word_of_nat i :: u32) < 2 ^ 24"
  by (simp add: word_less_nat_alt unat_of_nat take_bit_nat_eq_self)

lemma fold_pool_ok:
  assumes "n \<le> 2 ^ 24"
  shows "pool_ok (fold (pool_add creds cfg) [0..<n] empty_pool)"
proof -
  have w: "inj_on (\<lambda>i. word_of_nat i :: u32) {..<n}"
    using assms by (auto simp: inj_on_def intro: word_of_nat_inj32)
  have s: "inj_on (\<lambda>i. session_id (word_of_nat i)) {..<n}"
    using w by (simp add: inj_on_def session_id_inj)
  have f: "inj_on (\<lambda>i. ip_string (framed_ip (word_of_nat i))) {..<n}"
  proof (rule inj_onI)
    fix i j assume ij: "i \<in> {..<n}" "j \<in> {..<n}" "ip_string (framed_ip (word_of_nat i)) = ip_string (framed_ip (word_of_nat j))"
    with assms have "(word_of_nat i :: u32) = word_of_nat j"
      by (intro framed_ip_inj word_of_nat_24) auto
    with w ij show "i = j" by (auto simp: inj_on_def)
  qed
  have ip: "ip_string (framed_ip x) \<noteq> []" for x by (simp add: ip_string_4 framed_ip_def)
  show ?thesis
    unfolding pool_ok_def pool_fold
    using last_at_inj [OF w] last_at_inj [OF s] last_at_inj [OF f]
    by (auto simp: pool_Get_def LookupBySessionID_def LookupByFramedIP_def LookupByUsername_def ip last_at_Some_iff)
qed

section \<open>Properties\<close>

text \<open>C29: The indexes of a pool of up to \<open>2^24\<close> subscribers. Every subscriber is found under its id, its
  session id and its framed address; what is found under any key carries that key; and under a user name the
  last subscriber with that name is found.\<close>

theorem pool_indexes:
  assumes "su_Count (cfg_Subscribers cfg) \<le> 2 ^ 24" "creds \<noteq> []"
  shows "pool_ok (NewPool creds (Some cfg))
    \<and> int (pool_Len (NewPool creds (Some cfg))) = max 0 (su_Count (cfg_Subscribers cfg))"
proof (cases "0 < su_Count (cfg_Subscribers cfg)")
  case True
  then show ?thesis
    using assms fold_pool_ok [of "nat (su_Count (cfg_Subscribers cfg))" creds cfg]
    by (simp add: NewPool_some pool_Len_def pool_fold)
next
  case False
  then have "NewPool creds (Some cfg) = fold (pool_add creds cfg) [0..<0] empty_pool"
    by (simp add: NewPool_def)
  then show ?thesis
    using False fold_pool_ok [of 0 creds cfg] by (simp add: pool_Len_def empty_pool_def)
qed

theorem pool_indexes_witness:
  "pool_Get (NewPool [sb_credential demo_sub] (Some (demo_run_config True))) 0 = Some 0
    \<and> pool_Len (NewPool [sb_credential demo_sub] (Some (demo_run_config True))) = 1"
proof -
  let ?p = "NewPool [sb_credential demo_sub] (Some (demo_run_config True))"
  have c: "su_Count (cfg_Subscribers (demo_run_config True)) = 1" by (simp add: demo_run_config_def demo_config_def)
  have ok: "pool_ok ?p \<and> int (pool_Len ?p) = max 0 1"
    using pool_indexes [of "demo_run_config True" "[sb_credential demo_sub]"] by (simp add: c)
  then have len: "length (po_all ?p) = 1" by (simp add: pool_Len_def)
  with ok have "pool_Get ?p (sb_id (po_all ?p ! 0)) = Some 0" by (simp add: pool_ok_def)
  moreover have "sb_id (po_all ?p ! 0) = 0"
    by (simp add: NewPool_some c pool_add_def empty_pool_def NewSubscriber_def Let_def)
  ultimately show ?thesis using len by (simp add: pool_Len_def)
qed

text \<open>The dispatcher tries the session id first, then the user name, then the framed address; and
  whatever it returns is a subscriber of the pool that carries the attribute it was found by.\<close>

theorem lookup_priority_sound:
  assumes "pool_ok p"
  shows "(i < length (po_all p) \<and> sb_sessionID (po_all p ! i) \<noteq> []
        \<and> attr_GetString (Attributes pkt) AttrAcctSessionID = sb_sessionID (po_all p ! i)
        \<longrightarrow> pool_Lookup p (Some pkt) = Some i)
    \<and> (LookupBySessionID p (attr_GetString (Attributes pkt) AttrAcctSessionID) = None
        \<and> LookupByUsername p (attr_GetString (Attributes pkt) AttrUserName) = Some i
        \<longrightarrow> pool_Lookup p (Some pkt) = Some i)
    \<and> (pool_Lookup p (Some pkt) = Some i \<longrightarrow> i < length (po_all p)
        \<and> (sb_sessionID (po_all p ! i) = attr_GetString (Attributes pkt) AttrAcctSessionID
          \<or> cr_Username (sb_credential (po_all p ! i)) = attr_GetString (Attributes pkt) AttrUserName
          \<or> Some (ip_string (sb_framedIP (po_all p ! i))) =
              map_option ip_string (attr_GetIPv4 (Attributes pkt) AttrFramedIPAddress)))"
proof -
  have none: "LookupBySessionID p [] = None" "LookupByUsername p [] = None"
    by (simp_all add: LookupBySessionID_def LookupByUsername_def)
  have found: "LookupBySessionID p (sb_sessionID (po_all p ! i)) = Some i" if "i < length (po_all p)" for i
    using assms that by (simp add: pool_ok_def)
  have sound: "LookupBySessionID p s = Some i \<Longrightarrow> i < length (po_all p) \<and> sb_sessionID (po_all p ! i) = s"
    "LookupByUsername p s = Some i \<Longrightarrow> i < length (po_all p) \<and> cr_Username (sb_credential (po_all p ! i)) = s"
    "LookupByFramedIP p s = Some i \<Longrightarrow> i < length (po_all p) \<and> ip_string (sb_framedIP (po_all p ! i)) = s" for s i
    using assms by (simp_all add: pool_ok_def)
  show ?thesis
    by (auto simp: pool_Lookup_def Let_def none found split: option.splits if_splits dest: sound)
qed

definition demo_pool :: pool where
  "demo_pool = NewPool [sb_credential demo_sub] (Some (demo_run_config True))"

definition demo_coa :: packet where
  "demo_coa = \<lparr>Code = CodeCoARequest, Identifier = 9, Authenticator = zero16,
     Attributes = [\<lparr>AType = AttrUserName, AValue = bytes_of ''alice''\<rparr>], RequestAuthenticator = zero16, Secret = [1]\<rparr>"

theorem lookup_priority_sound_witness: "pool_ok demo_pool \<and> pool_Lookup demo_pool (Some demo_coa) = Some 0"
proof -
  have c: "su_Count (cfg_Subscribers (demo_run_config True)) = 1" by (simp add: demo_run_config_def demo_config_def)
  have ok: "pool_ok demo_pool"
    using fold_pool_ok [of 1 "[sb_credential demo_sub]" "demo_run_config True"]
    by (simp add: demo_pool_def NewPool_some c)
  have "attr_GetString (Attributes demo_coa) AttrAcctSessionID = []"
    "attr_GetString (Attributes demo_coa) AttrUserName = ''alice''"
    by (simp_all add: demo_coa_def attr_GetString_def)
  moreover have "LookupByUsername demo_pool ''alice'' = Some 0"
    by (simp add: demo_pool_def NewPool_some c pool_add_def empty_pool_def LookupByUsername_def pool_credential_def
        demo_sub_def NewSubscriber_def Let_def)
  ultimately show ?thesis
    using ok lookup_priority_sound [OF ok, of 0 demo_coa] by (simp add: LookupBySessionID_def)
qed

text \<open>Recycling credentials keeps user names apart. If the names in the file are distinct and none has
  a \<^verbatim>\<open>+\<close>, every subscriber of the pool is found under its own user name.\<close>

lemma recycled_usernames_distinct:
  assumes "distinct (map cr_Username creds)" "\<forall>c \<in> set creds. CHR ''+'' \<notin> set (cr_Username c) \<and> cr_Username c \<noteq> []"
    "creds \<noteq> []" "0 < su_Count (cfg_Subscribers cfg)" "i < pool_Len (NewPool creds (Some cfg))"
  shows "LookupByUsername (NewPool creds (Some cfg)) (cr_Username (pool_credential creds i)) = Some i"
proof -
  let ?n = "nat (su_Count (cfg_Subscribers cfg))"
  let ?name = "\<lambda>i. cr_Username (pool_credential creds i)"
  have m: "j mod length creds < length creds" for j using assms(3) by simp
  have plus: "CHR ''+'' \<notin> set (cr_Username (creds ! (j mod length creds)))" for j
    using assms(2) m by (simp add: nth_mem)
  have name: "?name j = cr_Username (creds ! (j mod length creds)) @ (if length creds \<le> j then ''+'' @ dec j else [])" for j
    by (simp add: pool_credential_def formatRecycledUsername_dec Let_def)
  have inj: "j = k" if eq: "?name j = ?name k" for j k
  proof -
    have "takeWhile ((\<noteq>) CHR ''+'') (?name x) = cr_Username (creds ! (x mod length creds))" for x
      using plus [of x] by (auto simp: name takeWhile_append)
    with eq have base: "cr_Username (creds ! (j mod length creds)) = cr_Username (creds ! (k mod length creds))" by metis
    with eq have "(if length creds \<le> j then ''+'' @ dec j else []) = (if length creds \<le> k then ''+'' @ dec k else [])"
      by (simp add: name)
    then consider "length creds \<le> j" "dec j = dec k" | "j < length creds" "k < length creds"
      by (auto split: if_splits)
    then show ?thesis
    proof cases
      case 2
      with base assms(1) show ?thesis by (auto simp: distinct_conv_nth)
    qed simp
  qed
  have "i < ?n" using assms(3-5) by (simp add: pool_Len_def NewPool_some pool_fold)
  moreover have "inj_on ?name {..<?n}" using inj by (auto simp: inj_on_def)
  moreover have "?name i \<noteq> []" using assms(2) m by (simp add: name nth_mem)
  ultimately show ?thesis
    using last_at_inj [of ?name ?n i] assms(3,4) by (simp add: LookupByUsername_def NewPool_some pool_fold)
qed

end
