(* ===== verification/Server_Handler.thy ===== *)
theory Server_Handler
  imports Subscriber_Pool Radius_Vendor Radius_Protocol
begin

text \<open>
  The CoA/Disconnect listener (\<^verbatim>\<open>pkg/server/listener.go\<close>, \<^verbatim>\<open>handler.go\<close>, \<^verbatim>\<open>lookup.go\<close>): what it
  does with one datagram. The state holds the counters, the events submitted, the replies
  written and the callbacks launched on goroutines of their own. The lookup is an interface, a
  record of functions on targets; the pool provides it.
\<close>

section \<open>Interfaces and state\<close>

record 't lookup_iface =
  lk_Lookup :: "packet \<Rightarrow> 't option"
  lk_ID :: "'t \<Rightarrow> u32"
  lk_Username :: "'t \<Rightarrow> string"

datatype 't dyn_call = CallCoA 't packet | CallDisconnect 't packet

record 't listener =
  ln_secret :: bytes
  ln_localAddr :: string
  ln_t0 :: int
  ln_received :: int
  ln_acked :: int
  ln_naked :: int
  ln_dropped :: int
  ln_events :: "event list"
  ln_sent :: "(bytes \<times> udp_addr) list"
  ln_calls :: "'t dyn_call list"
  ln_readerCount :: int
  ln_started :: bool
  ln_stopped :: bool

text \<open>What the environment decides while a datagram is handled: the resolution of the printed
  remote address, the result of the write, the latency measured after it, and the
  randomness \<^verbatim>\<open>Encode\<close> would draw.\<close>

record dyn_env =
  de_resolve :: "string \<Rightarrow> udp_addr res"
  de_write :: "goerr option"
  de_latencyUs :: int
  de_rnd :: "bytes res"

type_synonym tag_map = "string \<rightharpoonup> string"

section \<open>Tags\<close>

definition isPrintableASCII :: "bytes \<Rightarrow> bool" where
  "isPrintableASCII b \<longleftrightarrow> b \<noteq> [] \<and> list_all (\<lambda>c. \<not> (c < 0x20 \<or> c > 0x7e)) b"

definition vsaTagValue :: "vendor_attribute \<Rightarrow> string" where
  "vsaTagValue v =
     (if length (VA_Value v) = 4
      then dec (unat (push_bit 24 (ucast (VA_Value v ! 0) :: u32) OR push_bit 16 (ucast (VA_Value v ! 1))
        OR push_bit 8 (ucast (VA_Value v ! 2)) OR ucast (VA_Value v ! 3)))
      else if isPrintableASCII (VA_Value v) then string_of (VA_Value v)
      else ''0x'' @ concat (map (\<lambda>b. hex_pad 2 (unat b)) (VA_Value v)))"

definition vsaTagKey :: "vendor_attribute \<Rightarrow> string" where
  "vsaTagKey v =
     (if VA_VendorID v = VendorHuawei \<and> VA_VendorType v = HuaweiInputPeakRate then ''huawei_input_peak_rate''
      else if VA_VendorID v = VendorHuawei \<and> VA_VendorType v = HuaweiInputAverageRate then ''huawei_input_average_rate''
      else if VA_VendorID v = VendorHuawei \<and> VA_VendorType v = HuaweiInputBasicRate then ''huawei_input_basic_rate''
      else if VA_VendorID v = VendorHuawei \<and> VA_VendorType v = HuaweiOutputPeakRate then ''huawei_output_peak_rate''
      else if VA_VendorID v = VendorHuawei \<and> VA_VendorType v = HuaweiSubscriberQoSProfile
      then ''huawei_subscriber_qos_profile''
      else if VA_VendorID v = VendorHuawei \<and> VA_VendorType v = HuaweiConnectID then ''huawei_connect_id''
      else if VA_VendorID v = VendorHuawei \<and> VA_VendorType v = HuaweiAcctSessionID then ''huawei_acct_session_id''
      else if VA_VendorID v = VendorHuawei \<and> VA_VendorType v = HuaweiServiceType then ''huawei_service_type''
      else ''vsa_'' @ dec (unat (VA_VendorID v)) @ ''_'' @ dec (unat (VA_VendorType v)))"

fun vsa_tags_loop :: "nat \<Rightarrow> attribute list \<Rightarrow> tag_map \<Rightarrow> tag_map \<times> goerr option" where
  "vsa_tags_loop i [] out = (out, None)"
| "vsa_tags_loop i (a # as) out =
     (case DecodeVSAs (AValue a) of
        Inl err \<Rightarrow> (out, Some (Wrap (''vsa['' @ dec i @ '']: '') err ''''))
      | Inr vsas \<Rightarrow> vsa_tags_loop (i + 1) as (fold (\<lambda>v m. m(vsaTagKey v \<mapsto> vsaTagValue v)) vsas out))"

definition vsaTags :: "packet \<Rightarrow> tag_map \<times> goerr option" where
  "vsaTags pkt = vsa_tags_loop 0 (attr_GetAll (Attributes pkt) AttrVendorSpecific) Map.empty"

definition standardTags :: "packet \<Rightarrow> tag_map" where
  "standardTags pkt =
     (let as = Attributes pkt;
          str = (\<lambda>t key m. let s = attr_GetString as t in if s \<noteq> [] then m(key \<mapsto> s) else m);
          addr = (\<lambda>t key m. case attr_GetIPv4 as t of Some ip \<Rightarrow> m(key \<mapsto> ip_string ip) | None \<Rightarrow> m)
      in str AttrNASIdentifier ''nas_identifier''
          (addr AttrNASIPAddress ''nas_ip''
            (addr AttrFramedIPAddress ''framed_ip''
              (str AttrCallingStationID ''calling_station_id''
                (str AttrAcctSessionID ''acct_session_id''
                  (str AttrUserName ''user_name'' Map.empty))))))"

definition copyTags :: "tag_map \<Rightarrow> tag_map" where
  "copyTags m = m"

section \<open>Events and replies\<close>

definition ln_offsetMs :: "'t listener \<Rightarrow> int \<Rightarrow> int" where
  "ln_offsetMs l t = milliseconds (time_sub t (ln_t0 l))"

definition coaEvent :: "'t listener \<Rightarrow> u32 \<Rightarrow> int \<Rightarrow> string \<Rightarrow> packet \<Rightarrow> string \<Rightarrow> int \<Rightarrow> int \<Rightarrow> int \<Rightarrow> tag_map \<Rightarrow>
    stamp \<Rightarrow> event" where
  "coaEvent l subID recvAt eventType pkt remote nbytes latencyUs errCause tags st =
     (NewCoAEvent st subID (ln_offsetMs l recvAt) eventType (uint (Identifier pkt)) (ln_localAddr l) remote nbytes
        latencyUs errCause)\<lparr>EvRadiusCode := sint (Code pkt), EvTags := tags\<rparr>"

definition disconnectEvent :: "'t listener \<Rightarrow> u32 \<Rightarrow> int \<Rightarrow> string \<Rightarrow> packet \<Rightarrow> string \<Rightarrow> int \<Rightarrow> int \<Rightarrow> int \<Rightarrow> tag_map \<Rightarrow>
    stamp \<Rightarrow> event" where
  "disconnectEvent l subID recvAt eventType pkt remote nbytes latencyUs errCause tags st =
     (NewDisconnectEvent st subID (ln_offsetMs l recvAt) eventType (uint (Identifier pkt)) (ln_localAddr l) remote nbytes
        latencyUs errCause)\<lparr>EvRadiusCode := sint (Code pkt), EvTags := tags\<rparr>"

definition ln_submit :: "clock \<Rightarrow> (stamp \<Rightarrow> event) \<Rightarrow> 't listener \<Rightarrow> 't listener" where
  "ln_submit clk mk l = l\<lparr>ln_events := submit clk mk (ln_events l)\<rparr>"

definition ln_drop :: "'t listener \<Rightarrow> 't listener" where
  "ln_drop l = l\<lparr>ln_dropped := ln_dropped l + 1\<rparr>"

definition internal_error :: "clock \<Rightarrow> u32 \<Rightarrow> int \<Rightarrow> int \<Rightarrow> string \<Rightarrow> 't listener \<Rightarrow> 't listener" where
  "internal_error clk subID recvAt cause message l =
     ln_drop (ln_submit clk (\<lambda>st. NewError st subID (ln_offsetMs l recvAt) EventTypeInternalError cause message) l)"

definition writeReply :: "dyn_env \<Rightarrow> bytes \<Rightarrow> string \<Rightarrow> 't listener \<Rightarrow> 't listener \<times> goerr option" where
  "writeReply env encoded remote l =
     (case de_resolve env remote of
        Inl err \<Rightarrow> (l, Some (Wrap (''resolve '' @ remote @ '': '') err ''''))
      | Inr addr \<Rightarrow>
          (case de_write env of
             Some err \<Rightarrow> (l, Some err)
           | None \<Rightarrow> (l\<lparr>ln_sent := ln_sent l @ [(encoded, addr)]\<rparr>, None)))"

section \<open>Refusals\<close>

definition respondCoANak :: "clock \<Rightarrow> dyn_env \<Rightarrow> packet \<Rightarrow> int \<Rightarrow> string \<Rightarrow> u32 \<Rightarrow> tag_map \<Rightarrow> string \<Rightarrow>
    't listener \<Rightarrow> 't listener" where
  "respondCoANak clk env pkt recvAt remote cause tags reason l =
     (let tags' = tags(''nak_reason'' \<mapsto> reason) in
      case NewCoANak (Some pkt) (ln_secret l) cause [] of
        Inl err \<Rightarrow> internal_error clk 0 recvAt (sint cause) (''server: build CoA-NAK: '' @ err_msg err) l
      | Inr nak \<Rightarrow>
       (case snd (Encode nak (de_rnd env)) of
          Inl err \<Rightarrow> internal_error clk 0 recvAt (sint cause) (''server: encode CoA-NAK: '' @ err_msg err) l
        | Inr encoded \<Rightarrow>
         (case writeReply env encoded remote l of
            (l1, Some err) \<Rightarrow>
              internal_error clk 0 recvAt (sint cause) (''server: write CoA-NAK to '' @ remote @ '': '' @ err_msg err) l1
          | (l1, None) \<Rightarrow>
              (let l2 = ln_submit clk (coaEvent l1 0 recvAt EventTypeCoANaked pkt remote (int (length encoded))
                     (de_latencyUs env) (sint cause) tags') l1
               in l2\<lparr>ln_naked := ln_naked l2 + 1\<rparr>))))"

definition respondDisconnectNak :: "clock \<Rightarrow> dyn_env \<Rightarrow> packet \<Rightarrow> int \<Rightarrow> string \<Rightarrow> u32 \<Rightarrow> tag_map \<Rightarrow> string \<Rightarrow>
    't listener \<Rightarrow> 't listener" where
  "respondDisconnectNak clk env pkt recvAt remote cause tags reason l =
     (let tags' = tags(''nak_reason'' \<mapsto> reason) in
      case NewDisconnectNak (Some pkt) (ln_secret l) cause [] of
        Inl err \<Rightarrow> internal_error clk 0 recvAt (sint cause) (''server: build Disconnect-NAK: '' @ err_msg err) l
      | Inr nak \<Rightarrow>
       (case snd (Encode nak (de_rnd env)) of
          Inl err \<Rightarrow> internal_error clk 0 recvAt (sint cause) (''server: encode Disconnect-NAK: '' @ err_msg err) l
        | Inr encoded \<Rightarrow>
         (case writeReply env encoded remote l of
            (l1, Some err) \<Rightarrow>
              internal_error clk 0 recvAt (sint cause)
                (''server: write Disconnect-NAK to '' @ remote @ '': '' @ err_msg err) l1
          | (l1, None) \<Rightarrow>
              (let l2 = ln_submit clk (disconnectEvent l1 0 recvAt EventTypeDisconnectNaked pkt remote (int (length encoded))
                     (de_latencyUs env) (sint cause) tags') l1
               in l2\<lparr>ln_naked := ln_naked l2 + 1\<rparr>))))"

section \<open>CoA-Request and Disconnect-Request\<close>

definition handleCoA :: "clock \<Rightarrow> 't lookup_iface \<Rightarrow> dyn_env \<Rightarrow> packet \<Rightarrow> bytes \<Rightarrow> string \<Rightarrow> int \<Rightarrow> 't listener \<Rightarrow> 't listener" where
  "handleCoA clk lk env pkt wire remote recvAt l =
     (if \<not> ValidateMessageAuthenticator pkt wire (ln_secret l)
      then ln_drop (ln_submit clk (coaEvent l 0 recvAt EventTypeCoADropped pkt remote (int (length wire)) 0 0
             [''drop_reason'' \<mapsto> ''invalid_message_authenticator'']) l)
      else
        (let (tags0, vsaErr) = vsaTags pkt; tags = tags0 ++ standardTags pkt;
             l1 = ln_submit clk (coaEvent l 0 recvAt EventTypeCoAReceived pkt remote (int (length wire)) 0 0 (copyTags tags)) l
         in case vsaErr of
            Some err \<Rightarrow> respondCoANak clk env pkt recvAt remote ErrorCauseUnsupportedAttribute tags (err_msg err) l1
          | None \<Rightarrow>
           (case lk_Lookup lk pkt of
              None \<Rightarrow> respondCoANak clk env pkt recvAt remote ErrorCauseSessionContextNotFound tags ''subscriber not found'' l1
            | Some target \<Rightarrow>
               (let tags' = tags(''sub_id'' \<mapsto> dec (unat (lk_ID lk target)), ''username'' \<mapsto> lk_Username lk target) in
                case NewCoAAck (Some pkt) (ln_secret l1) [] of
                  Inl err \<Rightarrow> internal_error clk (lk_ID lk target) recvAt 0 (''server: build CoA-ACK: '' @ err_msg err) l1
                | Inr ack \<Rightarrow>
                 (case snd (Encode ack (de_rnd env)) of
                    Inl err \<Rightarrow> internal_error clk (lk_ID lk target) recvAt 0 (''server: encode CoA-ACK: '' @ err_msg err) l1
                  | Inr encoded \<Rightarrow>
                   (case writeReply env encoded remote l1 of
                      (l2, Some err) \<Rightarrow> internal_error clk (lk_ID lk target) recvAt 0
                        (''server: write CoA-ACK to '' @ remote @ '': '' @ err_msg err) l2
                    | (l2, None) \<Rightarrow>
                        (let l3 = ln_submit clk (coaEvent l2 (lk_ID lk target) recvAt EventTypeCoAAcked pkt remote
                               (int (length encoded)) (de_latencyUs env) 0 tags') l2
                         in l3\<lparr>ln_acked := ln_acked l3 + 1, ln_calls := ln_calls l3 @ [CallCoA target pkt]\<rparr>)))))))"

definition handleDisconnect :: "clock \<Rightarrow> 't lookup_iface \<Rightarrow> dyn_env \<Rightarrow> packet \<Rightarrow> bytes \<Rightarrow> string \<Rightarrow> int \<Rightarrow> 't listener \<Rightarrow>
    't listener" where
  "handleDisconnect clk lk env pkt wire remote recvAt l =
     (if \<not> ValidateMessageAuthenticator pkt wire (ln_secret l)
      then ln_drop (ln_submit clk (disconnectEvent l 0 recvAt EventTypeCoADropped pkt remote (int (length wire)) 0 0
             [''drop_reason'' \<mapsto> ''invalid_message_authenticator'']) l)
      else
        (let (tags0, vsaErr) = vsaTags pkt; tags = tags0 ++ standardTags pkt;
             l1 = ln_submit clk (disconnectEvent l 0 recvAt EventTypeDisconnectReceived pkt remote (int (length wire)) 0 0
               (copyTags tags)) l
         in case vsaErr of
            Some err \<Rightarrow> respondDisconnectNak clk env pkt recvAt remote ErrorCauseUnsupportedAttribute tags (err_msg err) l1
          | None \<Rightarrow>
           (case lk_Lookup lk pkt of
              None \<Rightarrow> respondDisconnectNak clk env pkt recvAt remote ErrorCauseSessionContextNotFound tags
                ''subscriber not found'' l1
            | Some target \<Rightarrow>
               (let tags' = tags(''sub_id'' \<mapsto> dec (unat (lk_ID lk target)), ''username'' \<mapsto> lk_Username lk target) in
                case NewDisconnectAck (Some pkt) (ln_secret l1) [] of
                  Inl err \<Rightarrow>
                    internal_error clk (lk_ID lk target) recvAt 0 (''server: build Disconnect-ACK: '' @ err_msg err) l1
                | Inr ack \<Rightarrow>
                 (case snd (Encode ack (de_rnd env)) of
                    Inl err \<Rightarrow>
                      internal_error clk (lk_ID lk target) recvAt 0 (''server: encode Disconnect-ACK: '' @ err_msg err) l1
                  | Inr encoded \<Rightarrow>
                   (case writeReply env encoded remote l1 of
                      (l2, Some err) \<Rightarrow> internal_error clk (lk_ID lk target) recvAt 0
                        (''server: write Disconnect-ACK to '' @ remote @ '': '' @ err_msg err) l2
                    | (l2, None) \<Rightarrow>
                        (let l3 = ln_submit clk (disconnectEvent l2 (lk_ID lk target) recvAt EventTypeDisconnectAcked pkt remote
                               (int (length encoded)) (de_latencyUs env) 0 tags') l2
                         in l3\<lparr>ln_acked := ln_acked l3 + 1, ln_calls := ln_calls l3 @ [CallDisconnect target pkt]\<rparr>)))))))"

section \<open>One datagram\<close>

definition handlePacket :: "clock \<Rightarrow> 't lookup_iface \<Rightarrow> dyn_env \<Rightarrow> bytes \<Rightarrow> string \<Rightarrow> int \<Rightarrow> 't listener \<Rightarrow> 't listener" where
  "handlePacket clk lk env wire remote recvAt l =
     (case Decode wire (ln_secret l) of
        Inl err \<Rightarrow> ln_drop (ln_submit clk (\<lambda>st. NewError st 0 (ln_offsetMs l recvAt) EventTypeValidationFailed 0
            (''server: decode packet from '' @ remote @ '': '' @ err_msg err)) l)
      | Inr pkt \<Rightarrow>
          if Code pkt = CodeCoARequest then handleCoA clk lk env pkt wire remote recvAt l
          else if Code pkt = CodeDisconnectRequest then handleDisconnect clk lk env pkt wire remote recvAt l
          else ln_drop (ln_submit clk (\<lambda>st. NewError st 0 (ln_offsetMs l recvAt) EventTypeValidationFailed 0
            (''server: unexpected code '' @ code_String (Code pkt) @ '' from '' @ remote)) l))"

section \<open>The life of a listener\<close>

definition ErrBindAddressRequired :: goerr where
  "ErrBindAddressRequired = Sentinel ''server: BindAddress is required''"
definition ErrSecretRequired :: goerr where
  "ErrSecretRequired = Sentinel ''server: SharedSecret is required''"
definition ErrLookupRequired :: goerr where
  "ErrLookupRequired = Sentinel ''server: Lookup is required''"
definition ErrCollectorRequired :: goerr where
  "ErrCollectorRequired = Sentinel ''server: Collector is required''"
definition server_ErrAlreadyStarted :: goerr where
  "server_ErrAlreadyStarted = Sentinel ''server: listener already started''"
definition ErrAlreadyStopped :: goerr where
  "ErrAlreadyStopped = Sentinel ''server: listener already stopped''"

text \<open>The options; \<open>lo_Lookup\<close> and \<open>lo_Collector\<close> say whether the interface is present.\<close>

record listener_opts =
  lo_BindAddress :: string
  lo_SharedSecret :: bytes
  lo_Lookup :: bool
  lo_Collector :: bool
  lo_ReaderCount :: int
  lo_TestT0 :: "int option"

text \<open>\<open>listen\<close> binds a socket and delivers its local address.\<close>

definition server_New :: "(string \<Rightarrow> udp_addr res) \<Rightarrow> (udp_addr \<Rightarrow> udp_addr res) \<Rightarrow> int \<Rightarrow> int \<Rightarrow> listener_opts \<Rightarrow>
    't listener res" where
  "server_New resolve listen numCPU now opts =
     (if lo_BindAddress opts = [] then Inl ErrBindAddressRequired
      else if lo_SharedSecret opts = [] then Inl ErrSecretRequired
      else if \<not> lo_Lookup opts then Inl ErrLookupRequired
      else if \<not> lo_Collector opts then Inl ErrCollectorRequired
      else let readers = (if lo_ReaderCount opts \<le> 0 then numCPU else lo_ReaderCount opts) in
        case resolve (lo_BindAddress opts) of
          Inl err \<Rightarrow> Inl (Wrap (''server: resolve bind address '' @ lo_BindAddress opts @ '': '') err '''')
        | Inr udpAddr \<Rightarrow>
          (case listen udpAddr of
             Inl err \<Rightarrow> Inl (Wrap (''server: listen on '' @ lo_BindAddress opts @ '': '') err '''')
           | Inr conn \<Rightarrow> Inr \<lparr>ln_secret = lo_SharedSecret opts, ln_localAddr = udp_addr_string conn,
               ln_t0 = (case lo_TestT0 opts of None \<Rightarrow> now | Some t0 \<Rightarrow> t0), ln_received = 0, ln_acked = 0,
               ln_naked = 0, ln_dropped = 0, ln_events = [], ln_sent = [], ln_calls = [],
               ln_readerCount = readers, ln_started = False, ln_stopped = False\<rparr>))"

definition server_Start :: "'t listener \<Rightarrow> 't listener \<times> goerr option" where
  "server_Start l = (if ln_started l then (l, Some server_ErrAlreadyStarted) else (l\<lparr>ln_started := True\<rparr>, None))"

text \<open>\<open>wait\<close> is the context's error when it ended before the readers did.\<close>

definition server_Stop :: "goerr option \<Rightarrow> 't listener \<Rightarrow> 't listener \<times> goerr option" where
  "server_Stop wait l =
     (if ln_stopped l then (l, Some ErrAlreadyStopped)
      else (l\<lparr>ln_stopped := True\<rparr>, map_option (\<lambda>e. Wrap ''server: stop wait: '' e '''') wait))"

text \<open>
  One reader: the flag seen stopped at the top of the loop, a failed read (whether the
  socket is closed or the listener stopped, and whether the context has ended), or a datagram, of
  which the buffer takes 4096 bytes.
\<close>

datatype read_item =
    StopSeen
  | ReadFailed bool bool
  | ReadData bytes string int dyn_env

fun readLoop :: "clock \<Rightarrow> 't lookup_iface \<Rightarrow> read_item list \<Rightarrow> 't listener \<Rightarrow> 't listener" where
  "readLoop clk lk [] l = l"
| "readLoop clk lk (StopSeen # items) l = l"
| "readLoop clk lk (ReadFailed gone ctxDone # items) l =
     (if gone then l else if ctxDone then l else readLoop clk lk items l)"
| "readLoop clk lk (ReadData wire remote recvAt env # items) l =
     (if wire = [] then readLoop clk lk items l
      else readLoop clk lk items
        (handlePacket clk lk env (take 4096 wire) remote recvAt (l\<lparr>ln_received := ln_received l + 1\<rparr>)))"

end
