(* ===== verification/Server_Props.thy ===== *)
theory Server_Props
  imports Server_Handler
begin

text \<open>
  The listener's handlers: the two are instances of one scheme, every reply they write is determined up
  to its digests, and each datagram has exactly one of three effects. The read loop and
  the life cycle of the listener follow.
\<close>

section \<open>One scheme for both handlers\<close>

record 't scheme =
  sm_ack :: "packet option \<Rightarrow> bytes \<Rightarrow> attribute list \<Rightarrow> packet res"
  sm_nak :: "packet option \<Rightarrow> bytes \<Rightarrow> u32 \<Rightarrow> attribute list \<Rightarrow> packet res"
  sm_event :: "'t listener \<Rightarrow> u32 \<Rightarrow> int \<Rightarrow> string \<Rightarrow> packet \<Rightarrow> string \<Rightarrow> int \<Rightarrow> int \<Rightarrow> int \<Rightarrow> tag_map \<Rightarrow> stamp \<Rightarrow> event"
  sm_received :: string
  sm_acked :: string
  sm_naked :: string
  sm_name :: string
  sm_call :: "'t \<Rightarrow> packet \<Rightarrow> 't dyn_call"

definition coa_scheme :: "'t scheme" where
  "coa_scheme = \<lparr>sm_ack = NewCoAAck, sm_nak = NewCoANak, sm_event = coaEvent, sm_received = EventTypeCoAReceived,
     sm_acked = EventTypeCoAAcked, sm_naked = EventTypeCoANaked, sm_name = ''CoA'', sm_call = CallCoA\<rparr>"

definition disconnect_scheme :: "'t scheme" where
  "disconnect_scheme = \<lparr>sm_ack = NewDisconnectAck, sm_nak = NewDisconnectNak, sm_event = disconnectEvent,
     sm_received = EventTypeDisconnectReceived, sm_acked = EventTypeDisconnectAcked,
     sm_naked = EventTypeDisconnectNaked, sm_name = ''Disconnect'', sm_call = CallDisconnect\<rparr>"

text \<open>Building, encoding and writing a reply, then \<open>done\<close>.\<close>

definition send_reply :: "clock \<Rightarrow> dyn_env \<Rightarrow> u32 \<Rightarrow> int \<Rightarrow> int \<Rightarrow> string \<Rightarrow> string \<Rightarrow> packet res \<Rightarrow>
    ('t listener \<Rightarrow> bytes \<Rightarrow> 't listener) \<Rightarrow> 't listener \<Rightarrow> 't listener" where
  "send_reply clk env subID cause recvAt remote name built fin l =
     (case built of
        Inl err \<Rightarrow> internal_error clk subID recvAt cause (''server: build '' @ name @ '': '' @ err_msg err) l
      | Inr reply \<Rightarrow>
       (case snd (Encode reply (de_rnd env)) of
          Inl err \<Rightarrow> internal_error clk subID recvAt cause (''server: encode '' @ name @ '': '' @ err_msg err) l
        | Inr encoded \<Rightarrow>
         (case writeReply env encoded remote l of
            (l2, Some err) \<Rightarrow> internal_error clk subID recvAt cause
              (''server: write '' @ name @ '' to '' @ remote @ '': '' @ err_msg err) l2
          | (l2, None) \<Rightarrow> fin l2 encoded)))"

definition scheme_nak :: "'t scheme \<Rightarrow> clock \<Rightarrow> dyn_env \<Rightarrow> packet \<Rightarrow> int \<Rightarrow> string \<Rightarrow> u32 \<Rightarrow> tag_map \<Rightarrow> string \<Rightarrow>
    't listener \<Rightarrow> 't listener" where
  "scheme_nak sm clk env pkt recvAt remote cause tags reason l =
     send_reply clk env 0 (sint cause) recvAt remote (sm_name sm @ ''-NAK'') (sm_nak sm (Some pkt) (ln_secret l) cause [])
       (\<lambda>l1 encoded. let l2 = ln_submit clk (sm_event sm l1 0 recvAt (sm_naked sm) pkt remote (int (length encoded))
            (de_latencyUs env) (sint cause) (tags(''nak_reason'' \<mapsto> reason))) l1
          in l2\<lparr>ln_naked := ln_naked l2 + 1\<rparr>) l"

definition scheme_handle :: "'t scheme \<Rightarrow> clock \<Rightarrow> 't lookup_iface \<Rightarrow> dyn_env \<Rightarrow> packet \<Rightarrow> bytes \<Rightarrow> string \<Rightarrow> int \<Rightarrow>
    't listener \<Rightarrow> 't listener" where
  "scheme_handle sm clk lk env pkt wire remote recvAt l =
     (if \<not> ValidateMessageAuthenticator pkt wire (ln_secret l)
      then ln_drop (ln_submit clk (sm_event sm l 0 recvAt EventTypeCoADropped pkt remote (int (length wire)) 0 0
             [''drop_reason'' \<mapsto> ''invalid_message_authenticator'']) l)
      else
        (let (tags0, vsaErr) = vsaTags pkt; tags = tags0 ++ standardTags pkt;
             l1 = ln_submit clk (sm_event sm l 0 recvAt (sm_received sm) pkt remote (int (length wire)) 0 0
               (copyTags tags)) l
         in case vsaErr of
            Some err \<Rightarrow> scheme_nak sm clk env pkt recvAt remote ErrorCauseUnsupportedAttribute tags (err_msg err) l1
          | None \<Rightarrow>
           (case lk_Lookup lk pkt of
              None \<Rightarrow> scheme_nak sm clk env pkt recvAt remote ErrorCauseSessionContextNotFound tags
                ''subscriber not found'' l1
            | Some target \<Rightarrow>
                send_reply clk env (lk_ID lk target) 0 recvAt remote (sm_name sm @ ''-ACK'')
                  (sm_ack sm (Some pkt) (ln_secret l1) [])
                  (\<lambda>l2 encoded. let l3 = ln_submit clk (sm_event sm l2 (lk_ID lk target) recvAt (sm_acked sm) pkt remote
                       (int (length encoded)) (de_latencyUs env) 0
                       (tags(''sub_id'' \<mapsto> dec (unat (lk_ID lk target)), ''username'' \<mapsto> lk_Username lk target))) l2
                     in l3\<lparr>ln_acked := ln_acked l3 + 1, ln_calls := ln_calls l3 @ [sm_call sm target pkt]\<rparr>) l1)))"

lemma handleCoA_scheme: "handleCoA = scheme_handle coa_scheme"
  unfolding fun_eq_iff handleCoA_def scheme_handle_def respondCoANak_def scheme_nak_def send_reply_def coa_scheme_def
    Let_def scheme.simps append.simps by (intro allI refl)

lemma handleDisconnect_scheme: "handleDisconnect = scheme_handle disconnect_scheme"
  unfolding fun_eq_iff handleDisconnect_def scheme_handle_def respondDisconnectNak_def scheme_nak_def send_reply_def
    disconnect_scheme_def Let_def scheme.simps append.simps by (intro allI refl)

section \<open>The replies\<close>

text \<open>The attributes with the value of each Message-Authenticator zeroed, and the digest RFC 2865 prescribes for
  the Response Authenticator of a reply, over a list of attributes.\<close>

definition zero_ma :: "attribute list \<Rightarrow> attribute list" where
  "zero_ma as = map (\<lambda>a. if AType a = AttrMessageAuthenticator then a\<lparr>AValue := replicate 16 0\<rparr> else a) as"

definition response_digest :: "bytes \<Rightarrow> code \<Rightarrow> packet \<Rightarrow> attribute list \<Rightarrow> bytes" where
  "response_digest secret c pkt as = ComputeResponseAuthenticator c (Identifier pkt)
     (word_of_nat (20 + length (attrs_wire as))) (Authenticator pkt) (attrs_wire as) secret"

text \<open>
  What the listener sends as reply \<open>c\<close> to \<open>pkt\<close>: it decodes to all of its bytes, answers the identifier, holds the
  Error-Cause of a refusal and a Message-Authenticator that validates, and its Response Authenticator
  is the digest over the attributes before the Message-Authenticator was filled in.
\<close>

definition reply_as_sent :: "bytes \<Rightarrow> code \<Rightarrow> packet \<Rightarrow> u32 option \<Rightarrow> bytes \<Rightarrow> bool" where
  "reply_as_sent secret c pkt cause w \<longleftrightarrow> (case Decode w secret of
       Inl _ \<Rightarrow> False
     | Inr q \<Rightarrow> w = packet_wire q \<and> Code q = c \<and> Identifier q = Identifier pkt
         \<and> map AType (Attributes q) = (if cause = None then [] else [AttrErrorCause]) @ [AttrMessageAuthenticator]
         \<and> attr_GetUint32 (Attributes q) AttrErrorCause = cause
         \<and> ValidateMessageAuthenticator q w secret
         \<and> Authenticator q = response_digest secret c pkt (zero_ma (Attributes q)))"

lemma Encode_zero_ma:
  assumes "Encode p rnd = (p', Inr w)" "wf_packet p" "\<forall>a. rnd = Inr a \<longrightarrow> length a = 16"
  shows "zero_ma (Attributes p') = zero_ma (Attributes p)"
proof -
  from Encode_InrE [OF assms(1-3)] obtain q where
    q: "q = p\<lparr>Authenticator := Authenticator q\<rparr>" "length (Authenticator q) = 16" and
    ma: "encode_ma q (header (Code q) (Identifier q) (word_of_nat (20 + length (attrs_wire (Attributes q))))
       (Authenticator q) @ attrs_wire (Attributes q)) = (p', Inr w)"
    by metis
  have same: "Attributes q = Attributes p" by (subst q(1), simp)
  have "length (header (Code q) (Identifier q) (word_of_nat (20 + length (attrs_wire (Attributes q))))
       (Authenticator q)) = 20" using q(2) by simp
  with ma show ?thesis
  proof (cases rule: encode_ma_cases)
    case (mac xs a ys mac)
    show ?thesis using mac(3) unfolding same [symmetric] mac(1,6) by (simp add: zero_ma_def)
  qed (simp_all add: same)
qed

text \<open>A client that checks such a reply against its request accepts it iff the digest over the attributes it
  received is the one the listener computed.\<close>

lemma reply_as_sent_verdict:
  assumes "reply_as_sent secret c pkt cause w" "IsResponse c"
  shows "\<exists>q. Decode w secret = Inr q \<and> ValidateResponseAuthenticator q (Authenticator pkt) secret w spare =
    Some (response_digest secret c pkt (Attributes q) = response_digest secret c pkt (zero_ma (Attributes q)))"
proof -
  obtain q where q: "Decode w secret = Inr q" "w = packet_wire q" "Code q = c" "Identifier q = Identifier pkt"
    "Authenticator q = response_digest secret c pkt (zero_ma (Attributes q))"
    using assms(1) by (auto simp: reply_as_sent_def split: sum.splits)
  have ok: "wire_ok q" using Decode_InrD [OF q(1)] by simp
  then have "length (packet_wire q) = 20 + length (attrs_wire (Attributes q))"
    using length_packet_wire [of q] by (simp add: wire_ok_def)
  then show ?thesis
    using ValidateResponse_packet_wire [OF ok, of "Authenticator pkt" secret spare] assms(2) q
    by (auto simp: response_digest_def)
qed

lemma Encode_rnd_irrelevant: "Code p \<noteq> CodeAccessRequest \<Longrightarrow> Encode p rnd = Encode p rnd'"
proof -
  assume "Code p \<noteq> CodeAccessRequest"
  then have "encode_auth p rnd len body = encode_auth p rnd' len body" for len body
    by (simp add: encode_auth_def)
  then have eq: "encode_auth p rnd = encode_auth p rnd'" by (simp add: fun_eq_iff)
  show ?thesis unfolding Encode_def eq ..
qed

lemma built_reply_encodes:
  assumes p: "p = \<lparr>Code = c, Identifier = Identifier pkt, Authenticator = zero16,
      Attributes = extra @ [\<lparr>AType = AttrMessageAuthenticator, AValue = replicate 16 0\<rparr>],
      RequestAuthenticator = Authenticator pkt, Secret = secret\<rparr>"
    and extra: "extra = [] \<and> cause = None \<or> (\<exists>e. extra = [\<lparr>AType = AttrErrorCause, AValue = put32 e\<rparr>] \<and> cause = Some e)"
    and ok: "IsResponse c" "c \<noteq> CodeAccessRequest" "secret \<noteq> []" "length (Authenticator pkt) = 16"
  shows "\<exists>w. snd (Encode p rnd) = Inr w \<and> reply_as_sent secret c pkt cause w"
proof -
  have wf: "wf_packet p" by (simp add: p ok wf_packet_def)
  have r0: "\<forall>a. Inr zero16 = Inr a \<longrightarrow> length a = 16" by simp
  have e0: "Encode p rnd = Encode p (Inr zero16)" by (rule Encode_rnd_irrelevant) (simp add: p ok)
  have ma: "maAttrIndex (Attributes p) = Some (length extra)"
    unfolding p packet.simps by (rule maAttrIndex_skip) (use extra in auto)
  have "encodable p (Inr zero16)"
    using extra ok ma by (auto simp: encodable_def p MaxAttributeValueLength_def MaxPacketLength_def
        MessageAuthenticatorLength_def)
  with Encode_Inr_iff [OF wf r0] obtain p' w where enc: "Encode p (Inr zero16) = (p', Inr w)" by blast
  note E = Encode_ok [OF enc wf r0]
  have "length (packet_wire p') + length ([] :: bytes) \<le> MaxPacketLength"
    using E(2) length_packet_wire [of p'] by (simp add: wire_ok_def)
  from Decode_wire [OF E(2) this, of secret]
  have dec: "Decode w secret = Inr (p'\<lparr>RequestAuthenticator := zero16, Secret := secret\<rparr>)"
    unfolding E(3) by simp
  have fields: "Code p' = c" "Identifier p' = Identifier pkt" by (subst E(1), simp add: p)+
  have "maAttrIndex (Attributes p) \<noteq> None" using ma by simp
  from Encode_validates_ma [OF enc wf r0 this, of "p'\<lparr>RequestAuthenticator := zero16, Secret := secret\<rparr>"]
  have val: "ValidateMessageAuthenticator (p'\<lparr>RequestAuthenticator := zero16, Secret := secret\<rparr>) w secret"
    by (simp add: p)
  have "attr_Get (Attributes p') AttrErrorCause = attr_Get (Attributes p) AttrErrorCause"
    by (rule Encode_attr_Get [OF enc wf r0]) simp
  then have "attr_GetUint32 (Attributes p') AttrErrorCause = cause"
    using extra by (auto simp: attr_GetUint32_def p)
  moreover have "map AType (Attributes p') = (if cause = None then [] else [AttrErrorCause]) @ [AttrMessageAuthenticator]"
    using E(4) extra by (auto simp: p)
  moreover have z: "zero_ma (Attributes p') = Attributes p"
    using Encode_zero_ma [OF enc wf r0] extra by (auto simp: p zero_ma_def)
  moreover have "length w = 20 + length (attrs_wire (Attributes p))"
    using E(2,3,6) length_packet_wire [of p'] by (simp add: wire_ok_def)
  then have "Authenticator p' = response_digest secret c pkt (zero_ma (Attributes p'))"
    using Encode_authenticator(1) [OF enc wf r0] ok(1) unfolding z by (simp add: response_digest_def p)
  moreover have "w = packet_wire (p'\<lparr>RequestAuthenticator := zero16, Secret := secret\<rparr>)"
    using E(3) by (simp add: packet_wire_def)
  ultimately show ?thesis using dec fields val by (simp add: reply_as_sent_def e0 enc)
qed

lemma ack_encodes:
  assumes "IsResponse c" "c \<noteq> CodeAccessRequest" "secret \<noteq> []" "length (Authenticator pkt) = 16"
  shows "\<exists>p w. newDynAuthAck c (Some pkt) secret [] = Inr p \<and> snd (Encode p rnd) = Inr w
    \<and> reply_as_sent secret c pkt None w"
proof -
  obtain p where p: "newDynAuthAck c (Some pkt) secret [] = Inr p"
    by (auto simp: newDynAuthAck_Inr_iff)
  then have "p = \<lparr>Code = c, Identifier = Identifier pkt, Authenticator = zero16,
      Attributes = [] @ [\<lparr>AType = AttrMessageAuthenticator, AValue = replicate 16 0\<rparr>],
      RequestAuthenticator = Authenticator pkt, Secret = secret\<rparr>"
    by (simp add: newDynAuthAck_Inr_iff)
  from built_reply_encodes [OF this _ assms, of None rnd] p show ?thesis by auto
qed

lemma nak_encodes:
  assumes "IsResponse c" "c \<noteq> CodeAccessRequest" "secret \<noteq> []" "length (Authenticator pkt) = 16"
  shows "\<exists>p w. newDynAuthNak c (Some pkt) secret cause [] = Inr p \<and> snd (Encode p rnd) = Inr w
    \<and> reply_as_sent secret c pkt (Some cause) w"
proof -
  obtain p where p: "newDynAuthNak c (Some pkt) secret cause [] = Inr p"
    by (auto simp: newDynAuthNak_Inr_iff)
  then have "p = \<lparr>Code = c, Identifier = Identifier pkt, Authenticator = zero16,
      Attributes = [\<lparr>AType = AttrErrorCause, AValue = put32 cause\<rparr>]
        @ [\<lparr>AType = AttrMessageAuthenticator, AValue = replicate 16 0\<rparr>],
      RequestAuthenticator = Authenticator pkt, Secret = secret\<rparr>"
    by (simp add: newDynAuthNak_Inr_iff)
  from built_reply_encodes [OF this _ assms, of "Some cause" rnd] p show ?thesis by auto
qed

section \<open>The effect of a datagram\<close>

text \<open>Counters, replies and callbacks after a datagram: refused silently, refused or accepted.\<close>

definition dropped_one :: "'t listener \<Rightarrow> 't listener \<Rightarrow> bool" where
  "dropped_one l l' \<longleftrightarrow> ln_dropped l' = ln_dropped l + 1 \<and> ln_acked l' = ln_acked l \<and> ln_naked l' = ln_naked l
     \<and> ln_sent l' = ln_sent l \<and> ln_calls l' = ln_calls l"

definition naked_one :: "'t listener \<Rightarrow> 't listener \<Rightarrow> bytes \<times> udp_addr \<Rightarrow> bool" where
  "naked_one l l' r \<longleftrightarrow> ln_dropped l' = ln_dropped l \<and> ln_acked l' = ln_acked l \<and> ln_naked l' = ln_naked l + 1
     \<and> ln_sent l' = ln_sent l @ [r] \<and> ln_calls l' = ln_calls l"

definition acked_one :: "'t listener \<Rightarrow> 't listener \<Rightarrow> bytes \<times> udp_addr \<Rightarrow> 't dyn_call \<Rightarrow> bool" where
  "acked_one l l' r c \<longleftrightarrow> ln_dropped l' = ln_dropped l \<and> ln_acked l' = ln_acked l + 1 \<and> ln_naked l' = ln_naked l
     \<and> ln_sent l' = ln_sent l @ [r] \<and> ln_calls l' = ln_calls l @ [c]"

definition same_config :: "'t listener \<Rightarrow> 't listener \<Rightarrow> bool" where
  "same_config l l' \<longleftrightarrow> ln_secret l' = ln_secret l \<and> ln_t0 l' = ln_t0 l \<and> ln_localAddr l' = ln_localAddr l
     \<and> ln_received l' = ln_received l"

lemmas effect_defs = dropped_one_def naked_one_def acked_one_def same_config_def

text \<open>Where a reply can be delivered.\<close>

definition deliverable :: "dyn_env \<Rightarrow> string \<Rightarrow> udp_addr \<Rightarrow> bool" where
  "deliverable env remote a \<longleftrightarrow> de_resolve env remote = Inr a \<and> de_write env = None"

lemma internal_error_effect:
  "dropped_one l (internal_error clk i rcv c m l) \<and> same_config l (internal_error clk i rcv c m l)"
  by (simp add: internal_error_def ln_drop_def ln_submit_def effect_defs)

lemma writeReply_cases:
  obtains (sent) a where "deliverable env remote a" "writeReply env w remote l = (l\<lparr>ln_sent := ln_sent l @ [(w, a)]\<rparr>, None)"
  | (failed) err where "writeReply env w remote l = (l, Some err)" "\<nexists>a. deliverable env remote a"
  by (cases "de_resolve env remote"; cases "de_write env") (auto simp: writeReply_def deliverable_def)

lemma send_reply_effect:
  assumes "built = Inr p" "snd (Encode p (de_rnd env)) = Inr w"
  shows "(\<exists>a. deliverable env remote a
        \<and> send_reply clk env i c rcv remote name built fin l = fin (l\<lparr>ln_sent := ln_sent l @ [(w, a)]\<rparr>) w)
    \<or> (\<nexists>a. deliverable env remote a) \<and> dropped_one l (send_reply clk env i c rcv remote name built fin l)
        \<and> same_config l (send_reply clk env i c rcv remote name built fin l)"
proof (cases rule: writeReply_cases [of env remote w l])
  case (sent a)
  with assms have "send_reply clk env i c rcv remote name built fin l = fin (l\<lparr>ln_sent := ln_sent l @ [(w, a)]\<rparr>) w"
    by (simp add: send_reply_def)
  with sent(1) show ?thesis by blast
next
  case (failed err)
  with assms show ?thesis by (simp add: send_reply_def internal_error_effect)
qed

text \<open>What the handler of a scheme with proper constructors does.\<close>

definition scheme_codes :: "'t scheme \<Rightarrow> code \<Rightarrow> code \<Rightarrow> bool" where
  "scheme_codes sm a n \<longleftrightarrow> sm_ack sm = newDynAuthAck a \<and> sm_nak sm = newDynAuthNak n
     \<and> IsResponse a \<and> IsResponse n \<and> a \<noteq> CodeAccessRequest \<and> n \<noteq> CodeAccessRequest"

lemma schemes_ok:
  "scheme_codes coa_scheme CodeCoAACK CodeCoANAK"
  "scheme_codes disconnect_scheme CodeDisconnectACK CodeDisconnectNAK"
  by (simp_all add: scheme_codes_def coa_scheme_def disconnect_scheme_def fun_eq_iff NewCoAAck_def NewCoANak_def
      NewDisconnectAck_def NewDisconnectNak_def IsResponse_def)

text \<open>The reason a request is refused, if it is.\<close>

definition refusal :: "'t lookup_iface \<Rightarrow> packet \<Rightarrow> u32 option" where
  "refusal lk pkt = (if snd (vsaTags pkt) \<noteq> None then Some ErrorCauseUnsupportedAttribute
     else if lk_Lookup lk pkt = None then Some ErrorCauseSessionContextNotFound else None)"

lemma scheme_nak_effect:
  assumes "scheme_codes sm a n" "ln_secret l \<noteq> []" "length (Authenticator pkt) = 16"
  shows "same_config l (scheme_nak sm clk env pkt rcv remote cause tags reason l)
    \<and> ((\<exists>w d. deliverable env remote d \<and> reply_as_sent (ln_secret l) n pkt (Some cause) w
          \<and> naked_one l (scheme_nak sm clk env pkt rcv remote cause tags reason l) (w, d))
      \<or> (\<nexists>d. deliverable env remote d) \<and> dropped_one l (scheme_nak sm clk env pkt rcv remote cause tags reason l))"
proof -
  obtain p w where "sm_nak sm (Some pkt) (ln_secret l) cause [] = Inr p" "snd (Encode p (de_rnd env)) = Inr w"
      "reply_as_sent (ln_secret l) n pkt (Some cause) w"
    using nak_encodes [of n "ln_secret l" pkt cause "de_rnd env"] assms by (auto simp: scheme_codes_def)
  note pw = this
  define fin where "fin = (\<lambda>l1 (encoded :: bytes). let l2 = ln_submit clk (sm_event sm l1 0 rcv (sm_naked sm) pkt remote
       (int (length encoded)) (de_latencyUs env) (sint cause) (tags(''nak_reason'' \<mapsto> reason))) l1
     in l2\<lparr>ln_naked := ln_naked l2 + 1\<rparr>)"
  have l': "scheme_nak sm clk env pkt rcv remote cause tags reason l = send_reply clk env 0 (sint cause) rcv remote
      (sm_name sm @ ''-NAK'') (sm_nak sm (Some pkt) (ln_secret l) cause []) fin l"
    by (simp add: scheme_nak_def fin_def)
  from send_reply_effect [OF pw(1,2), of remote clk 0 "sint cause" rcv "sm_name sm @ ''-NAK''" fin l]
  show ?thesis
  proof (elim disjE exE conjE, goal_cases)
    case (1 d)
    have "naked_one l (scheme_nak sm clk env pkt rcv remote cause tags reason l) (w, d)
        \<and> same_config l (scheme_nak sm clk env pkt rcv remote cause tags reason l)"
      unfolding l' 1(2) by (simp add: fin_def Let_def ln_submit_def effect_defs)
    with 1(1) pw(3) show ?thesis by blast
  qed (simp add: l')
qed

lemma scheme_handle_effect:
  assumes "scheme_codes sm a n" "ln_secret l \<noteq> []" "length (Authenticator pkt) = 16"
    "l' = scheme_handle sm clk lk env pkt wire remote rcv l"
  shows "same_config l l'
    \<and> (if \<not> ValidateMessageAuthenticator pkt wire (ln_secret l) \<or> (\<nexists>d. deliverable env remote d)
       then dropped_one l l'
       else \<exists>w d. deliverable env remote d
         \<and> reply_as_sent (ln_secret l) (if refusal lk pkt = None then a else n) pkt (refusal lk pkt) w
         \<and> (if refusal lk pkt = None then acked_one l l' (w, d) (sm_call sm (the (lk_Lookup lk pkt)) pkt)
            else naked_one l l' (w, d)))"
proof (cases "ValidateMessageAuthenticator pkt wire (ln_secret l)")
  case False
  with assms(4) show ?thesis by (simp add: scheme_handle_def ln_drop_def ln_submit_def effect_defs)
next
  case True
  obtain tags0 ve where v: "vsaTags pkt = (tags0, ve)" by fastforce
  define tags where "tags = tags0 ++ standardTags pkt"
  define l1 where "l1 = ln_submit clk (sm_event sm l 0 rcv (sm_received sm) pkt remote (int (length wire)) 0 0 (copyTags tags)) l"
  have l1: "ln_secret l1 = ln_secret l" "ln_t0 l1 = ln_t0 l" "ln_localAddr l1 = ln_localAddr l" "ln_received l1 = ln_received l"
    "ln_dropped l1 = ln_dropped l" "ln_acked l1 = ln_acked l"
    "ln_naked l1 = ln_naked l" "ln_sent l1 = ln_sent l" "ln_calls l1 = ln_calls l"
    by (simp_all add: l1_def ln_submit_def)
  note lift = l1 effect_defs
  show ?thesis
  proof (cases "ve \<noteq> None \<or> lk_Lookup lk pkt = None")
    case refused: True
    then obtain cause reason where r: "refusal lk pkt = Some cause"
        "l' = scheme_nak sm clk env pkt rcv remote cause tags reason l1"
      using assms(4) True v by (cases ve) (auto simp: scheme_handle_def refusal_def Let_def tags_def l1_def)
    have "same_config l1 l' \<and> ((\<exists>w d. deliverable env remote d \<and> reply_as_sent (ln_secret l1) n pkt (Some cause) w
          \<and> naked_one l1 l' (w, d)) \<or> (\<nexists>d. deliverable env remote d) \<and> dropped_one l1 l')"
      unfolding r(2) by (rule scheme_nak_effect [OF assms(1)]) (use l1 assms in auto)
    then show ?thesis
      using True r(1) by (auto simp: lift simp del: split_paired_Ex)
  next
    case False
    then obtain t where t: "lk_Lookup lk pkt = Some t" "ve = None" by auto
    obtain p w where pw: "sm_ack sm (Some pkt) (ln_secret l1) [] = Inr p" "snd (Encode p (de_rnd env)) = Inr w"
        "reply_as_sent (ln_secret l) a pkt None w"
      using ack_encodes [of a "ln_secret l1" pkt "de_rnd env"] assms l1 by (auto simp: scheme_codes_def)
    have ref: "refusal lk pkt = None" using t v by (simp add: refusal_def)
    define fin where "fin = (\<lambda>l2 (encoded :: bytes). let l3 = ln_submit clk (sm_event sm l2 (lk_ID lk t) rcv (sm_acked sm) pkt remote
         (int (length encoded)) (de_latencyUs env) 0
         (tags(''sub_id'' \<mapsto> dec (unat (lk_ID lk t)), ''username'' \<mapsto> lk_Username lk t))) l2
       in l3\<lparr>ln_acked := ln_acked l3 + 1, ln_calls := ln_calls l3 @ [sm_call sm t pkt]\<rparr>)"
    have l': "l' = send_reply clk env (lk_ID lk t) 0 rcv remote (sm_name sm @ ''-ACK'')
        (sm_ack sm (Some pkt) (ln_secret l1) []) fin l1"
      using assms(4) True v t by (simp add: scheme_handle_def Let_def tags_def l1_def fin_def)
    from send_reply_effect [OF pw(1,2), of remote clk "lk_ID lk t" 0 rcv "sm_name sm @ ''-ACK''" fin l1]
    show ?thesis
    proof (elim disjE exE conjE, goal_cases)
      case (1 d)
      have "acked_one l l' (w, d) (sm_call sm t pkt) \<and> same_config l l'"
        unfolding l' 1(2) by (simp add: fin_def Let_def ln_submit_def lift)
      with 1(1) True ref t(1) pw(3) show ?thesis
        by (auto simp: l1 simp del: split_paired_All split_paired_Ex)
    next
      case 2
      then have "dropped_one l l'" "same_config l l'" by (simp_all add: l' lift)
      with 2 show ?thesis by simp
    qed
  qed
qed

lemma decoded_authenticator: "Decode wire secret = Inr pkt \<Longrightarrow> length (Authenticator pkt) = 16"
  using Decode_InrD [of wire secret pkt] by (simp add: wire_ok_def)

text \<open>The reply codes of a request code.\<close>

definition ack_code :: "code \<Rightarrow> code" where
  "ack_code c = (if c = CodeCoARequest then CodeCoAACK else CodeDisconnectACK)"

definition nak_code :: "code \<Rightarrow> code" where
  "nak_code c = (if c = CodeCoARequest then CodeCoANAK else CodeDisconnectNAK)"

lemma reply_codes: "IsResponse (if b then ack_code c else nak_code c)"
  by (simp add: ack_code_def nak_code_def IsResponse_def)

definition call_of :: "code \<Rightarrow> 't \<Rightarrow> packet \<Rightarrow> 't dyn_call" where
  "call_of c = (if c = CodeCoARequest then CallCoA else CallDisconnect)"

definition authentic :: "bytes \<Rightarrow> bytes \<Rightarrow> packet \<Rightarrow> bool" where
  "authentic secret wire pkt \<longleftrightarrow> Decode wire secret = Inr pkt \<and> Code pkt \<in> {CodeCoARequest, CodeDisconnectRequest}
     \<and> ValidateMessageAuthenticator pkt wire secret"

lemma handlePacket_effect:
  assumes "ln_secret l \<noteq> []" "l' = handlePacket clk lk env wire remote rcv l"
  shows "same_config l l'
    \<and> ((\<nexists>pkt. authentic (ln_secret l) wire pkt) \<or> (\<nexists>d. deliverable env remote d) \<longrightarrow> dropped_one l l')
    \<and> (\<forall>pkt. authentic (ln_secret l) wire pkt \<longrightarrow> (\<exists>d. deliverable env remote d) \<longrightarrow>
        (\<exists>w d. deliverable env remote d
         \<and> reply_as_sent (ln_secret l) (if refusal lk pkt = None then ack_code (Code pkt) else nak_code (Code pkt)) pkt
             (refusal lk pkt) w
         \<and> (if refusal lk pkt = None then acked_one l l' (w, d) (call_of (Code pkt) (the (lk_Lookup lk pkt)) pkt)
            else naked_one l l' (w, d))))"
proof (cases "Decode wire (ln_secret l)")
  case (Inl err)
  with assms show ?thesis by (simp add: authentic_def handlePacket_def ln_drop_def ln_submit_def effect_defs)
next
  case (Inr pkt)
  have auth: "length (Authenticator pkt) = 16" using decoded_authenticator [OF Inr] .
  have only: "authentic (ln_secret l) wire q \<longleftrightarrow> q = pkt \<and> Code pkt \<in> {CodeCoARequest, CodeDisconnectRequest}
     \<and> ValidateMessageAuthenticator pkt wire (ln_secret l)" for q
    using Inr by (auto simp: authentic_def)
  consider (coa) "Code pkt = CodeCoARequest" | (disc) "Code pkt = CodeDisconnectRequest" "Code pkt \<noteq> CodeCoARequest"
    | (other) "Code pkt \<noteq> CodeCoARequest" "Code pkt \<noteq> CodeDisconnectRequest" by blast
  then show ?thesis
  proof cases
    case coa
    then have "l' = scheme_handle coa_scheme clk lk env pkt wire remote rcv l"
      using assms(2) Inr by (simp add: handlePacket_def handleCoA_scheme)
    from scheme_handle_effect [OF schemes_ok(1) assms(1) auth this] coa show ?thesis
      by (auto simp: only ack_code_def nak_code_def call_of_def coa_scheme_def
          simp del: split_paired_All split_paired_Ex split: if_splits)
  next
    case disc
    then have "l' = scheme_handle disconnect_scheme clk lk env pkt wire remote rcv l"
      using assms(2) Inr by (simp add: handlePacket_def handleDisconnect_scheme)
    from scheme_handle_effect [OF schemes_ok(2) assms(1) auth this] disc show ?thesis
      by (auto simp: only ack_code_def nak_code_def call_of_def disconnect_scheme_def
          simp del: split_paired_All split_paired_Ex split: if_splits)
  next
    case other
    with assms Inr show ?thesis
      by (simp add: only handlePacket_def ln_drop_def ln_submit_def effect_defs)
  qed
qed

section \<open>Whole sequences of datagrams\<close>

text \<open>Each datagram that is received adds one to exactly one of the three result counters, and a reply
  is written exactly for the answered ones.\<close>

definition balance :: "'t listener \<Rightarrow> int" where
  "balance l = ln_received l - (ln_acked l + ln_naked l + ln_dropped l)"

definition unsent :: "'t listener \<Rightarrow> int" where
  "unsent l = int (length (ln_sent l)) - (ln_acked l + ln_naked l)"

definition uncalled :: "'t listener \<Rightarrow> int" where
  "uncalled l = int (length (ln_calls l)) - ln_acked l"

lemma handlePacket_counts:
  assumes "ln_secret l \<noteq> []" "l' = handlePacket clk lk env wire remote rcv l"
  shows "ln_secret l' = ln_secret l \<and> balance l' = balance l - 1 \<and> unsent l' = unsent l \<and> uncalled l' = uncalled l"
proof -
  note e = handlePacket_effect [OF assms]
  show ?thesis
  proof (cases "(\<exists>pkt. authentic (ln_secret l) wire pkt) \<and> (\<exists>d. deliverable env remote d)")
    case True
    then obtain pkt d where "authentic (ln_secret l) wire pkt" "deliverable env remote d" by blast
    with e obtain w d' where "same_config l l'" "naked_one l l' (w, d') \<or> (\<exists>c. acked_one l l' (w, d') c)"
      by (metis (no_types, lifting))
    then show ?thesis by (auto simp: effect_defs balance_def unsent_def uncalled_def)
  next
    case False
    with e have "same_config l l'" "dropped_one l l'" by blast+
    then show ?thesis by (simp add: effect_defs balance_def unsent_def uncalled_def)
  qed
qed

lemma readLoop_counts:
  "ln_secret l \<noteq> [] \<Longrightarrow> ln_secret (readLoop clk lk items l) = ln_secret l
    \<and> balance (readLoop clk lk items l) = balance l \<and> unsent (readLoop clk lk items l) = unsent l
    \<and> uncalled (readLoop clk lk items l) = uncalled l"
proof (induction clk lk items l rule: readLoop.induct)
  case (4 clk lk wire remote rcv env items l)
  let ?l = "l\<lparr>ln_received := ln_received l + 1\<rparr>"
  have r: "ln_secret ?l \<noteq> []" "balance ?l = balance l + 1" "unsent ?l = unsent l" "uncalled ?l = uncalled l"
    using 4(3) by (simp_all add: balance_def unsent_def uncalled_def)
  note c = handlePacket_counts [OF r(1) refl, of clk lk env "take 4096 wire" remote rcv]
  show ?case using 4 c r by simp
qed auto

section \<open>Properties\<close>

text \<open>C10: Each datagram has exactly one of three effects. A datagram that is not an authentic CoA- or
  Disconnect-Request, or whose reply cannot be delivered, is counted as dropped, without a reply or a
  callback. An authentic one is answered once: with an ACK, and one callback of the target, when its VSAs
  decode and the lookup finds the target; otherwise with a NAK that carries Error-Cause 401 or 503. The
  reply decodes to all of its bytes, repeats the identifier and has a Message-Authenticator that validates. Its Response
  Authenticator is the digest over the attributes with the Message-Authenticator still zero; so
  a client that checks it as \<^verbatim>\<open>docs/PROTOCOL.md\<close> requires, over the attributes it received, accepts the reply iff
  the two digests coincide.\<close>

theorem datagram_answered_once:
  assumes "ln_secret l \<noteq> []" "l' = handlePacket clk lk env wire remote rcv l"
  shows "((\<nexists>pkt. authentic (ln_secret l) wire pkt) \<or> (\<nexists>d. deliverable env remote d) \<longrightarrow> dropped_one l l')
    \<and> (\<forall>pkt. authentic (ln_secret l) wire pkt \<longrightarrow> (\<exists>d. deliverable env remote d) \<longrightarrow>
        (\<exists>w d q c. deliverable env remote d
         \<and> c = (if refusal lk pkt = None then ack_code (Code pkt) else nak_code (Code pkt))
         \<and> reply_as_sent (ln_secret l) c pkt (refusal lk pkt) w
         \<and> Decode w (ln_secret l) = Inr q
         \<and> ValidateResponseAuthenticator q (Authenticator pkt) (ln_secret l) w spare =
             Some (response_digest (ln_secret l) c pkt (Attributes q)
               = response_digest (ln_secret l) c pkt (zero_ma (Attributes q)))
         \<and> (if refusal lk pkt = None then acked_one l l' (w, d) (call_of (Code pkt) (the (lk_Lookup lk pkt)) pkt)
            else naked_one l l' (w, d))))"
proof (intro conjI allI impI, goal_cases)
  case 1
  then show ?case using handlePacket_effect [OF assms] by blast
next
  case (2 pkt)
  let ?c = "if refusal lk pkt = None then ack_code (Code pkt) else nak_code (Code pkt)"
  obtain w d where w: "deliverable env remote d" "reply_as_sent (ln_secret l) ?c pkt (refusal lk pkt) w"
    "if refusal lk pkt = None then acked_one l l' (w, d) (call_of (Code pkt) (the (lk_Lookup lk pkt)) pkt) else naked_one l l' (w, d)"
    using handlePacket_effect [OF assms] 2 by blast
  from reply_as_sent_verdict [OF w(2) reply_codes] w show ?case by blast
qed

definition demo_listener :: "nat listener" where
  "demo_listener = \<lparr>ln_secret = demo_secret, ln_localAddr = ''0.0.0.0:3799'', ln_t0 = 0, ln_received = 0, ln_acked = 0,
     ln_naked = 0, ln_dropped = 0, ln_events = [], ln_sent = [], ln_calls = [], ln_readerCount = 1, ln_started = True,
     ln_stopped = False\<rparr>"

definition demo_dyn_env :: dyn_env where
  "demo_dyn_env = \<lparr>de_resolve = (\<lambda>_. Inr ([10, 0, 0, 1], 3799)), de_write = None, de_latencyUs = 3, de_rnd = Inr zero16\<rparr>"

definition nobody :: "nat lookup_iface" where
  "nobody = \<lparr>lk_Lookup = (\<lambda>_. None), lk_ID = of_nat, lk_Username = (\<lambda>_. [])\<rparr>"

lemma demo_secret_nonempty: "ln_secret demo_listener \<noteq> []"
  by (simp add: demo_listener_def demo_secret_def)

text \<open>An authentic Disconnect-Request, as a client would encode it.\<close>

definition demo_disconnect :: packet where
  "demo_disconnect = \<lparr>Code = CodeDisconnectRequest, Identifier = 9, Authenticator = zero16,
     Attributes = [\<lparr>AType = AttrAcctSessionID, AValue = bytes_of (session_id 0)\<rparr>,
       \<lparr>AType = AttrMessageAuthenticator, AValue = replicate 16 0\<rparr>], RequestAuthenticator = zero16, Secret = demo_secret\<rparr>"

lemma session_id_0: "session_id 0 = ''radstorm-00000000''"
proof -
  have "CHR ''0'' = char_of (48 :: nat)" by code_simp
  then show ?thesis by (simp add: session_id_def hex_pad_def pad0_def radix.simps digit_char_def numeral_eq_Suc)
qed

lemma demo_disconnect_authentic:
  "\<exists>w pkt. authentic demo_secret w pkt \<and> Code pkt = CodeDisconnectRequest
    \<and> attr_GetString (Attributes pkt) AttrAcctSessionID = session_id 0 \<and> vsaTags pkt = (Map.empty, None)"
proof -
  have wf: "wf_packet demo_disconnect" and r: "\<forall>a. Inr zero16 = Inr a \<longrightarrow> length a = 16"
    by (simp_all add: wf_packet_def demo_disconnect_def)
  have ma: "maAttrIndex (Attributes demo_disconnect) = Some 1"
    by (simp add: demo_disconnect_def maAttrIndex_def)
  have "encodable demo_disconnect (Inr zero16)"
    using ma by (simp add: encodable_def demo_disconnect_def MaxAttributeValueLength_def MaxPacketLength_def
        MessageAuthenticatorLength_def demo_secret_def session_id_0)
  with Encode_Inr_iff [OF wf r] obtain p' w where enc: "Encode demo_disconnect (Inr zero16) = (p', Inr w)" by blast
  note E = Encode_ok [OF enc wf r]
  have "length (packet_wire p') + length ([] :: bytes) \<le> MaxPacketLength"
    using E(2) length_packet_wire [of p'] by (simp add: wire_ok_def)
  from Decode_wire [OF E(2) this, of demo_secret]
  have dec: "Decode w demo_secret = Inr (p'\<lparr>RequestAuthenticator := zero16, Secret := demo_secret\<rparr>)"
    unfolding E(3) by simp
  have "maAttrIndex (Attributes demo_disconnect) \<noteq> None" using ma by simp
  from Encode_validates_ma [OF enc wf r this, of "p'\<lparr>RequestAuthenticator := zero16, Secret := demo_secret\<rparr>"]
  have val: "ValidateMessageAuthenticator (p'\<lparr>RequestAuthenticator := zero16, Secret := demo_secret\<rparr>) w demo_secret"
    by (simp add: demo_disconnect_def)
  have code: "Code p' = CodeDisconnectRequest" by (subst E(1)) (simp add: demo_disconnect_def)
  have "attr_Get (Attributes p') AttrAcctSessionID = attr_Get (Attributes demo_disconnect) AttrAcctSessionID"
    by (rule Encode_attr_Get [OF enc wf r]) simp
  then have sid: "attr_GetString (Attributes p') AttrAcctSessionID = session_id 0"
    by (simp add: attr_GetString_def demo_disconnect_def)
  have types: "map AType (Attributes p') = [AttrAcctSessionID, AttrMessageAuthenticator]"
    using E(4) by (simp add: demo_disconnect_def)
  then have "attr_GetAll (Attributes p') AttrVendorSpecific = []"
    by (auto simp: attr_GetAll_def)
  then have "vsaTags (p'\<lparr>RequestAuthenticator := zero16, Secret := demo_secret\<rparr>) = (Map.empty, None)"
    by (simp add: vsaTags_def)
  with dec val code sid show ?thesis
    by (intro exI [of _ w] exI [of _ "p'\<lparr>RequestAuthenticator := zero16, Secret := demo_secret\<rparr>"])
      (simp add: authentic_def)
qed

theorem datagram_answered_once_witness:
  "\<exists>w x q. (let l' = handlePacket demo_clock nobody demo_dyn_env w ''10.0.0.1:3799'' 5 demo_listener in
     ln_naked l' = 1 \<and> map fst (ln_sent l') = [x] \<and> Decode x demo_secret = Inr q \<and> Code q = CodeDisconnectNAK
     \<and> attr_GetUint32 (Attributes q) AttrErrorCause = Some ErrorCauseSessionContextNotFound)"
proof -
  obtain w pkt where w: "authentic demo_secret w pkt" "Code pkt = CodeDisconnectRequest" "vsaTags pkt = (Map.empty, None)"
    using demo_disconnect_authentic by blast
  then have a: "authentic (ln_secret demo_listener) w pkt" "refusal nobody pkt = Some ErrorCauseSessionContextNotFound"
    "deliverable demo_dyn_env ''10.0.0.1:3799'' ([10, 0, 0, 1], 3799)" "nak_code (Code pkt) = CodeDisconnectNAK"
    "ln_secret demo_listener = demo_secret"
    by (simp_all add: demo_listener_def refusal_def nobody_def deliverable_def demo_dyn_env_def nak_code_def)
  from datagram_answered_once [OF demo_secret_nonempty refl, where clk = demo_clock and lk = nobody
    and env = demo_dyn_env and wire = w and remote = "''10.0.0.1:3799''" and rcv = 5 and spare = "[]", THEN conjunct2,
    rule_format, OF a(1) exI [where P = "deliverable demo_dyn_env ''10.0.0.1:3799''", OF a(3)]]
  obtain x d where "reply_as_sent demo_secret CodeDisconnectNAK pkt (Some ErrorCauseSessionContextNotFound) x"
    "naked_one demo_listener (handlePacket demo_clock nobody demo_dyn_env w ''10.0.0.1:3799'' 5 demo_listener) (x, d)"
    by (auto simp: a)
  then show ?thesis
    by (intro exI [of _ w] exI [of _ x]) (auto simp: naked_one_def demo_listener_def reply_as_sent_def split: sum.splits)
qed

text \<open>C25: Conservation over the life of a listener. However it is fed (datagrams, read errors, stops), a
  listener made by \<^verbatim>\<open>New\<close> has received as many datagrams as it acked, naked and dropped, has written
  one reply per ack and nak, and has launched one callback per ack.\<close>

theorem listener_conserves_datagrams:
  assumes "server_New resolve listen numCPU now opts = Inr l"
  shows "ln_received (readLoop clk lk items l) = ln_acked (readLoop clk lk items l) + ln_naked (readLoop clk lk items l)
       + ln_dropped (readLoop clk lk items l)
    \<and> int (length (ln_sent (readLoop clk lk items l))) = ln_acked (readLoop clk lk items l) + ln_naked (readLoop clk lk items l)
    \<and> int (length (ln_calls (readLoop clk lk items l))) = ln_acked (readLoop clk lk items l)"
proof -
  have "ln_secret l \<noteq> []" "balance l = 0" "unsent l = 0" "uncalled l = 0"
    using assms by (auto simp: server_New_def Let_def balance_def unsent_def uncalled_def split: if_splits sum.splits)
  with readLoop_counts [of l clk lk items] show ?thesis
    by (simp add: balance_def unsent_def uncalled_def)
qed

theorem listener_conserves_datagrams_witness:
  "\<exists>l :: nat listener. server_New (\<lambda>_. Inr ([0, 0, 0, 0], 3799)) Inr 4 0 \<lparr>lo_BindAddress = '':3799'', lo_SharedSecret = [1],
       lo_Lookup = True, lo_Collector = True, lo_ReaderCount = 0, lo_TestT0 = None\<rparr> = Inr l
     \<and> ln_received (readLoop demo_clock nobody [ReadData [1, 2] ''x'' 0 demo_dyn_env, StopSeen] l)
       = ln_acked (readLoop demo_clock nobody [ReadData [1, 2] ''x'' 0 demo_dyn_env, StopSeen] l)
       + ln_naked (readLoop demo_clock nobody [ReadData [1, 2] ''x'' 0 demo_dyn_env, StopSeen] l)
       + ln_dropped (readLoop demo_clock nobody [ReadData [1, 2] ''x'' 0 demo_dyn_env, StopSeen] l)"
proof -
  obtain l :: "nat listener" where l: "server_New (\<lambda>_. Inr ([0, 0, 0, 0], 3799)) Inr 4 0 \<lparr>lo_BindAddress = '':3799'',
      lo_SharedSecret = [1], lo_Lookup = True, lo_Collector = True, lo_ReaderCount = 0, lo_TestT0 = None\<rparr> = Inr l"
    by (simp add: server_New_def)
  with listener_conserves_datagrams [OF l] show ?thesis by blast
qed

end
