(* ===== verification/Server_System.thy ===== *)
theory Server_System
  imports Server_Props
begin

text \<open>
  The listener over the pool (the adapters of \<^verbatim>\<open>pkg/scenario/runner.go\<close>): the lookup contract
  as a locale, its instance for pools, the execution of the callbacks a listener launches on
  the subscribers they name, and what a disconnect does from the wire to the subscriber.
\<close>

section \<open>The lookup contract\<close>

text \<open>A lookup only returns registered targets.\<close>

locale registered_lookup =
  fixes lk :: "'t lookup_iface" and members :: "'t set"
  assumes lookup_registered: "lk_Lookup lk pkt = Some t \<Longrightarrow> t \<in> members"
begin

definition known :: "'t dyn_call \<Rightarrow> bool" where
  "known c \<longleftrightarrow> (case c of CallCoA t p \<Rightarrow> t \<in> members | CallDisconnect t p \<Rightarrow> t \<in> members)"

lemma handle_calls:
  assumes "ln_secret l \<noteq> []" "list_all known (ln_calls l)"
  shows "list_all known (ln_calls (handlePacket clk lk env wire remote rcv l))"
proof -
  let ?l' = "handlePacket clk lk env wire remote rcv l"
  note e = handlePacket_effect [OF assms(1) refl, where clk = clk and lk = lk and env = env and wire = wire
      and remote = remote and rcv = rcv]
  show ?thesis
  proof (cases "(\<exists>pkt. authentic (ln_secret l) wire pkt) \<and> (\<exists>d. deliverable env remote d)")
    case True
    then obtain pkt d where p: "authentic (ln_secret l) wire pkt" "deliverable env remote d" by blast
    with e obtain w d' where r: "if refusal lk pkt = None
        then acked_one l ?l' (w, d') (call_of (Code pkt) (the (lk_Lookup lk pkt)) pkt) else naked_one l ?l' (w, d')"
      by blast
    show ?thesis
    proof (cases "refusal lk pkt = None")
      case True
      then obtain t where "lk_Lookup lk pkt = Some t" by (auto simp: refusal_def split: if_splits)
      with True r lookup_registered assms(2) show ?thesis
        by (auto simp: acked_one_def known_def call_of_def)
    next
      case False
      then have "naked_one l ?l' (w, d')" using r by argo
      with assms(2) show ?thesis by (simp add: naked_one_def)
    qed
  next
    case False
    with e have "dropped_one l ?l'" by blast
    with assms(2) show ?thesis by (simp add: dropped_one_def)
  qed
qed

lemma calls_registered:
  "ln_secret l \<noteq> [] \<Longrightarrow> list_all known (ln_calls l) \<Longrightarrow> list_all known (ln_calls (readLoop clk lk items l))"
proof (induction items arbitrary: l)
  case (Cons item items)
  show ?case
  proof (cases item)
    case (ReadData wire remote rcv env)
    define l1 where "l1 = l\<lparr>ln_received := ln_received l + 1\<rparr>"
    have l1: "ln_secret l1 \<noteq> []" "list_all known (ln_calls l1)" using Cons.prems by (simp_all add: l1_def)
    define l2 where "l2 = handlePacket clk lk env (take 4096 wire) remote rcv l1"
    have "ln_secret l2 \<noteq> []" "list_all known (ln_calls l2)"
      using handlePacket_counts [OF l1(1) l2_def] l1(1) handle_calls [OF l1] by (simp_all add: l2_def)
    with Cons.IH [of l2] Cons.IH [OF Cons.prems] show ?thesis
      by (cases "wire = []") (simp_all add: ReadData flip: l1_def l2_def)
  qed (use Cons in simp_all)
qed simp

end

section \<open>The pool as a lookup\<close>

definition poolLookupAdapter :: "pool \<Rightarrow> nat lookup_iface" where
  "poolLookupAdapter p = \<lparr>lk_Lookup = (\<lambda>pkt. pool_Lookup p (Some pkt)), lk_ID = (\<lambda>i. sb_id (po_all p ! i)),
     lk_Username = (\<lambda>i. cr_Username (sb_credential (po_all p ! i)))\<rparr>"

lemma NewPool_fold: "\<exists>c n. NewPool creds cfg = fold (pool_add creds c) [0..<n] empty_pool"
proof (cases cfg)
  case None
  then show ?thesis by (intro exI [of _ undefined] exI [of _ 0]) (simp add: NewPool_def)
next
  case (Some c)
  define n where "n = (if su_Count (cfg_Subscribers c) \<le> 0 \<or> creds = [] then 0 else nat (su_Count (cfg_Subscribers c)))"
  have "NewPool creds cfg = fold (pool_add creds c) [0..<n] empty_pool"
    by (simp add: NewPool_def Some n_def)
  then show ?thesis by blast
qed

lemma pool_Lookup_member:
  assumes "pool_Lookup (NewPool creds cfg) pkt = Some i"
  shows "i < pool_Len (NewPool creds cfg)"
proof -
  obtain c n where pool: "NewPool creds cfg = fold (pool_add creds c) [0..<n] empty_pool"
    using NewPool_fold by blast
  have "\<forall>k. LookupBySessionID (NewPool creds cfg) k = Some i \<or> LookupByUsername (NewPool creds cfg) k = Some i
      \<or> LookupByFramedIP (NewPool creds cfg) k = Some i \<longrightarrow> i < pool_Len (NewPool creds cfg)"
    unfolding pool pool_fold
    by (auto simp: LookupBySessionID_def LookupByUsername_def LookupByFramedIP_def
        pool_Len_def last_at_Some_iff split: if_splits)
  with assms show ?thesis
    by (auto simp: pool_Lookup_def Let_def split: option.splits if_splits)
qed

interpretation pool_targets: registered_lookup "poolLookupAdapter (NewPool creds cfg)" "{..<pool_Len (NewPool creds cfg)}"
  for creds cfg
  by unfold_locales (auto simp: poolLookupAdapter_def dest: pool_Lookup_member)

section \<open>Executing callbacks\<close>

text \<open>The goroutine of a callback, on the subscriber it names; \<open>now\<close> is its clock reading.\<close>

definition run_call :: "clock \<Rightarrow> int \<Rightarrow> nat dyn_call \<Rightarrow> pool \<times> sink \<Rightarrow> pool \<times> sink" where
  "run_call clk now c = (\<lambda>(p, k).
     case c of
       CallCoA i pkt \<Rightarrow> (let (s, k') = OnCoA clk (Some pkt) (po_all p ! i, k) in (p\<lparr>po_all := (po_all p)[i := s]\<rparr>, k'))
     | CallDisconnect i pkt \<Rightarrow>
         (let (s, k') = OnDisconnect clk now (Some pkt) (po_all p ! i, k) in (p\<lparr>po_all := (po_all p)[i := s]\<rparr>, k')))"

text \<open>Callbacks leave the identities, and with them the indexes, intact.\<close>

lemma lookups_frame [simp]:
  "pool_Get (p\<lparr>po_all := xs\<rparr>) = pool_Get p" "LookupBySessionID (p\<lparr>po_all := xs\<rparr>) = LookupBySessionID p"
  "LookupByUsername (p\<lparr>po_all := xs\<rparr>) = LookupByUsername p" "LookupByFramedIP (p\<lparr>po_all := xs\<rparr>) = LookupByFramedIP p"
  by (simp_all add: fun_eq_iff pool_Get_def LookupBySessionID_def LookupByUsername_def LookupByFramedIP_def)

lemma pool_ok_update:
  assumes "pool_ok p" "sb_id s = sb_id (po_all p ! i)" "sb_sessionID s = sb_sessionID (po_all p ! i)"
    "sb_framedIP s = sb_framedIP (po_all p ! i)" "sb_credential s = sb_credential (po_all p ! i)"
  shows "pool_ok (p\<lparr>po_all := (po_all p)[i := s]\<rparr>)"
proof (cases "i < length (po_all p)")
  case True
  have "sb_id ((po_all p)[i := s] ! j) = sb_id (po_all p ! j)"
    "sb_sessionID ((po_all p)[i := s] ! j) = sb_sessionID (po_all p ! j)"
    "sb_framedIP ((po_all p)[i := s] ! j) = sb_framedIP (po_all p ! j)"
    "sb_credential ((po_all p)[i := s] ! j) = sb_credential (po_all p ! j)" for j
    using assms(2-) True by (cases "j = i"; simp)+
  with assms(1) show ?thesis by (simp add: pool_ok_def)
qed (use assms(1) in \<open>simp add: list_update_beyond\<close>)

text \<open>The bridge from a subscriber's own socket: no reply, only the callback.\<close>

definition dispatchServerInitiated :: "clock \<Rightarrow> int \<Rightarrow> packet option \<Rightarrow> pool option \<times> sink \<Rightarrow> pool option \<times> sink" where
  "dispatchServerInitiated clk now p = (\<lambda>(pool, k).
     case (p, pool) of
       (Some pkt, Some pl) \<Rightarrow>
         (case pool_Lookup pl (Some pkt) of
            None \<Rightarrow> (pool, k)
          | Some target \<Rightarrow>
              if Code pkt = CodeCoARequest then map_prod Some id (run_call clk now (CallCoA target pkt) (pl, k))
              else if Code pkt = CodeDisconnectRequest
              then map_prod Some id (run_call clk now (CallDisconnect target pkt) (pl, k))
              else (pool, k))
     | _ \<Rightarrow> (pool, k))"

section \<open>Properties\<close>

text \<open>A listener over a pool calls only subscribers of the pool: whatever arrives, every callback it
  launches names a position of the pool.\<close>

theorem callbacks_stay_in_pool:
  assumes "server_New resolve listen numCPU now opts = Inr l"
  shows "list_all (\<lambda>c. case c of CallCoA t p \<Rightarrow> t < pool_Len (NewPool creds cfg) | CallDisconnect t p \<Rightarrow> t < pool_Len (NewPool creds cfg))
    (ln_calls (readLoop clk (poolLookupAdapter (NewPool creds cfg)) items l))"
proof -
  have "ln_secret l \<noteq> []" "ln_calls l = []"
    using assms by (auto simp: server_New_def Let_def split: if_splits sum.splits)
  with pool_targets.calls_registered [of l creds cfg clk items] show ?thesis
    by (auto simp: list_all_iff pool_targets.known_def split: dyn_call.splits)
qed

theorem callbacks_stay_in_pool_witness:
  "\<exists>l :: nat listener. server_New (\<lambda>_. Inr ([0, 0, 0, 0], 3799)) Inr 4 0 \<lparr>lo_BindAddress = '':3799'', lo_SharedSecret = [1],
       lo_Lookup = True, lo_Collector = True, lo_ReaderCount = 0, lo_TestT0 = None\<rparr> = Inr l
     \<and> list_all (\<lambda>c. case c of CallCoA t p \<Rightarrow> t < pool_Len (NewPool [] None) | CallDisconnect t p \<Rightarrow> t < pool_Len (NewPool [] None))
       (ln_calls (readLoop demo_clock (poolLookupAdapter (NewPool [] None)) [ReadData [1, 2] ''x'' 0 demo_dyn_env] l))"
proof -
  obtain l :: "nat listener" where l: "server_New (\<lambda>_. Inr ([0, 0, 0, 0], 3799)) Inr 4 0 \<lparr>lo_BindAddress = '':3799'',
      lo_SharedSecret = [1], lo_Lookup = True, lo_Collector = True, lo_ReaderCount = 0, lo_TestT0 = None\<rparr> = Inr l"
    by (simp add: server_New_def)
  with callbacks_stay_in_pool [OF l] show ?thesis by blast
qed

text \<open>C13: A disconnect, from the wire to the subscriber. An authentic Disconnect-Request with well-formed VSAs
  that names the session of a subscriber is acknowledged with a Disconnect-ACK whose Message-Authenticator validates, and the callback it
  launches terminates that subscriber, leaves every other one as it was, and submits one outcome in state
  terminated unless the subscriber was terminated before.\<close>

theorem disconnect_reaches_subscriber:
  assumes "pool_ok p" "i < length (po_all p)" "sb_sessionID (po_all p ! i) \<noteq> []" "sb_deps (po_all p ! i) = Some T0"
    and "ln_secret l \<noteq> []" "authentic (ln_secret l) wire pkt" "Code pkt = CodeDisconnectRequest"
    and "attr_GetString (Attributes pkt) AttrAcctSessionID = sb_sessionID (po_all p ! i)" "snd (vsaTags pkt) = None"
    and "deliverable env remote d"
    and "l' = handlePacket clk (poolLookupAdapter p) env wire remote rcv l"
    and "run_call clk now (last (ln_calls l')) (p, k) = (p', k')"
  shows "\<exists>w. ln_sent l' = ln_sent l @ [(w, d)] \<and> reply_as_sent (ln_secret l) CodeDisconnectACK pkt None w
    \<and> ln_calls l' = ln_calls l @ [CallDisconnect i pkt]
    \<and> sb_state (po_all p' ! i) = StateTerminated \<and> length (po_all p') = length (po_all p)
    \<and> (\<forall>j < length (po_all p). j \<noteq> i \<longrightarrow> po_all p' ! j = po_all p ! j)
    \<and> map OcFinalState (sk_outcomes k') = map OcFinalState (sk_outcomes k)
        @ (if sb_state (po_all p ! i) = StateTerminated then [] else [''terminated''])"
proof -
  have "LookupBySessionID p (sb_sessionID (po_all p ! i)) = Some i" using assms(1,2) by (simp add: pool_ok_def)
  then have look: "pool_Lookup p (Some pkt) = Some i"
    using assms(3,8) by (simp add: pool_Lookup_def)
  then have ref: "refusal (poolLookupAdapter p) pkt = None"
    using assms(9) by (simp add: refusal_def poolLookupAdapter_def)
  from handlePacket_effect [OF assms(5,11), THEN conjunct2, THEN conjunct2, rule_format, OF assms(6) exI [where x = d], OF assms(10)]
  obtain w d' where
    w: "deliverable env remote d'" "reply_as_sent (ln_secret l) (ack_code (Code pkt)) pkt None w"
    "acked_one l l' (w, d') (call_of (Code pkt) (the (lk_Lookup (poolLookupAdapter p) pkt)) pkt)"
    unfolding ref by auto
  have d: "d' = d" using w(1) assms(10) by (simp add: deliverable_def)
  have call: "ln_calls l' = ln_calls l @ [CallDisconnect i pkt]" "ln_sent l' = ln_sent l @ [(w, d)]"
    using w(3) assms(7) look d by (simp_all add: acked_one_def call_of_def poolLookupAdapter_def)
  obtain s k1 where od: "OnDisconnect clk now (Some pkt) (po_all p ! i, k) = (s, k1)" by fastforce
  with assms(12) call have p': "p' = p\<lparr>po_all := (po_all p)[i := s]\<rparr>" "k' = k1"
    by (simp_all add: run_call_def)
  from OnDisconnect_effect [OF od assms(4)] have s: "sb_state s = StateTerminated"
    "map OcFinalState (sk_outcomes k1) = map OcFinalState (sk_outcomes k)
      @ (if sb_state (po_all p ! i) = StateTerminated then [] else [''terminated''])"
    by (auto simp: adds_def split: if_splits)
  show ?thesis
    using w(2) assms(2,7) call s by (intro exI [of _ w]) (simp add: p' ack_code_def)
qed

text \<open>The pool of the demo configuration, its subscriber activated.\<close>

definition demo_active_pool :: pool where
  "demo_active_pool = demo_pool\<lparr>po_all := (po_all demo_pool)[0 := (po_all demo_pool ! 0)\<lparr>sb_deps := Some None\<rparr>]\<rparr>"

theorem disconnect_reaches_subscriber_witness:
  "\<exists>w. (let l' = handlePacket demo_clock (poolLookupAdapter demo_active_pool) demo_dyn_env w ''10.0.0.1:3799'' 5 demo_listener
     in map fst (ln_sent l') \<noteq> []
       \<and> sb_state (po_all (fst (run_call demo_clock 7 (last (ln_calls l')) (demo_active_pool, demo_sink))) ! 0) = StateTerminated)"
proof -
  have c: "su_Count (cfg_Subscribers (demo_run_config True)) = 1" by (simp add: demo_run_config_def demo_config_def)
  have pool: "demo_pool = fold (pool_add [sb_credential demo_sub] (demo_run_config True)) [0..<1] empty_pool"
    by (simp add: demo_pool_def NewPool_some c)
  have "pool_ok demo_pool"
    using fold_pool_ok [of 1 "[sb_credential demo_sub]" "demo_run_config True"] by (simp add: pool)
  then have ok: "pool_ok demo_active_pool"
    unfolding demo_active_pool_def by (rule pool_ok_update) simp_all
  have all: "po_all demo_pool = [pool_sub [sb_credential demo_sub] (demo_run_config True) 0]"
    unfolding pool pool_fold by simp
  have s: "sb_sessionID (po_all demo_active_pool ! 0) = session_id 0" "sb_deps (po_all demo_active_pool ! 0) = Some None"
    "length (po_all demo_active_pool) = 1"
    by (simp_all add: demo_active_pool_def all)
  obtain w pkt where a: "authentic demo_secret w pkt" "Code pkt = CodeDisconnectRequest"
    "attr_GetString (Attributes pkt) AttrAcctSessionID = session_id 0" "vsaTags pkt = (Map.empty, None)"
    using demo_disconnect_authentic by blast
  define l' where "l' = handlePacket demo_clock (poolLookupAdapter demo_active_pool) demo_dyn_env w ''10.0.0.1:3799'' 5 demo_listener"
  obtain p' k' where r: "run_call demo_clock 7 (last (ln_calls l')) (demo_active_pool, demo_sink) = (p', k')" by fastforce
  have "\<exists>x. ln_sent l' = ln_sent demo_listener @ [(x, ([10, 0, 0, 1], 3799))] \<and> sb_state (po_all p' ! 0) = StateTerminated"
    using disconnect_reaches_subscriber [OF ok _ _ s(2) demo_secret_nonempty _ a(2) _ _ _ l'_def r, of "([10, 0, 0, 1], 3799)"]
      a s by (auto simp: demo_listener_def deliverable_def demo_dyn_env_def)
  then show ?thesis using r by (intro exI [of _ w]) (auto simp: Let_def l'_def)
qed

end
