(* ===== verification/Go_Path.thy ===== *)
theory Go_Path
  imports Prelude
begin

text \<open>
  \<^verbatim>\<open>filepath.Join\<close> of Go on Unix: the non-empty elements are joined by slashes and the result
  is cleaned, element by element, with the elements already kept on a stack.
\<close>

fun split_path :: "string \<Rightarrow> string list" where
  "split_path [] = [[]]"
| "split_path (c # cs) =
     (if c = CHR ''/'' then [] # split_path cs
      else case split_path cs of [] \<Rightarrow> [[c]] | e # es \<Rightarrow> (c # e) # es)"

fun join_path :: "string list \<Rightarrow> string" where
  "join_path [] = []"
| "join_path [e] = e"
| "join_path (e # es) = e @ ''/'' @ join_path es"

definition path_step :: "bool \<Rightarrow> string list \<Rightarrow> string \<Rightarrow> string list" where
  "path_step rooted kept e =
     (if e = [] \<or> e = ''.'' then kept
      else if e = ''..''
      then (case kept of [] \<Rightarrow> if rooted then [] else [''..''] | up # rest \<Rightarrow> if up = ''..'' then ''..'' # kept else rest)
      else e # kept)"

definition path_Clean :: "string \<Rightarrow> string" where
  "path_Clean p =
     (let rooted = take 1 p = ''/'';
          s = (if rooted then ''/'' else []) @ join_path (rev (foldl (path_step rooted) [] (split_path p)))
      in if s = [] then ''.'' else s)"

definition path_Join :: "string list \<Rightarrow> string" where
  "path_Join es = (let ne = filter (\<lambda>e. e \<noteq> []) es in if ne = [] then [] else path_Clean (join_path ne))"

lemma join_split [simp]: "join_path (split_path p) = p"
proof (induction p)
  case (Cons c cs)
  then show ?case by (cases "split_path cs" rule: join_path.cases) auto
qed simp

lemma split_path_nonempty [simp]: "split_path p \<noteq> []"
  by (cases p) (auto split: list.split)

lemma split_path_append: "split_path (p @ CHR ''/'' # q) = split_path p @ split_path q"
  by (induction p) (auto split: list.split simp: Cons_eq_append_conv)

lemma split_path_plain: "CHR ''/'' \<notin> set p \<Longrightarrow> split_path p = [p]"
  by (induction p) auto

lemma path_kept_plain: "\<forall>e \<in> set es. e \<notin> {[], ''.'', ''..''} \<Longrightarrow> foldl (path_step rooted) kept es = rev es @ kept"
  by (induction es arbitrary: kept) (auto simp: path_step_def)

text \<open>A relative directory without dots, empty elements or a trailing slash only gets the name appended.\<close>

lemma path_Join_plain:
  assumes "\<forall>e \<in> set (split_path dir). e \<notin> {[], ''.'', ''..''}" "CHR ''/'' \<notin> set x" "x \<notin> {[], ''.'', ''..''}"
  shows "path_Join [dir, x] = dir @ ''/'' @ x"
proof -
  have d: "dir \<noteq> []" using assms(1) by (cases dir) auto
  have "take 1 dir \<noteq> ''/''"
  proof
    assume "take 1 dir = ''/''"
    then obtain t where "dir = CHR ''/'' # t" using d by (cases dir) auto
    then show False using assms(1) by simp
  qed
  then have "take 1 (dir @ ''/'' @ x) \<noteq> ''/''" using d by (cases dir) auto
  moreover have "split_path (dir @ ''/'' @ x) = split_path dir @ [x]"
    using split_path_append [of dir x] split_path_plain [OF assms(2)] by simp
  moreover have "foldl (path_step False) [] (split_path dir @ [x]) = rev (split_path dir @ [x])"
    using path_kept_plain [of "split_path dir @ [x]"] assms by auto
  moreover have "join_path (split_path dir @ [x]) = dir @ ''/'' @ x"
    using join_split [of "dir @ ''/'' @ x"] unfolding calculation(2) .
  ultimately show ?thesis using d assms(3) by (simp add: path_Join_def path_Clean_def)
qed

section \<open>Cleaned paths\<close>

text \<open>The stack of a cleaned path, innermost element first.\<close>

fun stack_ok :: "bool \<Rightarrow> string list \<Rightarrow> bool" where
  "stack_ok rooted [] \<longleftrightarrow> True"
| "stack_ok rooted (e # es) \<longleftrightarrow> e \<noteq> [] \<and> e \<noteq> ''.'' \<and> CHR ''/'' \<notin> set e \<and>
     (e = ''..'' \<longrightarrow> \<not> rooted \<and> (es = [] \<or> hd es = ''..'')) \<and> stack_ok rooted es"

lemma split_path_no_slash: "e \<in> set (split_path p) \<Longrightarrow> CHR ''/'' \<notin> set e"
  by (induction p arbitrary: e) (auto split: list.splits if_splits)

lemma path_step_ok: "stack_ok rooted kept \<Longrightarrow> CHR ''/'' \<notin> set e \<Longrightarrow> stack_ok rooted (path_step rooted kept e)"
  by (cases kept) (auto simp: path_step_def)

lemma path_steps_ok: "stack_ok rooted kept \<Longrightarrow> \<forall>e \<in> set es. CHR ''/'' \<notin> set e \<Longrightarrow> stack_ok rooted (foldl (path_step rooted) kept es)"
  by (induction es arbitrary: kept) (auto intro: path_step_ok)

lemma path_steps_replay: "stack_ok rooted es \<Longrightarrow> foldl (path_step rooted) [] (rev es) = es"
  by (induction es) (auto simp: path_step_def split: list.splits)

lemma split_join: "xs \<noteq> [] \<Longrightarrow> \<forall>e \<in> set xs. CHR ''/'' \<notin> set e \<Longrightarrow> split_path (join_path xs) = xs"
  by (induction xs rule: join_path.induct) (simp_all add: split_path_append split_path_plain)

lemma stack_ok_plain: "stack_ok rooted es \<Longrightarrow> \<forall>e \<in> set es. CHR ''/'' \<notin> set e \<and> e \<noteq> []"
  by (induction es) auto

lemma join_path_snoc: "es \<noteq> [] \<Longrightarrow> join_path (es @ [x]) = join_path es @ ''/'' @ x"
  by (induction es rule: join_path.induct) auto

definition rooted_text :: "bool \<Rightarrow> string" where
  "rooted_text rooted = (if rooted then ''/'' else [])"

lemma path_Clean_split:
  "path_Clean p = (let rooted = take 1 p = ''/'';
      s = rooted_text rooted @ join_path (rev (foldl (path_step rooted) [] (split_path p))) in if s = [] then ''.'' else s)"
  by (simp add: path_Clean_def rooted_text_def)

lemma join_path_head: "es \<noteq> [] \<Longrightarrow> \<forall>e \<in> set es. CHR ''/'' \<notin> set e \<and> e \<noteq> [] \<Longrightarrow> take 1 (join_path es) \<noteq> ''/'' \<and> join_path es \<noteq> []"
  by (cases es rule: join_path.cases; cases "hd es") auto

text \<open>Cleaning a cleaned path with one more element replays its stack.\<close>

lemma clean_again:
  assumes "stack_ok rooted es" "es \<noteq> []" "p = rooted_text rooted @ join_path (rev es)" "CHR ''/'' \<notin> set x"
  shows "path_Clean (p @ ''/'' @ x) = rooted_text rooted @ join_path (rev (path_step rooted es x)) \<or> path_step rooted es x = []"
proof -
  have plain: "\<forall>e \<in> set (rev es). CHR ''/'' \<notin> set e \<and> e \<noteq> []" using stack_ok_plain [OF assms(1)] by simp
  have "take 1 (p @ ''/'' @ x) = ''/'' \<longleftrightarrow> rooted"
    using join_path_head [OF _ plain] assms(2) by (cases "join_path (rev es)") (auto simp: assms(3) rooted_text_def)
  moreover have "foldl (path_step rooted) [] (split_path (p @ ''/'' @ x)) = path_step rooted es x"
  proof -
    have "split_path p = (if rooted then [[]] else []) @ rev es"
      using split_join [of "rev es"] assms(2) plain by (simp add: assms(3) rooted_text_def)
    then have "split_path (p @ ''/'' @ x) = (if rooted then [[]] else []) @ rev es @ [x]"
      using split_path_append [of p x] split_path_plain [OF assms(4)] by simp
    moreover have "path_step rooted [] [] = []" by (simp add: path_step_def)
    ultimately show ?thesis using path_steps_replay [OF assms(1)] by (cases rooted) simp_all
  qed
  moreover have "rooted_text rooted @ join_path (rev (path_step rooted es x)) \<noteq> []" if "path_step rooted es x \<noteq> []"
    using join_path_head [of "rev (path_step rooted es x)"] stack_ok_plain [OF path_step_ok [OF assms(1,4)]] that by auto
  ultimately show ?thesis by (auto simp: path_Clean_split Let_def)
qed

text \<open>Joining a plain name appends it to what the directory alone determines.\<close>

lemma path_Join_prefix:
  "\<exists>pre. \<forall>x. CHR ''/'' \<notin> set x \<and> x \<notin> {[], ''.'', ''..''} \<longrightarrow> path_Join [dir, x] = pre @ x"
proof (cases "dir = []")
  case True
  have "path_Join [dir, x] = [] @ x" if x: "CHR ''/'' \<notin> set x" "x \<notin> {[], ''.'', ''..''}" for x
  proof -
    have "take 1 x \<noteq> ''/''" using x by (cases x) auto
    then show ?thesis using True x split_path_plain [OF x(1)] by (simp add: path_Join_def path_Clean_def path_step_def)
  qed
  then show ?thesis by blast
next
  case False
  define rooted where "rooted = (take 1 dir = ''/'')"
  define d where "d = foldl (path_step rooted) [] (split_path dir)"
  let ?pre = "(if rooted then ''/'' else []) @ (if d = [] then [] else join_path (rev d) @ ''/'')"
  have "path_Join [dir, x] = ?pre @ x" if x: "CHR ''/'' \<notin> set x" "x \<notin> {[], ''.'', ''..''}" for x
  proof -
    have "take 1 (dir @ ''/'' @ x) = take 1 dir" using False by (cases dir) auto
    moreover have "foldl (path_step rooted) [] (split_path (dir @ ''/'' @ x)) = x # d"
      using x split_path_append [of dir x] split_path_plain [OF x(1)] by (simp add: d_def path_step_def)
    moreover have "path_Join [dir, x] = path_Clean (dir @ ''/'' @ x)" using False x by (simp add: path_Join_def)
    ultimately have c: "path_Join [dir, x] =
        (let s = (if rooted then ''/'' else []) @ join_path (rev (x # d)) in if s = [] then ''.'' else s)"
      unfolding path_Clean_def Let_def rooted_def by simp
    show ?thesis using x join_path_snoc [of "rev d" x] unfolding c by auto
  qed
  then show ?thesis by blast
qed

end
