(* ===== verification/Collector_Parquet.thy ===== *)
theory Collector_Parquet
  imports Events Go_Path
begin

text \<open>
  The Parquet writers of \<^verbatim>\<open>pkg/collector/parquet.go\<close>. The encoder and the file system are
  third-party: each call of a writer gets the results they deliver (\<open>write_env\<close>), and the
  rows handed to an encoder are kept per file in \<open>pw_files\<close>, oldest first. The handle and the
  encoder of the current file are set and cleared together (\<open>pw_open\<close>).
\<close>

section \<open>Event files\<close>

definition rotateBytesDefault :: int where
  "rotateBytesDefault = 256 * 1024 * 1024"

record parquetWriter =
  pw_dir :: string
  pw_shardID :: nat
  pw_rotateBytes :: int
  pw_currentSeq :: nat
  pw_open :: bool
  pw_bytesWritten :: int
  pw_totalRows :: int
  pw_closed :: bool
  pw_files :: "(string \<times> event list) list"

definition newParquetWriter :: "string \<Rightarrow> nat \<Rightarrow> int \<Rightarrow> parquetWriter" where
  "newParquetWriter dir shardID rotateBytes =
     \<lparr>pw_dir = dir, pw_shardID = shardID,
      pw_rotateBytes = (if rotateBytes \<le> 0 then rotateBytesDefault else rotateBytes),
      pw_currentSeq = 0, pw_open = False, pw_bytesWritten = 0, pw_totalRows = 0, pw_closed = False, pw_files = []\<rparr>"

text \<open>
  Results of the calls: \<^verbatim>\<open>MkdirAll\<close> and \<^verbatim>\<open>Create\<close> of the first file and of the one after a
  rotation, \<^verbatim>\<open>Close\<close> of encoder and file, the rows written with the error, the new size.
\<close>

record write_env =
  we_open :: "goerr option \<times> goerr option"
  we_reopen :: "goerr option \<times> goerr option"
  we_close :: "goerr option \<times> goerr option"
  we_write :: "nat \<times> goerr option"
  we_size :: int

definition shard_file :: "parquetWriter \<Rightarrow> string" where
  "shard_file w = ''events-shard-'' @ dec (pw_shardID w) @ ''-'' @ dec (pw_currentSeq w) @ ''.parquet''"

definition openNext :: "goerr option \<times> goerr option \<Rightarrow> parquetWriter \<Rightarrow> parquetWriter \<times> goerr option" where
  "openNext r w =
     (case fst r of Some err \<Rightarrow> (w, Some (Wrap (''mkdir '' @ pw_dir w @ '': '') err []))
      | None \<Rightarrow>
        (case snd r of Some err \<Rightarrow> (w, Some (Wrap (''create '' @ path_Join [pw_dir w, shard_file w] @ '': '') err []))
         | None \<Rightarrow> (w\<lparr>pw_open := True, pw_bytesWritten := 0, pw_files := pw_files w @ [(shard_file w, [])]\<rparr>, None)))"

definition closeCurrent :: "goerr option \<times> goerr option \<Rightarrow> parquetWriter \<Rightarrow> parquetWriter \<times> goerr option" where
  "closeCurrent r w =
     (if \<not> pw_open w then (w, None)
      else case fst r of Some err \<Rightarrow> (w, Some (Wrap ''parquet close: '' err []))
        | None \<Rightarrow>
          (case snd r of Some err \<Rightarrow> (w, Some (Wrap ''file close: '' err []))
           | None \<Rightarrow> (w\<lparr>pw_open := False\<rparr>, None)))"

definition pw_rotate :: "write_env \<Rightarrow> parquetWriter \<Rightarrow> parquetWriter \<times> goerr option" where
  "pw_rotate env w =
     (case closeCurrent (we_close env) w of
        (w1, Some err) \<Rightarrow> (w1, Some err)
      | (w1, None) \<Rightarrow> openNext (we_reopen env) (w1\<lparr>pw_currentSeq := pw_currentSeq w1 + 1\<rparr>))"

text \<open>Rows appended to the current file.\<close>

definition add_rows :: "event list \<Rightarrow> (string \<times> event list) list \<Rightarrow> (string \<times> event list) list" where
  "add_rows rows fs = butlast fs @ [(fst (last fs), snd (last fs) @ rows)]"

definition pw_writeBatch :: "write_env \<Rightarrow> event list \<Rightarrow> parquetWriter \<Rightarrow> parquetWriter \<times> goerr option" where
  "pw_writeBatch env rows w =
     (if pw_closed w then (w, Some (Plain ''parquet writer: write after close''))
      else if rows = [] then (w, None)
      else case (if \<not> pw_open w then openNext (we_open env) w else (w, None)) of
          (w1, Some err) \<Rightarrow> (w1, Some err)
        | (w1, None) \<Rightarrow>
          (case (if pw_bytesWritten w1 \<ge> pw_rotateBytes w1 then pw_rotate env w1 else (w1, None)) of
             (w2, Some err) \<Rightarrow> (w2, Some err)
           | (w2, None) \<Rightarrow>
             (let (n, err) = we_write env; w3 = w2\<lparr>pw_files := add_rows (take n rows) (pw_files w2)\<rparr>
              in case err of Some e \<Rightarrow> (w3, Some (Wrap ''parquet write: '' e []))
                 | None \<Rightarrow> (w3\<lparr>pw_totalRows := pw_totalRows w3 + int n, pw_bytesWritten := we_size env\<rparr>, None))))"

definition pw_close :: "goerr option \<times> goerr option \<Rightarrow> parquetWriter \<Rightarrow> parquetWriter \<times> goerr option" where
  "pw_close r w = (if pw_closed w then (w, None) else closeCurrent r (w\<lparr>pw_closed := True\<rparr>))"

section \<open>The outcome file\<close>

record outcomeWriter =
  ow_dir :: string
  ow_path :: string
  ow_rows :: int
  ow_closed :: bool
  ow_openedAt :: bool
  ow_file :: "outcome list"

definition newOutcomeWriter :: "string \<Rightarrow> outcomeWriter" where
  "newOutcomeWriter dir = \<lparr>ow_dir = dir, ow_path = path_Join [dir, ''subscribers.parquet''], ow_rows = 0, ow_closed = False,
     ow_openedAt = False, ow_file = []\<rparr>"

definition ow_writeBatch :: "write_env \<Rightarrow> outcome list \<Rightarrow> outcomeWriter \<Rightarrow> outcomeWriter \<times> goerr option" where
  "ow_writeBatch env rows w =
     (if ow_closed w then (w, Some (Plain ''outcome writer: write after close''))
      else if rows = [] then (w, None)
      else case (if \<not> ow_openedAt w
                 then (case fst (we_open env) of Some err \<Rightarrow> (w, Some (Wrap ''mkdir: '' err []))
                       | None \<Rightarrow> (case snd (we_open env) of Some err \<Rightarrow> (w, Some (Wrap (''create '' @ ow_path w @ '': '') err []))
                           | None \<Rightarrow> (w\<lparr>ow_openedAt := True\<rparr>, None)))
                 else (w, None)) of
          (w1, Some err) \<Rightarrow> (w1, Some err)
        | (w1, None) \<Rightarrow>
          (let (n, err) = we_write env; w2 = w1\<lparr>ow_file := ow_file w1 @ take n rows\<rparr>
           in case err of Some e \<Rightarrow> (w2, Some (Wrap ''outcome write: '' e []))
              | None \<Rightarrow> (w2\<lparr>ow_rows := ow_rows w2 + int n\<rparr>, None)))"

definition ow_close :: "goerr option \<times> goerr option \<Rightarrow> outcomeWriter \<Rightarrow> outcomeWriter \<times> goerr option" where
  "ow_close r w =
     (if ow_closed w then (w, None)
      else let w1 = w\<lparr>ow_closed := True\<rparr> in
        if \<not> ow_openedAt w1 then (w1, None)
        else case fst r of Some err \<Rightarrow> (w1, Some (Wrap ''outcome parquet close: '' err []))
          | None \<Rightarrow> (case snd r of Some err \<Rightarrow> (w1, Some (Wrap ''outcome file close: '' err [])) | None \<Rightarrow> (w1, None)))"

section \<open>Rows are kept once and in order\<close>

text \<open>Batches that are written without an error and in full.\<close>

fun write_all :: "(write_env \<times> event list) list \<Rightarrow> parquetWriter \<Rightarrow> parquetWriter option" where
  "write_all [] w = Some w"
| "write_all ((env, rows) # bs) w =
     (case pw_writeBatch env rows w of
        (w', None) \<Rightarrow> if rows = [] \<or> fst (we_write env) = length rows then write_all bs w' else None
      | (w', Some err) \<Rightarrow> None)"

definition file_name :: "nat \<Rightarrow> nat \<Rightarrow> string" where
  "file_name i n = ''events-shard-'' @ dec i @ ''-'' @ dec n @ ''.parquet''"

definition numbered :: "parquetWriter \<Rightarrow> nat list \<Rightarrow> bool" where
  "numbered w ns \<longleftrightarrow> map fst (pw_files w) = map (file_name (pw_shardID w)) ns \<and> sorted_wrt (<) ns \<and>
     (\<forall>n \<in> set ns. if pw_open w then n \<le> pw_currentSeq w else n < pw_currentSeq w) \<and>
     (pw_open w \<longrightarrow> pw_files w \<noteq> [])"

lemma openNext_numbered:
  assumes "openNext r w = (w', None)" "numbered w ns" "\<not> pw_open w"
  shows "numbered w' (ns @ [pw_currentSeq w])" "pw_open w'" "concat (map snd (pw_files w')) = concat (map snd (pw_files w))"
    "pw_totalRows w' = pw_totalRows w" "pw_closed w' = pw_closed w"
  using assms by (auto simp: openNext_def numbered_def shard_file_def file_name_def sorted_wrt_append split: option.splits)

lemma rotate_numbered:
  assumes "pw_rotate env w = (w', None)" "numbered w ns" "pw_open w"
  shows "\<exists>ns'. numbered w' ns'" "pw_open w'" "concat (map snd (pw_files w')) = concat (map snd (pw_files w))"
    "pw_totalRows w' = pw_totalRows w" "pw_closed w' = pw_closed w"
proof -
  let ?v = "w\<lparr>pw_open := False, pw_currentSeq := pw_currentSeq w + 1\<rparr>"
  have o: "openNext (we_reopen env) ?v = (w', None)"
    using assms(1,3) by (auto simp: pw_rotate_def closeCurrent_def split: option.splits prod.splits)
  have v: "numbered ?v ns" using assms(2,3) by (auto simp: numbered_def less_Suc_eq_le)
  show "\<exists>ns'. numbered w' ns'" "pw_open w'" "concat (map snd (pw_files w')) = concat (map snd (pw_files w))"
    "pw_totalRows w' = pw_totalRows w" "pw_closed w' = pw_closed w"
    using openNext_numbered [OF o v] by auto
qed

lemma add_rows_append: "fs \<noteq> [] \<Longrightarrow> concat (map snd (add_rows rows fs)) = concat (map snd fs) @ rows \<and> map fst (add_rows rows fs) = map fst fs"
  by (induction fs rule: rev_induct) (simp_all add: add_rows_def)

lemma write_one:
  assumes "pw_writeBatch env rows w = (w', None)" "rows = [] \<or> fst (we_write env) = length rows" "numbered w ns"
  shows "(\<exists>ns'. numbered w' ns') \<and> concat (map snd (pw_files w')) = concat (map snd (pw_files w)) @ rows \<and>
    pw_totalRows w' = pw_totalRows w + int (length rows)"
proof (cases "rows = []")
  case True
  then show ?thesis using assms by (auto simp: pw_writeBatch_def split: if_splits)
next
  case False
  with assms(1) obtain w1 where c: "\<not> pw_closed w" and w1: "(if \<not> pw_open w then openNext (we_open env) w else (w, None)) = (w1, None)"
    by (auto simp: pw_writeBatch_def split: if_splits prod.splits option.splits)
  have 1: "\<exists>ns'. numbered w1 ns'" "pw_open w1" "concat (map snd (pw_files w1)) = concat (map snd (pw_files w))" "pw_totalRows w1 = pw_totalRows w"
    using openNext_numbered [of "we_open env" w w1 ns] w1 assms(3) by (auto split: if_splits)
  then obtain ns1 where n1: "numbered w1 ns1" by blast
  obtain w2 where w2: "(if pw_bytesWritten w1 \<ge> pw_rotateBytes w1 then pw_rotate env w1 else (w1, None)) = (w2, None)"
    using assms(1) False c by (auto simp: pw_writeBatch_def w1 split: if_splits prod.splits option.splits)
  have 2: "\<exists>ns'. numbered w2 ns'" "pw_open w2" "concat (map snd (pw_files w2)) = concat (map snd (pw_files w))" "pw_totalRows w2 = pw_totalRows w"
    using rotate_numbered [of env w1 w2 ns1] w2 n1 1 by (auto split: if_splits)
  then obtain ns2 where n2: "numbered w2 ns2" and f: "pw_files w2 \<noteq> []" by (auto simp: numbered_def)
  have w': "w' = w2\<lparr>pw_files := add_rows rows (pw_files w2), pw_totalRows := pw_totalRows w2 + int (length rows), pw_bytesWritten := we_size env\<rparr>"
    using assms(1,2) False c by (auto simp: pw_writeBatch_def w1 w2 Let_def split: prod.splits option.splits)
  have "numbered w' ns2" using n2 add_rows_append [OF f, of rows] f by (auto simp: w' numbered_def)
  then show ?thesis using add_rows_append [OF f, of rows] 2 by (auto simp: w')
qed

lemma write_all_rows:
  "write_all bs w = Some w' \<Longrightarrow> numbered w ns \<Longrightarrow> (\<exists>ns'. numbered w' ns') \<and>
    concat (map snd (pw_files w')) = concat (map snd (pw_files w)) @ concat (map snd bs) \<and>
    pw_totalRows w' = pw_totalRows w + int (length (concat (map snd bs)))"
proof (induction bs arbitrary: w ns)
  case (Cons b bs)
  obtain env rows where b: "b = (env, rows)" by fastforce
  obtain w1 where w1: "pw_writeBatch env rows w = (w1, None)" "rows = [] \<or> fst (we_write env) = length rows" "write_all bs w1 = Some w'"
    using Cons.prems(1) by (auto simp: b split: prod.splits option.splits if_splits)
  from write_one [OF w1(1,2) Cons.prems(2)] obtain ns1 where "numbered w1 ns1" by blast
  from Cons.IH [OF w1(3) this] write_one [OF w1(1,2) Cons.prems(2)] show ?case by (auto simp: b)
qed auto


lemma file_name_inj: "file_name i m = file_name i n \<longleftrightarrow> m = n"
  by (simp add: file_name_def)

text \<open>
  Every row given to a writer whose calls succeed is in exactly one file, in the order of the
  calls, and no file is opened twice.
\<close>

lemma parquet_rows_kept:
  assumes "write_all bs (newParquetWriter dir i rotateBytes) = Some w"
  shows "concat (map snd (pw_files w)) = concat (map snd bs) \<and> pw_totalRows w = int (length (concat (map snd bs))) \<and>
    distinct (map fst (pw_files w))"
proof -
  have n: "numbered (newParquetWriter dir i rotateBytes) []"
    by (simp add: numbered_def newParquetWriter_def)
  from write_all_rows [OF assms n] obtain ns where ns: "numbered w ns" by blast
  have "distinct ns" using ns by (simp add: numbered_def strict_sorted_iff)
  then have "distinct (map fst (pw_files w))"
    using ns by (simp add: numbered_def distinct_map inj_on_def file_name_inj)
  then show ?thesis using write_all_rows [OF assms n] by (simp add: newParquetWriter_def)
qed

lemma closed_writer_refuses: "pw_closed w \<Longrightarrow> pw_writeBatch env rows w = (w, Some (Plain ''parquet writer: write after close''))"
  by (simp add: pw_writeBatch_def)

end
