(* ===== verification/Collector_Shard.thy ===== *)
theory Collector_Shard
  imports Events "HOL-Library.AList"
begin

text \<open>
  The per-shard counters of \<^verbatim>\<open>pkg/collector/aggregate.go\<close>: \<open>shardAggregation\<close> and
  \<open>observe\<close>. A Go map is an association list with distinct keys in some order (Go ranges
  over a map in any order). Counters of 64 bits are \<open>int\<close> (a run has some ten million
  events); the 32-bit retransmit counters wrap. The lemmas say what the counters hold after
  a stream of events, in terms of the stream alone.
\<close>

section \<open>Maps\<close>

type_synonym 'v gomap = "(u32 \<times> 'v) list"

definition gm_get :: "'v \<Rightarrow> ('k \<times> 'v) list \<Rightarrow> 'k \<Rightarrow> 'v" where
  "gm_get d m k = (case map_of m k of None \<Rightarrow> d | Some v \<Rightarrow> v)"

text \<open>An index expression yields the zero value when the key is absent.\<close>

definition wrap32 :: "int \<Rightarrow> int" where
  "wrap32 x = signed_take_bit 31 x"

definition gm_incr32 :: "u32 \<Rightarrow> int gomap \<Rightarrow> int gomap" where
  "gm_incr32 k m = AList.update k (wrap32 (gm_get 0 m k + 1)) m"

definition gm_once :: "u32 \<Rightarrow> 'v \<Rightarrow> 'v gomap \<Rightarrow> 'v gomap" where
  "gm_once k v m = (if map_of m k = None then AList.update k v m else m)"

lemma wrap32_id: "- (2 ^ 31) \<le> x \<Longrightarrow> x < 2 ^ 31 \<Longrightarrow> wrap32 x = x"
  by (simp add: wrap32_def signed_take_bit_int_eq_self_iff)

section \<open>Counters\<close>

record shardAggregation =
  sa_totalEvents :: int
  sa_seenSubs :: "unit gomap"
  sa_activatedOffsetMs :: "int gomap"
  sa_establishedOffsetMs :: "int gomap"
  sa_terminalState :: "string gomap"
  sa_authRetransmits :: "int gomap"
  sa_acctRetransmits :: "int gomap"
  sa_coaReceivedPerSub :: "int gomap"
  sa_disconnectReceivedAt :: "int gomap"
  sa_totalRetransmits :: int
  sa_coaReceived :: int
  sa_coaAcked :: int
  sa_coaNaked :: int
  sa_coaDropped :: int
  sa_coaResponseLatencies :: "int list"
  sa_disconnectReceived :: int
  sa_disconnectAcked :: int
  sa_disconnectNaked :: int
  sa_disconnectResponseLatencies :: "int list"
  sa_writeErrors :: "string list"

definition newShardAggregation :: shardAggregation where
  "newShardAggregation = \<lparr>sa_totalEvents = 0, sa_seenSubs = [], sa_activatedOffsetMs = [],
     sa_establishedOffsetMs = [], sa_terminalState = [], sa_authRetransmits = [],
     sa_acctRetransmits = [], sa_coaReceivedPerSub = [], sa_disconnectReceivedAt = [],
     sa_totalRetransmits = 0, sa_coaReceived = 0, sa_coaAcked = 0, sa_coaNaked = 0,
     sa_coaDropped = 0, sa_coaResponseLatencies = [], sa_disconnectReceived = 0,
     sa_disconnectAcked = 0, sa_disconnectNaked = 0, sa_disconnectResponseLatencies = [],
     sa_writeErrors = []\<rparr>"

definition recordWriteError :: "goerr \<Rightarrow> shardAggregation \<Rightarrow> shardAggregation" where
  "recordWriteError err a = a\<lparr>sa_writeErrors := sa_writeErrors a @ [err_msg err]\<rparr>"

definition observe_lifecycle :: "event \<Rightarrow> shardAggregation \<Rightarrow> shardAggregation" where
  "observe_lifecycle e a =
     (if EvEventType e = EventTypeSubscriberActivated
      then a\<lparr>sa_activatedOffsetMs := gm_once (EvSubscriberID e) (EvOffsetMs e) (sa_activatedOffsetMs a)\<rparr>
      else if EvEventType e = EventTypeSubscriberTerminal
      then (let a1 = a\<lparr>sa_terminalState := AList.update (EvSubscriberID e) (EvState e) (sa_terminalState a)\<rparr>
        in if EvState e = FinalStateEstablished
           then a1\<lparr>sa_establishedOffsetMs := gm_once (EvSubscriberID e) (EvOffsetMs e) (sa_establishedOffsetMs a1)\<rparr>
           else a1)
      else a)"

definition observe_outbound :: "event \<Rightarrow> shardAggregation \<Rightarrow> shardAggregation" where
  "observe_outbound e a =
     (if EvEventType e = EventTypeRequestRetransmitted
      then (let a1 = a\<lparr>sa_totalRetransmits := sa_totalRetransmits a + 1\<rparr>
        in if EvRadiusCode e = 1
           then a1\<lparr>sa_authRetransmits := gm_incr32 (EvSubscriberID e) (sa_authRetransmits a1)\<rparr>
           else if EvRadiusCode e = 4
           then a1\<lparr>sa_acctRetransmits := gm_incr32 (EvSubscriberID e) (sa_acctRetransmits a1)\<rparr>
           else a1)
      else a)"

definition observe_coa :: "event \<Rightarrow> shardAggregation \<Rightarrow> shardAggregation" where
  "observe_coa e a =
     (if EvEventType e = EventTypeCoAReceived
      then a\<lparr>sa_coaReceived := sa_coaReceived a + 1,
             sa_coaReceivedPerSub := gm_incr32 (EvSubscriberID e) (sa_coaReceivedPerSub a)\<rparr>
      else if EvEventType e = EventTypeCoAAcked
      then (let a1 = a\<lparr>sa_coaAcked := sa_coaAcked a + 1\<rparr>
        in if EvLatencyUs e > 0
           then a1\<lparr>sa_coaResponseLatencies := sa_coaResponseLatencies a1 @ [EvLatencyUs e]\<rparr> else a1)
      else if EvEventType e = EventTypeCoANaked
      then (let a1 = a\<lparr>sa_coaNaked := sa_coaNaked a + 1\<rparr>
        in if EvLatencyUs e > 0
           then a1\<lparr>sa_coaResponseLatencies := sa_coaResponseLatencies a1 @ [EvLatencyUs e]\<rparr> else a1)
      else if EvEventType e = EventTypeCoADropped
      then a\<lparr>sa_coaDropped := sa_coaDropped a + 1\<rparr>
      else a)"

definition observe_disconnect :: "event \<Rightarrow> shardAggregation \<Rightarrow> shardAggregation" where
  "observe_disconnect e a =
     (if EvEventType e = EventTypeDisconnectReceived
      then a\<lparr>sa_disconnectReceived := sa_disconnectReceived a + 1,
             sa_disconnectReceivedAt := AList.update (EvSubscriberID e) (EvOffsetMs e) (sa_disconnectReceivedAt a)\<rparr>
      else if EvEventType e = EventTypeDisconnectAcked
      then (let a1 = a\<lparr>sa_disconnectAcked := sa_disconnectAcked a + 1\<rparr>
        in if EvLatencyUs e > 0
           then a1\<lparr>sa_disconnectResponseLatencies := sa_disconnectResponseLatencies a1 @ [EvLatencyUs e]\<rparr> else a1)
      else if EvEventType e = EventTypeDisconnectNaked
      then (let a1 = a\<lparr>sa_disconnectNaked := sa_disconnectNaked a + 1\<rparr>
        in if EvLatencyUs e > 0
           then a1\<lparr>sa_disconnectResponseLatencies := sa_disconnectResponseLatencies a1 @ [EvLatencyUs e]\<rparr> else a1)
      else a)"

definition observe_seen :: "event \<Rightarrow> shardAggregation \<Rightarrow> shardAggregation" where
  "observe_seen e a =
     (let a1 = a\<lparr>sa_totalEvents := sa_totalEvents a + 1\<rparr>
      in if EvSubscriberID e \<noteq> 0
         then a1\<lparr>sa_seenSubs := AList.update (EvSubscriberID e) () (sa_seenSubs a1)\<rparr> else a1)"

definition observe :: "event \<Rightarrow> shardAggregation \<Rightarrow> shardAggregation" where
  "observe e a0 =
     (let a = observe_seen e a0
      in if EvCategory e = CategorySubscriberLifecycle then observe_lifecycle e a
         else if EvCategory e = CategoryPacketOutbound then observe_outbound e a
         else if EvCategory e = CategoryCoAInbound then observe_coa e a
         else if EvCategory e = CategoryDisconnectInbound then observe_disconnect e a
         else a)"

section \<open>What the counters say of the stream\<close>

definition is_kind :: "string \<Rightarrow> string \<Rightarrow> event \<Rightarrow> bool" where
  "is_kind c t e \<longleftrightarrow> EvCategory e = c \<and> EvEventType e = t"

definition is_activated :: "event \<Rightarrow> bool" where
  "is_activated = is_kind CategorySubscriberLifecycle EventTypeSubscriberActivated"

definition is_terminal :: "event \<Rightarrow> bool" where
  "is_terminal = is_kind CategorySubscriberLifecycle EventTypeSubscriberTerminal"

definition is_established :: "event \<Rightarrow> bool" where
  "is_established e \<longleftrightarrow> is_terminal e \<and> EvState e = FinalStateEstablished"

definition is_retransmit :: "event \<Rightarrow> bool" where
  "is_retransmit = is_kind CategoryPacketOutbound EventTypeRequestRetransmitted"

definition is_retransmit_of :: "int \<Rightarrow> event \<Rightarrow> bool" where
  "is_retransmit_of c e \<longleftrightarrow> is_retransmit e \<and> EvRadiusCode e = c"

definition is_coa_reply :: "event \<Rightarrow> bool" where
  "is_coa_reply e \<longleftrightarrow> (is_kind CategoryCoAInbound EventTypeCoAAcked e \<or> is_kind CategoryCoAInbound EventTypeCoANaked e) \<and> EvLatencyUs e > 0"

definition is_disconnect_reply :: "event \<Rightarrow> bool" where
  "is_disconnect_reply e \<longleftrightarrow> (is_kind CategoryDisconnectInbound EventTypeDisconnectAcked e \<or> is_kind CategoryDisconnectInbound EventTypeDisconnectNaked e) \<and> EvLatencyUs e > 0"

lemmas kind_defs = is_kind_def is_activated_def is_terminal_def is_established_def is_retransmit_def
  is_retransmit_of_def is_coa_reply_def is_disconnect_reply_def

lemmas observe_defs = observe_def observe_seen_def observe_lifecycle_def observe_outbound_def observe_coa_def observe_disconnect_def

lemma observe_scalars:
  "sa_totalEvents (observe e a) = sa_totalEvents a + 1"
  "sa_totalRetransmits (observe e a) = sa_totalRetransmits a + (if is_retransmit e then 1 else 0)"
  "sa_coaReceived (observe e a) = sa_coaReceived a + (if is_kind CategoryCoAInbound EventTypeCoAReceived e then 1 else 0)"
  "sa_coaAcked (observe e a) = sa_coaAcked a + (if is_kind CategoryCoAInbound EventTypeCoAAcked e then 1 else 0)"
  "sa_coaNaked (observe e a) = sa_coaNaked a + (if is_kind CategoryCoAInbound EventTypeCoANaked e then 1 else 0)"
  "sa_coaDropped (observe e a) = sa_coaDropped a + (if is_kind CategoryCoAInbound EventTypeCoADropped e then 1 else 0)"
  "sa_disconnectReceived (observe e a) = sa_disconnectReceived a + (if is_kind CategoryDisconnectInbound EventTypeDisconnectReceived e then 1 else 0)"
  "sa_disconnectAcked (observe e a) = sa_disconnectAcked a + (if is_kind CategoryDisconnectInbound EventTypeDisconnectAcked e then 1 else 0)"
  "sa_disconnectNaked (observe e a) = sa_disconnectNaked a + (if is_kind CategoryDisconnectInbound EventTypeDisconnectNaked e then 1 else 0)"
  "sa_writeErrors (observe e a) = sa_writeErrors a"
  by (simp_all add: observe_defs kind_defs Let_def)

lemma observe_latencies:
  "sa_coaResponseLatencies (observe e a) = sa_coaResponseLatencies a @ (if is_coa_reply e then [EvLatencyUs e] else [])"
  "sa_disconnectResponseLatencies (observe e a) = sa_disconnectResponseLatencies a @ (if is_disconnect_reply e then [EvLatencyUs e] else [])"
  by (simp_all add: observe_defs kind_defs Let_def)

lemma observe_maps:
  "sa_seenSubs (observe e a) = (if EvSubscriberID e \<noteq> 0 then AList.update (EvSubscriberID e) () (sa_seenSubs a) else sa_seenSubs a)"
  "sa_activatedOffsetMs (observe e a) =
     (if is_activated e then gm_once (EvSubscriberID e) (EvOffsetMs e) (sa_activatedOffsetMs a) else sa_activatedOffsetMs a)"
  "sa_terminalState (observe e a) =
     (if is_terminal e then AList.update (EvSubscriberID e) (EvState e) (sa_terminalState a) else sa_terminalState a)"
  "sa_establishedOffsetMs (observe e a) =
     (if is_established e then gm_once (EvSubscriberID e) (EvOffsetMs e) (sa_establishedOffsetMs a) else sa_establishedOffsetMs a)"
  "sa_authRetransmits (observe e a) =
     (if is_retransmit_of 1 e then gm_incr32 (EvSubscriberID e) (sa_authRetransmits a) else sa_authRetransmits a)"
  "sa_acctRetransmits (observe e a) =
     (if is_retransmit_of 4 e then gm_incr32 (EvSubscriberID e) (sa_acctRetransmits a) else sa_acctRetransmits a)"
  by (simp_all add: observe_defs kind_defs Let_def)

definition count_of :: "('a \<Rightarrow> bool) \<Rightarrow> 'a list \<Rightarrow> int" where
  "count_of P xs = int (length (filter P xs))"

text \<open>The part of the stream about subscriber \<open>k\<close> that satisfies \<open>P\<close>.\<close>

definition about :: "(event \<Rightarrow> bool) \<Rightarrow> u32 \<Rightarrow> event list \<Rightarrow> event list" where
  "about P k es = filter (\<lambda>e. P e \<and> EvSubscriberID e = k) es"

definition first_offset :: "event list \<Rightarrow> int option" where
  "first_offset es = (if es = [] then None else Some (EvOffsetMs (hd es)))"

definition last_state :: "event list \<Rightarrow> string option" where
  "last_state es = (if es = [] then None else Some (EvState (last es)))"

definition tally32 :: "event list \<Rightarrow> int option" where
  "tally32 es = (if es = [] then None else Some (wrap32 (int (length es))))"

lemma wrap32_Suc: "wrap32 (wrap32 x + 1) = wrap32 (x + 1)"
  using signed_take_bit_add [of 31 x 1] by (simp add: wrap32_def signed_take_bit_eq_if_positive)

lemma wrap32_0 [simp]: "wrap32 0 = 0"
  by (simp add: wrap32_def)

text \<open>The counters of one shard after a stream of events.\<close>

definition observed :: "event list \<Rightarrow> shardAggregation" where
  "observed es = fold observe es newShardAggregation"

lemma observed_snoc: "observed (es @ [e]) = observe e (observed es)"
  by (simp add: observed_def)

lemma observed_Nil: "observed [] = newShardAggregation"
  by (simp add: observed_def)

lemma observed_scalars:
  "sa_totalEvents (observed es) = int (length es)"
  "sa_totalRetransmits (observed es) = count_of is_retransmit es"
  "sa_coaReceived (observed es) = count_of (is_kind CategoryCoAInbound EventTypeCoAReceived) es"
  "sa_coaAcked (observed es) = count_of (is_kind CategoryCoAInbound EventTypeCoAAcked) es"
  "sa_coaNaked (observed es) = count_of (is_kind CategoryCoAInbound EventTypeCoANaked) es"
  "sa_coaDropped (observed es) = count_of (is_kind CategoryCoAInbound EventTypeCoADropped) es"
  "sa_disconnectReceived (observed es) = count_of (is_kind CategoryDisconnectInbound EventTypeDisconnectReceived) es"
  "sa_disconnectAcked (observed es) = count_of (is_kind CategoryDisconnectInbound EventTypeDisconnectAcked) es"
  "sa_disconnectNaked (observed es) = count_of (is_kind CategoryDisconnectInbound EventTypeDisconnectNaked) es"
  "sa_writeErrors (observed es) = []"
  "sa_coaResponseLatencies (observed es) = map EvLatencyUs (filter is_coa_reply es)"
  "sa_disconnectResponseLatencies (observed es) = map EvLatencyUs (filter is_disconnect_reply es)"
  by (induction es rule: rev_induct)
    (simp_all add: observed_snoc observe_scalars observe_latencies count_of_def,
     simp_all add: observed_Nil newShardAggregation_def)

lemma map_of_gm:
  "map_of (gm_once k v m) k' = (if k' = k \<and> map_of m k = None then Some v else map_of m k')"
  "map_of (gm_incr32 k w) k' = (if k' = k then Some (wrap32 (gm_get 0 w k + 1)) else map_of w k')"
  by (auto simp: gm_once_def gm_incr32_def update_conv')

lemma about_snoc: "about P k (es @ [e]) = about P k es @ (if P e \<and> EvSubscriberID e = k then [e] else [])"
  by (simp add: about_def)

lemma summary_snoc:
  "first_offset (es @ [e]) = (case first_offset es of None \<Rightarrow> Some (EvOffsetMs e) | Some v \<Rightarrow> Some v)"
  "last_state (es @ [e]) = Some (EvState e)"
  "tally32 (es @ [e]) = Some (wrap32 (int (length es) + 1))"
  by (auto simp: first_offset_def last_state_def tally32_def add.commute)

lemma gm_get_tally32: "map_of m k = tally32 es \<Longrightarrow> wrap32 (gm_get 0 m k + 1) = wrap32 (int (length es) + 1)"
  by (simp add: gm_get_def tally32_def wrap32_Suc)

lemma observed_maps:
  "map_of (sa_seenSubs (observed es)) k = (if k \<noteq> 0 \<and> about (\<lambda>e. True) k es \<noteq> [] then Some () else None)"
  "map_of (sa_activatedOffsetMs (observed es)) k = first_offset (about is_activated k es)"
  "map_of (sa_establishedOffsetMs (observed es)) k = first_offset (about is_established k es)"
  "map_of (sa_terminalState (observed es)) k = last_state (about is_terminal k es)"
  "map_of (sa_authRetransmits (observed es)) k = tally32 (about (is_retransmit_of 1) k es)"
  "map_of (sa_acctRetransmits (observed es)) k = tally32 (about (is_retransmit_of 4) k es)"
proof (induction es rule: rev_induct)
  case Nil
  show "map_of (sa_seenSubs (observed [])) k = (if k \<noteq> 0 \<and> about (\<lambda>e. True) k [] \<noteq> [] then Some () else None)"
    "map_of (sa_activatedOffsetMs (observed [])) k = first_offset (about is_activated k [])"
    "map_of (sa_establishedOffsetMs (observed [])) k = first_offset (about is_established k [])"
    "map_of (sa_terminalState (observed [])) k = last_state (about is_terminal k [])"
    "map_of (sa_authRetransmits (observed [])) k = tally32 (about (is_retransmit_of 1) k [])"
    "map_of (sa_acctRetransmits (observed [])) k = tally32 (about (is_retransmit_of 4) k [])"
    by (simp_all add: observed_Nil newShardAggregation_def about_def first_offset_def last_state_def tally32_def)
next
  case (snoc e es)
  note step = observed_snoc observe_maps update_conv' map_of_gm about_snoc summary_snoc
  show "map_of (sa_seenSubs (observed (es @ [e]))) k = (if k \<noteq> 0 \<and> about (\<lambda>e. True) k (es @ [e]) \<noteq> [] then Some () else None)"
    using snoc(1) by (auto simp: step)
  show "map_of (sa_activatedOffsetMs (observed (es @ [e]))) k = first_offset (about is_activated k (es @ [e]))"
    using snoc(2) by (auto simp: step split: option.split)
  show "map_of (sa_establishedOffsetMs (observed (es @ [e]))) k = first_offset (about is_established k (es @ [e]))"
    using snoc(3) by (auto simp: step split: option.split)
  show "map_of (sa_terminalState (observed (es @ [e]))) k = last_state (about is_terminal k (es @ [e]))"
    using snoc(4) by (auto simp: step)
  show "map_of (sa_authRetransmits (observed (es @ [e]))) k = tally32 (about (is_retransmit_of 1) k (es @ [e]))"
    using snoc(5) by (auto simp: step gm_get_tally32)
  show "map_of (sa_acctRetransmits (observed (es @ [e]))) k = tally32 (about (is_retransmit_of 4) k (es @ [e]))"
    using snoc(6) by (auto simp: step gm_get_tally32)
qed

lemma observed_distinct:
  "distinct (map fst (sa_seenSubs (observed es)))"
  "distinct (map fst (sa_activatedOffsetMs (observed es)))"
  "distinct (map fst (sa_establishedOffsetMs (observed es)))"
  "distinct (map fst (sa_terminalState (observed es)))"
  "distinct (map fst (sa_authRetransmits (observed es)))"
  "distinct (map fst (sa_acctRetransmits (observed es)))"
  by (induction es rule: rev_induct)
    (simp_all add: observed_snoc observe_maps distinct_update gm_once_def gm_incr32_def,
     simp_all add: observed_Nil newShardAggregation_def)

end
