(* ===== verification/Collector_Stats.thy ===== *)
theory Collector_Stats
  imports Events Float64
begin

text \<open>
  The statistics of \<^verbatim>\<open>pkg/collector/aggregate.go\<close>: nearest-rank percentiles computed in
  floating point, the latency and retransmit distributions, the threshold roll-up and the
  establishment curve. The lemmas give each its exact reference: percentiles are the
  integer nearest ranks, the curve's rows count the subscribers below the row's offset.
\<close>

section \<open>Distributions\<close>

record LatencyDistribution =
  ld_Min :: int
  ld_P50 :: int
  ld_P95 :: int
  ld_P99 :: int
  ld_P999 :: int
  ld_Max :: int

record RetransmitDistribution =
  rd_P50 :: int
  rd_P95 :: int
  rd_P99 :: int
  rd_Max :: int

fun fceil :: "float64 \<Rightarrow> float64" where
  "fceil (Fin x) = Fin (of_int \<lceil>x\<rceil>)"
| "fceil x = x"

definition percentile :: "int \<Rightarrow> int list \<Rightarrow> float64 \<Rightarrow> int" where
  "percentile ovf xs q =
     (if xs = [] then 0
      else if fle q (Fin 0) then xs ! 0
      else if fle (Fin 1) q then xs ! (length xs - 1)
      else let rank0 = f_to_int64 ovf (fceil (fmul q (f_of_int (int (length xs)))));
               rank1 = (if rank0 < 1 then 1 else rank0);
               rank = (if rank1 > int (length xs) then int (length xs) else rank1)
           in xs ! nat (rank - 1))"

definition computeDistribution :: "int \<Rightarrow> int list \<Rightarrow> LatencyDistribution" where
  "computeDistribution ovf samples =
     (if samples = [] then \<lparr>ld_Min = 0, ld_P50 = 0, ld_P95 = 0, ld_P99 = 0, ld_P999 = 0, ld_Max = 0\<rparr>
      else let cp = sort samples in
        \<lparr>ld_Min = cp ! 0,
         ld_P50 = percentile ovf cp (fround (50 / 100)),
         ld_P95 = percentile ovf cp (fround (95 / 100)),
         ld_P99 = percentile ovf cp (fround (99 / 100)),
         ld_P999 = percentile ovf cp (fround (999 / 1000)),
         ld_Max = cp ! (length cp - 1)\<rparr>)"

text \<open>Conversion to \<^verbatim>\<open>int32\<close> keeps the low 32 bits.\<close>

definition computeRetransmitDistribution :: "int \<Rightarrow> int list \<Rightarrow> RetransmitDistribution" where
  "computeRetransmitDistribution ovf samples =
     (let d = computeDistribution ovf samples in
      \<lparr>rd_P50 = signed_take_bit 31 (ld_P50 d), rd_P95 = signed_take_bit 31 (ld_P95 d),
       rd_P99 = signed_take_bit 31 (ld_P99 d), rd_Max = signed_take_bit 31 (ld_Max d)\<rparr>)"

section \<open>Thresholds\<close>

text \<open>\<open>'v\<close> is the type of the free-form JSON values.\<close>

record 'v Threshold =
  th_Name :: string
  th_Expected :: 'v
  th_Actual :: 'v
  th_Pass :: bool

abbreviation (input) ThresholdsOverallPass :: string where "ThresholdsOverallPass \<equiv> ''pass''"
abbreviation (input) ThresholdsOverallFail :: string where "ThresholdsOverallFail \<equiv> ''fail''"
abbreviation (input) ThresholdsOverallNone :: string where "ThresholdsOverallNone \<equiv> ''none''"

fun thresholds_loop :: "'v Threshold list \<Rightarrow> string" where
  "thresholds_loop [] = ThresholdsOverallPass"
| "thresholds_loop (t # ts) = (if \<not> th_Pass t then ThresholdsOverallFail else thresholds_loop ts)"

definition evalThresholdsOverall :: "'v Threshold list \<Rightarrow> string" where
  "evalThresholdsOverall ts = (if ts = [] then ThresholdsOverallNone else thresholds_loop ts)"

lemma evalThresholdsOverall_iff:
  "evalThresholdsOverall ts = (if ts = [] then ThresholdsOverallNone
     else if \<forall>t \<in> set ts. th_Pass t then ThresholdsOverallPass else ThresholdsOverallFail)"
proof -
  have "thresholds_loop ts = (if \<forall>t \<in> set ts. th_Pass t then ThresholdsOverallPass else ThresholdsOverallFail)"
    by (induction ts) auto
  then show ?thesis by (simp add: evalThresholdsOverall_def)
qed

section \<open>The establishment curve\<close>

record subAgg =
  ag_activatedOffsetMs :: int
  ag_establishedOffsetMs :: int
  ag_terminalState :: string
  ag_authRetransmits :: int
  ag_acctRetransmits :: int

record CurvePoint =
  cu_OffsetMs :: int
  cu_Activated :: int
  cu_Established :: int
  cu_InFlight :: int

definition larger :: "int \<Rightarrow> int \<Rightarrow> int" where
  "larger x m = (if x > m then x else m)"

definition curve_maxOff :: "subAgg list \<Rightarrow> int" where
  "curve_maxOff subs = fold (\<lambda>s m. larger (ag_establishedOffsetMs s) (larger (ag_activatedOffsetMs s) m)) subs 0"

definition bump_bucket :: "int \<Rightarrow> int \<Rightarrow> int \<Rightarrow> int list \<Rightarrow> int list" where
  "bump_bucket bucketMs buckets off delta =
     (if off \<ge> 0
      then let b = tdiv off bucketMs in
        if b \<ge> 0 \<and> b < buckets then delta[nat b := delta ! nat b + 1] else delta
      else delta)"

definition curve_deltas :: "int \<Rightarrow> int \<Rightarrow> subAgg list \<Rightarrow> int list \<times> int list" where
  "curve_deltas bucketMs buckets subs =
     fold (\<lambda>s (act, est). (bump_bucket bucketMs buckets (ag_activatedOffsetMs s) act,
                           bump_bucket bucketMs buckets (ag_establishedOffsetMs s) est))
       subs (replicate (nat buckets) 0, replicate (nat buckets) 0)"

text \<open>The running sum: \<open>b\<close> is the bucket, the lists are the deltas from it on.\<close>

fun curve_rows :: "int \<Rightarrow> int \<Rightarrow> int \<Rightarrow> int \<Rightarrow> (int \<times> int) list \<Rightarrow> CurvePoint list" where
  "curve_rows bucketMs b cumAct cumEst [] = []"
| "curve_rows bucketMs b cumAct cumEst ((a, e) # ds) =
     \<lparr>cu_OffsetMs = wrap64 ((b + 1) * bucketMs), cu_Activated = cumAct + a, cu_Established = cumEst + e,
      cu_InFlight = (cumAct + a) - (cumEst + e)\<rparr> # curve_rows bucketMs (b + 1) (cumAct + a) (cumEst + e) ds"

definition buildEstablishmentCurve :: "subAgg list \<Rightarrow> int \<Rightarrow> CurvePoint list" where
  "buildEstablishmentCurve subs bucketMs =
     (if subs = [] \<or> bucketMs \<le> 0 then []
      else let n = wrap64 (tdiv (curve_maxOff subs) bucketMs + 1);
               buckets = (if n < 1 then 1 else n);
               (act, est) = curve_deltas bucketMs buckets subs
           in \<lparr>cu_OffsetMs = 0, cu_Activated = 0, cu_Established = 0, cu_InFlight = 0\<rparr>
              # curve_rows bucketMs 0 0 0 (zip act est))"

section \<open>Percentiles are nearest ranks\<close>

text \<open>The rank \<open>\<lceil>a n / d\<rceil>\<close> in integers.\<close>

definition nearest_rank :: "nat \<Rightarrow> nat \<Rightarrow> nat \<Rightarrow> nat" where
  "nearest_rank a d n = (a * n + d - 1) div d"

lemma nearest_rank_bounds:
  assumes "0 < a" "a \<le> d" "0 < n"
  shows "1 \<le> nearest_rank a d n" "nearest_rank a d n \<le> n"
    "a * n \<le> nearest_rank a d n * d" "(nearest_rank a d n - 1) * d + 1 \<le> a * n"
proof -
  define r where "r = nearest_rank a d n"
  have an: "1 \<le> a * n" using assms by (simp add: Suc_le_eq)
  have r: "r = (a * n + d - 1) div d" by (simp add: r_def nearest_rank_def)
  have d: "0 < d" using assms by simp
  have "a * n + d - 1 < (r + 1) * d" using dividend_less_times_div [OF d, of "a * n + d - 1"] by (simp add: r algebra_simps)
  then show c: "a * n \<le> nearest_rank a d n * d" using an by (simp add: r_def [symmetric] algebra_simps)
  have "r * d \<le> a * n + d - 1" by (simp add: r)
  then have rd: "r * d \<le> a * n + (d - 1)" using d by simp
  show "1 \<le> nearest_rank a d n" using c an by (cases "nearest_rank a d n") auto
  then have "1 \<le> r" by (simp add: r_def)
  then obtain r' where r': "r = Suc r'" by (cases r) auto
  show "(nearest_rank a d n - 1) * d + 1 \<le> a * n"
    using rd d by (simp add: r_def [symmetric] r')
  moreover have "a * n \<le> d * n" using assms(2) by (rule mult_le_mono1)
  ultimately have "(r - 1) * d < n * d" unfolding r_def by (simp only: mult.commute [of n d])
  then have "r - 1 < n" using d by simp
  then show "nearest_rank a d n \<le> n" by (simp add: r_def)
qed

lemma ceiling_near:
  assumes q: "0 < a" "a < d" "d \<le> 1000" "0 < q'" "of_nat a / of_nat d - 1 / 2 ^ 53 \<le> q'" "q' \<le> (of_nat a / of_nat d :: rat)"
    and n: "0 < n" "n \<le> 2 ^ 32"
  shows "fround (q' * of_nat n) = Fin (round_mag (q' * of_nat n))"
    "\<lceil>round_mag (q' * of_nat n)\<rceil> = int (nearest_rank a d n)"
proof -
  define r where "r = nearest_rank a d n"
  note nr = nearest_rank_bounds [OF q(1) less_imp_le [OF q(2)] n(1), folded r_def]
  define x where "x = q' * of_nat n"
  have d: "0 < (of_nat d :: rat)" "(of_nat d :: rat) \<le> 1000" using q by simp_all
  have N: "0 < (of_nat n :: rat)" "(of_nat n :: rat) \<le> 2 ^ 32"
    using n(1) of_nat_le_iff [where 'a = rat, of n "2 ^ 32"] n(2) by auto
  have x0: "0 < x" using q N by (simp add: x_def)
  have "x \<le> of_nat a / of_nat d * of_nat n" unfolding x_def using q(6) N by (intro mult_right_mono) simp_all
  also have "\<dots> \<le> of_nat r"
    using nr(3) d of_nat_le_iff [where 'a = rat, of "a * n" "r * d"] by (simp add: field_simps)
  finally have xr: "x \<le> of_nat r" .
  have rn: "of_nat r \<le> (of_nat n :: rat)" using nr(2) by simp
  with xr N have x32: "x \<le> 2 ^ 32" by linarith
  have x62: "x < 2 ^ 62" using x32 by simp
  show "fround (q' * of_nat n) = Fin (round_mag (q' * of_nat n))"
    using fround_pos [OF x0 x62] by (simp add: x_def)
  have ri: "round_mag (of_int (int r)) = of_int (int r)"
    using nr(1,2) n(2) by (intro round_mag_int) auto
  have up: "round_mag x \<le> of_nat r"
    using round_mag_mono [of x "of_nat r"] x0 xr ri by simp
  have "(2 :: rat) powi ilog2 x \<le> 2 powi 32" using ilog2_bounds(1) [OF x0] x32 by simp
  then have "ilog2 x \<le> 32" by (simp only: powi_le_iff)
  then have "ulp_exp x \<le> - 20" by (simp add: ulp_exp_def)
  then have "(2 :: rat) powi ulp_exp x \<le> 2 powi (- 20)" by (simp only: powi_le_iff)
  then have "2 powi ulp_exp x \<le> (1 / 2 ^ 20 :: rat)" by (simp add: power_int_minus)
  then have err: "round_mag x \<ge> x - 1 / 2 ^ 21"
    using abs_le_D2 [OF round_mag_error [OF x0]] by simp
  have "of_nat ((r - 1) * d + 1) \<le> (of_nat (a * n) :: rat)" using nr(4) by (simp only: of_nat_le_iff)
  then have "(of_nat r - 1) * of_nat d + 1 \<le> (of_nat a * of_nat n :: rat)" using nr(1) by (simp add: of_nat_diff)
  then have "((of_nat r - 1) * of_nat d + 1) / of_nat d \<le> (of_nat a * of_nat n / of_nat d :: rat)"
    using d by (intro divide_right_mono) simp_all
  then have "of_nat r - 1 + 1 / of_nat d \<le> (of_nat a / of_nat d * of_nat n :: rat)"
    using d by (simp add: add_divide_distrib)
  moreover have "1 / 1000 \<le> 1 / (of_nat d :: rat)" using d by (simp add: field_simps)
  moreover have "(of_nat a / of_nat d - 1 / 2 ^ 53) * of_nat n \<le> x"
    unfolding x_def using q(5) N by (intro mult_right_mono) simp_all
  then have "of_nat a / of_nat d * of_nat n - x \<le> 1 / 2 ^ 53 * of_nat n"
    unfolding left_diff_distrib by linarith
  moreover have "1 / 2 ^ 53 * of_nat n \<le> (1 / 2 ^ 21 :: rat)" using N by simp
  moreover have "1 / 2 ^ 21 + 1 / 2 ^ 21 < (1 / 1000 :: rat)" by simp
  ultimately have lo: "of_nat r - 1 < round_mag x" using err by linarith
  show "\<lceil>round_mag (q' * of_nat n)\<rceil> = int (nearest_rank a d n)"
    using up lo by (simp add: ceiling_eq_iff x_def r_def)
qed

lemma percentile_nearest:
  assumes "0 < a" "a < d" "d \<le> 1000" "0 < q'" "of_nat a / of_nat d - 1 / 2 ^ 53 \<le> q'" "q' \<le> (of_nat a / of_nat d :: rat)"
    and "xs \<noteq> []" "length xs \<le> 2 ^ 32"
  shows "percentile ovf xs (Fin q') = xs ! (nearest_rank a d (length xs) - 1)"
proof -
  define n where "n = length xs"
  have n: "0 < n" "n \<le> 2 ^ 32" using assms by (simp_all add: n_def)
  have "(of_nat a :: rat) / of_nat d < 1" using assms by simp
  then have q1: "\<not> fle (Fin 1) (Fin q')" "\<not> fle (Fin q') (Fin 0)"
    using assms(4,6) by (auto simp: fle_def)
  have fn: "f_of_int (int n) = Fin (of_nat n)"
    using round_mag_int [of "int n"] fround_pos [of "of_int (int n)"] n
      of_nat_le_iff [where 'a = rat, of n "2 ^ 32"]
    by (simp add: f_of_int_def)
  note cn = ceiling_near [OF assms(1-6) n]
  note nr = nearest_rank_bounds [OF assms(1) less_imp_le [OF assms(2)] n(1)]
  have m: "fmul (Fin q') (f_of_int (int n)) = Fin (round_mag (q' * of_nat n))"
    by (simp add: fn cn)
  have r: "f_to_int64 ovf (fceil (fmul (Fin q') (f_of_int (int n)))) = int (nearest_rank a d n)"
    using nr n by (simp add: m cn trunc_rat_def)
  show ?thesis
    using assms(7) q1 nr r by (simp add: percentile_def n_def [symmetric] Let_def nat_diff_distrib)
qed


lemma quantile_constants:
  "fround (50 / 100) = Fin (1 / 2)"
  "fround (95 / 100) = Fin (8556839292003942 / 2 ^ 53)"
  "fround (99 / 100) = Fin (8917127262193582 / 2 ^ 53)"
  "fround (999 / 1000) = Fin (8998192055486251 / 2 ^ 53)"
  using fround_pos [of "50 / 100"] round_mag_fraction [of "- 1" "50 / 100" "2 ^ 52"]
    apply (simp add: power_int_minus)
  using fround_pos [of "95 / 100"] round_mag_fraction [of "- 1" "95 / 100" 8556839292003942]
    apply (simp add: power_int_minus)
  using fround_pos [of "99 / 100"] round_mag_fraction [of "- 1" "99 / 100" 8917127262193582]
   apply (simp add: power_int_minus)
  using fround_pos [of "999 / 1000"] round_mag_fraction [of "- 1" "999 / 1000" 8998192055486251]
  apply (simp add: power_int_minus)
  done

lemma percentile_constants:
  assumes "xs \<noteq> []" "length xs \<le> 2 ^ 32"
  shows "percentile ovf xs (fround (50 / 100)) = xs ! (nearest_rank 50 100 (length xs) - 1)"
    "percentile ovf xs (fround (95 / 100)) = xs ! (nearest_rank 95 100 (length xs) - 1)"
    "percentile ovf xs (fround (99 / 100)) = xs ! (nearest_rank 99 100 (length xs) - 1)"
    "percentile ovf xs (fround (999 / 1000)) = xs ! (nearest_rank 999 1000 (length xs) - 1)"
  unfolding quantile_constants
  using assms by (intro percentile_nearest; simp)+

section \<open>Distributions are exact\<close>

definition reference_distribution :: "int list \<Rightarrow> LatencyDistribution" where
  "reference_distribution samples = (let xs = sort samples; n = length xs; q = (\<lambda>a d. xs ! (nearest_rank a d n - 1)) in
     \<lparr>ld_Min = Min (set samples), ld_P50 = q 50 100, ld_P95 = q 95 100, ld_P99 = q 99 100,
      ld_P999 = q 999 1000, ld_Max = Max (set samples)\<rparr>)"

lemma nth_sort_ends:
  assumes "xs \<noteq> []"
  shows "sort xs ! 0 = Min (set xs)" "sort xs ! (length xs - 1) = Max (set xs)"
proof -
  have s: "sort xs \<noteq> []" using assms by (metis length_0_conv length_sort)
  show "sort xs ! 0 = Min (set xs)"
    using Min_eqI [of "set xs" "sort xs ! 0"] assms s
    by (metis List.finite_set in_set_conv_nth le0 length_greater_0_conv length_sort nth_mem set_sort sorted_nth_mono sorted_sort)
  show "sort xs ! (length xs - 1) = Max (set xs)"
  proof (rule sym, rule Max_eqI)
    fix y assume "y \<in> set xs"
    then obtain i where "i < length xs" "y = sort xs ! i" by (metis in_set_conv_nth length_sort set_sort)
    then show "y \<le> sort xs ! (length xs - 1)" by (simp add: sorted_nth_mono)
  next
    show "sort xs ! (length xs - 1) \<in> set xs"
      using assms by (metis diff_less length_greater_0_conv length_sort nth_mem set_sort zero_less_one)
  qed simp
qed

lemma nearest_rank_chain:
  "nearest_rank 50 100 n \<le> nearest_rank 95 100 n" "nearest_rank 95 100 n \<le> nearest_rank 99 100 n"
  "nearest_rank 99 100 n \<le> nearest_rank 999 1000 n"
  unfolding nearest_rank_def by arith+

lemma distribution_eq:
  assumes "xs \<noteq> []" "length xs \<le> 2 ^ 32"
  shows "computeDistribution ovf xs = reference_distribution xs"
proof -
  have "sort xs \<noteq> []" "length (sort xs) \<le> 2 ^ 32"
    using assms by (metis length_0_conv length_sort, simp)
  from percentile_constants [OF this] show ?thesis
    using assms nth_sort_ends [OF assms(1)] by (simp add: computeDistribution_def reference_distribution_def Let_def)
qed

text \<open>C27: for a non-empty list of at most 2^32 samples the distribution computed in floating
  point is the one of the integer nearest ranks: minimum, p50, p95, p99, p99.9 and maximum are
  samples, each at its exact rank, and they are in ascending order.\<close>

theorem distribution_exact:
  assumes "samples \<noteq> []" "length samples \<le> 2 ^ 32"
  shows "computeDistribution ovf samples = reference_distribution samples \<and>
    (let d = computeDistribution ovf samples in
       ld_Min d \<le> ld_P50 d \<and> ld_P50 d \<le> ld_P95 d \<and> ld_P95 d \<le> ld_P99 d \<and> ld_P99 d \<le> ld_P999 d \<and>
       ld_P999 d \<le> ld_Max d \<and>
       {ld_Min d, ld_P50 d, ld_P95 d, ld_P99 d, ld_P999 d, ld_Max d} \<subseteq> set samples)"
proof -
  define n where "n = length samples"
  have n: "0 < n" using assms by (simp add: n_def)
  have ranks: "nearest_rank a d n - 1 < n" if "(a, d) \<in> {(50, 100), (95, 100), (99, 100), (999, 1000)}" for a d
    using nearest_rank_bounds(2) [of a d n] n that by fastforce
  have top: "nearest_rank 999 1000 n - 1 \<le> n - 1"
    using nearest_rank_bounds(2) [of 999 1000 n] n by simp
  have mono: "sort samples ! i \<le> sort samples ! j" if "i \<le> j" "j < n" for i j
    using that by (simp add: sorted_nth_mono n_def)
  have mem: "sort samples ! i \<in> set samples" if "i < n" for i
    using that by (metis length_sort n_def nth_mem set_sort)
  have m: "Min (set samples) = sort samples ! 0" "Max (set samples) = sort samples ! (n - 1)"
    using nth_sort_ends [OF assms(1)] by (simp_all add: n_def)
  show ?thesis
    unfolding distribution_eq [OF assms]
    using ranks top nearest_rank_chain [of n] n
    by (simp add: reference_distribution_def Let_def n_def [symmetric] m mono mem diff_le_mono)
qed

lemma distribution_exact_witness:
  "computeDistribution 0 [30, 10, 20] = reference_distribution [30, 10, 20] \<and>
   reference_distribution [30, 10, 20] =
     \<lparr>ld_Min = 10, ld_P50 = 20, ld_P95 = 30, ld_P99 = 30, ld_P999 = 30, ld_Max = 30\<rparr>"
proof -
  have "reference_distribution [30, 10, 20] =
     \<lparr>ld_Min = 10, ld_P50 = 20, ld_P95 = 30, ld_P99 = 30, ld_P999 = 30, ld_Max = 30\<rparr>"
    by (simp add: reference_distribution_def nearest_rank_def)
  then show ?thesis using distribution_exact [of "[30, 10, 20]" 0] by simp
qed

section \<open>The curve counts subscribers below an offset\<close>

definition below :: "(subAgg \<Rightarrow> int) \<Rightarrow> int \<Rightarrow> subAgg list \<Rightarrow> int" where
  "below f t subs = int (length (filter (\<lambda>s. 0 \<le> f s \<and> f s < t) subs))"

lemma fold_pair: "fold (\<lambda>s (a, e). (f s a, g s e)) xs (x, y) = (fold f xs x, fold g xs y)"
  by (induction xs arbitrary: x y) simp_all

lemma sum_list_take_bump:
  fixes d :: "int list"
  shows "k < length d \<Longrightarrow> sum_list (take i (d[k := d ! k + 1])) = sum_list (take i d) + (if k < i then 1 else 0)"
proof (induction d arbitrary: i k)
  case (Cons x d)
  then show ?case by (cases i; cases k) auto
qed simp

lemma length_bump_bucket [simp]: "length (bump_bucket b n off d) = length d"
  by (simp add: bump_bucket_def Let_def)

lemma div_less_mult_iff:
  fixes b :: int
  assumes "0 < b" shows "x div b < k \<longleftrightarrow> x < k * b"
proof -
  have x: "x = (x div b) * b + x mod b" "0 \<le> x mod b" "x mod b < b"
    using assms by simp_all
  show ?thesis
  proof
    assume "x div b < k"
    then have "(x div b + 1) * b \<le> k * b" using assms by (intro mult_right_mono) simp_all
    then have "(x div b) * b + b \<le> k * b" by (simp add: distrib_right)
    then show "x < k * b" using x by linarith
  next
    assume "x < k * b"
    then have "\<not> k * b \<le> (x div b) * b" using x by linarith
    then show "x div b < k" using assms mult_right_mono [of k "x div b" b] by linarith
  qed
qed

lemma bump_bucket_take:
  assumes "0 < b" "length d = nat n" "off div b < n" "i \<le> nat n"
  shows "sum_list (take i (bump_bucket b n off d)) =
    sum_list (take i d) + (if 0 \<le> off \<and> off < int i * b then 1 else 0)"
proof (cases "0 \<le> off")
  case True
  then have q: "0 \<le> off div b" using assms by (simp add: pos_imp_zdiv_nonneg_iff)
  have "nat (off div b) < i \<longleftrightarrow> off < int i * b"
    using q div_less_mult_iff [OF assms(1)] by (simp add: nat_less_iff)
  moreover have "nat (off div b) < length d" using q assms by simp
  ultimately show ?thesis
    using True q assms by (simp add: bump_bucket_def tdiv_nonneg Let_def sum_list_take_bump)
qed (simp add: bump_bucket_def)

lemma fold_bump_bucket:
  assumes "0 < b" "\<forall>s \<in> set subs. f s div b < n" "i \<le> nat n"
  shows "length (fold (\<lambda>s. bump_bucket b n (f s)) subs (replicate (nat n) 0)) = nat n \<and>
    sum_list (take i (fold (\<lambda>s. bump_bucket b n (f s)) subs (replicate (nat n) 0))) = below f (int i * b) subs"
  using assms(2)
proof (induction subs rule: rev_induct)
  case Nil
  have "sum_list (replicate k (0::int)) = 0" for k by (induction k) simp_all
  then show ?case by (simp add: below_def)
next
  case (snoc s subs)
  then show ?case using assms by (auto simp: bump_bucket_take below_def)
qed

lemma curve_rows_eq:
  "curve_rows b k ca ce ds = map (\<lambda>i. \<lparr>cu_OffsetMs = wrap64 ((k + int i + 1) * b),
     cu_Activated = ca + sum_list (take (Suc i) (map fst ds)), cu_Established = ce + sum_list (take (Suc i) (map snd ds)),
     cu_InFlight = ca + sum_list (take (Suc i) (map fst ds)) - (ce + sum_list (take (Suc i) (map snd ds)))\<rparr>) [0..<length ds]"
proof (induction ds arbitrary: k ca ce)
  case (Cons d ds)
  obtain x y where d: "d = (x, y)" by fastforce
  show ?case
    by (simp add: d Cons.IH upt_conv_Cons del: upt_Suc) (simp add: map_Suc_upt [symmetric] algebra_simps comp_def del: upt_Suc map_Suc_upt)
qed simp

lemma larger_eq: "larger x m = max x m"
  by (simp add: larger_def max_def)

lemma curve_maxOff_eq:
  "curve_maxOff subs = Max (insert 0 (ag_activatedOffsetMs ` set subs \<union> ag_establishedOffsetMs ` set subs))"
proof (induction subs rule: rev_induct)
  case (snoc s subs)
  define A where "A = insert 0 (ag_activatedOffsetMs ` set subs \<union> ag_establishedOffsetMs ` set subs)"
  have "insert 0 (ag_activatedOffsetMs ` set (subs @ [s]) \<union> ag_establishedOffsetMs ` set (subs @ [s]))
      = insert (ag_establishedOffsetMs s) (insert (ag_activatedOffsetMs s) A)"
    by (auto simp: A_def)
  moreover have "finite A" "A \<noteq> {}" by (simp_all add: A_def)
  ultimately show ?case
    using snoc by (simp add: curve_maxOff_def larger_eq A_def [symmetric])
qed (simp add: curve_maxOff_def)

text \<open>Row \<open>i\<close> of the curve counts the subscribers whose offset lies below \<open>i\<close> bucket widths.\<close>

definition curve_point :: "subAgg list \<Rightarrow> int \<Rightarrow> nat \<Rightarrow> CurvePoint" where
  "curve_point subs b i = (let a = below ag_activatedOffsetMs (int i * b) subs; e = below ag_establishedOffsetMs (int i * b) subs
     in \<lparr>cu_OffsetMs = wrap64 (int i * b), cu_Activated = a, cu_Established = e, cu_InFlight = a - e\<rparr>)"

lemma buildEstablishmentCurve_eq:
  assumes "subs \<noteq> []" "0 < b" "curve_maxOff subs < 2 ^ 63 - 1"
  shows "buildEstablishmentCurve subs b = map (curve_point subs b) [0..<nat (curve_maxOff subs div b) + 2]"
proof -
  define m where "m = curve_maxOff subs"
  have m0: "0 \<le> m" by (simp add: m_def curve_maxOff_eq)
  have q: "0 \<le> m div b" "m div b \<le> m"
    using m0 assms(2) zdiv_mono2 [of m 1 b] by (simp_all add: pos_imp_zdiv_nonneg_iff)
  define n where "n = m div b + 1"
  have w: "wrap64 (tdiv m b + 1) = n"
    using m0 q assms by (simp add: n_def tdiv_nonneg m_def [symmetric])
  have n: "1 \<le> n" using q by (simp add: n_def)
  have "off div b < n" if "off \<le> m" for off
    using zdiv_mono1 [OF that assms(2)] by (simp add: n_def)
  then have bnd: "\<forall>s \<in> set subs. ag_activatedOffsetMs s div b < n" "\<forall>s \<in> set subs. ag_establishedOffsetMs s div b < n"
    by (auto simp: m_def curve_maxOff_eq)
  define act est where "act = fold (\<lambda>s. bump_bucket b n (ag_activatedOffsetMs s)) subs (replicate (nat n) 0)"
    and "est = fold (\<lambda>s. bump_bucket b n (ag_establishedOffsetMs s)) subs (replicate (nat n) 0)"
  note fa = fold_bump_bucket [OF assms(2) bnd(1), folded act_def]
  note fe = fold_bump_bucket [OF assms(2) bnd(2), folded est_def]
  have len: "length act = nat n" "length est = nat n" using fa [of 0] fe [of 0] by auto
  have row: "curve_rows b 0 0 0 (zip act est) = map (curve_point subs b) (map Suc [0..<nat n])"
    unfolding curve_rows_eq
    using len fa fe by (auto simp: curve_point_def Let_def algebra_simps)
  have zero: "curve_point subs b 0 = \<lparr>cu_OffsetMs = 0, cu_Activated = 0, cu_Established = 0, cu_InFlight = 0\<rparr>"
    by (simp add: curve_point_def below_def wrap64_def not_less)
  have "nat (m div b) + 2 = Suc (nat n)" using q by (simp add: n_def)
  then have "map (curve_point subs b) [0..<nat (m div b) + 2] = curve_point subs b 0 # map (curve_point subs b) (map Suc [0..<nat n])"
    by (simp only: upt_conv_Cons zero_less_Suc map_Suc_upt list.map)
  then show ?thesis
    using assms n unfolding buildEstablishmentCurve_def m_def [symmetric]
    by (simp add: Let_def w curve_deltas_def fold_pair act_def [symmetric] est_def [symmetric] row zero)
qed


lemma below_mono: "t \<le> u \<Longrightarrow> below f t subs \<le> below f u subs"
  by (induction subs) (auto simp: below_def)

lemma below_all: "\<forall>s \<in> set subs. f s < t \<Longrightarrow> below f t subs = int (length (filter (\<lambda>s. 0 \<le> f s) subs))"
  by (auto simp: below_def intro: arg_cong [where f = length] filter_cong)

lemma curve_last_offset:
  assumes "0 < b" "0 \<le> m" "m + b < 2 ^ 63"
  shows "m < (m div b + 1) * b" "i \<le> m div b + 1 \<Longrightarrow> 0 \<le> i \<Longrightarrow> wrap64 (i * b) = i * b"
proof -
  show "m < (m div b + 1) * b" using div_less_mult_iff [OF assms(1), of m "m div b + 1"] by simp
  assume i: "i \<le> m div b + 1" "0 \<le> i"
  have "(m div b) * b \<le> m" using assms(1) by (simp add: minus_mod_eq_div_mult [symmetric])
  moreover have "i * b \<le> (m div b + 1) * b" using i assms(1) by (intro mult_right_mono) simp_all
  ultimately have "i * b < 2 ^ 63" using assms(3) by (simp add: distrib_right)
  then show "wrap64 (i * b) = i * b" using i assms(1) by (intro wrap64_nonneg) simp_all
qed

text \<open>C28: the curve of a non-empty subscriber set runs from the zero row to a row above the
  largest offset, one row per bucket; row i sits at i bucket widths and counts exactly the
  subscribers activated, and established, before that offset; both counts grow along the
  curve, and the last row counts everyone.\<close>

theorem curve_exact:
  assumes "subs \<noteq> []" "0 < bucketMs" "curve_maxOff subs + bucketMs < 2 ^ 63"
  defines "curve \<equiv> buildEstablishmentCurve subs bucketMs"
  shows "length curve = nat (curve_maxOff subs div bucketMs) + 2 \<and>
    (\<forall>i < length curve. curve ! i =
      \<lparr>cu_OffsetMs = int i * bucketMs, cu_Activated = below ag_activatedOffsetMs (int i * bucketMs) subs,
       cu_Established = below ag_establishedOffsetMs (int i * bucketMs) subs,
       cu_InFlight = below ag_activatedOffsetMs (int i * bucketMs) subs - below ag_establishedOffsetMs (int i * bucketMs) subs\<rparr>) \<and>
    (\<forall>i j. i \<le> j \<and> j < length curve \<longrightarrow>
      cu_Activated (curve ! i) \<le> cu_Activated (curve ! j) \<and> cu_Established (curve ! i) \<le> cu_Established (curve ! j)) \<and>
    cu_Activated (last curve) = int (length (filter (\<lambda>s. 0 \<le> ag_activatedOffsetMs s) subs)) \<and>
    cu_Established (last curve) = int (length (filter (\<lambda>s. 0 \<le> ag_establishedOffsetMs s) subs))"
proof -
  define m where "m = curve_maxOff subs"
  have m: "0 \<le> m" "m + bucketMs < 2 ^ 63" using assms(3) by (simp_all add: m_def curve_maxOff_eq)
  have q: "0 \<le> m div bucketMs" using m assms(2) by (simp add: pos_imp_zdiv_nonneg_iff)
  note lo = curve_last_offset [OF assms(2) m]
  have c: "curve = map (curve_point subs bucketMs) [0..<nat (m div bucketMs) + 2]"
    unfolding curve_def m_def using assms by (intro buildEstablishmentCurve_eq) simp_all
  have len: "length curve = nat (m div bucketMs) + 2" by (simp add: c)
  have rows: "\<forall>i < length curve. curve ! i =
      \<lparr>cu_OffsetMs = int i * bucketMs, cu_Activated = below ag_activatedOffsetMs (int i * bucketMs) subs,
       cu_Established = below ag_establishedOffsetMs (int i * bucketMs) subs,
       cu_InFlight = below ag_activatedOffsetMs (int i * bucketMs) subs - below ag_establishedOffsetMs (int i * bucketMs) subs\<rparr>"
    using lo(2) q by (auto simp: c curve_point_def Let_def simp del: upt_Suc)
  then have mono: "\<forall>i j. i \<le> j \<and> j < length curve \<longrightarrow>
      cu_Activated (curve ! i) \<le> cu_Activated (curve ! j) \<and> cu_Established (curve ! i) \<le> cu_Established (curve ! j)"
    using assms(2) by (auto intro!: below_mono mult_right_mono)
  have "curve \<noteq> []" using len by auto
  then have "last curve = curve ! (length curve - 1)" "length curve - 1 < length curve"
    "int (length curve - 1) = m div bucketMs + 1"
    using len q by (simp_all add: last_conv_nth)
  moreover have "\<forall>s \<in> set subs. ag_activatedOffsetMs s < (m div bucketMs + 1) * bucketMs"
    "\<forall>s \<in> set subs. ag_establishedOffsetMs s < (m div bucketMs + 1) * bucketMs"
    using lo(1) by (auto simp: m_def curve_maxOff_eq intro: le_less_trans)
  note all = this [THEN below_all]
  ultimately show ?thesis
    using rows mono len all by (simp add: m_def ac_simps)
qed

definition demo_aggs :: "subAgg list" where
  "demo_aggs = [\<lparr>ag_activatedOffsetMs = 100, ag_establishedOffsetMs = 500, ag_terminalState = FinalStateEstablished,
       ag_authRetransmits = 1, ag_acctRetransmits = 0\<rparr>,
     \<lparr>ag_activatedOffsetMs = 1100, ag_establishedOffsetMs = - 1, ag_terminalState = [],
       ag_authRetransmits = 0, ag_acctRetransmits = 0\<rparr>]"

lemma curve_exact_witness:
  "length (buildEstablishmentCurve demo_aggs 1000) = 3 \<and>
   cu_Activated (last (buildEstablishmentCurve demo_aggs 1000)) = 2 \<and>
   cu_Established (last (buildEstablishmentCurve demo_aggs 1000)) = 1"
proof -
  have m: "demo_aggs \<noteq> []" "curve_maxOff demo_aggs = 1100"
    by (simp_all add: curve_maxOff_def larger_def demo_aggs_def)
  have n: "length (filter (\<lambda>s. 0 \<le> ag_activatedOffsetMs s) demo_aggs) = 2"
    "length (filter (\<lambda>s. 0 \<le> ag_establishedOffsetMs s) demo_aggs) = 1"
    by (simp_all add: demo_aggs_def)
  show ?thesis
    using curve_exact [of demo_aggs 1000] by (simp add: m n)
qed

end
