(* ===== verification/Collector_Summary.thy ===== *)
theory Collector_Summary
  imports Collector_Shard Collector_Stats "HOL-Library.Multiset"
begin

text \<open>
  The summary document of \<^verbatim>\<open>pkg/collector/summary.go\<close> and its computation by
  \<^verbatim>\<open>Aggregate\<close>: the loops over the shards' maps, the derived lists and counts, the
  measurement-integrity section and the text rendering. The merge state is a record of the
  function's local variables. Times are nanoseconds, \<open>None\<close> the zero time.
\<close>

section \<open>The document\<close>

record SubscribersSection =
  ss_Total :: int
  ss_Established :: int
  ss_AuthFailed :: int
  ss_AcctFailed :: int
  ss_Terminated :: int
  ss_StillInFlightAtEnd :: int

record EstablishmentSection =
  es_TimeToFirstMs :: int
  es_TimeToFullMs :: int
  es_LatencyMs :: LatencyDistribution
  es_Curve :: "CurvePoint list"

record RetransmitsSection =
  rs_Total :: int
  rs_SubscribersWithRetransmit :: int
  rs_PerSubscriberDistribution :: RetransmitDistribution

record CoASection =
  cs_Received :: int
  cs_Acked :: int
  cs_Naked :: int
  cs_Dropped :: int
  cs_ResponseLatencyUs :: "LatencyDistribution option"

record DisconnectSection =
  ds_Received :: int
  ds_Acked :: int
  ds_Naked :: int
  ds_ResponseLatencyUs :: "LatencyDistribution option"

record UnresponsivePeriod =
  up_StartOffsetMs :: int
  up_EndOffsetMs :: int

record ServerHealthSection =
  sh_UnresponsivePeriods :: "UnresponsivePeriod list"
  sh_ErrorResponses :: int

record 'v ThresholdsSection =
  ts_Evaluated :: "'v Threshold list"
  ts_Overall :: string

record ArtifactsSection =
  ar_EventsParquet :: string
  ar_SubscribersParquet :: string
  ar_RunLog :: string

record MeasurementIntegritySection =
  mi_Trust :: string
  mi_EventsSubmitted :: int
  mi_EventsDroppedBackPressure :: int
  mi_OutcomesDroppedBackPressure :: int
  mi_EventsDroppedAfterStop :: int
  mi_FirstDropOffsetMs :: "int option"
  mi_LastDropOffsetMs :: "int option"
  mi_Notes :: "string list"

record 'v Summary =
  su_RunID :: string
  su_ConfigHash :: string
  su_StartedAt :: "int option"
  su_FinishedAt :: "int option"
  su_DurationMs :: int
  su_ScenarioType :: string
  su_Outcome :: string
  su_Subscribers :: SubscribersSection
  su_Establishment :: EstablishmentSection
  su_Retransmits :: RetransmitsSection
  su_CoA :: CoASection
  su_Disconnect :: DisconnectSection
  su_ServerHealth :: ServerHealthSection
  su_Thresholds :: "'v ThresholdsSection"
  su_Artifacts :: ArtifactsSection
  su_MeasurementIntegrity :: MeasurementIntegritySection

abbreviation (input) OutcomeSucceeded :: string where "OutcomeSucceeded \<equiv> ''succeeded''"
abbreviation (input) OutcomeFailed :: string where "OutcomeFailed \<equiv> ''failed''"
abbreviation (input) OutcomeCancelled :: string where "OutcomeCancelled \<equiv> ''cancelled''"

record 'v AggregateOpts =
  ao_RunID :: string
  ao_ConfigHash :: string
  ao_ScenarioType :: string
  ao_StartedAt :: "int option"
  ao_FinishedAt :: "int option"
  ao_Outcome :: string
  ao_Thresholds :: "'v Threshold list"
  ao_CurveBucketMs :: int

section \<open>Merging the shards\<close>

record merge =
  mg_merged :: "subAgg gomap"
  mg_terminalCounts :: "(string \<times> int) list"
  mg_totalEvents :: int
  mg_totalRetransmits :: int
  mg_coaRX :: int
  mg_coaACK :: int
  mg_coaNAK :: int
  mg_coaDROP :: int
  mg_discRX :: int
  mg_discACK :: int
  mg_discNAK :: int
  mg_coaLatUs :: "int list"
  mg_discLatUs :: "int list"
  mg_writeErrs :: "string list"
  mg_totalActivated :: int
  mg_totalEstablished :: int
  mg_activated :: "bool \<times> int \<times> int"
  mg_established :: "bool \<times> int \<times> int"

definition merge_init :: merge where
  "merge_init = \<lparr>mg_merged = [], mg_terminalCounts = [], mg_totalEvents = 0, mg_totalRetransmits = 0,
     mg_coaRX = 0, mg_coaACK = 0, mg_coaNAK = 0, mg_coaDROP = 0, mg_discRX = 0, mg_discACK = 0,
     mg_discNAK = 0, mg_coaLatUs = [], mg_discLatUs = [], mg_writeErrs = [], mg_totalActivated = 0,
     mg_totalEstablished = 0, mg_activated = (False, 0, 0), mg_established = (False, 0, 0)\<rparr>"

text \<open>
  A new row, and the update of a subscriber's row, created first when the map has none. The
  rows are reached through the map only, so the pointers are the rows themselves.
\<close>

definition new_subAgg :: subAgg where
  "new_subAgg = \<lparr>ag_activatedOffsetMs = NotApplicableMs, ag_establishedOffsetMs = NotApplicableMs,
     ag_terminalState = [], ag_authRetransmits = 0, ag_acctRetransmits = 0\<rparr>"

definition at_sub :: "u32 \<Rightarrow> (subAgg \<Rightarrow> subAgg) \<Rightarrow> subAgg gomap \<Rightarrow> subAgg gomap" where
  "at_sub subID f m = AList.update subID (f (gm_get new_subAgg m subID)) m"

text \<open>Seen, earliest and latest offset.\<close>

definition track :: "int \<Rightarrow> bool \<times> int \<times> int \<Rightarrow> bool \<times> int \<times> int" where
  "track off s = (case s of (seen, earliest, latest) \<Rightarrow>
     if \<not> seen then (True, off, off)
     else (True, if off < earliest then off else earliest, if off > latest then off else latest))"

definition merge_activated :: "u32 \<times> int \<Rightarrow> merge \<Rightarrow> merge" where
  "merge_activated = (\<lambda>(subID, off) g.
     g\<lparr>mg_merged := at_sub subID (\<lambda>s. s\<lparr>ag_activatedOffsetMs := off\<rparr>) (mg_merged g),
       mg_totalActivated := mg_totalActivated g + 1, mg_activated := track off (mg_activated g)\<rparr>)"

definition merge_established :: "u32 \<times> int \<Rightarrow> merge \<Rightarrow> merge" where
  "merge_established = (\<lambda>(subID, off) g.
     g\<lparr>mg_merged := at_sub subID (\<lambda>s. s\<lparr>ag_establishedOffsetMs := off\<rparr>) (mg_merged g),
       mg_totalEstablished := mg_totalEstablished g + 1, mg_established := track off (mg_established g)\<rparr>)"

definition merge_terminal :: "u32 \<times> string \<Rightarrow> merge \<Rightarrow> merge" where
  "merge_terminal = (\<lambda>(subID, st) g.
     g\<lparr>mg_merged := at_sub subID (\<lambda>s. s\<lparr>ag_terminalState := st\<rparr>) (mg_merged g),
       mg_terminalCounts := AList.update st (gm_get 0 (mg_terminalCounts g) st + 1) (mg_terminalCounts g)\<rparr>)"

definition merge_auth :: "u32 \<times> int \<Rightarrow> merge \<Rightarrow> merge" where
  "merge_auth = (\<lambda>(subID, n) g.
     g\<lparr>mg_merged := at_sub subID (\<lambda>s. s\<lparr>ag_authRetransmits := n\<rparr>) (mg_merged g)\<rparr>)"

definition merge_acct :: "u32 \<times> int \<Rightarrow> merge \<Rightarrow> merge" where
  "merge_acct = (\<lambda>(subID, n) g.
     g\<lparr>mg_merged := at_sub subID (\<lambda>s. s\<lparr>ag_acctRetransmits := n\<rparr>) (mg_merged g)\<rparr>)"

definition merge_seen :: "u32 \<times> unit \<Rightarrow> merge \<Rightarrow> merge" where
  "merge_seen = (\<lambda>(subID, _) g. g\<lparr>mg_merged := gm_once subID new_subAgg (mg_merged g)\<rparr>)"

definition merge_counters :: "shardAggregation \<Rightarrow> merge \<Rightarrow> merge" where
  "merge_counters a g = g\<lparr>
     mg_totalEvents := mg_totalEvents g + sa_totalEvents a,
     mg_totalRetransmits := mg_totalRetransmits g + sa_totalRetransmits a,
     mg_coaRX := mg_coaRX g + sa_coaReceived a,
     mg_coaACK := mg_coaACK g + sa_coaAcked a,
     mg_coaNAK := mg_coaNAK g + sa_coaNaked a,
     mg_coaDROP := mg_coaDROP g + sa_coaDropped a,
     mg_coaLatUs := mg_coaLatUs g @ sa_coaResponseLatencies a,
     mg_discRX := mg_discRX g + sa_disconnectReceived a,
     mg_discACK := mg_discACK g + sa_disconnectAcked a,
     mg_discNAK := mg_discNAK g + sa_disconnectNaked a,
     mg_discLatUs := mg_discLatUs g @ sa_disconnectResponseLatencies a,
     mg_writeErrs := mg_writeErrs g @ sa_writeErrors a\<rparr>"

definition merge_shard :: "shardAggregation \<Rightarrow> merge \<Rightarrow> merge" where
  "merge_shard a g =
     fold merge_seen (sa_seenSubs a)
       (fold merge_acct (sa_acctRetransmits a)
         (fold merge_auth (sa_authRetransmits a)
           (fold merge_terminal (sa_terminalState a)
             (fold merge_established (sa_establishedOffsetMs a)
               (fold merge_activated (sa_activatedOffsetMs a) (merge_counters a g))))))"

section \<open>Derived values\<close>

definition est_latencies :: "subAgg list \<Rightarrow> int list" where
  "est_latencies rows = map (\<lambda>s. wrap64 (ag_establishedOffsetMs s - ag_activatedOffsetMs s))
     (filter (\<lambda>s. ag_establishedOffsetMs s \<ge> 0 \<and> ag_activatedOffsetMs s \<ge> 0) rows)"

definition retx_per_sub :: "subAgg list \<Rightarrow> int list" where
  "retx_per_sub rows = map (\<lambda>s. ag_authRetransmits s + ag_acctRetransmits s) rows"

definition still_in_flight :: "int \<Rightarrow> (string \<times> int) list \<Rightarrow> int" where
  "still_in_flight subsTotal counts = (let n = fold (\<lambda>(_, c) n. n - c) counts subsTotal in if n < 0 then 0 else n)"

definition optional_distribution :: "int \<Rightarrow> int list \<Rightarrow> LatencyDistribution option" where
  "optional_distribution ovf xs = (if length xs > 0 then Some (computeDistribution ovf xs) else None)"

definition summarize :: "int \<Rightarrow> 'v AggregateOpts \<Rightarrow> string \<Rightarrow> MeasurementIntegritySection \<Rightarrow> int \<Rightarrow> merge \<Rightarrow> 'v Summary" where
  "summarize ovf opts subsPath integrity durationMs g =
     (let rows = map snd (mg_merged g);
          subsTotal = int (length (mg_merged g));
          terminalCount = gm_get 0 (mg_terminalCounts g);
          retx = retx_per_sub rows;
          (establishedSeen, earliestEstablished, latestEstablished) = mg_established g
      in \<lparr>su_RunID = ao_RunID opts, su_ConfigHash = ao_ConfigHash opts, su_StartedAt = ao_StartedAt opts,
          su_FinishedAt = ao_FinishedAt opts, su_DurationMs = durationMs, su_ScenarioType = ao_ScenarioType opts,
          su_Outcome = ao_Outcome opts,
          su_Subscribers = \<lparr>ss_Total = subsTotal, ss_Established = terminalCount FinalStateEstablished,
            ss_AuthFailed = terminalCount FinalStateAuthFailed, ss_AcctFailed = terminalCount FinalStateAcctFailed,
            ss_Terminated = terminalCount FinalStateTerminated,
            ss_StillInFlightAtEnd = still_in_flight subsTotal (mg_terminalCounts g)\<rparr>,
          su_Establishment = \<lparr>es_TimeToFirstMs = (if establishedSeen then earliestEstablished else 0),
            es_TimeToFullMs = (if establishedSeen then latestEstablished else 0),
            es_LatencyMs = computeDistribution ovf (est_latencies rows),
            es_Curve = buildEstablishmentCurve rows (ao_CurveBucketMs opts)\<rparr>,
          su_Retransmits = \<lparr>rs_Total = mg_totalRetransmits g,
            rs_SubscribersWithRetransmit = int (length (filter (\<lambda>n. n > 0) retx)),
            rs_PerSubscriberDistribution = computeRetransmitDistribution ovf retx\<rparr>,
          su_CoA = \<lparr>cs_Received = mg_coaRX g, cs_Acked = mg_coaACK g, cs_Naked = mg_coaNAK g,
            cs_Dropped = mg_coaDROP g, cs_ResponseLatencyUs = optional_distribution ovf (mg_coaLatUs g)\<rparr>,
          su_Disconnect = \<lparr>ds_Received = mg_discRX g, ds_Acked = mg_discACK g, ds_Naked = mg_discNAK g,
            ds_ResponseLatencyUs = optional_distribution ovf (mg_discLatUs g)\<rparr>,
          su_ServerHealth = \<lparr>sh_UnresponsivePeriods = [], sh_ErrorResponses = int (length (mg_writeErrs g))\<rparr>,
          su_Thresholds = \<lparr>ts_Evaluated = ao_Thresholds opts, ts_Overall = evalThresholdsOverall (ao_Thresholds opts)\<rparr>,
          su_Artifacts = \<lparr>ar_EventsParquet = ''events-shard-*.parquet'', ar_SubscribersParquet = subsPath,
            ar_RunLog = ''run.log''\<rparr>,
          su_MeasurementIntegrity = integrity\<rparr>)"

end
