(* ===== verification/Collector_Merge.thy ===== *)
theory Collector_Merge
  imports Collector_Summary
begin

text \<open>
  What \<^verbatim>\<open>Aggregate\<close> computes, in terms of the event stream. The stream is cut into \<open>n\<close>
  shards by subscriber id; the lemmas follow each local variable of the merge loops through
  the shards, and the last section puts the sections of the summary together as functions of
  the stream alone, so that neither the number of shards nor the order in which the maps are
  traversed matters.
\<close>

section \<open>Sharded streams\<close>

text \<open>The events of shard \<open>i\<close> of \<open>n\<close>, in the order they were submitted.\<close>

definition part :: "nat \<Rightarrow> nat \<Rightarrow> event list \<Rightarrow> event list" where
  "part n i es = filter (\<lambda>e. unat (EvSubscriberID e) mod n = i) es"

definition shards :: "nat \<Rightarrow> event list \<Rightarrow> shardAggregation list" where
  "shards n es = map (\<lambda>i. observed (part n i es)) [0..<n]"

definition merged :: "shardAggregation list \<Rightarrow> merge" where
  "merged aggs = fold merge_shard aggs merge_init"

lemma about_part: "about P k (part n i es) = (if unat k mod n = i then about P k es else [])"
  by (auto simp: about_def part_def filter_empty_conv intro!: filter_cong)

lemma mset_partition:
  assumes "\<And>x. x \<in> set xs \<Longrightarrow> h x < (n :: nat)"
  shows "mset (concat (map (\<lambda>i. filter (\<lambda>x. h x = i) xs) [0..<n])) = mset xs"
  using assms
proof (induction xs)
  case (Cons x xs)
  have "mset (concat (map (\<lambda>i. filter (\<lambda>y. h y = i) (x # xs)) [0..<n]))
      = mset (concat (map (\<lambda>i. if i = h x then [x] else []) [0..<n])) + mset (concat (map (\<lambda>i. filter (\<lambda>y. h y = i) xs) [0..<n]))"
    by (induction n) auto
  moreover have "concat (map (\<lambda>i. if i = h x then [x] else []) [0..<m]) = (if h x < m then [x] else [])" for m
    by (induction m) auto
  ultimately show ?case using Cons by simp
qed (induction n, auto)

lemma mset_parts: "0 < n \<Longrightarrow> mset (concat (map (\<lambda>i. part n i es) [0..<n])) = mset es"
  unfolding part_def by (rule mset_partition) simp

lemma mset_filter_eq: "mset xs = mset ys \<Longrightarrow> mset (filter P xs) = mset (filter P ys)"
  by simp

lemma count_of_mset: "mset xs = mset ys \<Longrightarrow> count_of P xs = count_of P ys"
  using mset_filter_eq [of xs ys P, THEN mset_eq_length] by (simp add: count_of_def)

lemma count_of_concat: "count_of P (concat xss) = sum_list (map (count_of P) xss)"
  by (induction xss) (simp_all add: count_of_def)

lemma count_parts: "0 < n \<Longrightarrow> sum_list (map (\<lambda>i. count_of P (part n i es)) [0..<n]) = count_of P es"
  using count_of_mset [OF mset_parts [of n es], of P] by (simp add: count_of_concat comp_def)

lemma length_parts: "0 < n \<Longrightarrow> sum_list (map (\<lambda>i. int (length (part n i es))) [0..<n]) = int (length es)"
  using count_parts [of n "\<lambda>e. True" es] by (simp add: count_of_def)

lemma latency_parts:
  "0 < n \<Longrightarrow> mset (concat (map (\<lambda>i. map EvLatencyUs (filter P (part n i es))) [0..<n])) = mset (map EvLatencyUs (filter P es))"
proof -
  assume "0 < n"
  from mset_parts [OF this, of es] have "image_mset EvLatencyUs (filter_mset P (mset (concat (map (\<lambda>i. part n i es) [0..<n])))) = mset (map EvLatencyUs (filter P es))"
    by simp
  moreover have "image_mset EvLatencyUs (filter_mset P (mset (concat (map g is)))) = mset (concat (map (\<lambda>i. map EvLatencyUs (filter P (g i))) is))" for g :: "nat \<Rightarrow> event list" and "is"
    by (induction "is") simp_all
  ultimately show ?thesis by metis
qed

text \<open>Maps with the shard's own keys, side by side.\<close>

lemma map_of_parts:
  assumes "\<And>i k v. map_of (f i) k = Some v \<Longrightarrow> h k = i"
  shows "map_of (concat (map f [0..<n])) k = (if h k < n then map_of (f (h k)) k else None)"
proof (induction n)
  case (Suc n)
  have "map_of (f n) k = None" if "h k \<noteq> n"
    using assms [of n k] that by (cases "map_of (f n) k") auto
  then show ?case
    using Suc by (auto simp: map_add_def less_Suc_eq split: option.splits)
qed simp

lemma distinct_parts:
  assumes "\<And>i k v. map_of (f i) k = Some v \<Longrightarrow> h k = i" "\<And>i. distinct (map fst (f i))"
  shows "distinct (map fst (concat (map f [0..<n])))"
proof (induction n)
  case (Suc n)
  have key: "k \<in> fst ` set m \<longleftrightarrow> map_of m k \<noteq> None" for k and m :: "('a \<times> 'b) list"
    by (simp add: map_of_eq_None_iff)
  have old: "h k < n" if "k \<in> fst ` set (concat (map f [0..<n]))" for k
    using that map_of_parts [of f h n k] assms(1) unfolding key by presburger
  have new: "h k = n" if "k \<in> fst ` set (f n)" for k
    using that assms(1) [of n k] unfolding key by blast
  have "fst ` set (concat (map f [0..<n])) \<inter> fst ` set (f n) = {}"
    using old new by fastforce
  then have "distinct (map fst (concat (map f [0..<n])) @ map fst (f n))"
    using Suc.IH assms(2) by (simp only: distinct_append set_map)
  then show ?case by (simp only: upt_Suc_append le0 map_append concat_append list.map concat.simps append_Nil2)
qed simp

section \<open>Merged rows\<close>

lemma map_of_at_sub: "map_of (at_sub k f m) k' = (if k' = k then Some (f (gm_get new_subAgg m k)) else map_of m k')"
  by (simp add: at_sub_def update_conv')

lemma distinct_at_sub [simp]: "distinct (map fst m) \<Longrightarrow> distinct (map fst (at_sub k f m))"
  by (simp add: at_sub_def distinct_update)

lemma map_of_fold_at_sub:
  "distinct (map fst kvs) \<Longrightarrow> map_of (fold (\<lambda>(k, v). at_sub k (f v)) kvs m) k =
    (case map_of kvs k of None \<Rightarrow> map_of m k | Some v \<Rightarrow> Some (f v (gm_get new_subAgg m k)))"
proof (induction kvs arbitrary: m)
  case (Cons kv kvs)
  obtain k' v' where kv: "kv = (k', v')" by fastforce
  have "map_of kvs k' = None" using Cons.prems kv by (simp add: map_of_eq_None_iff)
  then show ?case
    using Cons.prems by (simp add: kv Cons.IH) (auto simp: map_of_at_sub gm_get_def split: option.split)
qed simp

lemma map_of_fold_once:
  "map_of (fold (\<lambda>(k, _). gm_once k new_subAgg) kvs m) k =
    (case map_of m k of None \<Rightarrow> if map_of kvs k = None then None else Some new_subAgg | Some s \<Rightarrow> Some s)"
  by (induction kvs arbitrary: m) (auto simp: map_of_gm split: option.split if_splits)

definition merge_rows :: "shardAggregation \<Rightarrow> subAgg gomap \<Rightarrow> subAgg gomap" where
  "merge_rows a m =
     fold (\<lambda>(k, _). gm_once k new_subAgg) (sa_seenSubs a)
      (fold (\<lambda>(k, v). at_sub k (\<lambda>s. s\<lparr>ag_acctRetransmits := v\<rparr>)) (sa_acctRetransmits a)
       (fold (\<lambda>(k, v). at_sub k (\<lambda>s. s\<lparr>ag_authRetransmits := v\<rparr>)) (sa_authRetransmits a)
        (fold (\<lambda>(k, v). at_sub k (\<lambda>s. s\<lparr>ag_terminalState := v\<rparr>)) (sa_terminalState a)
         (fold (\<lambda>(k, v). at_sub k (\<lambda>s. s\<lparr>ag_establishedOffsetMs := v\<rparr>)) (sa_establishedOffsetMs a)
          (fold (\<lambda>(k, v). at_sub k (\<lambda>s. s\<lparr>ag_activatedOffsetMs := v\<rparr>)) (sa_activatedOffsetMs a) m)))))"

lemma fold_proj: "(\<And>x s. p (f x s) = g x (p s)) \<Longrightarrow> p (fold f xs s) = fold g xs (p s)"
  by (induction xs arbitrary: s) simp_all

lemma fold_keep: "(\<And>x s. p (f x s) = p s) \<Longrightarrow> p (fold f xs s) = p s"
  by (induction xs arbitrary: s) simp_all

lemmas merge_step_defs = merge_activated_def merge_established_def merge_terminal_def merge_auth_def
  merge_acct_def merge_seen_def

lemma merge_rows_proj:
  "mg_merged (fold merge_activated kvs g) = fold (\<lambda>(k, v). at_sub k (\<lambda>s. s\<lparr>ag_activatedOffsetMs := v\<rparr>)) kvs (mg_merged g)"
  "mg_merged (fold merge_established kvs g) = fold (\<lambda>(k, v). at_sub k (\<lambda>s. s\<lparr>ag_establishedOffsetMs := v\<rparr>)) kvs (mg_merged g)"
  "mg_merged (fold merge_terminal kts g) = fold (\<lambda>(k, v). at_sub k (\<lambda>s. s\<lparr>ag_terminalState := v\<rparr>)) kts (mg_merged g)"
  "mg_merged (fold merge_auth kvs g) = fold (\<lambda>(k, v). at_sub k (\<lambda>s. s\<lparr>ag_authRetransmits := v\<rparr>)) kvs (mg_merged g)"
  "mg_merged (fold merge_acct kvs g) = fold (\<lambda>(k, v). at_sub k (\<lambda>s. s\<lparr>ag_acctRetransmits := v\<rparr>)) kvs (mg_merged g)"
  "mg_merged (fold merge_seen kus g) = fold (\<lambda>(k, _). gm_once k new_subAgg) kus (mg_merged g)"
  by (rule fold_proj, simp add: merge_step_defs split: prod.split)+

lemma merge_shard_rows: "mg_merged (merge_shard a g) = merge_rows a (mg_merged g)"
  by (simp add: merge_shard_def merge_rows_def merge_rows_proj merge_counters_def)


text \<open>A subscriber's row, read off the stream, and the subscribers that get one.\<close>

definition sub_row :: "event list \<Rightarrow> u32 \<Rightarrow> subAgg" where
  "sub_row es k =
     \<lparr>ag_activatedOffsetMs = (case first_offset (about is_activated k es) of None \<Rightarrow> NotApplicableMs | Some v \<Rightarrow> v),
      ag_establishedOffsetMs = (case first_offset (about is_established k es) of None \<Rightarrow> NotApplicableMs | Some v \<Rightarrow> v),
      ag_terminalState = (case last_state (about is_terminal k es) of None \<Rightarrow> [] | Some v \<Rightarrow> v),
      ag_authRetransmits = (case tally32 (about (is_retransmit_of 1) k es) of None \<Rightarrow> 0 | Some v \<Rightarrow> v),
      ag_acctRetransmits = (case tally32 (about (is_retransmit_of 4) k es) of None \<Rightarrow> 0 | Some v \<Rightarrow> v)\<rparr>"

definition has_row :: "event \<Rightarrow> bool" where
  "has_row e \<longleftrightarrow> EvSubscriberID e \<noteq> 0 \<or> is_activated e \<or> is_terminal e \<or> is_retransmit_of 1 e \<or> is_retransmit_of 4 e"

definition row_keys :: "event list \<Rightarrow> u32 list" where
  "row_keys es = remdups (map EvSubscriberID (filter has_row es))"

lemma about_Nil_iff: "about P k es = [] \<longleftrightarrow> (\<forall>e \<in> set es. P e \<longrightarrow> EvSubscriberID e \<noteq> k)"
  by (auto simp: about_def filter_empty_conv)

lemma summary_None_iff:
  "first_offset es = None \<longleftrightarrow> es = []" "last_state es = None \<longleftrightarrow> es = []" "tally32 es = None \<longleftrightarrow> es = []"
  by (simp_all add: first_offset_def last_state_def tally32_def)

lemma in_row_keys_iff:
  "k \<in> set (row_keys es) \<longleftrightarrow> (k \<noteq> 0 \<and> about (\<lambda>e. True) k es \<noteq> []) \<or> about is_activated k es \<noteq> [] \<or>
     about is_established k es \<noteq> [] \<or> about is_terminal k es \<noteq> [] \<or> about (is_retransmit_of 1) k es \<noteq> [] \<or>
     about (is_retransmit_of 4) k es \<noteq> []"
  by (auto simp: row_keys_def has_row_def about_Nil_iff is_established_def)

definition row_at :: "u32 \<Rightarrow> subAgg gomap \<Rightarrow> bool \<Rightarrow> subAgg \<Rightarrow> bool" where
  "row_at k m b s \<longleftrightarrow> map_of m k = (if b then Some s else None) \<and> (\<not> b \<longrightarrow> s = new_subAgg)"

lemma row_at_set:
  "row_at k m b s \<Longrightarrow> distinct (map fst kvs) \<Longrightarrow> f d s = s \<Longrightarrow>
   row_at k (fold (\<lambda>(k, v). at_sub k (f v)) kvs m) (b \<or> map_of kvs k \<noteq> None) (f (case map_of kvs k of None \<Rightarrow> d | Some v \<Rightarrow> v) s)"
  by (auto simp: row_at_def map_of_fold_at_sub gm_get_def split: option.split)

lemma merge_rows_fresh:
  assumes "map_of m k = None"
  shows "map_of (merge_rows (observed es) m) k = (if k \<in> set (row_keys es) then Some (sub_row es k) else None)"
proof -
  have "row_at k m False new_subAgg" using assms by (simp add: row_at_def)
  note row_at_set [OF this observed_distinct(2), of "\<lambda>v s. s\<lparr>ag_activatedOffsetMs := v\<rparr>" NotApplicableMs es]
  note row_at_set [OF this observed_distinct(3), of "\<lambda>v s. s\<lparr>ag_establishedOffsetMs := v\<rparr>" NotApplicableMs es]
  note row_at_set [OF this observed_distinct(4), of "\<lambda>v s. s\<lparr>ag_terminalState := v\<rparr>" "[]" es]
  note row_at_set [OF this observed_distinct(5), of "\<lambda>v s. s\<lparr>ag_authRetransmits := v\<rparr>" 0 es]
  note row_at_set [OF this observed_distinct(6), of "\<lambda>v s. s\<lparr>ag_acctRetransmits := v\<rparr>" 0 es]
  note row = this
  show ?thesis
    unfolding merge_rows_def map_of_fold_once in_row_keys_iff
    using row by (auto simp: row_at_def new_subAgg_def observed_maps summary_None_iff sub_row_def first_offset_def last_state_def tally32_def)
qed


lemma merge_rows_other:
  "about (\<lambda>e. True) k es = [] \<Longrightarrow> map_of (merge_rows (observed es) m) k = map_of m k"
proof -
  assume none: "about (\<lambda>e. True) k es = []"
  then have "about P k es = []" for P by (simp add: about_Nil_iff)
  then show ?thesis
    unfolding merge_rows_def map_of_fold_once
    by (simp add: map_of_fold_at_sub observed_distinct observed_maps first_offset_def last_state_def tally32_def
        split: option.split)
qed

lemma distinct_merge_rows: "distinct (map fst m) \<Longrightarrow> distinct (map fst (merge_rows a m))"
proof -
  have upd: "distinct (map fst m) \<Longrightarrow> distinct (map fst (fold (\<lambda>(k, v). at_sub k (f v)) kvs m))"
    for f :: "'v \<Rightarrow> subAgg \<Rightarrow> subAgg" and kvs and m :: "subAgg gomap"
    by (induction kvs arbitrary: m) (auto split: prod.split)
  have once: "distinct (map fst m) \<Longrightarrow> distinct (map fst (fold (\<lambda>(k, _). gm_once k new_subAgg) kvs m))"
    for kvs :: "unit gomap" and m :: "subAgg gomap"
    by (induction kvs arbitrary: m) (auto simp: gm_once_def distinct_update)
  assume "distinct (map fst m)"
  then show ?thesis by (simp add: merge_rows_def upd once)
qed

lemma merged_rows_eq: "mg_merged (merged aggs) = fold merge_rows aggs []"
  unfolding merged_def using fold_proj [of mg_merged merge_shard merge_rows aggs merge_init, OF merge_shard_rows]
  by (simp add: merge_init_def)

lemma merged_shards:
  "map_of (mg_merged (merged (map (\<lambda>i. observed (part n i es)) [0..<j]))) k =
    (if unat k mod n < j \<and> k \<in> set (row_keys es) then Some (sub_row es k) else None)"
proof (induction j)
  case 0
  show ?case by (simp add: merged_rows_eq)
next
  case (Suc j)
  let ?M = "fold merge_rows (map (\<lambda>i. observed (part n i es)) [0..<j]) []"
  have step: "mg_merged (merged (map (\<lambda>i. observed (part n i es)) [0..<Suc j])) = merge_rows (observed (part n j es)) ?M"
    by (simp add: merged_rows_eq)
  show ?case
  proof (cases "unat k mod n = j")
    case True
    then have "map_of ?M k = None" using Suc by (simp add: merged_rows_eq)
    note merge_rows_fresh [OF this, of "part n j es"]
    moreover have "k \<in> set (row_keys (part n j es)) \<longleftrightarrow> k \<in> set (row_keys es)" "sub_row (part n j es) k = sub_row es k"
      using True by (simp_all add: in_row_keys_iff sub_row_def about_part)
    ultimately show ?thesis unfolding step using True by simp
  next
    case False
    then have "about (\<lambda>e. True) k (part n j es) = []" by (simp add: about_part)
    then show ?thesis
      unfolding step using Suc False by (simp add: merge_rows_other merged_rows_eq less_Suc_eq)
  qed
qed

lemma distinct_merged: "distinct (map fst (mg_merged (merged aggs)))"
proof -
  have "distinct (map fst m) \<Longrightarrow> distinct (map fst (fold merge_rows aggs m))" for m
    by (induction aggs arbitrary: m) (simp_all add: distinct_merge_rows)
  then show ?thesis by (simp add: merged_rows_eq)
qed

lemma mset_values:
  assumes "distinct (map fst m)" "distinct ks" "\<And>k. map_of m k = (if k \<in> set ks then Some (r k) else None)"
  shows "mset (map snd m) = mset (map r ks)"
proof -
  have "set (map fst m) = set ks"
  proof -
    have "k \<in> fst ` set m \<longleftrightarrow> map_of m k \<noteq> None" for k by (simp add: map_of_eq_None_iff)
    then have "k \<in> fst ` set m \<longleftrightarrow> k \<in> set ks" for k using assms(3) [of k] by auto
    then show ?thesis by auto
  qed
  then have k: "mset (map fst m) = mset ks" using assms(1,2) set_eq_iff_mset_eq_distinct by blast
  have "snd p = r (fst p)" if "p \<in> set m" for p
    using that assms(1) assms(3) [of "fst p"] map_of_eq_Some_iff [OF assms(1), of "fst p" "snd p"]
    by (auto split: if_splits)
  then have "map snd m = map r (map fst m)" by simp
  then show ?thesis using k by (metis mset_map)
qed

lemma rows_mset:
  assumes "0 < n"
  shows "mset (map snd (mg_merged (merged (shards n es)))) = mset (map (sub_row es) (row_keys es))"
  unfolding shards_def using assms
  by (intro mset_values distinct_merged) (simp_all add: merged_shards row_keys_def)

section \<open>Merged counters\<close>

definition tick :: "string \<Rightarrow> (string \<times> int) list \<Rightarrow> (string \<times> int) list" where
  "tick st m = AList.update st (gm_get 0 m st + 1) m"

lemma merge_keep:
  assumes "\<And>kv g. p (merge_activated kv g) = p g" "\<And>kv g. p (merge_established kv g) = p g"
    "\<And>kv g. p (merge_terminal kv g) = p g" "\<And>kv g. p (merge_auth kv g) = p g"
    "\<And>kv g. p (merge_acct kv g) = p g" "\<And>kv g. p (merge_seen kv g) = p g"
  shows "p (merge_shard a g) = p (merge_counters a g)"
  unfolding merge_shard_def using assms by (simp add: fold_keep [of p])

lemma merge_shard_counters:
  "mg_totalEvents (merge_shard a g) = mg_totalEvents g + sa_totalEvents a"
  "mg_totalRetransmits (merge_shard a g) = mg_totalRetransmits g + sa_totalRetransmits a"
  "mg_coaRX (merge_shard a g) = mg_coaRX g + sa_coaReceived a"
  "mg_coaACK (merge_shard a g) = mg_coaACK g + sa_coaAcked a"
  "mg_coaNAK (merge_shard a g) = mg_coaNAK g + sa_coaNaked a"
  "mg_coaDROP (merge_shard a g) = mg_coaDROP g + sa_coaDropped a"
  "mg_discRX (merge_shard a g) = mg_discRX g + sa_disconnectReceived a"
  "mg_discACK (merge_shard a g) = mg_discACK g + sa_disconnectAcked a"
  "mg_discNAK (merge_shard a g) = mg_discNAK g + sa_disconnectNaked a"
  "mg_coaLatUs (merge_shard a g) = mg_coaLatUs g @ sa_coaResponseLatencies a"
  "mg_discLatUs (merge_shard a g) = mg_discLatUs g @ sa_disconnectResponseLatencies a"
  "mg_writeErrs (merge_shard a g) = mg_writeErrs g @ sa_writeErrors a"
  by (subst merge_keep; simp add: merge_step_defs merge_counters_def split: prod.split)+

lemma merge_shard_terminal:
  "mg_terminalCounts (merge_shard a g) = fold tick (map snd (sa_terminalState a)) (mg_terminalCounts g)"
proof -
  have keep: "mg_terminalCounts (fold merge_activated x1 g) = mg_terminalCounts g" "mg_terminalCounts (fold merge_established x1 g) = mg_terminalCounts g"
     "mg_terminalCounts (fold merge_auth x1 g) = mg_terminalCounts g" "mg_terminalCounts (fold merge_acct x1 g) = mg_terminalCounts g"
     "mg_terminalCounts (fold merge_seen x2 g) = mg_terminalCounts g" for x1 x2 g
    by (rule fold_keep, simp add: merge_step_defs split: prod.split)+
  have "mg_terminalCounts (fold merge_terminal x g) = fold tick (map snd x) (mg_terminalCounts g)" for x g
    by (induction x arbitrary: g) (simp_all add: merge_terminal_def tick_def split: prod.split)
  then show ?thesis by (simp add: merge_shard_def keep merge_counters_def)
qed

lemma merge_shard_established:
  "mg_established (merge_shard a g) = fold track (map snd (sa_establishedOffsetMs a)) (mg_established g)"
proof -
  have keep: "mg_established (fold merge_activated x1 g) = mg_established g" "mg_established (fold merge_terminal x3 g) = mg_established g"
     "mg_established (fold merge_auth x1 g) = mg_established g" "mg_established (fold merge_acct x1 g) = mg_established g"
     "mg_established (fold merge_seen x2 g) = mg_established g" for x1 x2 x3 g
    by (rule fold_keep, simp add: merge_step_defs split: prod.split)+
  have "mg_established (fold merge_established x g) = fold track (map snd x) (mg_established g)" for x g
    by (induction x arbitrary: g) (simp_all add: merge_established_def split: prod.split)
  then show ?thesis by (simp add: merge_shard_def keep merge_counters_def)
qed

lemma fold_sum:
  fixes p :: "'s \<Rightarrow> int"
  shows "(\<And>a g. p (f a g) = p g + q a) \<Longrightarrow> p (fold f as g) = p g + sum_list (map q as)"
  by (induction as arbitrary: g) simp_all

lemma fold_concat: "(\<And>a g. p (f a g) = p g @ q a) \<Longrightarrow> p (fold f as g) = p g @ concat (map q as)"
  by (induction as arbitrary: g) simp_all

lemma merged_counters:
  assumes "0 < n"
  shows "mg_totalEvents (merged (shards n es)) = int (length es)"
    "mg_totalRetransmits (merged (shards n es)) = count_of is_retransmit es"
    "mg_coaRX (merged (shards n es)) = count_of (is_kind CategoryCoAInbound EventTypeCoAReceived) es"
    "mg_coaACK (merged (shards n es)) = count_of (is_kind CategoryCoAInbound EventTypeCoAAcked) es"
    "mg_coaNAK (merged (shards n es)) = count_of (is_kind CategoryCoAInbound EventTypeCoANaked) es"
    "mg_coaDROP (merged (shards n es)) = count_of (is_kind CategoryCoAInbound EventTypeCoADropped) es"
    "mg_discRX (merged (shards n es)) = count_of (is_kind CategoryDisconnectInbound EventTypeDisconnectReceived) es"
    "mg_discACK (merged (shards n es)) = count_of (is_kind CategoryDisconnectInbound EventTypeDisconnectAcked) es"
    "mg_discNAK (merged (shards n es)) = count_of (is_kind CategoryDisconnectInbound EventTypeDisconnectNaked) es"
    "mg_writeErrs (merged (shards n es)) = []"
    "mset (mg_coaLatUs (merged (shards n es))) = mset (map EvLatencyUs (filter is_coa_reply es))"
    "mset (mg_discLatUs (merged (shards n es))) = mset (map EvLatencyUs (filter is_disconnect_reply es))"
proof -
  have len: "sum_list (map (\<lambda>i. int (length (part n i es))) [0..<n]) = int (length es)"
    using assms by (rule length_parts)
  note folds = fold_sum [of mg_totalEvents merge_shard, OF merge_shard_counters(1)]
    fold_sum [of mg_totalRetransmits merge_shard, OF merge_shard_counters(2)]
    fold_sum [of mg_coaRX merge_shard, OF merge_shard_counters(3)]
    fold_sum [of mg_coaACK merge_shard, OF merge_shard_counters(4)]
    fold_sum [of mg_coaNAK merge_shard, OF merge_shard_counters(5)]
    fold_sum [of mg_coaDROP merge_shard, OF merge_shard_counters(6)]
    fold_sum [of mg_discRX merge_shard, OF merge_shard_counters(7)]
    fold_sum [of mg_discACK merge_shard, OF merge_shard_counters(8)]
    fold_sum [of mg_discNAK merge_shard, OF merge_shard_counters(9)]
    fold_concat [of mg_writeErrs merge_shard, OF merge_shard_counters(12)]
    fold_concat [of mg_coaLatUs merge_shard, OF merge_shard_counters(10)]
    fold_concat [of mg_discLatUs merge_shard, OF merge_shard_counters(11)]
  show "mg_totalEvents (merged (shards n es)) = int (length es)"
    "mg_totalRetransmits (merged (shards n es)) = count_of is_retransmit es"
    "mg_coaRX (merged (shards n es)) = count_of (is_kind CategoryCoAInbound EventTypeCoAReceived) es"
    "mg_coaACK (merged (shards n es)) = count_of (is_kind CategoryCoAInbound EventTypeCoAAcked) es"
    "mg_coaNAK (merged (shards n es)) = count_of (is_kind CategoryCoAInbound EventTypeCoANaked) es"
    "mg_coaDROP (merged (shards n es)) = count_of (is_kind CategoryCoAInbound EventTypeCoADropped) es"
    "mg_discRX (merged (shards n es)) = count_of (is_kind CategoryDisconnectInbound EventTypeDisconnectReceived) es"
    "mg_discACK (merged (shards n es)) = count_of (is_kind CategoryDisconnectInbound EventTypeDisconnectAcked) es"
    "mg_discNAK (merged (shards n es)) = count_of (is_kind CategoryDisconnectInbound EventTypeDisconnectNaked) es"
    "mg_writeErrs (merged (shards n es)) = []"
    "mset (mg_coaLatUs (merged (shards n es))) = mset (map EvLatencyUs (filter is_coa_reply es))"
    "mset (mg_discLatUs (merged (shards n es))) = mset (map EvLatencyUs (filter is_disconnect_reply es))"
    using assms len
    by (simp_all only: merged_def folds) (simp_all add: shards_def comp_def observed_scalars count_parts latency_parts merge_init_def)
qed

text \<open>The maps of all shards, side by side.\<close>

lemma shard_map:
  assumes n: "0 < n"
    and m: "\<And>es k. map_of (f (observed es)) k = F (about P k es)" and none: "F [] = None"
    and d: "\<And>es. distinct (map fst (f (observed es)))"
  shows "map_of (concat (map f (shards n es))) k = F (about P k es)"
    and "distinct (map fst (concat (map f (shards n es))))"
proof -
  have key: "unat k mod n = i" if "map_of (f (observed (part n i es))) k = Some v" for i k v
    using that none by (auto simp: m about_part split: if_splits)
  have eq: "map f (shards n es) = map (\<lambda>i. f (observed (part n i es))) [0..<n]" by (simp add: shards_def comp_def)
  show "map_of (concat (map f (shards n es))) k = F (about P k es)"
    unfolding eq using map_of_parts [of "\<lambda>i. f (observed (part n i es))" "\<lambda>k. unat k mod n" n k, OF key] n
    by (simp add: m about_part)
  show "distinct (map fst (concat (map f (shards n es))))"
    unfolding eq by (rule distinct_parts [where h = "\<lambda>k. unat k mod n", OF key d])
qed

lemma shard_values:
  assumes "0 < n" "\<And>es k. map_of (f (observed es)) k = F (about P k es)" "F [] = None"
    "\<And>es. distinct (map fst (f (observed es)))" "\<And>k. about P k es \<noteq> [] \<Longrightarrow> k \<in> set (row_keys es)"
  shows "mset (map snd (concat (map f (shards n es)))) =
    mset (List.map_filter (\<lambda>k. F (about P k es)) (row_keys es))"
proof -
  let ?ks = "filter (\<lambda>k. F (about P k es) \<noteq> None) (row_keys es)"
  note sm = shard_map [of n f F P, OF assms(1-4)]
  have F: "k \<in> set (row_keys es)" if "F (about P k es) \<noteq> None" for k
    using that assms(3) by (intro assms(5)) auto
  have "mset (map snd (concat (map f (shards n es)))) = mset (map (\<lambda>k. the (F (about P k es))) ?ks)"
  proof (rule mset_values)
    show "distinct ?ks" by (simp add: row_keys_def)
    show "map_of (concat (map f (shards n es))) k = (if k \<in> set ?ks then Some (the (F (about P k es))) else None)" for k
      using F [of k] by (cases "F (about P k es)") (auto simp: sm)
  qed (rule sm)
  then show ?thesis by (simp add: List.map_filter_def comp_def)
qed

lemma terminal_values:
  assumes "0 < n"
  shows "mset (map snd (concat (map sa_terminalState (shards n es)))) =
    mset (List.map_filter (\<lambda>k. last_state (about is_terminal k es)) (row_keys es))"
  using assms by (intro shard_values observed_maps observed_distinct) (auto simp: last_state_def in_row_keys_iff)

lemma established_values:
  assumes "0 < n"
  shows "mset (map snd (concat (map sa_establishedOffsetMs (shards n es)))) =
    mset (List.map_filter (\<lambda>k. first_offset (about is_established k es)) (row_keys es))"
  using assms by (intro shard_values observed_maps observed_distinct) (auto simp: first_offset_def in_row_keys_iff)

lemma fold_tick:
  "gm_get 0 (fold tick xs m) st = gm_get 0 m st + int (count_list xs st)"
  "sum_list (map snd (fold tick xs [])) = int (length xs)"
proof -
  show "gm_get 0 (fold tick xs m) st = gm_get 0 m st + int (count_list xs st)"
    by (induction xs arbitrary: m) (simp_all add: tick_def gm_get_def update_conv')
  have "sum_list (map snd (AList.update k (gm_get 0 m k + 1) m)) = sum_list (map snd m) + 1" for k and m :: "(string \<times> int) list"
    by (induction m) (auto simp: gm_get_def)
  then have "sum_list (map snd (fold tick xs m)) = sum_list (map snd m) + int (length xs)" for m
    by (induction xs arbitrary: m) (simp_all add: tick_def)
  then show "sum_list (map snd (fold tick xs [])) = int (length xs)" by simp
qed

lemma fold_track:
  "fold track (v # vs) (False, 0, 0) = (True, Min (set (v # vs)), Max (set (v # vs)))"
proof -
  have "fold track vs (True, Min A, Max A) = (True, Min (A \<union> set vs), Max (A \<union> set vs))"
    if "finite A" "A \<noteq> {}" for A
    using that
  proof (induction vs arbitrary: A)
    case (Cons w vs)
    have "track w (True, a, b) = (True, min w a, max w b)" for a b
      by (auto simp: track_def)
    then have "track w (True, Min A, Max A) = (True, Min (insert w A), Max (insert w A))"
      using Cons.prems by (simp add: Min_insert [of A w] Max_insert [of A w] del: Min_insert Max_insert)
    then show ?case using Cons.IH [of "insert w A"] Cons.prems by simp
  qed simp
  from this [of "{v}"] show ?thesis by (simp add: track_def)
qed


section \<open>Order does not matter\<close>

lemma computeDistribution_mset: "mset xs = mset ys \<Longrightarrow> computeDistribution ovf xs = computeDistribution ovf ys"
proof -
  assume m: "mset xs = mset ys"
  then have "sort xs = sort ys" by (metis mset_sort properties_for_sort sorted_sort)
  moreover have "xs = [] \<longleftrightarrow> ys = []" using m by auto
  ultimately show ?thesis by (simp add: computeDistribution_def)
qed

lemma bump_bucket_commute: "bump_bucket b n x (bump_bucket b n y d) = bump_bucket b n y (bump_bucket b n x d)"
proof -
  have "d[i := d ! i + 1, j := d[i := d ! i + 1] ! j + 1] = d[j := d ! j + 1, i := d[j := d ! j + 1] ! i + 1]"
    for i j and d :: "int list"
  proof (cases "i = j")
    case False
    then show ?thesis by (simp add: list_update_swap)
  qed simp
  then show ?thesis by (simp add: bump_bucket_def Let_def)
qed

lemma larger_commute: "larger x (larger y m) = larger y (larger x m)"
  by (auto simp: larger_def)

lemma curve_mset:
  assumes "mset xs = mset ys"
  shows "buildEstablishmentCurve xs b = buildEstablishmentCurve ys b"
proof -
  have "fold (\<lambda>s m. larger (ag_establishedOffsetMs s) (larger (ag_activatedOffsetMs s) m)) xs
      = fold (\<lambda>s m. larger (ag_establishedOffsetMs s) (larger (ag_activatedOffsetMs s) m)) ys"
    by (rule fold_multiset_equiv [OF _ assms]) (auto simp: larger_eq fun_eq_iff max.left_commute max.assoc)
  then have m: "curve_maxOff xs = curve_maxOff ys" by (simp add: curve_maxOff_def)
  have "fold (\<lambda>s. bump_bucket b n (f s)) xs = fold (\<lambda>s. bump_bucket b n (f s)) ys" for n and f :: "subAgg \<Rightarrow> int"
    by (rule fold_multiset_equiv [OF _ assms]) (auto simp: bump_bucket_commute)
  then have d: "curve_deltas b n xs = curve_deltas b n ys" for n
    by (simp add: curve_deltas_def fold_pair)
  have "xs = [] \<longleftrightarrow> ys = []" using assms by auto
  then show ?thesis by (simp add: buildEstablishmentCurve_def m d)
qed

lemma still_in_flight_eq: "still_in_flight t cs = max 0 (t - sum_list (map snd cs))"
proof -
  have "fold (\<lambda>(_, c) n. n - c) cs t = t - sum_list (map snd cs)"
    by (induction cs arbitrary: t) (auto split: prod.split)
  then show ?thesis by (simp add: still_in_flight_def Let_def)
qed

section \<open>The summary of a stream\<close>

text \<open>
  The reference: every section directly from the stream, with no shards and no maps. A
  subscriber's final state is the one of its last terminal event, its offsets those of its
  first activation and first establishment.
\<close>

definition final_states :: "event list \<Rightarrow> string list" where
  "final_states es = List.map_filter (\<lambda>k. last_state (about is_terminal k es)) (row_keys es)"

definition established_offsets :: "event list \<Rightarrow> int list" where
  "established_offsets es = List.map_filter (\<lambda>k. first_offset (about is_established k es)) (row_keys es)"

definition stream_summary :: "int \<Rightarrow> 'v AggregateOpts \<Rightarrow> string \<Rightarrow> MeasurementIntegritySection \<Rightarrow> int \<Rightarrow> event list \<Rightarrow> 'v Summary" where
  "stream_summary ovf opts subsPath integrity durationMs es =
     (let rows = map (sub_row es) (row_keys es);
          ended = (\<lambda>st. count_of (\<lambda>s. s = st) (final_states es));
          offs = established_offsets es;
          retx = map (\<lambda>k. ag_authRetransmits (sub_row es k) + ag_acctRetransmits (sub_row es k)) (row_keys es);
          kind = (\<lambda>c t. count_of (is_kind c t) es)
      in \<lparr>su_RunID = ao_RunID opts, su_ConfigHash = ao_ConfigHash opts, su_StartedAt = ao_StartedAt opts,
          su_FinishedAt = ao_FinishedAt opts, su_DurationMs = durationMs, su_ScenarioType = ao_ScenarioType opts,
          su_Outcome = ao_Outcome opts,
          su_Subscribers = \<lparr>ss_Total = int (length (row_keys es)), ss_Established = ended FinalStateEstablished,
            ss_AuthFailed = ended FinalStateAuthFailed, ss_AcctFailed = ended FinalStateAcctFailed,
            ss_Terminated = ended FinalStateTerminated,
            ss_StillInFlightAtEnd = count_of (\<lambda>k. about is_terminal k es = []) (row_keys es)\<rparr>,
          su_Establishment = \<lparr>es_TimeToFirstMs = (if offs = [] then 0 else Min (set offs)),
            es_TimeToFullMs = (if offs = [] then 0 else Max (set offs)),
            es_LatencyMs = computeDistribution ovf (est_latencies rows),
            es_Curve = buildEstablishmentCurve rows (ao_CurveBucketMs opts)\<rparr>,
          su_Retransmits = \<lparr>rs_Total = count_of is_retransmit es,
            rs_SubscribersWithRetransmit = count_of (\<lambda>n. n > 0) retx,
            rs_PerSubscriberDistribution = computeRetransmitDistribution ovf retx\<rparr>,
          su_CoA = \<lparr>cs_Received = kind CategoryCoAInbound EventTypeCoAReceived,
            cs_Acked = kind CategoryCoAInbound EventTypeCoAAcked, cs_Naked = kind CategoryCoAInbound EventTypeCoANaked,
            cs_Dropped = kind CategoryCoAInbound EventTypeCoADropped,
            cs_ResponseLatencyUs = optional_distribution ovf (map EvLatencyUs (filter is_coa_reply es))\<rparr>,
          su_Disconnect = \<lparr>ds_Received = kind CategoryDisconnectInbound EventTypeDisconnectReceived,
            ds_Acked = kind CategoryDisconnectInbound EventTypeDisconnectAcked,
            ds_Naked = kind CategoryDisconnectInbound EventTypeDisconnectNaked,
            ds_ResponseLatencyUs = optional_distribution ovf (map EvLatencyUs (filter is_disconnect_reply es))\<rparr>,
          su_ServerHealth = \<lparr>sh_UnresponsivePeriods = [], sh_ErrorResponses = 0\<rparr>,
          su_Thresholds = \<lparr>ts_Evaluated = ao_Thresholds opts, ts_Overall = evalThresholdsOverall (ao_Thresholds opts)\<rparr>,
          su_Artifacts = \<lparr>ar_EventsParquet = ''events-shard-*.parquet'', ar_SubscribersParquet = subsPath,
            ar_RunLog = ''run.log''\<rparr>,
          su_MeasurementIntegrity = integrity\<rparr>)"

lemma optional_distribution_mset:
  "mset xs = mset ys \<Longrightarrow> optional_distribution ovf xs = optional_distribution ovf ys"
  using computeDistribution_mset [of xs ys ovf] mset_eq_length [of xs ys] by (simp add: optional_distribution_def)

lemma terminal_counts:
  assumes "0 < n"
  shows "gm_get 0 (mg_terminalCounts (merged (shards n es))) st = count_of (\<lambda>s. s = st) (final_states es)"
    "sum_list (map snd (mg_terminalCounts (merged (shards n es)))) = int (length (final_states es))"
proof -
  have "mg_terminalCounts (merged aggs) = fold tick (map snd (concat (map sa_terminalState aggs))) []" for aggs
  proof -
    have "mg_terminalCounts (fold merge_shard aggs g) = fold tick (map snd (concat (map sa_terminalState aggs))) (mg_terminalCounts g)" for g
      by (induction aggs arbitrary: g) (simp_all add: merge_shard_terminal)
    then show ?thesis by (simp add: merged_def merge_init_def)
  qed
  moreover have m: "mset (map snd (concat (map sa_terminalState (shards n es)))) = mset (final_states es)"
    unfolding final_states_def using assms by (rule terminal_values)
  moreover have "int (count_list xs st) = count_of (\<lambda>s. s = st) xs" for xs :: "string list"
    by (induction xs) (auto simp: count_of_def)
  ultimately show "gm_get 0 (mg_terminalCounts (merged (shards n es))) st = count_of (\<lambda>s. s = st) (final_states es)"
    "sum_list (map snd (mg_terminalCounts (merged (shards n es)))) = int (length (final_states es))"
    using count_of_mset [OF m] mset_eq_length [OF m] by (simp_all add: fold_tick gm_get_def [of _ "[]"])
qed

lemma established_range:
  assumes "0 < n"
  shows "mg_established (merged (shards n es)) =
    (let offs = established_offsets es in if offs = [] then (False, 0, 0) else (True, Min (set offs), Max (set offs)))"
proof -
  have m: "mset (map snd (concat (map sa_establishedOffsetMs (shards n es)))) = mset (established_offsets es)"
    unfolding established_offsets_def using assms by (rule established_values)
  have "mg_established (fold merge_shard aggs g) = fold track (map snd (concat (map sa_establishedOffsetMs aggs))) (mg_established g)" for aggs g
    by (induction aggs arbitrary: g) (simp_all add: merge_shard_established)
  then have e: "mg_established (merged (shards n es)) = fold track (map snd (concat (map sa_establishedOffsetMs (shards n es)))) (False, 0, 0)"
    by (simp add: merged_def merge_init_def)
  obtain vs where vs: "vs = map snd (concat (map sa_establishedOffsetMs (shards n es)))" by simp
  have "set vs = set (established_offsets es)" "vs = [] \<longleftrightarrow> established_offsets es = []"
    using m vs by (metis mset_eq_setD, metis mset_zero_iff)
  then show ?thesis
    unfolding e vs [symmetric] by (cases vs) (simp, simp only: fold_track Let_def, simp)
qed


lemma in_flight_count:
  "int (length (row_keys es)) - int (length (final_states es)) = count_of (\<lambda>k. about is_terminal k es = []) (row_keys es)"
proof -
  have "length (List.map_filter f ks) + length (filter (\<lambda>k. f k = None) ks) = length ks" for f :: "u32 \<Rightarrow> string option" and ks
    by (induction ks) (auto simp: List.map_filter_simps split: option.split)
  from this [of "\<lambda>k. last_state (about is_terminal k es)" "row_keys es"] show ?thesis
    by (simp add: final_states_def count_of_def summary_None_iff)
qed

lemma summarize_stream:
  assumes "0 < n"
  shows "summarize ovf opts path integrity d (merged (shards n es)) = stream_summary ovf opts path integrity d es"
proof -
  let ?g = "merged (shards n es)"
  note rows = rows_mset [OF assms, of es]
  have len: "length (mg_merged ?g) = length (row_keys es)"
    using mset_eq_length [OF rows] by simp
  have lat: "computeDistribution ovf (est_latencies (map snd (mg_merged ?g))) = computeDistribution ovf (est_latencies (map (sub_row es) (row_keys es)))"
    unfolding est_latencies_def using rows by (intro computeDistribution_mset) (simp only: mset_map mset_filter)
  have retx: "mset (retx_per_sub (map snd (mg_merged ?g))) = mset (retx_per_sub (map (sub_row es) (row_keys es)))"
    unfolding retx_per_sub_def using rows by (simp only: mset_map)
  have retx': "retx_per_sub (map (sub_row es) (row_keys es)) =
     map (\<lambda>k. ag_authRetransmits (sub_row es k) + ag_acctRetransmits (sub_row es k)) (row_keys es)"
    by (simp add: retx_per_sub_def)
  have flight: "still_in_flight (int (length (row_keys es))) (mg_terminalCounts ?g) = count_of (\<lambda>k. about is_terminal k es = []) (row_keys es)"
    using in_flight_count [of es] by (simp add: still_in_flight_eq terminal_counts [OF assms] count_of_def)
  show ?thesis
    unfolding summarize_def stream_summary_def Let_def established_range [OF assms] len lat flight
      computeRetransmitDistribution_def computeDistribution_mset [OF retx] curve_mset [OF rows]
      count_of_mset [OF retx, unfolded count_of_def] count_of_def [of "\<lambda>n. n > 0"]
      merged_counters(1-10) [OF assms] terminal_counts [OF assms]
      optional_distribution_mset [OF merged_counters(11) [OF assms]]
      optional_distribution_mset [OF merged_counters(12) [OF assms]] retx'
    by simp
qed

end
