(* ===== verification/Collector.thy ===== *)
theory Collector
  imports Collector_Parquet Collector_Merge Go_Text
begin

text \<open>
  The collector of \<^verbatim>\<open>pkg/collector/collector.go\<close>: construction, the non-blocking
  \<^verbatim>\<open>Submit\<close> and \<^verbatim>\<open>SubmitOutcome\<close>, the shard and outcome goroutines, \<^verbatim>\<open>Stop\<close> and
  \<^verbatim>\<open>Aggregate\<close>. A channel is the list of its buffered values; the local batch of every
  goroutine is part of the state. The atomic parts of \<^verbatim>\<open>Submit\<close> are the check of the flag
  (\<open>submit_check\<close>), the send or the drop (\<open>submit_send\<close>) and the counter (\<open>submit_count\<close>); those of \<^verbatim>\<open>Stop\<close>
  are the store of the flag (\<open>stop_store\<close>) and the closing of one channel after the other
  (\<open>stop_close\<close>). Sending on a closed channel panics: the result is \<open>None\<close>.
\<close>

section \<open>State\<close>

text \<open>\<open>co_closed\<close> is the number of channels closed so far, the shards' in order and then the
  outcomes'.\<close>

record opts =
  op_Dir :: string
  op_ShardCount :: int
  op_PerShardBuffer :: int
  op_FlushInterval :: int
  op_BatchSize :: int
  op_RotateBytes :: int
  op_OutcomeBuffer :: int

definition defaultPerShardBuffer :: int where "defaultPerShardBuffer = 16384"
definition defaultFlushInterval :: int where "defaultFlushInterval = 30 * 1000000000"
definition defaultBatchSize :: int where "defaultBatchSize = 4096"
definition defaultOutcomeBuffer :: int where "defaultOutcomeBuffer = 4096"

record collector =
  co_opts :: opts
  co_shardCh :: "event list list"
  co_outcomeCh :: "outcome list"
  co_closed :: nat
  co_stopped :: bool
  co_startedAt :: int
  co_aggregations :: "shardAggregation list"
  co_outcomes :: "outcome list"
  co_dropped :: int
  co_eventsDroppedFull :: int
  co_outcomesDroppedFull :: int
  co_firstFullDropNs :: int
  co_lastFullDropNs :: int
  co_totalSubmitted :: int
  co_writers :: "parquetWriter list"
  co_outcomeWrite :: outcomeWriter
  co_batch :: "event list list"
  co_exited :: "bool list"
  co_outcomeBatch :: "outcome list"
  co_outcomeExited :: bool

definition collector_defaults :: "int \<Rightarrow> opts \<Rightarrow> opts" where
  "collector_defaults numCPU o0 =
     (let o1 = (if op_ShardCount o0 \<le> 0 then o0\<lparr>op_ShardCount := numCPU\<rparr> else o0);
          o2 = (if op_PerShardBuffer o1 \<le> 0 then o1\<lparr>op_PerShardBuffer := defaultPerShardBuffer\<rparr> else o1);
          o3 = (if op_FlushInterval o2 \<le> 0 then o2\<lparr>op_FlushInterval := defaultFlushInterval\<rparr> else o2);
          o4 = (if op_BatchSize o3 \<le> 0 then o3\<lparr>op_BatchSize := defaultBatchSize\<rparr> else o3)
      in if op_OutcomeBuffer o4 \<le> 0 then o4\<lparr>op_OutcomeBuffer := defaultOutcomeBuffer\<rparr> else o4)"

definition NewCollector :: "int \<Rightarrow> goerr option \<Rightarrow> int \<Rightarrow> opts \<Rightarrow> collector res" where
  "NewCollector numCPU mkdir now opts0 =
     (if op_Dir opts0 = [] then Inl (Plain ''collector: Dir is required'')
      else let opts = collector_defaults numCPU opts0; n = nat (op_ShardCount opts) in
        case mkdir of Some err \<Rightarrow> Inl (Wrap (''mkdir '' @ op_Dir opts @ '': '') err [])
        | None \<Rightarrow> Inr
          \<lparr>co_opts = opts, co_shardCh = replicate n [], co_outcomeCh = [], co_closed = 0,
           co_stopped = False, co_startedAt = now, co_aggregations = replicate n newShardAggregation,
           co_outcomes = [], co_dropped = 0, co_eventsDroppedFull = 0, co_outcomesDroppedFull = 0,
           co_firstFullDropNs = 0, co_lastFullDropNs = 0, co_totalSubmitted = 0,
           co_writers = map (\<lambda>i. newParquetWriter (op_Dir opts) i (op_RotateBytes opts)) [0..<n],
           co_outcomeWrite = newOutcomeWriter (op_Dir opts), co_batch = replicate n [],
           co_exited = replicate n False, co_outcomeBatch = [], co_outcomeExited = False\<rparr>)"

definition shard_closed :: "nat \<Rightarrow> collector \<Rightarrow> bool" where
  "shard_closed i c \<longleftrightarrow> i < co_closed c"

definition outcome_closed :: "collector \<Rightarrow> bool" where
  "outcome_closed c \<longleftrightarrow> length (co_shardCh c) < co_closed c"

section \<open>Submitting\<close>

text \<open>
  The two drop counters go through the same function; \<^verbatim>\<open>CompareAndSwap(0, now)\<close> keeps the
  first reading.
\<close>

definition full_drop_times :: "int \<Rightarrow> collector \<Rightarrow> collector" where
  "full_drop_times now c =
     c\<lparr>co_firstFullDropNs := (if co_firstFullDropNs c = 0 then now else co_firstFullDropNs c),
       co_lastFullDropNs := now\<rparr>"

definition recordFullDrop_events :: "int \<Rightarrow> collector \<Rightarrow> collector" where
  "recordFullDrop_events now c =
     full_drop_times now (c\<lparr>co_eventsDroppedFull := co_eventsDroppedFull c + 1\<rparr>)"

definition recordFullDrop_outcomes :: "int \<Rightarrow> collector \<Rightarrow> collector" where
  "recordFullDrop_outcomes now c =
     full_drop_times now (c\<lparr>co_outcomesDroppedFull := co_outcomesDroppedFull c + 1\<rparr>)"

definition shard_of :: "collector \<Rightarrow> event \<Rightarrow> nat" where
  "shard_of c e = (let shard = int (unat (EvSubscriberID e)) mod op_ShardCount (co_opts c)
     in nat (if shard < 0 then - shard else shard))"

text \<open>\<open>True\<close>: the submission goes on to the send.\<close>

definition submit_check :: "collector \<Rightarrow> collector \<times> bool" where
  "submit_check c = (if co_stopped c then (c\<lparr>co_dropped := co_dropped c + 1\<rparr>, False) else (c, True))"

definition submit_send :: "int \<Rightarrow> event \<Rightarrow> collector \<Rightarrow> collector option" where
  "submit_send now e c =
     (let shard = shard_of c e; ch = co_shardCh c ! shard in
      if shard_closed shard c then None
      else if int (length ch) < op_PerShardBuffer (co_opts c) then Some (c\<lparr>co_shardCh := (co_shardCh c)[shard := ch @ [e]]\<rparr>)
      else Some (recordFullDrop_events now c))"

definition submit_count :: "collector \<Rightarrow> collector" where
  "submit_count c = c\<lparr>co_totalSubmitted := co_totalSubmitted c + 1\<rparr>"

text \<open>A send that drops the event counts it as dropped.\<close>

definition was_sent :: "collector \<Rightarrow> collector \<Rightarrow> bool" where
  "was_sent c c' \<longleftrightarrow> co_eventsDroppedFull c' = co_eventsDroppedFull c"

definition Submit :: "int \<Rightarrow> event \<Rightarrow> collector \<Rightarrow> collector option" where
  "Submit now e c = (case submit_check c of (c1, go) \<Rightarrow>
     if \<not> go then Some c1 else map_option (\<lambda>c2. if was_sent c1 c2 then submit_count c2 else c2) (submit_send now e c1))"

definition submitOutcome_send :: "int \<Rightarrow> outcome \<Rightarrow> collector \<Rightarrow> collector option" where
  "submitOutcome_send now oc c =
     (if outcome_closed c then None
      else if int (length (co_outcomeCh c)) < op_OutcomeBuffer (co_opts c)
      then Some (c\<lparr>co_outcomeCh := co_outcomeCh c @ [oc]\<rparr>)
      else Some (recordFullDrop_outcomes now c))"

definition SubmitOutcome :: "int \<Rightarrow> outcome \<Rightarrow> collector \<Rightarrow> collector option" where
  "SubmitOutcome now oc c = (case submit_check c of (c1, go) \<Rightarrow> if go then submitOutcome_send now oc c1 else Some c1)"

section \<open>Goroutines\<close>

definition shard_flush :: "write_env \<Rightarrow> nat \<Rightarrow> collector \<Rightarrow> collector" where
  "shard_flush env i c =
     (if co_batch c ! i = [] then c
      else case pw_writeBatch env (co_batch c ! i) (co_writers c ! i) of (w, err) \<Rightarrow>
        let c1 = c\<lparr>co_writers := (co_writers c)[i := w]\<rparr>;
            c2 = (case err of Some e \<Rightarrow> c1\<lparr>co_aggregations := (co_aggregations c1)[i := recordWriteError e (co_aggregations c1 ! i)]\<rparr>
                  | None \<Rightarrow> c1)
        in c2\<lparr>co_batch := (co_batch c2)[i := []]\<rparr>)"

text \<open>One receive of \<^verbatim>\<open>runShard\<close>: an event, or the end of a closed and drained channel.\<close>

definition shard_receive :: "write_env \<Rightarrow> nat \<Rightarrow> collector \<Rightarrow> collector option" where
  "shard_receive env i c =
     (if co_exited c ! i then None
      else case co_shardCh c ! i of
        [] \<Rightarrow> if shard_closed i c then Some ((shard_flush env i c)\<lparr>co_exited := (co_exited c)[i := True]\<rparr>) else None
      | e # rest \<Rightarrow>
        let c1 = c\<lparr>co_shardCh := (co_shardCh c)[i := rest],
                   co_aggregations := (co_aggregations c)[i := observe e (co_aggregations c ! i)],
                   co_batch := (co_batch c)[i := co_batch c ! i @ [e]]\<rparr>
        in Some (if int (length (co_batch c1 ! i)) \<ge> op_BatchSize (co_opts c1) then shard_flush env i c1 else c1))"

definition shard_tick :: "write_env \<Rightarrow> nat \<Rightarrow> collector \<Rightarrow> collector option" where
  "shard_tick env i c = (if co_exited c ! i then None else Some (shard_flush env i c))"

definition outcome_flush :: "write_env \<Rightarrow> collector \<Rightarrow> collector" where
  "outcome_flush env c =
     (if co_outcomeBatch c = [] then c
      else case ow_writeBatch env (co_outcomeBatch c) (co_outcomeWrite c) of (w, err) \<Rightarrow>
        let c1 = c\<lparr>co_outcomeWrite := w\<rparr>;
            c2 = (case err of Some e \<Rightarrow> c1\<lparr>co_aggregations := (co_aggregations c1)[0 := recordWriteError e (co_aggregations c1 ! 0)]\<rparr>
                  | None \<Rightarrow> c1)
        in c2\<lparr>co_outcomes := co_outcomes c2 @ co_outcomeBatch c2, co_outcomeBatch := []\<rparr>)"

definition outcome_receive :: "write_env \<Rightarrow> collector \<Rightarrow> collector option" where
  "outcome_receive env c =
     (if co_outcomeExited c then None
      else case co_outcomeCh c of
        [] \<Rightarrow> if outcome_closed c then Some ((outcome_flush env c)\<lparr>co_outcomeExited := True\<rparr>) else None
      | oc # rest \<Rightarrow>
        let c1 = c\<lparr>co_outcomeCh := rest, co_outcomeBatch := co_outcomeBatch c @ [oc]\<rparr>
        in Some (if int (length (co_outcomeBatch c1)) \<ge> op_BatchSize (co_opts c1) then outcome_flush env c1 else c1))"

section \<open>Stopping\<close>

definition stop_store :: "collector \<Rightarrow> collector" where
  "stop_store c = c\<lparr>co_stopped := True\<rparr>"

definition stop_close :: "collector \<Rightarrow> collector" where
  "stop_close c = c\<lparr>co_closed := co_closed c + 1\<rparr>"

text \<open>
  The end of \<^verbatim>\<open>Stop\<close>, after the goroutines are done or the context has fired (\<open>ctxErr\<close>): the
  writers are closed in order and the first error is kept.
\<close>

definition first_error :: "goerr option \<Rightarrow> goerr option \<Rightarrow> goerr option" where
  "first_error firstErr err = (if err \<noteq> None \<and> firstErr = None then err else firstErr)"

fun close_writers :: "(goerr option \<times> goerr option) list \<Rightarrow> parquetWriter list \<Rightarrow> goerr option \<Rightarrow> parquetWriter list \<times> goerr option" where
  "close_writers (r # rs) (w # ws) firstErr =
     (case pw_close r w of (w', err) \<Rightarrow>
       case close_writers rs ws (first_error firstErr err) of (ws', e) \<Rightarrow> (w' # ws', e))"
| "close_writers rs ws firstErr = (ws, firstErr)"

definition stop_finish :: "goerr option \<Rightarrow> (goerr option \<times> goerr option) list \<Rightarrow> goerr option \<times> goerr option \<Rightarrow> collector \<Rightarrow> collector \<times> goerr option" where
  "stop_finish ctxErr closes oclose c =
     (case close_writers closes (co_writers c) (map_option (\<lambda>e. Wrap ''collector stop: '' e []) ctxErr) of
        (ws, firstErr) \<Rightarrow>
          (case ow_close oclose (co_outcomeWrite c) of (ow, err) \<Rightarrow>
             (c\<lparr>co_writers := ws, co_outcomeWrite := ow\<rparr>, first_error firstErr err)))"

definition SubscribersPath :: "collector \<Rightarrow> string" where
  "SubscribersPath c = ''subscribers.parquet''"

section \<open>Aggregation\<close>

definition saturated_note :: string where
  "saturated_note = ''Collector saturated: '' @ chars [0xE2, 0x89, 0xA5] @ ''1% of events dropped due to back-pressure. Latency tail percentiles should be treated with significant care; consider faster output disk, more CPU cores, or a smaller subscriber count.''"

definition back_pressure_note :: string where
  "back_pressure_note = ''Collector experienced brief back-pressure: a small number of events dropped. Latency aggregations are usable but tail percentiles may be slightly understated.''"

definition standing_notes :: "string list" where
  "standing_notes = [''Latency captured with monotonic clock immediately on packet receipt.'',
     ''Userspace timestamps via Go net.UDPConn '' @ chars [0xE2, 0x80, 0x94] @ '' kernel scheduling jitter floor '' @
     chars [0xE2, 0x89, 0x88] @ ''50'' @ chars [0xE2, 0x80, 0x93] @ ''200'' @ chars [0xC2, 0xB5] @ ''s on a clean Linux box.'']"

definition drop_rate :: "int \<Rightarrow> int \<Rightarrow> float64" where
  "drop_rate submitted droppedFull =
     (let denom = submitted + droppedFull in
      if denom > 0 then fdiv (f_of_int droppedFull) (f_of_int denom) else Fin 0)"

definition measurementIntegrity :: "collector \<Rightarrow> int \<Rightarrow> MeasurementIntegritySection" where
  "measurementIntegrity c startedAt =
     (let submitted = co_totalSubmitted c; droppedFull = co_eventsDroppedFull c;
          droppedOutcomes = co_outcomesDroppedFull c;
          (trust, notes) =
            (if droppedFull > 0 \<or> droppedOutcomes > 0
             then if fle (fround (1 / 100)) (drop_rate submitted droppedFull)
                  then (''low'', standing_notes @ [saturated_note])
                  else (''medium'', standing_notes @ [back_pressure_note])
             else (''high'', standing_notes));
          offset = (\<lambda>ns. if ns > 0 then Some (milliseconds (time_sub ns startedAt)) else None)
      in \<lparr>mi_Trust = trust, mi_EventsSubmitted = submitted, mi_EventsDroppedBackPressure = droppedFull,
          mi_OutcomesDroppedBackPressure = droppedOutcomes, mi_EventsDroppedAfterStop = co_dropped c,
          mi_FirstDropOffsetMs = offset (co_firstFullDropNs c), mi_LastDropOffsetMs = offset (co_lastFullDropNs c),
          mi_Notes = notes\<rparr>)"

definition aggregate_defaults :: "collector \<Rightarrow> int \<Rightarrow> 'v AggregateOpts \<Rightarrow> 'v AggregateOpts" where
  "aggregate_defaults c now o0 =
     (let o1 = (if ao_CurveBucketMs o0 \<le> 0 then o0\<lparr>ao_CurveBucketMs := 1000\<rparr> else o0);
          o2 = (if ao_StartedAt o1 = None then o1\<lparr>ao_StartedAt := Some (co_startedAt c)\<rparr> else o1);
          o3 = (if ao_FinishedAt o2 = None then o2\<lparr>ao_FinishedAt := Some now\<rparr> else o2)
      in if ao_Outcome o3 = [] then o3\<lparr>ao_Outcome := OutcomeSucceeded\<rparr> else o3)"

definition Aggregate :: "int \<Rightarrow> int \<Rightarrow> 'v AggregateOpts \<Rightarrow> collector \<Rightarrow> 'v Summary res" where
  "Aggregate ovf now opts0 c =
     (if \<not> co_stopped c then Inl (Plain ''collector aggregate: must call Stop before Aggregate'')
      else let opts = aggregate_defaults c now opts0;
               started = the (ao_StartedAt opts); finished = the (ao_FinishedAt opts)
        in Inr (summarize ovf opts (SubscribersPath c) (measurementIntegrity c started)
             (milliseconds (time_sub finished started)) (merged (co_aggregations c))))"

end
