(* ===== verification/Collector_System.thy ===== *)
theory Collector_System
  imports Collector
begin

text \<open>
  The collector as a system of concurrent steps: submissions in their atomic parts, the
  goroutines' receives and ticks, and the parts of \<^verbatim>\<open>Stop\<close>, interleaved in any order.
  A state carries, beside the collector, the submissions that have passed the check and not
  yet sent, the number sent and not yet counted, and the events and outcomes accepted so far.
  The invariant ties every shard's counters, channel, batch and file writer to the accepted
  events; on it rest the exactness of the summary, the conservation of submissions and the
  draining of a stopped collector, which writes all it has accepted.
\<close>

section \<open>Steps\<close>

text \<open>\<open>cy_offered\<close> counts the calls of \<^verbatim>\<open>Submit\<close> and \<^verbatim>\<open>SubmitOutcome\<close>.\<close>

record csys =
  cy_co :: collector
  cy_pending :: "event list"
  cy_pendingOutcomes :: "outcome list"
  cy_uncounted :: nat
  cy_accepted :: "event list"
  cy_acceptedOutcomes :: "outcome list"
  cy_offered :: nat
  cy_panic :: bool

datatype cact = BeginSubmit event | SendPending int | CountSubmit | BeginOutcome outcome | SendOutcome int
  | ShardRecv write_env nat | ShardTick write_env nat | OutcomeRecv write_env | StopStore | StopClose

definition csys_init :: "collector \<Rightarrow> csys" where
  "csys_init c = \<lparr>cy_co = c, cy_pending = [], cy_pendingOutcomes = [], cy_uncounted = 0, cy_accepted = [], cy_acceptedOutcomes = [],
     cy_offered = 0, cy_panic = False\<rparr>"

fun cstep :: "cact \<Rightarrow> csys \<Rightarrow> csys option" where
  "cstep (BeginSubmit e) s = (case submit_check (cy_co s) of (c, go) \<Rightarrow>
     Some (s\<lparr>cy_co := c, cy_pending := cy_pending s @ (if go then [e] else []), cy_offered := cy_offered s + 1\<rparr>))"
| "cstep (SendPending now) s = (case cy_pending s of [] \<Rightarrow> None
     | e # rest \<Rightarrow> (case submit_send now e (cy_co s) of
         None \<Rightarrow> Some (s\<lparr>cy_pending := rest, cy_panic := True\<rparr>)
       | Some c \<Rightarrow> Some (s\<lparr>cy_co := c, cy_pending := rest,
           cy_uncounted := cy_uncounted s + (if was_sent (cy_co s) c then 1 else 0),
           cy_accepted := cy_accepted s @ (if was_sent (cy_co s) c then [e] else [])\<rparr>)))"
| "cstep CountSubmit s = (case cy_uncounted s of 0 \<Rightarrow> None
     | Suc n \<Rightarrow> Some (s\<lparr>cy_co := submit_count (cy_co s), cy_uncounted := n\<rparr>))"
| "cstep (BeginOutcome oc) s = (case submit_check (cy_co s) of (c, go) \<Rightarrow>
     Some (s\<lparr>cy_co := c, cy_pendingOutcomes := cy_pendingOutcomes s @ (if go then [oc] else []), cy_offered := cy_offered s + 1\<rparr>))"
| "cstep (SendOutcome now) s = (case cy_pendingOutcomes s of [] \<Rightarrow> None
     | oc # rest \<Rightarrow> (case submitOutcome_send now oc (cy_co s) of
         None \<Rightarrow> Some (s\<lparr>cy_pendingOutcomes := rest, cy_panic := True\<rparr>)
       | Some c \<Rightarrow> Some (s\<lparr>cy_co := c, cy_pendingOutcomes := rest,
           cy_acceptedOutcomes := cy_acceptedOutcomes s @ (if co_outcomesDroppedFull c = co_outcomesDroppedFull (cy_co s) then [oc] else [])\<rparr>)))"
| "cstep (ShardRecv env i) s = (if i < length (co_shardCh (cy_co s))
     then map_option (\<lambda>c. s\<lparr>cy_co := c\<rparr>) (shard_receive env i (cy_co s)) else None)"
| "cstep (ShardTick env i) s = (if i < length (co_shardCh (cy_co s))
     then map_option (\<lambda>c. s\<lparr>cy_co := c\<rparr>) (shard_tick env i (cy_co s)) else None)"
| "cstep (OutcomeRecv env) s = map_option (\<lambda>c. s\<lparr>cy_co := c\<rparr>) (outcome_receive env (cy_co s))"
| "cstep StopStore s = (if co_stopped (cy_co s) then None else Some (s\<lparr>cy_co := stop_store (cy_co s)\<rparr>))"
| "cstep StopClose s = (if co_stopped (cy_co s) \<and> \<not> outcome_closed (cy_co s) then Some (s\<lparr>cy_co := stop_close (cy_co s)\<rparr>) else None)"

inductive reachable :: "csys \<Rightarrow> bool" where
  reach_init: "0 < numCPU \<Longrightarrow> NewCollector numCPU mkdir now o0 = Inr c \<Longrightarrow> reachable (csys_init c)"
| reach_step: "reachable s \<Longrightarrow> \<not> cy_panic s \<Longrightarrow> cstep a s = Some s' \<Longrightarrow> reachable s'"

section \<open>The invariant\<close>

text \<open>The counters without the writer's errors.\<close>

definition counters_of :: "shardAggregation \<Rightarrow> shardAggregation" where
  "counters_of a = a\<lparr>sa_writeErrors := []\<rparr>"

definition shard_ok :: "csys \<Rightarrow> nat \<Rightarrow> bool" where
  "shard_ok s i = (let c = cy_co s; n = length (co_shardCh c) in
     (\<exists>p. part n i (cy_accepted s) = p @ co_shardCh c ! i \<and> counters_of (co_aggregations c ! i) = observed p) \<and>
     (co_exited c ! i \<longrightarrow> shard_closed i c \<and> co_shardCh c ! i = []))"

definition shape_ok :: "collector \<Rightarrow> bool" where
  "shape_ok c \<longleftrightarrow> 0 < length (co_shardCh c) \<and> int (length (co_shardCh c)) = op_ShardCount (co_opts c) \<and>
     length (co_aggregations c) = length (co_shardCh c) \<and> length (co_exited c) = length (co_shardCh c) \<and>
     length (co_batch c) = length (co_shardCh c) \<and> length (co_writers c) = length (co_shardCh c) \<and>
     (0 < co_closed c \<longrightarrow> co_stopped c) \<and> (co_outcomeExited c \<longrightarrow> outcome_closed c \<and> co_outcomeCh c = [])"

definition counts_ok :: "csys \<Rightarrow> bool" where
  "counts_ok s \<longleftrightarrow> co_totalSubmitted (cy_co s) + int (cy_uncounted s) = int (length (cy_accepted s)) \<and>
     int (cy_offered s) = co_dropped (cy_co s) + int (length (cy_pending s)) + int (length (cy_pendingOutcomes s)) +
       co_eventsDroppedFull (cy_co s) + co_outcomesDroppedFull (cy_co s) + int (length (cy_accepted s)) +
       int (length (cy_acceptedOutcomes s)) + (if cy_panic s then 1 else 0)"

definition csys_inv :: "csys \<Rightarrow> bool" where
  "csys_inv s \<longleftrightarrow> shape_ok (cy_co s) \<and> counts_ok s \<and> (\<forall>i < length (co_shardCh (cy_co s)). shard_ok s i)"

lemma shard_flush_keeps:
  "co_shardCh (shard_flush env i c) = co_shardCh c" "co_exited (shard_flush env i c) = co_exited c"
  "co_closed (shard_flush env i c) = co_closed c" "co_stopped (shard_flush env i c) = co_stopped c"
  "co_opts (shard_flush env i c) = co_opts c" "co_totalSubmitted (shard_flush env i c) = co_totalSubmitted c"
  "co_dropped (shard_flush env i c) = co_dropped c" "co_eventsDroppedFull (shard_flush env i c) = co_eventsDroppedFull c"
  "co_outcomesDroppedFull (shard_flush env i c) = co_outcomesDroppedFull c"
  "co_outcomeCh (shard_flush env i c) = co_outcomeCh c" "co_outcomeExited (shard_flush env i c) = co_outcomeExited c"
  "length (co_aggregations (shard_flush env i c)) = length (co_aggregations c)"
  "length (co_batch (shard_flush env i c)) = length (co_batch c)"
  "length (co_writers (shard_flush env i c)) = length (co_writers c)"
  by (simp_all add: shard_flush_def Let_def split: prod.split option.split)

lemma outcome_flush_keeps:
  "co_shardCh (outcome_flush env c) = co_shardCh c" "co_exited (outcome_flush env c) = co_exited c"
  "co_closed (outcome_flush env c) = co_closed c" "co_stopped (outcome_flush env c) = co_stopped c"
  "co_opts (outcome_flush env c) = co_opts c" "co_totalSubmitted (outcome_flush env c) = co_totalSubmitted c"
  "co_dropped (outcome_flush env c) = co_dropped c" "co_eventsDroppedFull (outcome_flush env c) = co_eventsDroppedFull c"
  "co_outcomesDroppedFull (outcome_flush env c) = co_outcomesDroppedFull c"
  "co_outcomeCh (outcome_flush env c) = co_outcomeCh c" "co_outcomeExited (outcome_flush env c) = co_outcomeExited c"
  "length (co_aggregations (outcome_flush env c)) = length (co_aggregations c)"
  "length (co_batch (outcome_flush env c)) = length (co_batch c)"
  "length (co_writers (outcome_flush env c)) = length (co_writers c)"
  by (simp_all add: outcome_flush_def Let_def split: prod.split option.split)

lemma counters_of_recordWriteError [simp]: "counters_of (recordWriteError e a) = counters_of a"
  by (simp add: counters_of_def recordWriteError_def)

lemma observe_parts_errors:
  "observe_seen e (a\<lparr>sa_writeErrors := w\<rparr>) = (observe_seen e a)\<lparr>sa_writeErrors := w\<rparr>"
  "observe_lifecycle e (a\<lparr>sa_writeErrors := w\<rparr>) = (observe_lifecycle e a)\<lparr>sa_writeErrors := w\<rparr>"
  "observe_outbound e (a\<lparr>sa_writeErrors := w\<rparr>) = (observe_outbound e a)\<lparr>sa_writeErrors := w\<rparr>"
  "observe_coa e (a\<lparr>sa_writeErrors := w\<rparr>) = (observe_coa e a)\<lparr>sa_writeErrors := w\<rparr>"
  "observe_disconnect e (a\<lparr>sa_writeErrors := w\<rparr>) = (observe_disconnect e a)\<lparr>sa_writeErrors := w\<rparr>"
  by (simp_all add: observe_seen_def observe_lifecycle_def observe_outbound_def observe_coa_def observe_disconnect_def Let_def)

lemma counters_of_observe: "counters_of (observe e a) = observe e (counters_of a)"
  by (simp add: counters_of_def observe_def observe_parts_errors Let_def)

lemma counters_of_update:
  "counters_of (as[i := recordWriteError e (as ! i)] ! j) = counters_of (as ! j)"
proof (cases "i = j \<and> i < length as")
  case False
  then have "as[i := recordWriteError e (as ! i)] ! j = as ! j"
    by (cases "i = j") (simp_all add: list_update_beyond)
  then show ?thesis by simp
qed simp

lemma flush_counters:
  "counters_of (co_aggregations (shard_flush env i c) ! j) = counters_of (co_aggregations c ! j)"
  "counters_of (co_aggregations (outcome_flush env c) ! j) = counters_of (co_aggregations c ! j)"
  by (simp_all add: shard_flush_def outcome_flush_def Let_def counters_of_update split: prod.split option.split)

lemmas flush_keeps = shard_flush_keeps outcome_flush_keeps flush_counters

lemma full_drop_keeps:
  "co_shardCh (full_drop_times t c) = co_shardCh c" "co_exited (full_drop_times t c) = co_exited c"
  "co_closed (full_drop_times t c) = co_closed c" "co_stopped (full_drop_times t c) = co_stopped c"
  "co_opts (full_drop_times t c) = co_opts c" "co_totalSubmitted (full_drop_times t c) = co_totalSubmitted c"
  "co_dropped (full_drop_times t c) = co_dropped c" "co_eventsDroppedFull (full_drop_times t c) = co_eventsDroppedFull c"
  "co_outcomesDroppedFull (full_drop_times t c) = co_outcomesDroppedFull c"
  "co_outcomeCh (full_drop_times t c) = co_outcomeCh c" "co_outcomeExited (full_drop_times t c) = co_outcomeExited c"
  "co_aggregations (full_drop_times t c) = co_aggregations c" "co_batch (full_drop_times t c) = co_batch c"
  "co_writers (full_drop_times t c) = co_writers c"
  by (simp_all add: full_drop_times_def)

lemmas step_defs = submit_check_def submit_send_def submit_count_def was_sent_def shard_closed_def outcome_closed_def submitOutcome_send_def recordFullDrop_events_def
  recordFullDrop_outcomes_def shard_receive_def shard_tick_def outcome_receive_def stop_store_def stop_close_def Let_def

lemma shape_step:
  assumes "shape_ok (cy_co s)" "cstep a s = Some s'"
  shows "shape_ok (cy_co s') \<and> length (co_shardCh (cy_co s')) = length (co_shardCh (cy_co s))"
proof (cases a)
  case (ShardRecv env i)
  obtain c where c: "shard_receive env i (cy_co s) = Some c" and s': "cy_co s' = c" using assms(2) ShardRecv by (auto split: if_splits)
  have "co_closed c = co_closed (cy_co s)" "co_stopped c = co_stopped (cy_co s)" "co_opts c = co_opts (cy_co s)"
    "length (co_shardCh c) = length (co_shardCh (cy_co s))" "length (co_exited c) = length (co_exited (cy_co s))"
    "length (co_aggregations c) = length (co_aggregations (cy_co s))" "length (co_batch c) = length (co_batch (cy_co s))"
    "length (co_writers c) = length (co_writers (cy_co s))" "co_outcomeExited c = co_outcomeExited (cy_co s)" "co_outcomeCh c = co_outcomeCh (cy_co s)"
    using c by (auto simp: shard_receive_def Let_def flush_keeps split: list.splits if_splits)
  then show ?thesis using assms(1) unfolding s' shape_ok_def outcome_closed_def by simp
next
  case (OutcomeRecv env)
  then show ?thesis using assms
    by (auto simp: shape_ok_def outcome_receive_def outcome_closed_def Let_def flush_keeps split: list.splits if_splits)
qed (use assms in \<open>auto simp: shape_ok_def step_defs flush_keeps full_drop_keeps split: list.splits if_splits prod.splits nat.splits\<close>)

lemma counts_step:
  assumes "counts_ok s" "\<not> cy_panic s" "cstep a s = Some s'"
  shows "counts_ok s'"
  using assms
  by (cases a) (auto simp: counts_ok_def step_defs flush_keeps full_drop_keeps split: list.splits if_splits prod.splits nat.splits)

lemma shard_of_eq:
  assumes "shape_ok c"
  shows "shard_of c e = unat (EvSubscriberID e) mod length (co_shardCh c)" "shard_of c e < length (co_shardCh c)"
proof -
  have n: "op_ShardCount (co_opts c) = int (length (co_shardCh c))" "0 < length (co_shardCh c)"
    using assms by (auto simp: shape_ok_def)
  show "shard_of c e = unat (EvSubscriberID e) mod length (co_shardCh c)"
    unfolding shard_of_def n(1) Let_def zmod_int [symmetric] by (simp only: nat_int of_nat_less_0_iff if_False)
  then show "shard_of c e < length (co_shardCh c)" using n(2) by simp
qed

lemma part_append: "part n i (es @ [e]) = part n i es @ (if unat (EvSubscriberID e) mod n = i then [e] else [])"
  by (simp add: part_def)

lemma shards_send:
  assumes "shape_ok (cy_co s)" "counts_ok s" "cstep (SendPending now) s = Some s'" "shard_ok s i" "i < length (co_shardCh (cy_co s))"
  shows "shard_ok s' i"
proof -
  obtain e rest where p: "cy_pending s = e # rest" using assms(3) by (auto split: list.splits)
  show ?thesis
  proof (cases "submit_send now e (cy_co s)")
    case None
    then show ?thesis using assms(3,4) p by (auto simp: shard_ok_def Let_def)
  next
    case (Some c)
    then have s': "s' = s\<lparr>cy_co := c, cy_pending := rest,
        cy_uncounted := cy_uncounted s + (if was_sent (cy_co s) c then 1 else 0),
        cy_accepted := cy_accepted s @ (if was_sent (cy_co s) c then [e] else [])\<rparr>"
      using assms(3) p by simp
    show ?thesis
      using Some assms(1,4,5) shard_of_eq [OF assms(1), of e]
      by (auto simp: s' shard_ok_def submit_send_def was_sent_def shard_closed_def Let_def recordFullDrop_events_def full_drop_keeps part_append nth_list_update
          split: if_splits)
  qed
qed

lemma shards_recv:
  assumes "shape_ok (cy_co s)" "cstep (ShardRecv env j) s = Some s'" "shard_ok s i" "i < length (co_shardCh (cy_co s))"
  shows "shard_ok s' i"
proof -
  obtain c where c: "shard_receive env j (cy_co s) = Some c" and s': "s' = s\<lparr>cy_co := c\<rparr>" and j: "j < length (co_shardCh (cy_co s))"
    using assms(2) by (auto split: if_splits)
  have ex: "\<not> co_exited (cy_co s) ! j" using c by (auto simp: shard_receive_def split: if_splits)
  show ?thesis
  proof (cases "co_shardCh (cy_co s) ! j")
    case Nil
    then show ?thesis
      using c ex assms(1,3,4) j
      by (auto simp: s' shard_ok_def shard_receive_def shard_closed_def Let_def flush_keeps shape_ok_def nth_list_update split: if_splits)
  next
    case (Cons e rest)
    let ?d = "cy_co s"
    have len: "length (co_aggregations ?d) = length (co_shardCh ?d)" using assms(1) by (simp add: shape_ok_def)
    have f: "co_shardCh c = (co_shardCh ?d)[j := rest]" "co_exited c = co_exited ?d" "co_closed c = co_closed ?d"
      "counters_of (co_aggregations c ! i) = (if i = j then observe e (counters_of (co_aggregations ?d ! j)) else counters_of (co_aggregations ?d ! i))"
      using c ex Cons j len
      by (auto simp: shard_receive_def Let_def flush_keeps nth_list_update counters_of_observe split: if_splits)
    obtain p where p: "part (length (co_shardCh ?d)) i (cy_accepted s) = p @ co_shardCh ?d ! i" "counters_of (co_aggregations ?d ! i) = observed p"
      using assms(3) by (auto simp: shard_ok_def Let_def)
    have "\<exists>p. part (length (co_shardCh ?d)) i (cy_accepted s) = p @ co_shardCh c ! i \<and> counters_of (co_aggregations c ! i) = observed p"
    proof (cases "i = j")
      case True
      then show ?thesis using p f Cons j by (intro exI [of _ "p @ [e]"]) (simp add: observed_snoc)
    qed (use p f in auto)
    then show ?thesis using assms(3) ex f by (cases "i = j") (auto simp: s' shard_ok_def shard_closed_def Let_def)
  qed
qed


lemma shards_step:
  assumes "csys_inv s" "cstep a s = Some s'" "i < length (co_shardCh (cy_co s))"
  shows "shard_ok s' i"
proof -
  have inv: "shape_ok (cy_co s)" "counts_ok s" "shard_ok s i" using assms(1,3) by (auto simp: csys_inv_def)
  have len: "i < length (co_exited (cy_co s))" using inv(1) assms(3) by (simp add: shape_ok_def)
  show ?thesis
  proof (cases a)
    case (SendPending now)
    then show ?thesis using shards_send inv assms by blast
  next
    case (ShardRecv env j)
    then show ?thesis using shards_recv inv assms by blast
  qed (use assms(2) inv(3) in \<open>auto simp: shard_ok_def step_defs flush_keeps full_drop_keeps split: list.splits if_splits prod.splits nat.splits\<close>)
qed

lemma csys_inv_step:
  assumes "csys_inv s" "\<not> cy_panic s" "cstep a s = Some s'"
  shows "csys_inv s'"
proof -
  have inv: "shape_ok (cy_co s)" "counts_ok s" using assms(1) by (auto simp: csys_inv_def)
  show ?thesis
    unfolding csys_inv_def
    using shape_step [OF inv(1) assms(3)] counts_step [OF inv(2) assms(2,3)] shards_step [OF assms(1,3)] by simp
qed

lemma csys_inv_init:
  assumes "0 < numCPU" "NewCollector numCPU mkdir now o0 = Inr c"
  shows "csys_inv (csys_init c)"
proof -
  have n: "0 < op_ShardCount (collector_defaults numCPU o0)"
    using assms(1) by (simp add: collector_defaults_def Let_def)
  show ?thesis
    using assms n
    by (auto simp: csys_inv_def csys_init_def NewCollector_def Let_def shape_ok_def counts_ok_def shard_ok_def
        part_def counters_of_def observed_Nil newShardAggregation_def split: if_splits option.splits)
qed

lemma reachable_inv: "reachable s \<Longrightarrow> csys_inv s"
  by (induction rule: reachable.induct) (blast intro: csys_inv_init csys_inv_step)+

section \<open>The summary is the accepted stream's\<close>

lemma fold_merge_errors:
  "fold merge_activated kvs (g\<lparr>mg_writeErrs := w\<rparr>) = (fold merge_activated kvs g)\<lparr>mg_writeErrs := w\<rparr>"
  "fold merge_established kvs (g\<lparr>mg_writeErrs := w\<rparr>) = (fold merge_established kvs g)\<lparr>mg_writeErrs := w\<rparr>"
  "fold merge_terminal kts (g\<lparr>mg_writeErrs := w\<rparr>) = (fold merge_terminal kts g)\<lparr>mg_writeErrs := w\<rparr>"
  "fold merge_auth kvs (g\<lparr>mg_writeErrs := w\<rparr>) = (fold merge_auth kvs g)\<lparr>mg_writeErrs := w\<rparr>"
  "fold merge_acct kvs (g\<lparr>mg_writeErrs := w\<rparr>) = (fold merge_acct kvs g)\<lparr>mg_writeErrs := w\<rparr>"
  "fold merge_seen kus (g\<lparr>mg_writeErrs := w\<rparr>) = (fold merge_seen kus g)\<lparr>mg_writeErrs := w\<rparr>"
  by (rule fold_proj [where p = "\<lambda>g. g\<lparr>mg_writeErrs := w\<rparr>", symmetric], simp add: merge_step_defs split: prod.split)+

lemma merge_shard_errors:
  "merge_shard a (g\<lparr>mg_writeErrs := w\<rparr>) = (merge_shard (counters_of a) g)\<lparr>mg_writeErrs := w @ sa_writeErrors a\<rparr>"
proof -
  have "merge_counters a (g\<lparr>mg_writeErrs := w\<rparr>) = (merge_counters (counters_of a) g)\<lparr>mg_writeErrs := w @ sa_writeErrors a\<rparr>"
    by (simp add: merge_counters_def counters_of_def)
  then show ?thesis by (simp add: merge_shard_def fold_merge_errors counters_of_def)
qed

lemma merged_errors:
  "merged aggs = (merged (map counters_of aggs))\<lparr>mg_writeErrs := concat (map sa_writeErrors aggs)\<rparr>"
proof -
  have "fold merge_shard aggs (g\<lparr>mg_writeErrs := w\<rparr>) =
      (fold merge_shard (map counters_of aggs) g)\<lparr>mg_writeErrs := w @ concat (map sa_writeErrors aggs)\<rparr>" for g w
    by (induction aggs arbitrary: g w) (simp_all add: merge_shard_errors)
  from this [where g = merge_init and w = "[]"] show ?thesis by (simp add: merged_def merge_init_def)
qed

lemma summarize_errors:
  "summarize ovf opts path mi d (g\<lparr>mg_writeErrs := w\<rparr>) =
    (summarize ovf opts path mi d g)\<lparr>su_ServerHealth := \<lparr>sh_UnresponsivePeriods = [], sh_ErrorResponses = int (length w)\<rparr>\<rparr>"
  by (simp add: summarize_def Let_def split: prod.split)

definition drained :: "csys \<Rightarrow> bool" where
  "drained s \<longleftrightarrow> list_all (\<lambda>b. b) (co_exited (cy_co s)) \<and> co_outcomeExited (cy_co s)"

lemma drained_counters:
  assumes "csys_inv s" "drained s"
  shows "map counters_of (co_aggregations (cy_co s)) = shards (length (co_shardCh (cy_co s))) (cy_accepted s)"
proof (rule nth_equalityI)
  have shape: "shape_ok (cy_co s)" using assms(1) by (simp add: csys_inv_def)
  then show len: "length (map counters_of (co_aggregations (cy_co s))) = length (shards (length (co_shardCh (cy_co s))) (cy_accepted s))"
    by (simp add: shape_ok_def shards_def)
  fix i assume "i < length (map counters_of (co_aggregations (cy_co s)))"
  then have i: "i < length (co_shardCh (cy_co s))" "i < length (co_aggregations (cy_co s))" "i < length (co_exited (cy_co s))"
    using shape by (simp_all add: shape_ok_def)
  then have "shard_ok s i" "co_exited (cy_co s) ! i" using assms by (simp_all add: csys_inv_def drained_def list_all_length)
  then show "map counters_of (co_aggregations (cy_co s)) ! i = shards (length (co_shardCh (cy_co s))) (cy_accepted s) ! i"
    using i by (auto simp: shard_ok_def Let_def shards_def)
qed

text \<open>C3: once a stopped collector's goroutines have exited, whatever the interleaving, the
  aggregated summary is the reference summary of exactly the events its channels accepted, in
  the order they were submitted, with the number of failed flushes as the error count; the
  number of shards and the order of the shards' maps do not show.\<close>

theorem aggregate_exact:
  assumes "reachable s" "co_stopped (cy_co s)" "drained s"
  shows "Aggregate ovf now opts0 (cy_co s) =
    (let opts = aggregate_defaults (cy_co s) now opts0; started = the (ao_StartedAt opts) in
     Inr ((stream_summary ovf opts ''subscribers.parquet'' (measurementIntegrity (cy_co s) started)
       (milliseconds (time_sub (the (ao_FinishedAt opts)) started)) (cy_accepted s))
         \<lparr>su_ServerHealth := \<lparr>sh_UnresponsivePeriods = [],
            sh_ErrorResponses = int (length (concat (map sa_writeErrors (co_aggregations (cy_co s)))))\<rparr>\<rparr>))"
proof -
  have inv: "csys_inv s" using assms(1) by (rule reachable_inv)
  then have n: "0 < length (co_shardCh (cy_co s))" by (simp add: csys_inv_def shape_ok_def)
  show ?thesis
    using assms(2) unfolding Aggregate_def merged_errors [of "co_aggregations (cy_co s)"] summarize_errors
      drained_counters [OF inv assms(3)] summarize_stream [OF n] SubscribersPath_def
    by (simp add: Let_def)
qed

section \<open>Submissions are conserved\<close>

text \<open>C14: at every moment each call of Submit and SubmitOutcome is accounted for once: it was
  refused after the stop, is about to send, was dropped on a full channel, was accepted, or hit
  a closed channel; the accepted events number the submitted counter and the sends it has yet to
  count; and each shard's accepted events are, in order, those its counters have observed
  followed by those in its channel.\<close>

theorem submissions_conserved:
  assumes "reachable s"
  shows "int (cy_offered s) = co_dropped (cy_co s) + int (length (cy_pending s) + length (cy_pendingOutcomes s)) +
      co_eventsDroppedFull (cy_co s) + co_outcomesDroppedFull (cy_co s) + co_totalSubmitted (cy_co s) + int (cy_uncounted s) +
      int (length (cy_acceptedOutcomes s)) + (if cy_panic s then 1 else 0) \<and>
    co_totalSubmitted (cy_co s) + int (cy_uncounted s) = int (length (cy_accepted s)) \<and>
    (\<forall>i < length (co_shardCh (cy_co s)). \<exists>seen. counters_of (co_aggregations (cy_co s) ! i) = observed seen \<and>
      seen @ co_shardCh (cy_co s) ! i = filter (\<lambda>e. unat (EvSubscriberID e) mod length (co_shardCh (cy_co s)) = i) (cy_accepted s))"
  using reachable_inv [OF assms] by (fastforce simp: csys_inv_def counts_ok_def shard_ok_def Let_def part_def)

section \<open>Submitting while the collector stops\<close>

fun run_steps :: "cact list \<Rightarrow> csys \<Rightarrow> csys option" where
  "run_steps [] s = Some s"
| "run_steps (a # as) s = (if cy_panic s then None else case cstep a s of None \<Rightarrow> None | Some s' \<Rightarrow> run_steps as s')"

lemma run_steps_reachable: "run_steps as s = Some s' \<Longrightarrow> reachable s \<Longrightarrow> reachable s'"
  by (induction as arbitrary: s) (auto split: if_splits option.splits intro: reach_step)

lemma run_steps_append: "run_steps (as @ bs) s = (case run_steps as s of None \<Rightarrow> None | Some s' \<Rightarrow> run_steps bs s')"
  by (induction as arbitrary: s) (auto split: option.split)

text \<open>Closing the first channels, one after the other.\<close>

lemma close_steps:
  "co_stopped (cy_co s) \<Longrightarrow> \<not> cy_panic s \<Longrightarrow> co_closed (cy_co s) + n \<le> Suc (length (co_shardCh (cy_co s))) \<Longrightarrow>
   run_steps (replicate n StopClose) s = Some (s\<lparr>cy_co := (cy_co s)\<lparr>co_closed := co_closed (cy_co s) + n\<rparr>\<rparr>)"
  by (induction n arbitrary: s) (simp_all add: outcome_closed_def stop_close_def)

text \<open>C33: a submission that runs without interruption never panics, before, during or after the
  stop; one that has passed the check panics exactly when the stop has closed the channel it sends on; and such an
  interleaving exists in every reachable running state.\<close>

theorem submit_panics_only_across_stop:
  assumes "reachable s" "\<not> cy_panic s"
  shows "Submit now e (cy_co s) \<noteq> None \<and> SubmitOutcome now oc (cy_co s) \<noteq> None \<and>
    (\<forall>s' e' rest. cy_pending s = e' # rest \<and> cstep (SendPending now) s = Some s' \<longrightarrow>
      (cy_panic s' \<longleftrightarrow> shard_closed (shard_of (cy_co s) e') (cy_co s))) \<and>
    (\<not> co_stopped (cy_co s) \<and> cy_pending s = [] \<longrightarrow>
      (\<exists>s'. run_steps ([BeginSubmit e, StopStore] @ replicate (Suc (shard_of (cy_co s) e)) StopClose @ [SendPending now]) s = Some s' \<and>
        cy_panic s'))"
proof -
  have shape: "shape_ok (cy_co s)" using reachable_inv [OF assms(1)] by (simp add: csys_inv_def)
  then have closed: "0 < co_closed (cy_co s) \<longrightarrow> co_stopped (cy_co s)" by (simp add: shape_ok_def)
  then have "Submit now e (cy_co s) \<noteq> None" "SubmitOutcome now oc (cy_co s) \<noteq> None"
    by (auto simp: Submit_def SubmitOutcome_def step_defs)
  moreover have "\<forall>s' e' rest. cy_pending s = e' # rest \<and> cstep (SendPending now) s = Some s' \<longrightarrow>
      (cy_panic s' \<longleftrightarrow> shard_closed (shard_of (cy_co s) e') (cy_co s))"
    using assms(2) by (auto simp: submit_send_def Let_def split: option.splits if_splits)
  moreover have "\<exists>s'. run_steps ([BeginSubmit e, StopStore] @ replicate (Suc (shard_of (cy_co s) e)) StopClose @ [SendPending now]) s = Some s' \<and>
      cy_panic s'" if run: "\<not> co_stopped (cy_co s)" "cy_pending s = []"
  proof -
    define s1 where "s1 = s\<lparr>cy_co := (cy_co s)\<lparr>co_stopped := True\<rparr>, cy_pending := [e], cy_offered := cy_offered s + 1\<rparr>"
    have one: "run_steps [BeginSubmit e, StopStore] s = Some s1"
      using run assms(2) by (simp add: s1_def submit_check_def stop_store_def)
    define k where "k = Suc (shard_of (cy_co s) e)"
    have k: "k \<le> length (co_shardCh (cy_co s))" using shard_of_eq(2) [OF shape, of e] by (simp add: k_def)
    have "run_steps (replicate k StopClose) s1 = Some (s1\<lparr>cy_co := (cy_co s1)\<lparr>co_closed := k\<rparr>\<rparr>)"
      using close_steps [of s1 k] run closed k assms(2) by (auto simp: s1_def)
    moreover have "shard_of ((cy_co s1)\<lparr>co_closed := k\<rparr>) e = shard_of (cy_co s) e" by (simp add: shard_of_def s1_def)
    ultimately show ?thesis unfolding k_def [symmetric] run_steps_append one
      using assms(2) by (simp add: submit_send_def Let_def shard_closed_def k_def s1_def)
  qed
  ultimately show ?thesis by blast
qed

section \<open>A run of the system\<close>

definition demo_opts :: opts where
  "demo_opts = \<lparr>op_Dir = ''out'', op_ShardCount = 2, op_PerShardBuffer = 1, op_FlushInterval = 1, op_BatchSize = 2,
     op_RotateBytes = 0, op_OutcomeBuffer = 1\<rparr>"

definition demo_event :: "u32 \<Rightarrow> event" where
  "demo_event k = NewSubscriberActivated \<lparr>st_wall = 0, st_mono = 0, st_now = 0\<rparr> k 5 ''idle''"

definition demo_write :: write_env where
  "demo_write = \<lparr>we_open = (None, None), we_reopen = (None, None), we_close = (None, None), we_write = (1, None), we_size = 100\<rparr>"

definition demo_acts :: "cact list" where
  "demo_acts = [BeginSubmit (demo_event 1), SendPending 7, BeginSubmit (demo_event 3), SendPending 8, CountSubmit, StopStore, StopClose, StopClose, StopClose]"

definition demo_stop :: "cact list" where
  "demo_stop = [ShardRecv demo_write 1, ShardRecv demo_write 1, ShardRecv demo_write 0, OutcomeRecv demo_write]"

definition demo_co :: collector where
  "demo_co = projr (NewCollector 1 None 0 demo_opts)"

definition demo_closed :: csys where
  "demo_closed = the (run_steps demo_acts (csys_init demo_co))"

definition demo_drained :: csys where
  "demo_drained = the (run_steps demo_stop demo_closed)"

lemma demo_runs:
  "\<not> Option.is_none (run_steps demo_acts (csys_init demo_co))"
  "\<not> Option.is_none (run_steps demo_stop demo_closed)"
  by code_simp+

lemma demo_facts:
  "outcome_closed (cy_co demo_closed)" "\<not> cy_panic demo_closed" "length (cy_accepted demo_closed) = 1"
  "co_eventsDroppedFull (cy_co demo_closed) = 1"
  "drained demo_drained" "co_stopped (cy_co demo_drained)"
  by code_simp+

lemma demo_reachable: "reachable (csys_init demo_co)" "reachable demo_closed" "reachable demo_drained"
proof -
  have "NewCollector 1 None 0 demo_opts = Inr demo_co"
    by (simp add: demo_co_def NewCollector_def demo_opts_def Let_def)
  then show r: "reachable (csys_init demo_co)" by (intro reach_init [of 1 None 0 demo_opts]) simp_all
  show r': "reachable demo_closed"
    using run_steps_reachable [OF _ r, of demo_acts demo_closed] demo_runs(1)
    by (cases "run_steps demo_acts (csys_init demo_co)") (simp_all add: demo_closed_def)
  show "reachable demo_drained"
    using run_steps_reachable [OF _ r', of demo_stop demo_drained] demo_runs(2)
    by (cases "run_steps demo_stop demo_closed") (simp_all add: demo_drained_def)
qed


definition demo_aggregate :: "int AggregateOpts" where
  "demo_aggregate = \<lparr>ao_RunID = ''r'', ao_ConfigHash = [], ao_ScenarioType = ''uniform'', ao_StartedAt = None,
     ao_FinishedAt = None, ao_Outcome = [], ao_Thresholds = [], ao_CurveBucketMs = 0\<rparr>"

lemma aggregate_exact_witness:
  "\<exists>doc. Aggregate 0 9000000 demo_aggregate (cy_co demo_drained) = Inr doc \<and>
     ss_Total (su_Subscribers doc) = 1 \<and> ss_StillInFlightAtEnd (su_Subscribers doc) = 1 \<and> su_DurationMs doc = 9"
proof -
  have c: "length (row_keys (cy_accepted demo_drained)) = 1"
    "count_of (\<lambda>k. about is_terminal k (cy_accepted demo_drained) = []) (row_keys (cy_accepted demo_drained)) = 1"
    "co_startedAt (cy_co demo_drained) = 0"
    by code_simp+
  show ?thesis
    using aggregate_exact [OF demo_reachable(3) demo_facts(6,5), of 0 9000000 demo_aggregate]
    by (simp add: Let_def stream_summary_def c aggregate_defaults_def demo_aggregate_def time_sub_def milliseconds_def tdiv_def)
qed

lemma submissions_conserved_witness:
  "co_totalSubmitted (cy_co demo_closed) = 1 \<and> int (cy_offered demo_closed) = 2"
proof -
  have c: "co_dropped (cy_co demo_closed) = 0" "cy_pending demo_closed = []" "cy_pendingOutcomes demo_closed = []" "cy_uncounted demo_closed = 0"
    "co_outcomesDroppedFull (cy_co demo_closed) = 0" "cy_acceptedOutcomes demo_closed = []"
    by code_simp+
  show ?thesis
    using submissions_conserved [OF demo_reachable(2)] demo_facts(2,3,4) c by simp
qed

lemma submit_panics_only_across_stop_witness:
  "\<exists>s'. run_steps [BeginSubmit (demo_event 2), StopStore, StopClose, SendPending 7] (csys_init demo_co) = Some s' \<and> cy_panic s'"
proof -
  have "\<not> cy_panic (csys_init demo_co)" "\<not> co_stopped (cy_co (csys_init demo_co))" "cy_pending (csys_init demo_co) = []"
    "shard_of (cy_co (csys_init demo_co)) (demo_event 2) = 0"
    by code_simp+
  then show ?thesis
    using submit_panics_only_across_stop [OF demo_reachable(1), of 7 "demo_event 2" "undefined"] by auto
qed

section \<open>The trust label\<close>

lemma one_percent: "fround (1 / 100) = Fin (5764607523034235 / 2 ^ 59)"
  using fround_pos [of "1 / 100"] round_mag_fraction [of "- 7" "1 / 100" 5764607523034235]
  by (simp add: power_int_minus)

lemma ratio_rounds:
  assumes "0 \<le> d" "d \<le> n" "0 < n" "n \<le> 2 ^ 50"
  shows "fle (fround (1 / 100)) (fdiv (f_of_int d) (f_of_int n)) \<longleftrightarrow> n \<le> 100 * d"
proof -
  define x :: rat where "x = of_int d / of_int n"
  have N: "0 < (of_int n :: rat)" using assms by simp
  have q: "fdiv (f_of_int d) (f_of_int n) = fround x"
    using assms by (simp add: f_of_int_small x_def)
  show ?thesis
  proof
    assume "n \<le> 100 * d"
    then have "(of_int n :: rat) \<le> of_int (100 * d)" by (simp only: of_int_le_iff)
    then have "1 / 100 \<le> x" using N by (simp add: x_def field_simps)
    then show "fle (fround (1 / 100)) (fdiv (f_of_int d) (f_of_int n))" unfolding q by (rule fround_mono)
  next
    assume le: "fle (fround (1 / 100)) (fdiv (f_of_int d) (f_of_int n))"
    show "n \<le> 100 * d"
    proof (rule ccontr)
      assume "\<not> n \<le> 100 * d"
      then have "100 * d + 1 \<le> n" by simp
      then have "(of_int (100 * d + 1) :: rat) \<le> of_int n" by (simp only: of_int_le_iff)
      then have "(100 * of_int d + 1) / of_int n \<le> (1 :: rat)" using N by simp
      then have x1: "100 * x + 1 / of_int n \<le> 1" by (simp add: x_def add_divide_distrib)
      have "(of_int n :: rat) \<le> of_int (2 ^ 50)" using assms(4) by (simp only: of_int_le_iff)
      then have n50: "1 / 2 ^ 50 \<le> 1 / (of_int n :: rat)" using N by (intro divide_left_mono) simp_all
      show False
      proof (cases "d = 0")
        case True
        then have "fround x = Fin 0" by (simp add: x_def fround_def)
        then show False using le unfolding q one_percent by (simp add: fle_def)
      next
        case False
        then have x0: "0 < x" using assms by (simp add: x_def)
        have "x < 1 / 64" using x1 n50 by simp
        then have "(2 :: rat) powi ilog2 x < 2 powi (- 6)" using ilog2_bounds(1) [OF x0] by (simp add: power_int_minus)
        then have "ilog2 x \<le> - 7" by (simp only: powi_less_iff)
        then have "ulp_exp x \<le> - 59" by (simp add: ulp_exp_def)
        then have "(2 :: rat) powi ulp_exp x \<le> 2 powi (- 59)" by (simp only: powi_le_iff)
        then have "round_mag x - x \<le> 1 / 2 ^ 60"
          using abs_le_D1 [OF round_mag_error [OF x0]] by (simp add: power_int_minus)
        then have "round_mag x < 5764607523034235 / 2 ^ 59" using x1 n50 by simp
        moreover have "fround x = Fin (round_mag x)" using \<open>x < 1 / 64\<close> by (intro fround_pos x0) simp
        ultimately show False using le unfolding q one_percent by (auto simp: fle_def)
      qed
    qed
  qed
qed

text \<open>C32: the trust label of the summary is high exactly when nothing was dropped under
  back-pressure, and otherwise low exactly when at least one percent of the events that were not
  refused after the stop were dropped, with the floating-point rate never misjudging the
  threshold for up to 2^50 events; the counts it reports are the collector's.\<close>

theorem trust_exact:
  fixes startedAt :: int
  assumes "0 \<le> co_eventsDroppedFull c" "0 \<le> co_totalSubmitted c" "0 \<le> co_outcomesDroppedFull c"
    "co_totalSubmitted c + co_eventsDroppedFull c \<le> 2 ^ 50"
  defines "mi \<equiv> measurementIntegrity c startedAt"
  shows "mi_Trust mi =
      (if co_eventsDroppedFull c = 0 \<and> co_outcomesDroppedFull c = 0 then ''high''
       else if 0 < co_eventsDroppedFull c \<and> co_totalSubmitted c + co_eventsDroppedFull c \<le> 100 * co_eventsDroppedFull c then ''low''
       else ''medium'') \<and>
    mi_EventsSubmitted mi = co_totalSubmitted c \<and> mi_EventsDroppedBackPressure mi = co_eventsDroppedFull c \<and>
    mi_OutcomesDroppedBackPressure mi = co_outcomesDroppedFull c \<and> mi_EventsDroppedAfterStop mi = co_dropped c \<and>
    (mi_FirstDropOffsetMs mi = None \<longleftrightarrow> co_firstFullDropNs c \<le> 0)"
proof -
  have zero: "\<not> fle (fround (1 / 100)) (Fin 0)" unfolding one_percent by (simp add: fle_def)
  have "fle (fround (1 / 100)) (drop_rate (co_totalSubmitted c) (co_eventsDroppedFull c)) \<longleftrightarrow>
      0 < co_eventsDroppedFull c \<and> co_totalSubmitted c + co_eventsDroppedFull c \<le> 100 * co_eventsDroppedFull c"
  proof (cases "co_totalSubmitted c + co_eventsDroppedFull c > 0")
    case True
    then show ?thesis
      using ratio_rounds [of "co_eventsDroppedFull c" "co_totalSubmitted c + co_eventsDroppedFull c"] assms
      by (auto simp: drop_rate_def Let_def)
  next
    case False
    then have "co_eventsDroppedFull c = 0" "drop_rate (co_totalSubmitted c) (co_eventsDroppedFull c) = Fin 0"
      using assms by (auto simp: drop_rate_def)
    then show ?thesis using zero by simp
  qed
  then show ?thesis
    using assms by (auto simp: measurementIntegrity_def Let_def)
qed

lemma trust_exact_witness:
  "mi_Trust (measurementIntegrity (cy_co demo_closed) 0) = ''low''"
proof -
  have "co_totalSubmitted (cy_co demo_closed) = 1" "co_outcomesDroppedFull (cy_co demo_closed) = 0"
    by code_simp+
  then show ?thesis
    using trust_exact [of "cy_co demo_closed" 0] demo_facts(4) by simp
qed

end
