(* ===== verification/Collector_Drain.thy ===== *)
theory Collector_Drain
  imports Collector_System
begin

text \<open>
  Draining a stopped collector. Every flush appends to the log of the batches handed to a writer; the
  invariant ties the writers of the system to such logs, and the logs to the events and outcomes
  accepted. On it rests that a drained collector has written what it accepted.
\<close>

section \<open>Logs of batches\<close>

text \<open>A writer after a log of batches, and the messages of the writes that failed.\<close>

fun write_log :: "('e \<Rightarrow> 'r list \<Rightarrow> 'w \<Rightarrow> 'w \<times> goerr option) \<Rightarrow> ('e \<times> 'r list) list \<Rightarrow> 'w \<Rightarrow> 'w \<times> string list" where
  "write_log f [] w = (w, [])"
| "write_log f ((env, rows) # bs) w =
     (case f env rows w of (w1, err) \<Rightarrow> case write_log f bs w1 of (w2, ms) \<Rightarrow>
        (w2, (case err of None \<Rightarrow> ms | Some e \<Rightarrow> err_msg e # ms)))"

lemma write_log_snoc:
  "write_log f bs w = (w1, ms) \<Longrightarrow> f env rows w1 = (w2, err) \<Longrightarrow>
   write_log f (bs @ [(env, rows)]) w = (w2, ms @ (case err of None \<Rightarrow> [] | Some e \<Rightarrow> [err_msg e]))"
  by (induction bs arbitrary: w ms) (auto split: prod.splits option.splits)

text \<open>Batches that an encoder takes whole, when it reports no error.\<close>

definition whole :: "(write_env \<times> 'r list) list \<Rightarrow> bool" where
  "whole bs \<longleftrightarrow> list_all (\<lambda>(env, rows). fst (we_write env) = length rows) bs"

lemma whole_events:
  "write_log pw_writeBatch bs w = (w', []) \<Longrightarrow> whole bs \<Longrightarrow> write_all bs w = Some w'"
  by (induction bs arbitrary: w) (auto simp: whole_def split: prod.splits option.splits)

lemma whole_outcomes:
  "write_log ow_writeBatch bs w = (w', []) \<Longrightarrow> whole bs \<Longrightarrow> ow_file w' = ow_file w @ concat (map snd bs)"
proof (induction bs arbitrary: w)
  case (Cons b bs)
  obtain env rows where b: "b = (env, rows)" by fastforce
  obtain w1 where w1: "ow_writeBatch env rows w = (w1, None)" "write_log ow_writeBatch bs w1 = (w', [])"
    using Cons.prems(1) by (auto simp: b split: prod.splits option.splits)
  have n: "fst (we_write env) = length rows" "whole bs" using Cons.prems(2) by (auto simp: b whole_def)
  have "ow_file w1 = ow_file w @ rows"
    using w1(1) n(1) by (auto simp: ow_writeBatch_def Let_def split: if_splits prod.splits option.splits)
  then show ?case using Cons.IH [OF w1(2) n(2)] by (simp add: b)
qed simp

section \<open>The writers of the system\<close>

abbreviation (input) shard_writer :: "collector \<Rightarrow> nat \<Rightarrow> parquetWriter" where
  "shard_writer c i \<equiv> newParquetWriter (op_Dir (co_opts c)) i (op_RotateBytes (co_opts c))"

definition event_log :: "collector \<Rightarrow> nat \<Rightarrow> event list \<Rightarrow> bool" where
  "event_log c i es \<longleftrightarrow> (\<exists>bs ms. write_log pw_writeBatch bs (shard_writer c i) = (co_writers c ! i, ms) \<and>
     set ms \<subseteq> set (sa_writeErrors (co_aggregations c ! i)) \<and> es = concat (map snd bs) @ co_batch c ! i)"

definition outcome_log :: "collector \<Rightarrow> outcome list \<Rightarrow> bool" where
  "outcome_log c os \<longleftrightarrow> (\<exists>bs ms. write_log ow_writeBatch bs (newOutcomeWriter (op_Dir (co_opts c))) = (co_outcomeWrite c, ms) \<and>
     set ms \<subseteq> set (sa_writeErrors (co_aggregations c ! 0)) \<and> co_outcomes c = concat (map snd bs) \<and>
     os = co_outcomes c @ co_outcomeBatch c)"

lemma observe_errors [simp]: "sa_writeErrors (observe e a) = sa_writeErrors a"
  by (simp add: observe_def observe_seen_def observe_lifecycle_def observe_outbound_def observe_coa_def observe_disconnect_def Let_def)

lemma errors_grow: "set (sa_writeErrors (as ! j)) \<subseteq> set (sa_writeErrors (as[i := recordWriteError e (as ! i)] ! j))"
proof (cases "i = j \<and> i < length as")
  case False
  then have "as[i := recordWriteError e (as ! i)] ! j = as ! j" by (cases "i = j") (simp_all add: list_update_beyond)
  then show ?thesis by simp
qed (auto simp: recordWriteError_def)

lemma logs_mono:
  "event_log c j es \<Longrightarrow> co_opts c' = co_opts c \<Longrightarrow> co_writers c' ! j = co_writers c ! j \<Longrightarrow> co_batch c' ! j = co_batch c ! j \<Longrightarrow>
    set (sa_writeErrors (co_aggregations c ! j)) \<subseteq> set (sa_writeErrors (co_aggregations c' ! j)) \<Longrightarrow> event_log c' j es"
  "outcome_log c os \<Longrightarrow> co_opts c' = co_opts c \<Longrightarrow> co_outcomeWrite c' = co_outcomeWrite c \<Longrightarrow> co_outcomeBatch c' = co_outcomeBatch c \<Longrightarrow>
    co_outcomes c' = co_outcomes c \<Longrightarrow>
    set (sa_writeErrors (co_aggregations c ! 0)) \<subseteq> set (sa_writeErrors (co_aggregations c' ! 0)) \<Longrightarrow> outcome_log c' os"
  unfolding event_log_def outcome_log_def by (metis order_trans)+

lemma shard_flush_logs:
  assumes "i < length (co_writers c)" "length (co_batch c) = length (co_writers c)" "length (co_aggregations c) = length (co_writers c)"
  shows "event_log c j es \<Longrightarrow> event_log (shard_flush env i c) j es" "outcome_log c os \<Longrightarrow> outcome_log (shard_flush env i c) os"
    "co_batch (shard_flush env i c) ! j = (if j = i then [] else co_batch c ! j)"
    "co_outcomeBatch (shard_flush env i c) = co_outcomeBatch c"
proof -
  obtain w err where w: "pw_writeBatch env (co_batch c ! i) (co_writers c ! i) = (w, err)" by fastforce
  define as where "as = (case err of None \<Rightarrow> co_aggregations c | Some e \<Rightarrow> (co_aggregations c)[i := recordWriteError e (co_aggregations c ! i)])"
  have f: "co_writers (shard_flush env i c) = (if co_batch c ! i = [] then co_writers c else (co_writers c)[i := w])"
    "co_aggregations (shard_flush env i c) = (if co_batch c ! i = [] then co_aggregations c else as)"
    "co_batch (shard_flush env i c) = (if co_batch c ! i = [] then co_batch c else (co_batch c)[i := []])"
    "co_outcomeWrite (shard_flush env i c) = co_outcomeWrite c" "co_outcomes (shard_flush env i c) = co_outcomes c"
    "co_outcomeBatch (shard_flush env i c) = co_outcomeBatch c"
    by (auto simp: shard_flush_def w Let_def as_def split: option.split)
  have grow: "set (sa_writeErrors (co_aggregations c ! k)) \<subseteq> set (sa_writeErrors (as ! k))" for k
    using errors_grow by (auto simp: as_def split: option.split)
  show "co_batch (shard_flush env i c) ! j = (if j = i then [] else co_batch c ! j)" using assms by (auto simp: f)
  show "co_outcomeBatch (shard_flush env i c) = co_outcomeBatch c" by (rule f)
  show "outcome_log (shard_flush env i c) os" if "outcome_log c os"
    using grow [of 0] by (intro logs_mono(2) [OF that]) (simp_all add: f flush_keeps)
  show "event_log (shard_flush env i c) j es" if l: "event_log c j es"
  proof (cases "co_batch c ! i = [] \<or> j \<noteq> i")
    case True
    then show ?thesis using grow [of j] by (intro logs_mono(1) [OF l]) (auto simp: f flush_keeps)
  next
    case False
    from l obtain bs ms where bs: "write_log pw_writeBatch bs (shard_writer c j) = (co_writers c ! j, ms)"
      "set ms \<subseteq> set (sa_writeErrors (co_aggregations c ! j))" "es = concat (map snd bs) @ co_batch c ! j"
      by (auto simp: event_log_def)
    have w': "pw_writeBatch env (co_batch c ! i) (co_writers c ! j) = (w, err)" using w False by simp
    have "set (ms @ (case err of None \<Rightarrow> [] | Some e \<Rightarrow> [err_msg e])) \<subseteq> set (sa_writeErrors (as ! j))"
      using bs(2) grow [of j] False assms by (auto simp: as_def recordWriteError_def split: option.splits)
    then show ?thesis
      using write_log_snoc [OF bs(1) w'] bs(3) False assms unfolding event_log_def f shard_flush_keeps
      by (intro exI [of _ "bs @ [(env, co_batch c ! i)]"] exI [of _ "ms @ (case err of None \<Rightarrow> [] | Some e \<Rightarrow> [err_msg e])"]) simp
  qed
qed

lemma outcome_flush_logs:
  shows "0 < length (co_aggregations c) \<Longrightarrow> outcome_log c os \<Longrightarrow> outcome_log (outcome_flush env c) os"
    "event_log c j es \<Longrightarrow> event_log (outcome_flush env c) j es"
    "co_outcomeBatch (outcome_flush env c) = []" "co_batch (outcome_flush env c) = co_batch c"
proof -
  obtain w err where w: "ow_writeBatch env (co_outcomeBatch c) (co_outcomeWrite c) = (w, err)" by fastforce
  define as where "as = (case err of None \<Rightarrow> co_aggregations c | Some e \<Rightarrow> (co_aggregations c)[0 := recordWriteError e (co_aggregations c ! 0)])"
  have f: "co_outcomeWrite (outcome_flush env c) = (if co_outcomeBatch c = [] then co_outcomeWrite c else w)"
    "co_aggregations (outcome_flush env c) = (if co_outcomeBatch c = [] then co_aggregations c else as)"
    "co_outcomes (outcome_flush env c) = co_outcomes c @ co_outcomeBatch c" "co_outcomeBatch (outcome_flush env c) = []"
    "co_writers (outcome_flush env c) = co_writers c" "co_batch (outcome_flush env c) = co_batch c"
    by (auto simp: outcome_flush_def w Let_def as_def split: option.split)
  have grow: "set (sa_writeErrors (co_aggregations c ! k)) \<subseteq> set (sa_writeErrors (as ! k))" for k
    using errors_grow by (auto simp: as_def split: option.split)
  show "co_outcomeBatch (outcome_flush env c) = []" "co_batch (outcome_flush env c) = co_batch c" by (rule f)+
  show "event_log (outcome_flush env c) j es" if "event_log c j es"
    using grow [of j] by (intro logs_mono(1) [OF that]) (simp_all add: f flush_keeps)
  show "outcome_log (outcome_flush env c) os" if len: "0 < length (co_aggregations c)" and l: "outcome_log c os"
  proof (cases "co_outcomeBatch c = []")
    case True
    then show ?thesis by (intro logs_mono(2) [OF l]) (simp_all add: f flush_keeps)
  next
    case False
    from l obtain bs ms where bs: "write_log ow_writeBatch bs (newOutcomeWriter (op_Dir (co_opts c))) = (co_outcomeWrite c, ms)"
      "set ms \<subseteq> set (sa_writeErrors (co_aggregations c ! 0))" "co_outcomes c = concat (map snd bs)" "os = co_outcomes c @ co_outcomeBatch c"
      by (auto simp: outcome_log_def)
    have "set (ms @ (case err of None \<Rightarrow> [] | Some e \<Rightarrow> [err_msg e])) \<subseteq> set (sa_writeErrors (as ! 0))"
      using bs(2) grow [of 0] len by (auto simp: as_def recordWriteError_def split: option.splits)
    then show ?thesis
      using write_log_snoc [OF bs(1) w] bs(3,4) False unfolding outcome_log_def f outcome_flush_keeps
      by (intro exI [of _ "bs @ [(env, co_outcomeBatch c)]"] exI [of _ "ms @ (case err of None \<Rightarrow> [] | Some e \<Rightarrow> [err_msg e])"]) simp
  qed
qed

text \<open>What is accepted is, in order, in the log, in the batch, or in the channel; a goroutine that has exited left nothing in its batch.\<close>

definition shard_logged :: "csys \<Rightarrow> nat \<Rightarrow> bool" where
  "shard_logged s i \<longleftrightarrow> (let c = cy_co s in
     (\<exists>es. event_log c i es \<and> part (length (co_shardCh c)) i (cy_accepted s) = es @ co_shardCh c ! i) \<and>
     (co_exited c ! i \<longrightarrow> co_batch c ! i = []))"

definition outcomes_logged :: "csys \<Rightarrow> bool" where
  "outcomes_logged s \<longleftrightarrow> (let c = cy_co s in
     (\<exists>os. outcome_log c os \<and> cy_acceptedOutcomes s = os @ co_outcomeCh c) \<and> (co_outcomeExited c \<longrightarrow> co_outcomeBatch c = []))"

definition log_ok :: "csys \<Rightarrow> bool" where
  "log_ok s \<longleftrightarrow> (\<forall>i < length (co_shardCh (cy_co s)). shard_logged s i) \<and> outcomes_logged s"

text \<open>Steps that touch neither batches nor writers.\<close>

definition same_logs :: "collector \<Rightarrow> collector \<Rightarrow> bool" where
  "same_logs c c' \<longleftrightarrow> co_opts c' = co_opts c \<and> co_writers c' = co_writers c \<and> co_batch c' = co_batch c \<and>
     co_aggregations c' = co_aggregations c \<and> co_outcomeWrite c' = co_outcomeWrite c \<and> co_outcomes c' = co_outcomes c \<and>
     co_outcomeBatch c' = co_outcomeBatch c \<and> co_exited c' = co_exited c \<and> co_outcomeExited c' = co_outcomeExited c"

lemma same_logs_keep:
  "same_logs c c' \<Longrightarrow> event_log c' i es = event_log c i es" "same_logs c c' \<Longrightarrow> outcome_log c' os = outcome_log c os"
  by (simp_all add: same_logs_def event_log_def outcome_log_def)

lemma full_drop_logs: "same_logs c (full_drop_times t c)"
  by (simp add: same_logs_def full_drop_times_def)

lemma logged_quiet:
  assumes "same_logs (cy_co s) (cy_co s')" "co_shardCh (cy_co s') = co_shardCh (cy_co s)" "co_outcomeCh (cy_co s') = co_outcomeCh (cy_co s)"
    "cy_accepted s' = cy_accepted s" "cy_acceptedOutcomes s' = cy_acceptedOutcomes s" "log_ok s"
  shows "log_ok s'"
  using assms(6) same_logs_keep [OF assms(1)] assms(1-5)
  by (auto simp: log_ok_def shard_logged_def outcomes_logged_def Let_def same_logs_def)

lemma submit_send_cases:
  "submit_send now e c = None \<or> submit_send now e c = Some (recordFullDrop_events now c) \<or>
    submit_send now e c = Some (c\<lparr>co_shardCh := (co_shardCh c)[shard_of c e := co_shardCh c ! shard_of c e @ [e]]\<rparr>)"
  by (simp add: submit_send_def Let_def)

lemma submitOutcome_send_cases:
  "submitOutcome_send now oc c = None \<or> submitOutcome_send now oc c = Some (recordFullDrop_outcomes now c) \<or>
    submitOutcome_send now oc c = Some (c\<lparr>co_outcomeCh := co_outcomeCh c @ [oc]\<rparr>)"
  by (simp add: submitOutcome_send_def)

lemma log_send:
  assumes "shape_ok (cy_co s)" "log_ok s" "cstep (SendPending now) s = Some s'"
  shows "log_ok s'"
proof -
  let ?c = "cy_co s"
  obtain e rest where p: "cy_pending s = e # rest" using assms(3) by (auto split: list.splits)
  note sh = shard_of_eq [OF assms(1), of e]
  consider (panic) "submit_send now e ?c = None" | (drop) "submit_send now e ?c = Some (recordFullDrop_events now ?c)"
    | (sent) "submit_send now e ?c = Some (?c\<lparr>co_shardCh := (co_shardCh ?c)[shard_of ?c e := co_shardCh ?c ! shard_of ?c e @ [e]]\<rparr>)"
    using submit_send_cases [of now e ?c] by (elim disjE) (erule (1) meta_mp)+
  then show ?thesis
  proof cases
    case panic
    then show ?thesis using assms(3) by (intro logged_quiet [OF _ _ _ _ _ assms(2)]) (auto simp: p same_logs_def)
  next
    case drop
    then show ?thesis using assms(3)
      by (intro logged_quiet [OF _ _ _ _ _ assms(2)])
        (auto simp: p same_logs_def recordFullDrop_events_def full_drop_times_def was_sent_def)
  next
    case sent
    define c where "c = ?c\<lparr>co_shardCh := (co_shardCh ?c)[shard_of ?c e := co_shardCh ?c ! shard_of ?c e @ [e]]\<rparr>"
    have s': "cy_co s' = c" "cy_accepted s' = cy_accepted s @ [e]" "cy_acceptedOutcomes s' = cy_acceptedOutcomes s"
      using assms(3) sent by (auto simp: p c_def [symmetric]) (auto simp: c_def was_sent_def)
    have same: "same_logs ?c c" and len: "length (co_shardCh c) = length (co_shardCh ?c)" and out: "co_outcomeCh c = co_outcomeCh ?c"
      by (simp_all add: same_logs_def c_def)
    have "shard_logged s' i" if i: "i < length (co_shardCh ?c)" for i
    proof -
      have "shard_logged s i" using assms(2) i by (simp add: log_ok_def)
      moreover have "part (length (co_shardCh c)) i (cy_accepted s') = es @ co_shardCh c ! i"
        if "part (length (co_shardCh ?c)) i (cy_accepted s) = es @ co_shardCh ?c ! i" for es
        using that sh i by (auto simp: s' part_append len) (simp_all add: c_def nth_list_update)
      ultimately show ?thesis
        using same_logs_keep(1) [OF same] same by (fastforce simp: shard_logged_def Let_def s' same_logs_def)
    qed
    moreover have "outcomes_logged s'"
      using assms(2) same_logs_keep(2) [OF same] same by (auto simp: log_ok_def outcomes_logged_def Let_def s' out same_logs_def)
    ultimately show ?thesis by (simp add: log_ok_def s' len)
  qed
qed

lemma log_send_outcome:
  assumes "log_ok s" "cstep (SendOutcome now) s = Some s'"
  shows "log_ok s'"
proof -
  let ?c = "cy_co s"
  obtain oc rest where p: "cy_pendingOutcomes s = oc # rest" using assms(2) by (auto split: list.splits)
  consider (panic) "submitOutcome_send now oc ?c = None" | (drop) "submitOutcome_send now oc ?c = Some (recordFullDrop_outcomes now ?c)"
    | (sent) "submitOutcome_send now oc ?c = Some (?c\<lparr>co_outcomeCh := co_outcomeCh ?c @ [oc]\<rparr>)"
    using submitOutcome_send_cases [of now oc ?c] by metis
  then show ?thesis
  proof cases
    case panic
    then show ?thesis using assms(2) by (intro logged_quiet [OF _ _ _ _ _ assms(1)]) (auto simp: p same_logs_def)
  next
    case drop
    then show ?thesis using assms(2)
      by (intro logged_quiet [OF _ _ _ _ _ assms(1)]) (auto simp: p same_logs_def recordFullDrop_outcomes_def full_drop_times_def)
  next
    case sent
    define c where "c = ?c\<lparr>co_outcomeCh := co_outcomeCh ?c @ [oc]\<rparr>"
    have s': "cy_co s' = c" "cy_accepted s' = cy_accepted s" "cy_acceptedOutcomes s' = cy_acceptedOutcomes s @ [oc]"
      using assms(2) sent by (auto simp: p c_def [symmetric]) (auto simp: c_def)
    have same: "same_logs ?c c" and ch: "co_shardCh c = co_shardCh ?c" "co_outcomeCh c = co_outcomeCh ?c @ [oc]"
      by (simp_all add: same_logs_def c_def)
    show ?thesis
      using assms(1) same_logs_keep [OF same] same
      by (auto simp: log_ok_def shard_logged_def outcomes_logged_def Let_def s' ch same_logs_def)
  qed
qed

lemma log_shard_recv:
  assumes "shape_ok (cy_co s)" "log_ok s" "cstep (ShardRecv env j) s = Some s'"
  shows "log_ok s'"
proof -
  let ?c = "cy_co s"
  obtain c where c: "shard_receive env j ?c = Some c" and s': "s' = s\<lparr>cy_co := c\<rparr>" and j: "j < length (co_shardCh ?c)"
    using assms(3) by (auto split: if_splits)
  have len: "length (co_writers ?c) = length (co_shardCh ?c)" "length (co_batch ?c) = length (co_shardCh ?c)"
    "length (co_aggregations ?c) = length (co_shardCh ?c)" "length (co_exited ?c) = length (co_shardCh ?c)"
    using assms(1) by (simp_all add: shape_ok_def)
  have ex: "\<not> co_exited ?c ! j" using c by (auto simp: shard_receive_def split: if_splits)
  have old: "\<And>i. i < length (co_shardCh ?c) \<Longrightarrow> shard_logged s i" "outcomes_logged s" using assms(2) by (simp_all add: log_ok_def)
  show ?thesis
  proof (cases "co_shardCh ?c ! j")
    case Nil
    have fl: "j < length (co_writers ?c)" "length (co_batch ?c) = length (co_writers ?c)" "length (co_aggregations ?c) = length (co_writers ?c)"
      using j len by simp_all
    note f = shard_flush_logs [OF fl]
    define d where "d = shard_flush env j ?c"
    have cd: "c = d\<lparr>co_exited := (co_exited ?c)[j := True]\<rparr>"
      using c ex Nil by (auto simp: shard_receive_def d_def split: if_splits)
    have keep: "event_log c i es = event_log d i es" "outcome_log c os = outcome_log d os" for i es os
      by (simp_all add: cd event_log_def outcome_log_def)
    have k: "co_shardCh c = co_shardCh ?c" "co_outcomeCh c = co_outcomeCh ?c" "co_outcomeExited c = co_outcomeExited ?c"
      "co_outcomeBatch c = co_outcomeBatch ?c" "co_batch c = co_batch d" "co_exited c = (co_exited ?c)[j := True]"
      by (simp_all add: cd d_def flush_keeps f(4))
    have "shard_logged s' i" if "i < length (co_shardCh ?c)" for i
      using old(1) [OF that] f(1) [where env = env] f(3) [where env = env and j = i] that len
      by (auto simp: shard_logged_def s' Let_def keep k d_def nth_list_update)
    moreover have "outcomes_logged s'"
      using old(2) f(2) [where env = env] by (auto simp: outcomes_logged_def s' Let_def keep k d_def)
    ultimately show ?thesis by (simp add: log_ok_def s' k)
  next
    case (Cons e rest)
    define c1 where "c1 = ?c\<lparr>co_shardCh := (co_shardCh ?c)[j := rest],
        co_aggregations := (co_aggregations ?c)[j := observe e (co_aggregations ?c ! j)], co_batch := (co_batch ?c)[j := co_batch ?c ! j @ [e]]\<rparr>"
    have c': "c = (if int (length (co_batch c1 ! j)) \<ge> op_BatchSize (co_opts c1) then shard_flush env j c1 else c1)"
      using c ex Cons by (auto simp: shard_receive_def c1_def Let_def)
    have f1: "j < length (co_writers c1)" "length (co_batch c1) = length (co_writers c1)" "length (co_aggregations c1) = length (co_writers c1)"
      using j len by (simp_all add: c1_def)
    have errs: "sa_writeErrors (co_aggregations c1 ! i) = sa_writeErrors (co_aggregations ?c ! i)" for i
      using j len by (cases "i = j") (simp_all add: c1_def)
    have l1: "event_log ?c i es \<Longrightarrow> event_log c1 i (es @ (if i = j then [e] else []))" for i es
      using j len errs [of i] by (auto simp: event_log_def c1_def)
    have o1: "outcome_log ?c os \<Longrightarrow> outcome_log c1 os" for os
      using errs [of 0] by (auto simp: outcome_log_def c1_def)
    have l: "event_log ?c i es \<Longrightarrow> event_log c i (es @ (if i = j then [e] else []))" and o: "outcome_log ?c os \<Longrightarrow> outcome_log c os" for i es os
      unfolding c' using shard_flush_logs(1,2) [OF f1, where env = env] l1 o1 by auto
    have k: "co_shardCh c = (co_shardCh ?c)[j := rest]" "co_exited c = co_exited ?c" "co_outcomeCh c = co_outcomeCh ?c"
      "co_outcomeExited c = co_outcomeExited ?c" "co_outcomeBatch c = co_outcomeBatch ?c"
      "i \<noteq> j \<Longrightarrow> co_batch c ! i = co_batch ?c ! i" for i
      using shard_flush_logs(3,4) [OF f1, where env = env] unfolding c' by (auto simp: flush_keeps c1_def)
    have "shard_logged s' i" if i: "i < length (co_shardCh ?c)" for i
    proof -
      obtain es where es: "event_log ?c i es" "part (length (co_shardCh ?c)) i (cy_accepted s) = es @ co_shardCh ?c ! i"
        "co_exited ?c ! i \<longrightarrow> co_batch ?c ! i = []" using old(1) [OF i] by (auto simp: shard_logged_def Let_def)
      show ?thesis
        using l [OF es(1)] es(2,3) Cons j ex k(6) [of i]
        by (cases "i = j") (auto simp: shard_logged_def s' Let_def k(1,2) intro!: exI [of _ "es @ (if i = j then [e] else [])"])
    qed
    moreover have "outcomes_logged s'" using old(2) o by (auto simp: outcomes_logged_def s' Let_def k(3-5))
    ultimately show ?thesis by (simp add: log_ok_def s' k)
  qed
qed

lemma log_outcome_recv:
  assumes "shape_ok (cy_co s)" "log_ok s" "cstep (OutcomeRecv env) s = Some s'"
  shows "log_ok s'"
proof -
  let ?c = "cy_co s"
  obtain c where c: "outcome_receive env ?c = Some c" and s': "s' = s\<lparr>cy_co := c\<rparr>" using assms(3) by auto
  have len: "0 < length (co_aggregations ?c)" using assms(1) by (auto simp: shape_ok_def)
  obtain os where os: "outcome_log ?c os" "cy_acceptedOutcomes s = os @ co_outcomeCh ?c" using assms(2) by (auto simp: log_ok_def outcomes_logged_def Let_def)
  have ex: "\<not> co_outcomeExited ?c" using c by (auto simp: outcome_receive_def split: if_splits)
  show ?thesis
  proof (cases "co_outcomeCh ?c")
    case Nil
    define d where "d = outcome_flush env ?c"
    have cd: "c = d\<lparr>co_outcomeExited := True\<rparr>" using c ex Nil by (auto simp: outcome_receive_def d_def split: if_splits)
    have keep: "event_log c i es = event_log d i es" "outcome_log c os = outcome_log d os" for i es os
      by (simp_all add: cd event_log_def outcome_log_def)
    have k: "co_shardCh c = co_shardCh ?c" "co_outcomeCh c = []" "co_exited c = co_exited ?c" "co_batch c = co_batch ?c" "co_outcomeBatch c = []"
      using Nil by (simp_all add: cd d_def flush_keeps outcome_flush_logs(3,4))
    have "event_log ?c i es \<Longrightarrow> event_log c i es" for i es using outcome_flush_logs(2) by (simp add: keep d_def)
    moreover have "outcome_log c os" using outcome_flush_logs(1) [OF len os(1)] by (simp add: keep d_def)
    ultimately show ?thesis
      using assms(2) os(2) Nil by (fastforce simp: log_ok_def shard_logged_def outcomes_logged_def Let_def s' k)
  next
    case (Cons oc rest)
    define c1 where "c1 = ?c\<lparr>co_outcomeCh := rest, co_outcomeBatch := co_outcomeBatch ?c @ [oc]\<rparr>"
    have c': "c = (if int (length (co_outcomeBatch c1)) \<ge> op_BatchSize (co_opts c1) then outcome_flush env c1 else c1)"
      using c ex Cons by (auto simp: outcome_receive_def c1_def Let_def)
    have "outcome_log c1 (os @ [oc])" using os(1) by (auto simp: outcome_log_def c1_def)
    then have o: "outcome_log c (os @ [oc])"
      unfolding c' using outcome_flush_logs(1) [of c1] len by (auto simp: c1_def)
    have "event_log ?c i es = event_log c1 i es" for i es by (simp add: event_log_def c1_def)
    then have e: "event_log ?c i es \<Longrightarrow> event_log c i es" for i es unfolding c' using outcome_flush_logs(2) by auto
    have k: "co_shardCh c = co_shardCh ?c" "co_outcomeCh c = rest" "co_exited c = co_exited ?c" "co_batch c = co_batch ?c"
      "\<not> co_outcomeExited c"
      using ex unfolding c' by (simp_all add: c1_def flush_keeps outcome_flush_logs(4))
    have "outcomes_logged s'" using o os(2) Cons by (auto simp: outcomes_logged_def Let_def s' k intro!: exI [of _ "os @ [oc]"])
    moreover have "shard_logged s' i" if "i < length (co_shardCh ?c)" for i
      using assms(2) that e by (fastforce simp: log_ok_def shard_logged_def Let_def s' k)
    ultimately show ?thesis by (simp add: log_ok_def s' k)
  qed
qed

lemma log_tick:
  assumes "shape_ok (cy_co s)" "log_ok s" "cstep (ShardTick env j) s = Some s'"
  shows "log_ok s'"
proof -
  let ?c = "cy_co s"
  have s': "s' = s\<lparr>cy_co := shard_flush env j ?c\<rparr>" and j: "j < length (co_shardCh ?c)"
    using assms(3) by (auto simp: shard_tick_def split: if_splits)
  have fl: "j < length (co_writers ?c)" "length (co_batch ?c) = length (co_writers ?c)" "length (co_aggregations ?c) = length (co_writers ?c)"
    using assms(1) j by (simp_all add: shape_ok_def)
  note f = shard_flush_logs [OF fl]
  have "shard_logged s' i" if "i < length (co_shardCh ?c)" for i
    using assms(2) that f(1) [where env = env] f(3) [where env = env and j = i]
    by (auto simp: log_ok_def shard_logged_def s' Let_def flush_keeps)
  moreover have "outcomes_logged s'"
    using assms(2) f(2) [where env = env] f(4) [of env] by (auto simp: log_ok_def outcomes_logged_def s' Let_def flush_keeps)
  ultimately show ?thesis by (simp add: log_ok_def s' flush_keeps)
qed

lemma log_step:
  assumes "shape_ok (cy_co s)" "log_ok s" "cstep a s = Some s'"
  shows "log_ok s'"
proof (cases a)
  case (SendPending now)
  then show ?thesis using log_send assms by blast
next
  case (SendOutcome now)
  then show ?thesis using log_send_outcome assms by blast
next
  case (ShardRecv env i)
  then show ?thesis using log_shard_recv assms by blast
next
  case (ShardTick env i)
  then show ?thesis using log_tick assms by blast
next
  case (OutcomeRecv env)
  then show ?thesis using log_outcome_recv assms by blast
qed (use assms(3) in \<open>intro logged_quiet [OF _ _ _ _ _ assms(2)];
    auto simp: same_logs_def submit_check_def submit_count_def stop_store_def stop_close_def split: if_splits nat.splits\<close>)+

lemma log_init:
  assumes "0 < numCPU" "NewCollector numCPU mkdir now o0 = Inr c"
  shows "log_ok (csys_init c)"
proof -
  have n: "0 < op_ShardCount (collector_defaults numCPU o0)"
    using assms(1) by (simp add: collector_defaults_def Let_def)
  have e: "write_log f [] w = (w, [])" for f :: "write_env \<Rightarrow> 'r list \<Rightarrow> 'w \<Rightarrow> 'w \<times> goerr option" and w by simp
  show ?thesis
    using assms(2) n
    by (auto simp: log_ok_def shard_logged_def outcomes_logged_def csys_init_def NewCollector_def Let_def part_def
        event_log_def outcome_log_def newShardAggregation_def split: if_splits option.splits intro!: exI [of _ "[]"])
qed

lemma reachable_log: "reachable s \<Longrightarrow> log_ok s"
proof (induction rule: reachable.induct)
  case (reach_step s a s')
  then have "shape_ok (cy_co s)" using reachable_inv by (simp add: csys_inv_def)
  then show ?case using log_step reach_step by blast
qed (rule log_init)

text \<open>All that was accepted has been observed by the counters and handed to the writers, in batches
  whose failures are on record; where none is, and the encoder took the batches whole, it is in the files.\<close>

definition all_written :: "csys \<Rightarrow> bool" where
  "all_written s \<longleftrightarrow> (let c = cy_co s; n = length (co_shardCh c) in
     (\<forall>i < n. let mine = filter (\<lambda>e. unat (EvSubscriberID e) mod n = i) (cy_accepted s) in
        counters_of (co_aggregations c ! i) = observed mine \<and>
        (\<exists>bs ms. write_log pw_writeBatch bs (shard_writer c i) = (co_writers c ! i, ms) \<and>
           set ms \<subseteq> set (sa_writeErrors (co_aggregations c ! i)) \<and> concat (map snd bs) = mine \<and>
           (ms = [] \<and> whole bs \<longrightarrow> concat (map snd (pw_files (co_writers c ! i))) = mine))) \<and>
     co_outcomes c = cy_acceptedOutcomes s \<and>
     (\<exists>bs ms. write_log ow_writeBatch bs (newOutcomeWriter (op_Dir (co_opts c))) = (co_outcomeWrite c, ms) \<and>
        set ms \<subseteq> set (sa_writeErrors (co_aggregations c ! 0)) \<and> concat (map snd bs) = cy_acceptedOutcomes s \<and>
        (ms = [] \<and> whole bs \<longrightarrow> ow_file (co_outcomeWrite c) = cy_acceptedOutcomes s)))"

lemma drained_written:
  assumes "reachable s" "drained s"
  shows "all_written s"
proof -
  let ?c = "cy_co s" let ?n = "length (co_shardCh ?c)"
  have inv: "csys_inv s" and logs: "log_ok s" using assms(1) reachable_inv reachable_log by auto
  have len: "length (co_exited ?c) = ?n" "length (co_aggregations ?c) = ?n" using inv by (auto simp: csys_inv_def shape_ok_def)
  have "counters_of (co_aggregations ?c ! i) = observed (part ?n i (cy_accepted s)) \<and>
      (\<exists>bs ms. write_log pw_writeBatch bs (shard_writer ?c i) = (co_writers ?c ! i, ms) \<and>
         set ms \<subseteq> set (sa_writeErrors (co_aggregations ?c ! i)) \<and> concat (map snd bs) = part ?n i (cy_accepted s) \<and>
         (ms = [] \<and> whole bs \<longrightarrow> concat (map snd (pw_files (co_writers ?c ! i))) = part ?n i (cy_accepted s)))" if i: "i < ?n" for i
  proof -
    have ex: "co_exited ?c ! i" using assms(2) i len by (simp add: drained_def list_all_length)
    then have "co_shardCh ?c ! i = []" using inv i by (auto simp: csys_inv_def shard_ok_def Let_def)
    moreover have "co_batch ?c ! i = []" using logs i ex by (simp add: log_ok_def shard_logged_def Let_def)
    ultimately obtain bs ms where bs: "write_log pw_writeBatch bs (shard_writer ?c i) = (co_writers ?c ! i, ms)"
      "set ms \<subseteq> set (sa_writeErrors (co_aggregations ?c ! i))" "concat (map snd bs) = part ?n i (cy_accepted s)"
      using logs i by (auto simp: log_ok_def shard_logged_def event_log_def Let_def)
    have "ms = [] \<and> whole bs \<longrightarrow> concat (map snd (pw_files (co_writers ?c ! i))) = concat (map snd bs)"
      using parquet_rows_kept whole_events bs(1) by blast
    moreover have "counters_of (co_aggregations ?c ! i) = observed (part ?n i (cy_accepted s))"
      using drained_counters [OF inv assms(2)] i len by (metis (no_types, lifting) length_map nth_map shards_def add_0 diff_zero length_upt nth_upt)
    ultimately show ?thesis using bs by auto
  qed
  moreover have "\<exists>bs ms. write_log ow_writeBatch bs (newOutcomeWriter (op_Dir (co_opts ?c))) = (co_outcomeWrite ?c, ms) \<and>
      set ms \<subseteq> set (sa_writeErrors (co_aggregations ?c ! 0)) \<and> co_outcomes ?c = cy_acceptedOutcomes s \<and> concat (map snd bs) = cy_acceptedOutcomes s \<and>
      (ms = [] \<and> whole bs \<longrightarrow> ow_file (co_outcomeWrite ?c) = cy_acceptedOutcomes s)"
  proof -
    have ex: "co_outcomeExited ?c" using assms(2) by (simp add: drained_def)
    then have "co_outcomeCh ?c = []" "co_outcomeBatch ?c = []" using inv logs
      by (auto simp: csys_inv_def shape_ok_def log_ok_def outcomes_logged_def Let_def)
    then obtain bs ms where bs: "write_log ow_writeBatch bs (newOutcomeWriter (op_Dir (co_opts ?c))) = (co_outcomeWrite ?c, ms)"
      "set ms \<subseteq> set (sa_writeErrors (co_aggregations ?c ! 0))" "co_outcomes ?c = cy_acceptedOutcomes s" "concat (map snd bs) = cy_acceptedOutcomes s"
      using logs by (auto simp: log_ok_def outcomes_logged_def outcome_log_def Let_def)
    have "ms = [] \<and> whole bs \<longrightarrow> ow_file (co_outcomeWrite ?c) = concat (map snd bs)"
      using whole_outcomes [of bs "newOutcomeWriter (op_Dir (co_opts ?c))"] bs(1) by (auto simp: newOutcomeWriter_def)
    then show ?thesis using bs by auto
  qed
  ultimately show ?thesis unfolding all_written_def Let_def part_def by blast
qed

section \<open>Draining\<close>

definition pending_exit :: "bool \<Rightarrow> nat" where
  "pending_exit exited = (if exited then 0 else 1)"

definition backlog :: "csys \<Rightarrow> nat" where
  "backlog s = sum_list (map length (co_shardCh (cy_co s))) + sum_list (map pending_exit (co_exited (cy_co s))) +
     length (co_outcomeCh (cy_co s)) + pending_exit (co_outcomeExited (cy_co s))"

fun is_receive :: "cact \<Rightarrow> bool" where
  "is_receive (ShardRecv env i) = True"
| "is_receive (OutcomeRecv env) = True"
| "is_receive a = False"

lemma sum_list_update_nat: "i < length xs \<Longrightarrow> sum_list (xs[i := (x :: nat)]) + xs ! i = sum_list xs + x"
  by (induction xs arbitrary: i) (auto split: nat.split simp: nth_Cons')

lemma receive_lowers:
  assumes "csys_inv s" "is_receive a" "cstep a s = Some s'"
  shows "Suc (backlog s') = backlog s \<and> cy_accepted s' = cy_accepted s \<and> cy_acceptedOutcomes s' = cy_acceptedOutcomes s \<and> cy_panic s' = cy_panic s \<and>
    outcome_closed (cy_co s') = outcome_closed (cy_co s)"
proof -
  have shape: "shape_ok (cy_co s)" using assms(1) by (simp add: csys_inv_def)
  show ?thesis
  proof (cases a)
    case (ShardRecv env i)
    obtain c where c: "shard_receive env i (cy_co s) = Some c" and s': "s' = s\<lparr>cy_co := c\<rparr>" and i: "i < length (co_shardCh (cy_co s))"
      using assms(3) ShardRecv by (auto split: if_splits)
    have ie: "i < length (co_exited (cy_co s))" using shape i by (simp add: shape_ok_def)
    have ex: "\<not> co_exited (cy_co s) ! i" using c by (auto simp: shard_receive_def split: if_splits)
    show ?thesis
    proof (cases "co_shardCh (cy_co s) ! i")
      case Nil
      then show ?thesis
        using c ex i ie sum_list_update_nat [of i "map pending_exit (co_exited (cy_co s))" 0]
        by (auto simp: s' outcome_closed_def backlog_def shard_receive_def flush_keeps map_update pending_exit_def split: if_splits)
    next
      case (Cons e rest)
      then show ?thesis
        using c ex i sum_list_update_nat [of i "map length (co_shardCh (cy_co s))" "length rest"]
        by (auto simp: s' outcome_closed_def backlog_def shard_receive_def flush_keeps map_update Let_def split: if_splits)
    qed
  next
    case (OutcomeRecv env)
    then show ?thesis
      using assms(3) by (auto simp: outcome_closed_def backlog_def outcome_receive_def flush_keeps pending_exit_def Let_def split: if_splits list.splits)
  qed (use assms(2) in auto)
qed


lemma receive_enabled:
  assumes "csys_inv s" "outcome_closed (cy_co s)" "\<not> drained s"
  shows "\<exists>a s'. is_receive a \<and> cstep a s = Some s'"
proof -
  have shape: "shape_ok (cy_co s)" using assms(1) by (simp add: csys_inv_def)
  consider i where "i < length (co_exited (cy_co s))" "\<not> co_exited (cy_co s) ! i" | "\<not> co_outcomeExited (cy_co s)"
    using assms(3) by (auto simp: drained_def list_all_length)
  then show ?thesis
  proof cases
    case (1 i)
    then have "\<exists>s'. cstep (ShardRecv env i) s = Some s'" for env
      using assms(2) shape by (auto simp: shard_receive_def shape_ok_def shard_closed_def outcome_closed_def Let_def split: list.split)
    then show ?thesis by (metis is_receive.simps(1))
  next
    case 2
    then have "\<exists>s'. cstep (OutcomeRecv env) s = Some s'" for env
      using assms(2) by (auto simp: outcome_receive_def Let_def split: list.split)
    then show ?thesis by (metis is_receive.simps(2))
  qed
qed

lemma drains:
  assumes "csys_inv s" "outcome_closed (cy_co s)" "\<not> cy_panic s"
  shows "\<exists>acts s'. list_all is_receive acts \<and> length acts \<le> backlog s \<and> run_steps acts s = Some s' \<and> drained s'"
  using assms
proof (induction "backlog s" arbitrary: s rule: less_induct)
  case less
  show ?case
  proof (cases "drained s")
    case True
    then show ?thesis by (intro exI [of _ "[]"] exI [of _ s]) simp
  next
    case False
    then obtain a s1 where a: "is_receive a" "cstep a s = Some s1" using receive_enabled less.prems by blast
    note low = receive_lowers [OF less.prems(1) a]
    have "csys_inv s1" using csys_inv_step less.prems a by blast
    then obtain acts s' where "list_all is_receive acts" "length acts \<le> backlog s1" "run_steps acts s1 = Some s'" "drained s'"
      using less.hyps [of s1] low less.prems by auto
    then show ?thesis using a low less.prems by (intro exI [of _ "a # acts"] exI [of _ s']) auto
  qed
qed

lemma receives_accept_nothing:
  "run_steps acts s = Some s' \<Longrightarrow> list_all is_receive acts \<Longrightarrow> csys_inv s \<Longrightarrow>
   cy_accepted s' = cy_accepted s \<and> cy_acceptedOutcomes s' = cy_acceptedOutcomes s"
proof (induction acts arbitrary: s)
  case (Cons a acts)
  then obtain s1 where s1: "cstep a s = Some s1" "run_steps acts s1 = Some s'" "\<not> cy_panic s" by (auto split: if_splits option.splits)
  then show ?case using Cons receive_lowers [OF Cons.prems(3) _ s1(1)] csys_inv_step [OF Cons.prems(3) s1(3,1)] by simp
qed simp

text \<open>C15: after Stop has closed the channels the goroutines finish and nothing accepted is lost: as long as one has not
  exited a receive is possible; every receive lowers the backlog of buffered values and running goroutines by
  one, so at most that many drain the collector; and whichever receives have drained it, each shard's counters have
  observed exactly its accepted events, its writer was handed exactly them, once and in order, the outcome
  writer and the outcome list have exactly the accepted outcomes, every write that failed is on
  record, and when none failed the files hold exactly what was accepted.\<close>

theorem stop_drains:
  assumes "reachable s" "outcome_closed (cy_co s)" "\<not> cy_panic s"
  shows "(\<not> drained s \<longrightarrow> (\<exists>a s'. is_receive a \<and> cstep a s = Some s')) \<and>
    (\<forall>a s'. is_receive a \<and> cstep a s = Some s' \<longrightarrow> Suc (backlog s') = backlog s) \<and>
    (\<exists>acts s'. list_all is_receive acts \<and> length acts \<le> backlog s \<and> run_steps acts s = Some s' \<and> drained s') \<and>
    (\<forall>acts s'. list_all is_receive acts \<and> run_steps acts s = Some s' \<and> drained s' \<longrightarrow>
       cy_accepted s' = cy_accepted s \<and> cy_acceptedOutcomes s' = cy_acceptedOutcomes s \<and> all_written s')"
  using receive_enabled [OF reachable_inv [OF assms(1)] assms(2)] receive_lowers [OF reachable_inv [OF assms(1)]]
    drains [OF reachable_inv [OF assms(1)] assms(2,3)] receives_accept_nothing [OF _ _ reachable_inv [OF assms(1)]]
    drained_written run_steps_reachable [OF _ assms(1)] by blast

lemma demo_backlog: "backlog demo_closed = 4" "length (co_shardCh (cy_co demo_drained)) = 2"
    "map (\<lambda>e. unat (EvSubscriberID e)) (cy_accepted demo_closed) = [1]"
  by code_simp+

lemma demo_stop_run: "run_steps demo_stop demo_closed = Some demo_drained" "list_all is_receive demo_stop"
  using demo_runs(2) by (auto simp: demo_drained_def demo_stop_def Option.is_none_def)

lemma stop_drains_witness:
  "(\<exists>acts s'. list_all is_receive acts \<and> length acts \<le> 4 \<and> run_steps acts demo_closed = Some s' \<and> drained s') \<and>
   all_written demo_drained \<and> length (cy_accepted demo_drained) = 1"
  using stop_drains [OF demo_reachable(2) demo_facts(1,2)] demo_stop_run demo_facts(3,5) unfolding demo_backlog(1) by metis

end
