(* ===== verification/Go_Time.thy ===== *)
theory Go_Time
  imports Go_Text
begin

text \<open>
  The calendar of Go's \<^verbatim>\<open>time\<close> package, for times since 1970 in UTC: the layouts the API uses,
  \<^verbatim>\<open>RFC3339Nano\<close> and the one of the run identifiers, and \<^verbatim>\<open>time.Parse\<close> for texts in UTC. A
  time is a number of nanoseconds since the epoch.
\<close>

section \<open>Dates\<close>

definition leap_year :: "nat \<Rightarrow> bool" where
  "leap_year y \<longleftrightarrow> 4 dvd y \<and> (\<not> 100 dvd y \<or> 400 dvd y)"

definition year_len :: "nat \<Rightarrow> nat" where
  "year_len y = (if leap_year y then 366 else 365)"

definition month_lens :: "nat \<Rightarrow> nat list" where
  "month_lens y = [31, if leap_year y then 29 else 28, 31, 30, 31, 30, 31, 31, 30, 31, 30, 31]"

text \<open>The year and the day in it, from a year whose first day is day 0; the month and the day in it.\<close>

function year_day :: "nat \<Rightarrow> nat \<Rightarrow> nat \<times> nat" where
  "year_day y d = (if d < year_len y then (y, d) else year_day (y + 1) (d - year_len y))"
  by auto
termination by (relation "measure snd") (auto simp: year_len_def)

declare year_day.simps [simp del]

fun month_day :: "nat \<Rightarrow> nat list \<Rightarrow> nat \<Rightarrow> nat \<times> nat" where
  "month_day m [] d = (m, d)"
| "month_day m (l # ls) d = (if d < l then (m, d) else month_day (m + 1) ls (d - l))"

definition days_before :: "nat \<Rightarrow> int" where
  "days_before y = (if 1970 \<le> y then int (sum_list (map year_len [1970..<y]))
     else - int (sum_list (map year_len [y..<1970])))"

lemma year_day_sound:
  "year_day y0 d = (y, r) \<Longrightarrow> y0 \<le> y \<and> r < year_len y \<and> sum_list (map year_len [y0..<y]) + r = d"
proof (induction y0 d rule: year_day.induct)
  case (1 y0 d)
  show ?case
  proof (cases "d < year_len y0")
    case True
    then show ?thesis using 1(2) by (simp add: year_day.simps [of y0 d])
  next
    case False
    then have "year_day (y0 + 1) (d - year_len y0) = (y, r)" using 1(2) by (simp add: year_day.simps [of y0 d])
    from 1(1) [OF False this] False show ?thesis by (auto simp: upt_conv_Cons)
  qed
qed

lemma month_day_sound:
  "month_day m0 ls d = (m, r) \<Longrightarrow> d < sum_list ls \<Longrightarrow>
   m0 \<le> m \<and> m < m0 + length ls \<and> r < ls ! (m - m0) \<and> sum_list (take (m - m0) ls) + r = d"
proof (induction m0 ls d rule: month_day.induct)
  case (2 m0 l ls d)
  show ?case
  proof (cases "d < l")
    case False
    then have "m0 + 1 \<le> m \<and> m < m0 + 1 + length ls \<and> r < ls ! (m - (m0 + 1)) \<and>
        sum_list (take (m - (m0 + 1)) ls) + r = d - l"
      using 2 by simp
    moreover from this obtain k where "m = m0 + 1 + k" by (metis le_Suc_ex)
    ultimately show ?thesis using False by auto
  qed (use 2 in simp)
qed simp

lemma month_lens_total: "sum_list (month_lens y) = year_len y" "length (month_lens y) = 12"
  by (simp_all add: month_lens_def year_len_def)

lemma years_lower: "365 * (y - y0) \<le> sum_list (map year_len [y0..<y])"
proof -
  have "365 * length ys \<le> sum_list (map year_len ys)" for ys
    by (induction ys) (auto simp: year_len_def)
  from this [of "[y0..<y]"] show ?thesis by simp
qed

section \<open>Decimal fields\<close>

definition dec_pad :: "nat \<Rightarrow> nat \<Rightarrow> string" where
  "dec_pad w n = pad0 w (radix 10 n)"

lemma radix_digits: "list_all ascii_digit (radix 10 n)"
proof (induction n rule: less_induct)
  case (less n)
  have "ascii_digit (digit_char d)" if "d < 10" for d using that by (simp add: ascii_digit_def digit_char_def)
  then show ?case using less [of "n div 10"] by (subst radix.simps) auto
qed

lemma radix_length: "n < 10 ^ w \<Longrightarrow> 0 < w \<Longrightarrow> length (radix 10 n) \<le> w"
proof (induction w arbitrary: n)
  case (Suc w)
  show ?case
  proof (cases "n < 10")
    case False
    then have "0 < w" using Suc.prems by (cases w) auto
    moreover have "n div 10 < 10 ^ w" using Suc.prems by (simp add: less_mult_imp_div_less mult.commute)
    ultimately show ?thesis using Suc.IH [of "n div 10"] False by (subst radix.simps) simp
  qed (subst radix.simps, simp)
qed simp

lemma dec_pad_digits: "list_all ascii_digit (dec_pad w n)"
  using radix_digits [of n] by (auto simp: dec_pad_def pad0_def list_all_iff ascii_digit_def)

lemma dec_pad_length [simp]: "n < 10 ^ w \<Longrightarrow> 0 < w \<Longrightarrow> length (dec_pad w n) = w"
  using radix_length [of n w] by (simp add: dec_pad_def pad0_def)

lemma undigits_dec_pad [simp]: "undigits 10 (dec_pad w n) = n"
  by (simp add: dec_pad_def)

definition parse_num :: "string \<Rightarrow> nat option" where
  "parse_num ds = (if ds \<noteq> [] \<and> list_all ascii_digit ds then Some (undigits 10 ds) else None)"

lemma parse_dec_pad [simp]: "0 < w \<Longrightarrow> parse_num (dec_pad w n) = Some n"
proof -
  assume "0 < w"
  then have "dec_pad w n \<noteq> []" by (simp add: dec_pad_def pad0_def)
  then show ?thesis by (simp add: parse_num_def dec_pad_digits)
qed

section \<open>Layouts\<close>

text \<open>\<^verbatim>\<open>2006-01-02T15:04:05\<close>, with the separator of the time of day.\<close>

definition clock_text :: "char \<Rightarrow> nat \<Rightarrow> string" where
  "clock_text sep secs =
     (let (y, yd) = year_day 1970 (secs div 86400); (m, d) = month_day 1 (month_lens y) yd; r = secs mod 86400 in
      dec_pad 4 y @ ''-'' @ dec_pad 2 m @ ''-'' @ dec_pad 2 (d + 1) @ ''T'' @
      dec_pad 2 (r div 3600) @ [sep] @ dec_pad 2 (r div 60 mod 60) @ [sep] @ dec_pad 2 (r mod 60))"

definition frac_text :: "nat \<Rightarrow> string" where
  "frac_text ns = (if ns = 0 then [] else CHR ''.'' # rev (dropWhile (\<lambda>c. c = CHR ''0'') (rev (dec_pad 9 ns))))"

definition RFC3339Nano :: "int \<Rightarrow> string" where
  "RFC3339Nano t = clock_text (CHR '':'') (nat t div 10 ^ 9) @ frac_text (nat t mod 10 ^ 9) @ ''Z''"

definition parse_frac :: "string \<Rightarrow> nat option" where
  "parse_frac s =
     (if s = ''Z'' then Some 0
      else let ds = butlast (tl s) in
        if take 1 s = ''.'' \<and> drop (length s - 1) s = ''Z'' \<and> length s \<le> 11
        then map_option (\<lambda>v. v * 10 ^ (9 - length ds)) (parse_num ds) else None)"

definition parse_clock :: "string \<Rightarrow> int option" where
  "parse_clock s =
     (case (parse_num (take 4 s), parse_num (take 2 (drop 5 s)), parse_num (take 2 (drop 8 s)),
            parse_num (take 2 (drop 11 s)), parse_num (take 2 (drop 14 s)), parse_num (take 2 (drop 17 s))) of
        (Some y, Some mo, Some d, Some h, Some mi, Some sec) \<Rightarrow>
          if s ! 4 = CHR ''-'' \<and> s ! 7 = CHR ''-'' \<and> s ! 10 = CHR ''T'' \<and> s ! 13 = CHR '':'' \<and> s ! 16 = CHR '':'' \<and>
             1 \<le> mo \<and> mo \<le> 12 \<and> 1 \<le> d \<and> d \<le> month_lens y ! (mo - 1) \<and> h < 24 \<and> mi < 60 \<and> sec < 60
          then Some ((days_before y + int (sum_list (take (mo - 1) (month_lens y)) + (d - 1))) * 86400 +
            int (h * 3600 + mi * 60 + sec))
          else None
      | _ \<Rightarrow> None)"

definition parse_RFC3339Nano :: "string \<Rightarrow> int option" where
  "parse_RFC3339Nano s =
     (if length s < 20 then None
      else case (parse_clock (take 19 s), parse_frac (drop 19 s)) of
        (Some secs, Some ns) \<Rightarrow> Some (secs * 10 ^ 9 + int ns)
      | _ \<Rightarrow> None)"

text \<open>The times for which the layouts print a four-digit year: until 9964 at least.\<close>

definition time_ok :: "int \<Rightarrow> bool" where
  "time_ok t \<longleftrightarrow> 0 \<le> t \<and> t < 252288000000 * 10 ^ 9"

lemma clock_fields:
  assumes "secs < 252288000000"
  obtains y m d where "clock_text sep secs = dec_pad 4 y @ ''-'' @ dec_pad 2 m @ ''-'' @ dec_pad 2 (d + 1) @ ''T'' @
      dec_pad 2 (secs mod 86400 div 3600) @ [sep] @ dec_pad 2 (secs mod 86400 div 60 mod 60) @ [sep] @ dec_pad 2 (secs mod 60)"
    "1970 \<le> y" "y < 10 ^ 4" "1 \<le> m" "m \<le> 12" "d < month_lens y ! (m - 1)" "d + 1 < 10 ^ 2"
    "sum_list (map year_len [1970..<y]) + sum_list (take (m - 1) (month_lens y)) + d = secs div 86400"
proof -
  obtain y r where yr: "year_day 1970 (secs div 86400) = (y, r)" by (cases "year_day 1970 (secs div 86400)")
  obtain m d where md: "month_day 1 (month_lens y) r = (m, d)" by (cases "month_day 1 (month_lens y) r")
  note y = year_day_sound [OF yr]
  then have r: "r < sum_list (month_lens y)" by (simp add: month_lens_total)
  note m = month_day_sound [OF md r]
  have "secs div 86400 < 2920000" using assms by (simp add: less_mult_imp_div_less)
  then have "365 * (y - 1970) < 2920000" using y years_lower [of y 1970] by linarith
  then have y4: "y < 10 ^ 4" by simp
  have "l \<le> 31" if "l \<in> set (month_lens y)" for l using that by (auto simp: month_lens_def split: if_splits)
  moreover have "month_lens y ! (m - 1) \<in> set (month_lens y)" using m by (intro nth_mem) (auto simp: month_lens_total)
  ultimately have "month_lens y ! (m - 1) \<le> 31" by blast
  then have d: "d + 1 < 10 ^ 2" using m by simp
  have "secs mod 86400 mod 60 = secs mod 60" by (simp add: mod_mod_cancel)
  then show ?thesis
    using that [of y m d] y y4 m d yr md by (auto simp: clock_text_def month_lens_total Let_def)
qed


lemma days_before_sum: "1970 \<le> y \<Longrightarrow> days_before y = int (sum_list (map year_len [1970..<y]))"
  by (simp add: days_before_def)

lemma clock_split: "r div 3600 * 3600 + r div 60 mod 60 * 60 + r mod 60 = (r :: nat)"
proof -
  have "r div 3600 = r div 60 div 60" by (simp flip: div_mult2_eq)
  then have "r div 3600 * 60 + r div 60 mod 60 = r div 60" by simp
  then show ?thesis using div_mult_mod_eq [of r 60] by linarith
qed

lemma parse_clock_text: "secs < 252288000000 \<Longrightarrow> parse_clock (clock_text (CHR '':'') secs) = Some (int secs)"
proof -
  assume "secs < 252288000000"
  from clock_fields [OF this, of "CHR '':''"] obtain y m d where c_eq:
    "clock_text (CHR '':'') secs = dec_pad 4 y @ ''-'' @ dec_pad 2 m @ ''-'' @ dec_pad 2 (d + 1) @ ''T'' @
      dec_pad 2 (secs mod 86400 div 3600) @ '':'' @ dec_pad 2 (secs mod 86400 div 60 mod 60) @ '':'' @ dec_pad 2 (secs mod 60)"
    and fd: "1970 \<le> y" "y < 10 ^ 4" "1 \<le> m" "m \<le> 12" "d < month_lens y ! (m - 1)" "d + 1 < 10 ^ 2"
    "sum_list (map year_len [1970..<y]) + sum_list (take (m - 1) (month_lens y)) + d = secs div 86400" by metis
  let ?h = "secs mod 86400 div 3600" and ?mi = "secs mod 86400 div 60 mod 60" and ?s = "secs mod 60"
  have h: "?h < 24" by (simp add: less_mult_imp_div_less)
  have len: "length (dec_pad 4 y) = 4" "length (dec_pad 2 m) = 2" "length (dec_pad 2 (d + 1)) = 2"
    "length (dec_pad 2 ?h) = 2" "length (dec_pad 2 ?mi) = 2" "length (dec_pad 2 ?s) = 2"
    using fd h by simp_all
  have "secs mod 86400 mod 60 = ?s" by (simp add: mod_mod_cancel)
  then have hms: "?h * 3600 + ?mi * 60 + ?s = secs mod 86400" using clock_split [of "secs mod 86400"] by simp
  have day: "days_before y + int (sum_list (take (m - 1) (month_lens y)) + d) = int (secs div 86400)"
    using fd(7) days_before_sum [OF fd(1)] by linarith
  have total: "int (secs div 86400) * 86400 + int (secs mod 86400) = int secs"
    by (metis div_mult_mod_eq of_nat_add of_nat_mult of_nat_numeral)
  obtain a4 where a4: "dec_pad 4 y = a4" "length a4 = 4" "parse_num a4 = Some y" using len by simp
  obtain b c e f g where two: "dec_pad 2 m = b" "dec_pad 2 (d + 1) = c" "dec_pad 2 ?h = e" "dec_pad 2 ?mi = f" "dec_pad 2 ?s = g"
    "length b = 2" "length c = 2" "length e = 2" "length f = 2" "length g = 2"
    "parse_num b = Some m" "parse_num c = Some (d + 1)" "parse_num e = Some ?h" "parse_num f = Some ?mi" "parse_num g = Some ?s"
    using len by simp
  have as_text: "clock_text (CHR '':'') secs = a4 @ ''-'' @ b @ ''-'' @ c @ ''T'' @ e @ '':'' @ f @ '':'' @ g"
    using c_eq by (simp only: a4 two)
  have "parse_clock (a4 @ ''-'' @ b @ ''-'' @ c @ ''T'' @ e @ '':'' @ f @ '':'' @ g) =
      Some ((days_before y + int (sum_list (take (m - 1) (month_lens y)) + (d + 1 - 1))) * 86400 + int (?h * 3600 + ?mi * 60 + ?s))"
    unfolding parse_clock_def using fd(3,4,5) h a4(2,3) two(6-) by (simp add: nth_append)
  also have "\<dots> = Some (int secs)" unfolding hms using day total by simp
  finally show ?thesis unfolding as_text .
qed

lemma strip_zeros:
  "s = rev (dropWhile (\<lambda>c. c = z) (rev s)) @ replicate (length s - length (dropWhile (\<lambda>c. c = z) (rev s))) z"
proof -
  define tl dl where "tl = takeWhile (\<lambda>c. c = z) (rev s)" and "dl = dropWhile (\<lambda>c. c = z) (rev s)"
  have "rev s = tl @ dl" by (simp add: tl_def dl_def)
  then have s: "s = rev dl @ rev tl" by (metis rev_append rev_rev_ident)
  have "x = z" if "x \<in> set tl" for x using that by (auto simp: tl_def dest: set_takeWhileD)
  then have "rev tl = replicate (length tl) z" by (intro replicate_eqI) auto
  moreover have "length s - length dl = length tl" by (simp add: s)
  ultimately show ?thesis by (simp flip: dl_def) (metis s)
qed

lemma undigits_zeros: "undigits 10 (s @ replicate k (CHR ''0'')) = undigits 10 s * 10 ^ k"
proof (induction k)
  case (Suc k)
  then show ?case by (simp add: undigits_def digit_val_def flip: replicate_append_same)
qed simp

lemma parse_frac_text: "ns < 10 ^ 9 \<Longrightarrow> parse_frac (frac_text ns @ ''Z'') = Some ns"
proof (cases "ns = 0")
  case False
  assume ns: "ns < 10 ^ 9"
  define ds where "ds = rev (dropWhile (\<lambda>c. c = CHR ''0'') (rev (dec_pad 9 ns)))"
  have len: "length (dec_pad 9 ns) = 9" using ns by simp
  have split: "dec_pad 9 ns = ds @ replicate (9 - length ds) (CHR ''0'')"
    using strip_zeros [of "dec_pad 9 ns" "CHR ''0''"] by (simp add: ds_def len)
  then have v: "undigits 10 ds * 10 ^ (9 - length ds) = ns"
    using undigits_dec_pad [of 9 ns] undigits_zeros [of ds "9 - length ds"] by simp
  have le: "length ds \<le> 9" using arg_cong [OF split, of length] len by simp
  have "ds \<noteq> []" using v False by (auto simp: undigits_def)
  moreover have "list_all ascii_digit ds" using dec_pad_digits [of 9 ns] by (simp add: split)
  ultimately have "parse_num ds = Some (undigits 10 ds)" by (simp add: parse_num_def)
  then show ?thesis using False v le by (simp add: frac_text_def parse_frac_def flip: ds_def) 
qed (simp add: frac_text_def parse_frac_def)

lemma parse_RFC3339Nano_format:
  assumes "time_ok t"
  shows "parse_RFC3339Nano (RFC3339Nano t) = Some t"
proof -
  let ?s = "nat t div 10 ^ 9" and ?n = "nat t mod 10 ^ 9"
  have s: "?s < 252288000000" using assms by (simp add: time_ok_def less_mult_imp_div_less nat_less_iff)
  have len: "length (clock_text (CHR '':'') ?s) = 19"
  proof (rule clock_fields [OF s, of "CHR '':''"])
    fix y m d
    assume c: "clock_text (CHR '':'') ?s = dec_pad 4 y @ ''-'' @ dec_pad 2 m @ ''-'' @ dec_pad 2 (d + 1) @ ''T'' @
      dec_pad 2 (?s mod 86400 div 3600) @ [CHR '':''] @ dec_pad 2 (?s mod 86400 div 60 mod 60) @ [CHR '':''] @ dec_pad 2 (?s mod 60)"
      "y < 10 ^ 4" "m \<le> 12" "d + 1 < 10 ^ 2"
    have "?s mod 86400 div 3600 < 24" by (simp add: less_mult_imp_div_less)
    then show ?thesis using c(2-4) unfolding c(1) by simp
  qed
  have "int ?s * 10 ^ 9 + int ?n = t"
  proof -
    have "int (?s * 10 ^ 9 + ?n) = int (nat t)" by (simp only: div_mult_mod_eq)
    then have "int ?s * 10 ^ 9 + int ?n = int (nat t)" by (simp only: of_nat_add of_nat_mult of_nat_power of_nat_numeral)
    then show ?thesis using assms by (simp only: time_ok_def) simp
  qed
  then show ?thesis
    using len parse_clock_text [OF s] parse_frac_text [of ?n] by (simp add: parse_RFC3339Nano_def RFC3339Nano_def)
qed

end
