(* ===== verification/Api_Store.thy ===== *)
theory Api_Store
  imports Go_Time Config_Load "HOL-Library.AList" "HOL-Library.List_Lexorder" "HOL-Library.Char_ord"
begin

text \<open>
  The run stores of \<^verbatim>\<open>apps/api/internal/runs\<close>: \<open>mem_store\<close> is \<^verbatim>\<open>MemoryStore\<close> of \<^verbatim>\<open>store.go\<close>
  and a list of rows in insertion order is the table of \<^verbatim>\<open>SQLiteStore\<close> of \<^verbatim>\<open>sqlite_store.go\<close>.
  The \<^verbatim>\<open>Store\<close> interface is the record \<open>store_if\<close>, its laws are the locale \<open>run_store\<close>, and
  both stores interpret it. The texts of \<^verbatim>\<open>encoding/json\<close> are those of a codec \<open>json_codec\<close>;
  a summary is of an abstract type. Each call brings the clock, two random bytes and the
  errors of the database (\<open>call_env\<close>).
\<close>

section \<open>Runs\<close>

abbreviation (input) StatusQueued :: string where "StatusQueued \<equiv> ''queued''"
abbreviation (input) StatusRunning :: string where "StatusRunning \<equiv> ''running''"
abbreviation (input) StatusSucceeded :: string where "StatusSucceeded \<equiv> ''succeeded''"
abbreviation (input) StatusFailed :: string where "StatusFailed \<equiv> ''failed''"
abbreviation (input) StatusCancelling :: string where "StatusCancelling \<equiv> ''cancelling''"
abbreviation (input) StatusCancelled :: string where "StatusCancelled \<equiv> ''cancelled''"

record api_progress =
  ap_ElapsedMs :: int
  ap_Total :: int
  ap_Activated :: int
  ap_Established :: int
  ap_Failed :: int

record 's api_run =
  ar_ID :: string
  ar_Name :: string
  ar_Status :: string
  ar_CreatedAt :: int
  ar_StartedAt :: "int option"
  ar_FinishedAt :: "int option"
  ar_Config :: "config option"
  ar_Progress :: api_progress
  ar_Summary :: "'s option"

definition ErrNotFound :: goerr where "ErrNotFound = Sentinel ''run not found''"
definition ErrConflict :: goerr where "ErrConflict = Sentinel ''another run is already in progress''"

definition status_active :: "string \<Rightarrow> bool" where
  "status_active st \<longleftrightarrow> st = StatusQueued \<or> st = StatusRunning \<or> st = StatusCancelling"

definition isTerminal :: "string \<Rightarrow> bool" where
  "isTerminal st \<longleftrightarrow> st = StatusSucceeded \<or> st = StatusFailed \<or> st = StatusCancelled"

record call_env =
  ce_now :: int
  ce_rand :: bytes
  ce_query :: "goerr option"
  ce_exec :: "goerr option"

definition hex_bytes :: "bytes \<Rightarrow> string" where
  "hex_bytes bs = concat (map (\<lambda>b. hex_pad 2 (unat b)) bs)"

definition generateID :: "int \<Rightarrow> bytes \<Rightarrow> string" where
  "generateID now rnd = ''run-'' @ clock_text (CHR ''-'') (nat now div 10 ^ 9) @ ''Z-'' @ hex_bytes rnd"

definition subscriberCount :: "config option \<Rightarrow> int" where
  "subscriberCount c = (case c of None \<Rightarrow> 0 | Some c \<Rightarrow> su_Count (cfg_Subscribers c))"

definition new_run :: "call_env \<Rightarrow> string \<Rightarrow> config option \<Rightarrow> 's api_run" where
  "new_run c name cfg =
     (let rid = generateID (ce_now c) (ce_rand c) in
      \<lparr>ar_ID = rid, ar_Name = (if name = [] then rid else name), ar_Status = StatusQueued, ar_CreatedAt = ce_now c,
       ar_StartedAt = None, ar_FinishedAt = None, ar_Config = cfg,
       ar_Progress = \<lparr>ap_ElapsedMs = 0, ap_Total = subscriberCount cfg, ap_Activated = 0, ap_Established = 0, ap_Failed = 0\<rparr>,
       ar_Summary = None\<rparr>)"

definition set_status :: "int \<Rightarrow> string \<Rightarrow> 's api_run \<Rightarrow> 's api_run" where
  "set_status now st r0 =
     (let r = r0\<lparr>ar_Status := st\<rparr> in
      if st = StatusRunning then (if ar_StartedAt r = None then r\<lparr>ar_StartedAt := Some now\<rparr> else r)
      else if isTerminal st then (if ar_FinishedAt r = None then r\<lparr>ar_FinishedAt := Some now\<rparr> else r)
      else r)"

section \<open>The memory store\<close>

record 's mem_store =
  mt_runs :: "(string \<times> 's api_run) list"
  mt_order :: "string list"

definition NewMemoryStore :: "'s mem_store" where
  "NewMemoryStore = \<lparr>mt_runs = [], mt_order = []\<rparr>"

definition mt_HasActive :: "'s mem_store \<Rightarrow> bool" where
  "mt_HasActive s = list_ex (\<lambda>(_, r). status_active (ar_Status r)) (mt_runs s)"

definition mt_Create :: "call_env \<Rightarrow> string \<Rightarrow> config option \<Rightarrow> 's mem_store \<Rightarrow> 's mem_store \<times> 's api_run res" where
  "mt_Create c name cfg s =
     (if mt_HasActive s then (s, Inl ErrConflict)
      else let r = new_run c name cfg in
        (s\<lparr>mt_runs := AList.update (ar_ID r) r (mt_runs s), mt_order := mt_order s @ [ar_ID r]\<rparr>, Inr r))"

definition mt_Get :: "string \<Rightarrow> 's mem_store \<Rightarrow> 's api_run res" where
  "mt_Get rid s = (case map_of (mt_runs s) rid of None \<Rightarrow> Inl ErrNotFound | Some r \<Rightarrow> Inr r)"

definition mt_update :: "string \<Rightarrow> ('s api_run \<Rightarrow> 's api_run) \<Rightarrow> 's mem_store \<Rightarrow> 's mem_store \<times> 's api_run res" where
  "mt_update rid f s = (case map_of (mt_runs s) rid of
       None \<Rightarrow> (s, Inl ErrNotFound)
     | Some r \<Rightarrow> (s\<lparr>mt_runs := AList.update rid (f r) (mt_runs s)\<rparr>, Inr (f r)))"

definition mt_UpdateStatus :: "call_env \<Rightarrow> string \<Rightarrow> string \<Rightarrow> 's mem_store \<Rightarrow> 's mem_store \<times> 's api_run res" where
  "mt_UpdateStatus c rid st = mt_update rid (set_status (ce_now c) st)"

definition mt_UpdateProgress :: "string \<Rightarrow> api_progress \<Rightarrow> 's mem_store \<Rightarrow> 's mem_store \<times> 's api_run res" where
  "mt_UpdateProgress rid p = mt_update rid (\<lambda>r. r\<lparr>ar_Progress := p\<rparr>)"

definition mt_SetSummary :: "string \<Rightarrow> 's option \<Rightarrow> 's mem_store \<Rightarrow> 's mem_store \<times> 's api_run res" where
  "mt_SetSummary rid x = mt_update rid (\<lambda>r. r\<lparr>ar_Summary := x\<rparr>)"

text \<open>The loop goes from the newest identifier back; the stable sort is by descending creation time.\<close>

fun list_loop :: "(string \<times> 's api_run) list \<Rightarrow> int \<Rightarrow> string \<Rightarrow> string list \<Rightarrow> 's api_run list \<Rightarrow> 's api_run list" where
  "list_loop rs limit status [] out = out"
| "list_loop rs limit status (rid # ids) out =
     (case map_of rs rid of
        None \<Rightarrow> list_loop rs limit status ids out
      | Some r \<Rightarrow>
          if status \<noteq> [] \<and> ar_Status r \<noteq> status then list_loop rs limit status ids out
          else if limit > 0 \<and> int (length (out @ [r])) \<ge> limit then out @ [r]
          else list_loop rs limit status ids (out @ [r]))"

definition sort_desc :: "('a \<Rightarrow> 'b :: linorder) \<Rightarrow> 'a list \<Rightarrow> 'a list" where
  "sort_desc key xs = rev (sort_key key (rev xs))"

definition mt_List :: "int \<Rightarrow> string \<Rightarrow> 's mem_store \<Rightarrow> 's api_run list" where
  "mt_List limit status s = sort_desc ar_CreatedAt (list_loop (mt_runs s) limit status (rev (mt_order s)) [])"

section \<open>The SQLite store\<close>

record sq_row =
  ro_id :: string
  ro_name :: string
  ro_status :: string
  ro_created_at :: string
  ro_started_at :: "string option"
  ro_finished_at :: "string option"
  ro_config_json :: string
  ro_progress_json :: string
  ro_summary_json :: "string option"

text \<open>
  Decoding into a struct that is already filled leaves what it cannot decode alone, so
  \<open>jc_progress_of\<close> gives what the text leaves in a zero struct; \<open>jc_reason\<close> is the text after
  decoding into a map, setting \<^verbatim>\<open>reason\<close> and encoding the map.
\<close>

record 's json_codec =
  jc_config :: "config option \<Rightarrow> string res"
  jc_config_of :: "string \<Rightarrow> config option"
  jc_progress :: "api_progress \<Rightarrow> string"
  jc_progress_of :: "string \<Rightarrow> api_progress"
  jc_summary :: "'s option \<Rightarrow> string res"
  jc_summary_of :: "string \<Rightarrow> 's option"
  jc_reason :: "string \<Rightarrow> string"

definition progress_zero :: api_progress where
  "progress_zero = \<lparr>ap_ElapsedMs = 0, ap_Total = 0, ap_Activated = 0, ap_Established = 0, ap_Failed = 0\<rparr>"

definition parse_time_or :: "int \<Rightarrow> string \<Rightarrow> int" where
  "parse_time_or z s = (case parse_RFC3339Nano s of None \<Rightarrow> z | Some t \<Rightarrow> t)"

text \<open>A creation time that does not parse stays the zero time, which is long before the epoch.\<close>

definition zero_time :: int where
  "zero_time = - 62135596800 * 10 ^ 9"

definition scanRun :: "'s json_codec \<Rightarrow> sq_row \<Rightarrow> 's api_run" where
  "scanRun J row =
     \<lparr>ar_ID = ro_id row, ar_Name = ro_name row, ar_Status = ro_status row,
      ar_CreatedAt = parse_time_or zero_time (ro_created_at row),
      ar_StartedAt = Option.bind (ro_started_at row) parse_RFC3339Nano,
      ar_FinishedAt = Option.bind (ro_finished_at row) parse_RFC3339Nano,
      ar_Config = (if ro_config_json row = [] then None else jc_config_of J (ro_config_json row)),
      ar_Progress = (if ro_progress_json row = [] then progress_zero else jc_progress_of J (ro_progress_json row)),
      ar_Summary = Option.bind (ro_summary_json row) (\<lambda>s. if s = [] then None else jc_summary_of J s)\<rparr>"

definition nullableTime :: "int option \<Rightarrow> string option" where
  "nullableTime t = map_option RFC3339Nano t"

definition sq_find :: "string \<Rightarrow> sq_row list \<Rightarrow> sq_row option" where
  "sq_find rid db = find (\<lambda>row. ro_id row = rid) db"

definition sq_set :: "string \<Rightarrow> (sq_row \<Rightarrow> sq_row) \<Rightarrow> sq_row list \<Rightarrow> sq_row list" where
  "sq_set rid f db = map (\<lambda>row. if ro_id row = rid then f row else row) db"

definition sq_Get :: "'s json_codec \<Rightarrow> call_env \<Rightarrow> string \<Rightarrow> sq_row list \<Rightarrow> 's api_run res" where
  "sq_Get J c rid db = (case ce_query c of Some err \<Rightarrow> Inl err
     | None \<Rightarrow> (case sq_find rid db of None \<Rightarrow> Inl ErrNotFound | Some row \<Rightarrow> Inr (scanRun J row)))"

definition sq_hasActiveLocked :: "call_env \<Rightarrow> sq_row list \<Rightarrow> bool res" where
  "sq_hasActiveLocked c db = (case ce_query c of Some err \<Rightarrow> Inl (Wrap ''count active: '' err [])
     | None \<Rightarrow> Inr (length (filter (\<lambda>row. status_active (ro_status row)) db) > 0))"

definition sq_HasActive :: "call_env \<Rightarrow> sq_row list \<Rightarrow> bool" where
  "sq_HasActive c db = (case sq_hasActiveLocked c db of Inl err \<Rightarrow> False | Inr a \<Rightarrow> a)"

text \<open>The insertion fails when the database does, and on a second row with the same primary key.\<close>

definition sq_insert :: "call_env \<Rightarrow> sq_row \<Rightarrow> sq_row list \<Rightarrow> goerr option" where
  "sq_insert c row db = (case ce_exec c of Some err \<Rightarrow> Some err
     | None \<Rightarrow> if sq_find (ro_id row) db \<noteq> None
         then Some (Plain ''constraint failed: UNIQUE constraint failed: runs.id (1555)'') else None)"

definition sq_Create :: "'s json_codec \<Rightarrow> call_env \<Rightarrow> string \<Rightarrow> config option \<Rightarrow> sq_row list \<Rightarrow> sq_row list \<times> 's api_run res" where
  "sq_Create J c name cfg db =
     (case sq_hasActiveLocked c db of
        Inl err \<Rightarrow> (db, Inl err)
      | Inr True \<Rightarrow> (db, Inl ErrConflict)
      | Inr False \<Rightarrow>
         (let r = new_run c name cfg in
          case jc_config J cfg of
            Inl err \<Rightarrow> (db, Inl (Wrap ''marshal config: '' err []))
          | Inr cfgJSON \<Rightarrow>
             (let row = \<lparr>ro_id = ar_ID r, ro_name = ar_Name r, ro_status = ar_Status r,
                  ro_created_at = RFC3339Nano (ar_CreatedAt r), ro_started_at = None, ro_finished_at = None,
                  ro_config_json = cfgJSON, ro_progress_json = jc_progress J (ar_Progress r), ro_summary_json = None\<rparr>
              in case sq_insert c row db of
                   Some err \<Rightarrow> (db, Inl (Wrap ''insert run: '' err []))
                 | None \<Rightarrow> (db @ [row], Inr r))))"

definition sq_update :: "'s json_codec \<Rightarrow> call_env \<Rightarrow> string \<Rightarrow> string \<Rightarrow> ('s api_run \<Rightarrow> 's api_run) \<Rightarrow>
    ('s api_run \<Rightarrow> sq_row \<Rightarrow> sq_row) \<Rightarrow> sq_row list \<Rightarrow> sq_row list \<times> 's api_run res" where
  "sq_update J c what rid f cols db =
     (case sq_Get J c rid db of
        Inl err \<Rightarrow> (db, Inl err)
      | Inr r0 \<Rightarrow>
         (let r = f r0 in
          case ce_exec c of Some err \<Rightarrow> (db, Inl (Wrap (''update '' @ what @ '': '') err []))
          | None \<Rightarrow> (sq_set (ar_ID r) (cols r) db, Inr r)))"

definition sq_UpdateStatus :: "'s json_codec \<Rightarrow> call_env \<Rightarrow> string \<Rightarrow> string \<Rightarrow> sq_row list \<Rightarrow> sq_row list \<times> 's api_run res" where
  "sq_UpdateStatus J c rid st = sq_update J c ''status'' rid (set_status (ce_now c) st)
     (\<lambda>r row. row\<lparr>ro_status := ar_Status r, ro_started_at := nullableTime (ar_StartedAt r),
        ro_finished_at := nullableTime (ar_FinishedAt r)\<rparr>)"

definition sq_UpdateProgress :: "'s json_codec \<Rightarrow> call_env \<Rightarrow> string \<Rightarrow> api_progress \<Rightarrow> sq_row list \<Rightarrow> sq_row list \<times> 's api_run res" where
  "sq_UpdateProgress J c rid p = sq_update J c ''progress'' rid (\<lambda>r. r\<lparr>ar_Progress := p\<rparr>)
     (\<lambda>r row. row\<lparr>ro_progress_json := jc_progress J (ar_Progress r)\<rparr>)"

definition sq_SetSummary :: "'s json_codec \<Rightarrow> call_env \<Rightarrow> string \<Rightarrow> 's option \<Rightarrow> sq_row list \<Rightarrow> sq_row list \<times> 's api_run res" where
  "sq_SetSummary J c rid x db =
     (case sq_Get J c rid db of
        Inl err \<Rightarrow> (db, Inl err)
      | Inr r0 \<Rightarrow>
         (case jc_summary J x of Inl err \<Rightarrow> (db, Inl (Wrap ''marshal summary: '' err []))
          | Inr sumJSON \<Rightarrow> sq_update J c ''summary'' rid (\<lambda>r. r\<lparr>ar_Summary := x\<rparr>) (\<lambda>r row. row\<lparr>ro_summary_json := Some sumJSON\<rparr>) db))"

text \<open>Rows created at the same text come in insertion order here; the database leaves it open.\<close>

definition sq_List :: "'s json_codec \<Rightarrow> call_env \<Rightarrow> int \<Rightarrow> string \<Rightarrow> sq_row list \<Rightarrow> 's api_run list" where
  "sq_List J c limit status db =
     (let n = (if limit \<le> 0 \<or> limit > 10000 then 10000 else limit) in
      case ce_query c of Some err \<Rightarrow> []
      | None \<Rightarrow> map (scanRun J) (take (nat n) (sort_desc ro_created_at
          (filter (\<lambda>row. status = [] \<or> ro_status row = status) db))))"

subsection \<open>Opening\<close>

fun reap_loop :: "'s json_codec \<Rightarrow> int \<Rightarrow> (string \<Rightarrow> goerr option) \<Rightarrow> sq_row list \<Rightarrow> sq_row list \<Rightarrow> sq_row list \<times> goerr option" where
  "reap_loop J now exec [] db = (db, None)"
| "reap_loop J now exec (o1 # os) db =
     (case exec (ro_id o1) of
        Some err \<Rightarrow> (db, Some (Wrap (''mark orphan '' @ ro_id o1 @ '' failed: '') err []))
      | None \<Rightarrow> reap_loop J now exec os (sq_set (ro_id o1) (\<lambda>row. row\<lparr>ro_status := StatusFailed,
          ro_finished_at := (case ro_finished_at row of None \<Rightarrow> Some (RFC3339Nano now) | Some t \<Rightarrow> Some t),
          ro_progress_json := jc_reason J (ro_progress_json o1)\<rparr>) db))"

text \<open>The driver's errors: scanning the row of a run, at the end of the iteration, and updating a run.\<close>

record reap_io =
  rp_scan :: "string \<Rightarrow> goerr option"
  rp_rows :: "goerr option"
  rp_exec :: "string \<Rightarrow> goerr option"

fun scan_orphans :: "(string \<Rightarrow> goerr option) \<Rightarrow> sq_row list \<Rightarrow> goerr option" where
  "scan_orphans scan [] = None"
| "scan_orphans scan (row # rows) =
     (case scan (ro_id row) of Some err \<Rightarrow> Some (Wrap ''scan orphan: '' err []) | None \<Rightarrow> scan_orphans scan rows)"

definition reapOrphans :: "'s json_codec \<Rightarrow> call_env \<Rightarrow> reap_io \<Rightarrow> sq_row list \<Rightarrow> sq_row list \<times> goerr option" where
  "reapOrphans J c io db =
     (case ce_query c of Some err \<Rightarrow> (db, Some (Wrap ''query orphans: '' err []))
      | None \<Rightarrow>
        (let orphans = filter (\<lambda>row. status_active (ro_status row)) db in
         case scan_orphans (rp_scan io) orphans of Some err \<Rightarrow> (db, Some err)
         | None \<Rightarrow> (case rp_rows io of Some err \<Rightarrow> (db, Some (Wrap ''iterate orphans: '' err []))
           | None \<Rightarrow> reap_loop J (ce_now c) (rp_exec io) orphans db)))"

text \<open>\<open>db\<close> is the table of the file, empty for a new one; \<open>opened\<close> and \<open>schema\<close> are the driver's errors.\<close>

definition NewSQLiteStore :: "'s json_codec \<Rightarrow> (string \<Rightarrow> string) \<Rightarrow> call_env \<Rightarrow> goerr option \<Rightarrow> goerr option \<Rightarrow>
    reap_io \<Rightarrow> string \<Rightarrow> sq_row list \<Rightarrow> sq_row list \<times> goerr option" where
  "NewSQLiteStore J fmt_q c opened schema io path db =
     (case opened of Some err \<Rightarrow> (db, Some (Wrap (''open sqlite at '' @ fmt_q path @ '': '') err []))
      | None \<Rightarrow> (case schema of Some err \<Rightarrow> (db, Some (Wrap ''apply schema: '' err []))
        | None \<Rightarrow> (case reapOrphans J c io db of
            (db', Some err) \<Rightarrow> (db', Some (Wrap ''reap orphans: '' err []))
          | (db', None) \<Rightarrow> (db', None))))"

section \<open>The interface\<close>

record ('st, 's) store_if =
  si_Create :: "call_env \<Rightarrow> string \<Rightarrow> config option \<Rightarrow> 'st \<Rightarrow> 'st \<times> 's api_run res"
  si_Get :: "call_env \<Rightarrow> string \<Rightarrow> 'st \<Rightarrow> 's api_run res"
  si_List :: "call_env \<Rightarrow> int \<Rightarrow> string \<Rightarrow> 'st \<Rightarrow> 's api_run list"
  si_UpdateStatus :: "call_env \<Rightarrow> string \<Rightarrow> string \<Rightarrow> 'st \<Rightarrow> 'st \<times> 's api_run res"
  si_UpdateProgress :: "call_env \<Rightarrow> string \<Rightarrow> api_progress \<Rightarrow> 'st \<Rightarrow> 'st \<times> 's api_run res"
  si_SetSummary :: "call_env \<Rightarrow> string \<Rightarrow> 's option \<Rightarrow> 'st \<Rightarrow> 'st \<times> 's api_run res"
  si_HasActive :: "call_env \<Rightarrow> 'st \<Rightarrow> bool"

definition MemoryStore :: "('s mem_store, 's) store_if" where
  "MemoryStore = \<lparr>si_Create = mt_Create, si_Get = (\<lambda>_. mt_Get), si_List = (\<lambda>_. mt_List), si_UpdateStatus = mt_UpdateStatus,
     si_UpdateProgress = (\<lambda>_. mt_UpdateProgress), si_SetSummary = (\<lambda>_. mt_SetSummary), si_HasActive = (\<lambda>_. mt_HasActive)\<rparr>"

definition SQLiteStore :: "'s json_codec \<Rightarrow> (sq_row list, 's) store_if" where
  "SQLiteStore J = \<lparr>si_Create = sq_Create J, si_Get = sq_Get J, si_List = sq_List J, si_UpdateStatus = sq_UpdateStatus J,
     si_UpdateProgress = sq_UpdateProgress J, si_SetSummary = sq_SetSummary J, si_HasActive = sq_HasActive\<rparr>"

section \<open>The contract\<close>

definition call_fine :: "call_env \<Rightarrow> bool" where
  "call_fine c \<longleftrightarrow> ce_query c = None \<and> ce_exec c = None"

text \<open>
  What the clients of a store rely on: \<open>status\<close> is its table of statuses and \<open>ok\<close> its
  invariant. A failed operation changes nothing.
\<close>

locale run_store =
  fixes I :: "('st, 's) store_if" and ok :: "'st \<Rightarrow> bool" and status :: "'st \<Rightarrow> string \<Rightarrow> string option"
  assumes get_some: "ok s \<Longrightarrow> si_Get I c rid s = Inr r \<Longrightarrow> ar_ID r = rid \<and> status s rid = Some (ar_Status r)"
    and get_none: "ok s \<Longrightarrow> call_fine c \<Longrightarrow> si_Get I c rid s = Inl e \<Longrightarrow> e = ErrNotFound \<and> status s rid = None"
    and created: "ok s \<Longrightarrow> si_Create I c name cfg s = (s', Inr r) \<Longrightarrow> ok s' \<and> ar_Status r = StatusQueued \<and>
      status s' = (status s)(ar_ID r \<mapsto> StatusQueued) \<and> (\<forall>i st. status s i = Some st \<longrightarrow> \<not> status_active st)"
    and create_failed: "si_Create I c name cfg s = (s', Inl e) \<Longrightarrow> s' = s"
    and conflict: "ok s \<Longrightarrow> call_fine c \<Longrightarrow> status s i = Some st \<Longrightarrow> status_active st \<Longrightarrow> si_Create I c name cfg s = (s, Inl ErrConflict)"
    and updated: "ok s \<Longrightarrow> si_UpdateStatus I c rid st s = (s', Inr r) \<Longrightarrow> ok s' \<and> ar_ID r = rid \<and> ar_Status r = st \<and>
      status s' = (status s)(rid \<mapsto> st) \<and> status s rid \<noteq> None"
    and update_failed: "si_UpdateStatus I c rid st s = (s', Inl e) \<Longrightarrow> s' = s"
    and update_fine: "ok s \<Longrightarrow> call_fine c \<Longrightarrow> si_UpdateStatus I c rid st s = (s', Inl e) \<Longrightarrow> status s rid = None"
    and progress_kept: "ok s \<Longrightarrow> si_UpdateProgress I c rid p s = (s', res) \<Longrightarrow> ok s' \<and> status s' = status s"
    and summary_kept: "ok s \<Longrightarrow> si_SetSummary I c rid x s = (s', res) \<Longrightarrow> ok s' \<and> status s' = status s"
    and has_active: "ok s \<Longrightarrow> call_fine c \<Longrightarrow> si_HasActive I c s \<longleftrightarrow> (\<exists>i st. status s i = Some st \<and> status_active st)"
begin

lemma create_when_idle:
  "ok s \<Longrightarrow> call_fine c \<Longrightarrow> si_Create I c name cfg s = (s', Inr r) \<Longrightarrow> \<not> si_HasActive I c s \<and> si_HasActive I c s'"
  using created [of s c name cfg s' r] has_active [of s c] has_active [of s' c]
  by (auto simp: status_active_def)

lemma get_updated:
  "ok s \<Longrightarrow> call_fine c \<Longrightarrow> call_fine c' \<Longrightarrow> status s rid \<noteq> None \<Longrightarrow>
   \<exists>r. si_Get I c' rid (fst (si_UpdateStatus I c rid st s)) = Inr r \<and> ar_Status r = st"
proof -
  assume a: "ok s" "call_fine c" "call_fine c'" "status s rid \<noteq> None"
  obtain s' x where u: "si_UpdateStatus I c rid st s = (s', x)" by (cases "si_UpdateStatus I c rid st s")
  with a update_fine obtain r where "x = Inr r" by (cases x) auto
  with u updated a have s': "ok s'" "status s' rid = Some st" by auto
  then show ?thesis using get_some [OF s'(1), of c' rid] get_none [OF s'(1) a(3), of rid] u
    by (cases "si_Get I c' rid s'") auto
qed

end

definition mt_status :: "'s mem_store \<Rightarrow> string \<Rightarrow> string option" where
  "mt_status s rid = map_option ar_Status (map_of (mt_runs s) rid)"

definition mt_ok :: "'s mem_store \<Rightarrow> bool" where
  "mt_ok s \<longleftrightarrow> distinct (map fst (mt_runs s)) \<and> (\<forall>(rid, r) \<in> set (mt_runs s). ar_ID r = rid)"

lemma set_status_fields [simp]:
  "ar_ID (set_status now st r) = ar_ID r" "ar_Status (set_status now st r) = st" "ar_Name (set_status now st r) = ar_Name r"
  "ar_CreatedAt (set_status now st r) = ar_CreatedAt r" "ar_Config (set_status now st r) = ar_Config r"
  "ar_Progress (set_status now st r) = ar_Progress r" "ar_Summary (set_status now st r) = ar_Summary r"
  by (simp_all add: set_status_def Let_def)

lemma new_run_fields [simp]:
  "ar_Status (new_run c name cfg) = StatusQueued" "ar_ID (new_run c name cfg) = generateID (ce_now c) (ce_rand c)"
  by (simp_all add: new_run_def Let_def)

lemma mt_ok_update: "mt_ok s \<Longrightarrow> ar_ID r = rid \<Longrightarrow> mt_ok (s\<lparr>mt_runs := AList.update rid r (mt_runs s), mt_order := ord\<rparr>)"
proof -
  assume s: "mt_ok s" and r: "ar_ID r = rid"
  have d: "distinct (map fst (AList.update rid r (mt_runs s)))" using s by (simp add: mt_ok_def distinct_update)
  have "ar_ID x = k" if "(k, x) \<in> set (AList.update rid r (mt_runs s))" for k x
  proof -
    from that d have "map_of (AList.update rid r (mt_runs s)) k = Some x" by simp
    then show ?thesis using s r by (auto simp: update_conv' mt_ok_def split: if_splits dest!: map_of_SomeD)
  qed
  with d show ?thesis by (auto simp: mt_ok_def)
qed

lemma mt_status_update:
  "mt_status (s\<lparr>mt_runs := AList.update rid r (mt_runs s), mt_order := ord\<rparr>) = (mt_status s)(rid \<mapsto> ar_Status r)"
  by (auto simp: mt_status_def update_conv')

lemma mt_HasActive_iff:
  "mt_ok s \<Longrightarrow> mt_HasActive s \<longleftrightarrow> (\<exists>i st. mt_status s i = Some st \<and> status_active st)"
  by (fastforce simp: mt_HasActive_def mt_ok_def mt_status_def list_ex_iff map_of_eq_Some_iff)

lemma mt_update_cases:
  assumes "mt_ok s" "mt_update rid f s = (s', x)" "\<And>r. ar_ID (f r) = ar_ID r"
  shows "mt_ok s' \<and> (case x of Inl e \<Rightarrow> s' = s \<and> e = ErrNotFound \<and> mt_status s rid = None
    | Inr r \<Rightarrow> ar_ID r = rid \<and> mt_status s rid \<noteq> None \<and> mt_status s' = (mt_status s)(rid \<mapsto> ar_Status r) \<and>
        (\<exists>r0. map_of (mt_runs s) rid = Some r0 \<and> r = f r0))"
proof (cases "map_of (mt_runs s) rid")
  case None
  then show ?thesis using assms by (auto simp: mt_update_def mt_status_def)
next
  case (Some r0)
  then have "ar_ID r0 = rid" using assms(1) by (auto simp: mt_ok_def dest: map_of_SomeD)
  then have "ar_ID (f r0) = rid" using assms(3) by simp
  then show ?thesis
    using Some assms mt_ok_update [of s "f r0" rid "mt_order s"] mt_status_update [of "mt_order s" rid "f r0" s]
    by (auto simp: mt_update_def mt_status_def)
qed

interpretation mem: run_store MemoryStore mt_ok mt_status
proof unfold_locales
  fix s :: "'s mem_store" and c rid r
  assume "mt_ok s" "si_Get MemoryStore c rid s = Inr r"
  then show "ar_ID r = rid \<and> mt_status s rid = Some (ar_Status r)"
    by (auto simp: MemoryStore_def mt_Get_def mt_status_def mt_ok_def split: option.splits dest: map_of_SomeD)
next
  fix s :: "'s mem_store" and c name cfg s' r
  assume "mt_ok s" "si_Create MemoryStore c name cfg s = (s', Inr r)"
  then show "mt_ok s' \<and> ar_Status r = StatusQueued \<and> mt_status s' = (mt_status s)(ar_ID r \<mapsto> StatusQueued) \<and>
      (\<forall>i st. mt_status s i = Some st \<longrightarrow> \<not> status_active st)"
    using mt_HasActive_iff [of s] by (auto simp: MemoryStore_def mt_Create_def Let_def mt_ok_update mt_status_update split: if_splits)
next
  fix s :: "'s mem_store" and c rid st s' r
  assume a: "mt_ok s" "si_UpdateStatus MemoryStore c rid st s = (s', Inr r)"
  then have "mt_update rid (set_status (ce_now c) st) s = (s', Inr r)" by (simp add: MemoryStore_def mt_UpdateStatus_def)
  from mt_update_cases [OF a(1) this]
  show "mt_ok s' \<and> ar_ID r = rid \<and> ar_Status r = st \<and> mt_status s' = (mt_status s)(rid \<mapsto> st) \<and> mt_status s rid \<noteq> None"
    by auto
next
  fix s :: "'s mem_store" and c rid p s' res
  assume a: "mt_ok s" "si_UpdateProgress MemoryStore c rid p s = (s', res)"
  then have "mt_update rid (\<lambda>r. r\<lparr>ar_Progress := p\<rparr>) s = (s', res)" by (simp add: MemoryStore_def mt_UpdateProgress_def)
  from mt_update_cases [OF a(1) this] show "mt_ok s' \<and> mt_status s' = mt_status s"
    by (auto simp: mt_status_def split: sum.splits)
next
  fix s :: "'s mem_store" and c rid x s' res
  assume a: "mt_ok s" "si_SetSummary MemoryStore c rid x s = (s', res)"
  then have "mt_update rid (\<lambda>r. r\<lparr>ar_Summary := x\<rparr>) s = (s', res)" by (simp add: MemoryStore_def mt_SetSummary_def)
  from mt_update_cases [OF a(1) this] show "mt_ok s' \<and> mt_status s' = mt_status s"
    by (auto simp: mt_status_def split: sum.splits)
qed (auto simp: MemoryStore_def mt_Get_def mt_status_def mt_Create_def mt_UpdateStatus_def mt_update_def mt_HasActive_iff Let_def
    split: option.splits if_splits)

definition sq_status :: "sq_row list \<Rightarrow> string \<Rightarrow> string option" where
  "sq_status db rid = map_option ro_status (sq_find rid db)"

definition sq_ok :: "sq_row list \<Rightarrow> bool" where
  "sq_ok db \<longleftrightarrow> distinct (map ro_id db)"

lemma scanRun_fields [simp]: "ar_ID (scanRun J row) = ro_id row" "ar_Status (scanRun J row) = ro_status row"
  by (simp_all add: scanRun_def)

lemma sq_find_SomeD: "sq_find rid db = Some row \<Longrightarrow> row \<in> set db \<and> ro_id row = rid"
  unfolding sq_find_def by (auto simp: find_Some_iff in_set_conv_nth)

lemma sq_find_None: "sq_find rid db = None \<longleftrightarrow> rid \<notin> set (map ro_id db)"
  by (auto simp: sq_find_def find_None_iff)

lemma sq_find_append: "sq_find rid (db @ [row]) = (case sq_find rid db of None \<Rightarrow> if ro_id row = rid then Some row else None | Some x \<Rightarrow> Some x)"
  by (induction db) (auto simp: sq_find_def)

lemma sq_find_set:
  "(\<And>row. ro_id (f row) = ro_id row) \<Longrightarrow> sq_find i (sq_set rid f db) = (if i = rid then map_option f (sq_find i db) else sq_find i db)"
  by (induction db) (auto simp: sq_find_def sq_set_def)

lemma sq_set_ids: "(\<And>row. ro_id (f row) = ro_id row) \<Longrightarrow> map ro_id (sq_set rid f db) = map ro_id db"
  by (induction db) (auto simp: sq_set_def)

lemma sq_find_in: "sq_ok db \<Longrightarrow> row \<in> set db \<Longrightarrow> sq_find (ro_id row) db = Some row"
  by (induction db) (auto simp: sq_ok_def sq_find_def)

lemma sq_active_iff:
  "sq_ok db \<Longrightarrow> 0 < length (filter (\<lambda>row. status_active (ro_status row)) db) \<longleftrightarrow> (\<exists>i st. sq_status db i = Some st \<and> status_active st)"
proof
  assume a: "sq_ok db" "0 < length (filter (\<lambda>row. status_active (ro_status row)) db)"
  then obtain row where "row \<in> set db" "status_active (ro_status row)" by (auto simp: filter_empty_conv)
  with sq_find_in [OF a(1)] show "\<exists>i st. sq_status db i = Some st \<and> status_active st" by (auto simp: sq_status_def intro!: exI)
next
  assume "\<exists>i st. sq_status db i = Some st \<and> status_active st"
  then show "0 < length (filter (\<lambda>row. status_active (ro_status row)) db)"
    by (auto simp: sq_status_def filter_empty_conv dest: sq_find_SomeD)
qed

lemma sq_update_cases:
  assumes "sq_update J c what rid f cols db = (db', x)" "\<And>r. ar_ID (f r) = ar_ID r" "\<And>r row. ro_id (cols r row) = ro_id row"
  shows "(sq_ok db \<longrightarrow> sq_ok db') \<and> (case x of Inl e \<Rightarrow> db' = db \<and> (call_fine c \<longrightarrow> e = ErrNotFound \<and> sq_status db rid = None)
    | Inr r \<Rightarrow> \<exists>row. sq_find rid db = Some row \<and> r = f (scanRun J row) \<and> ar_ID r = rid \<and> db' = sq_set rid (cols r) db)"
  using assms by (auto simp: sq_update_def sq_Get_def call_fine_def sq_status_def sq_ok_def Let_def sq_set_ids
    split: option.splits sum.splits dest: sq_find_SomeD)

interpretation sq: run_store "SQLiteStore J" sq_ok sq_status for J :: "'s json_codec"
proof unfold_locales
  fix db c rid r
  assume "sq_ok db" "si_Get (SQLiteStore J) c rid db = Inr r"
  then show "ar_ID r = rid \<and> sq_status db rid = Some (ar_Status r)"
    by (auto simp: SQLiteStore_def sq_Get_def sq_status_def split: option.splits dest: sq_find_SomeD)
next
  fix db c rid e
  assume "sq_ok db" "call_fine c" "si_Get (SQLiteStore J) c rid db = Inl e"
  then show "e = ErrNotFound \<and> sq_status db rid = None"
    by (auto simp: SQLiteStore_def sq_Get_def sq_status_def call_fine_def split: option.splits)
next
  fix db c name cfg db' r
  assume "sq_ok db" "si_Create (SQLiteStore J) c name cfg db = (db', Inr r)"
  then show "sq_ok db' \<and> ar_Status r = StatusQueued \<and> sq_status db' = (sq_status db)(ar_ID r \<mapsto> StatusQueued) \<and>
      (\<forall>i st. sq_status db i = Some st \<longrightarrow> \<not> status_active st)"
    using sq_active_iff [of db] sq_find_None [of "generateID (ce_now c) (ce_rand c)" db]
    by (auto simp: SQLiteStore_def sq_Create_def sq_hasActiveLocked_def sq_insert_def Let_def sq_ok_def sq_status_def
        sq_find_append fun_eq_iff split: option.splits sum.splits bool.splits if_splits)
next
  fix db c i st name cfg
  assume "sq_ok db" "call_fine c" "sq_status db i = Some st" "status_active st"
  then have "sq_hasActiveLocked c db = Inr True"
    using sq_active_iff [of db] by (auto simp: sq_hasActiveLocked_def call_fine_def)
  then show "si_Create (SQLiteStore J) c name cfg db = (db, Inl ErrConflict)"
    by (simp add: SQLiteStore_def sq_Create_def)
next
  fix db c rid st db' r
  assume a: "sq_ok db" "si_UpdateStatus (SQLiteStore J) c rid st db = (db', Inr r)"
  then have u: "sq_UpdateStatus J c rid st db = (db', Inr r)" by (simp add: SQLiteStore_def)
  from sq_update_cases [OF u [unfolded sq_UpdateStatus_def]] a(1)
  show "sq_ok db' \<and> ar_ID r = rid \<and> ar_Status r = st \<and> sq_status db' = (sq_status db)(rid \<mapsto> st) \<and> sq_status db rid \<noteq> None"
    by (auto simp: sq_status_def sq_find_set fun_eq_iff)
next
  fix db c rid st db' e
  assume a: "sq_ok db" "call_fine c" "si_UpdateStatus (SQLiteStore J) c rid st db = (db', Inl e)"
  then have u: "sq_UpdateStatus J c rid st db = (db', Inl e)" by (simp add: SQLiteStore_def)
  from sq_update_cases [OF u [unfolded sq_UpdateStatus_def]] a(2) show "sq_status db rid = None" by auto
next
  fix db c rid p db' x
  assume a: "sq_ok db" "si_UpdateProgress (SQLiteStore J) c rid p db = (db', x)"
  then have u: "sq_UpdateProgress J c rid p db = (db', x)" by (simp add: SQLiteStore_def)
  from sq_update_cases [OF u [unfolded sq_UpdateProgress_def]] a(1) show "sq_ok db' \<and> sq_status db' = sq_status db"
    by (auto simp: sq_status_def sq_find_set fun_eq_iff split: sum.splits)
next
  fix db c rid y db' x
  assume a: "sq_ok db" "si_SetSummary (SQLiteStore J) c rid y db = (db', x)"
  then have u: "sq_SetSummary J c rid y db = (db', x)" by (simp add: SQLiteStore_def)
  have same: "sq_status (sq_set rid (\<lambda>row. row\<lparr>ro_summary_json := v\<rparr>) db) = sq_status db" for v
    by (auto simp: sq_status_def sq_find_set fun_eq_iff option.map_comp comp_def)
  from u consider "db' = db" | t where "sq_update J c ''summary'' rid (\<lambda>r. r\<lparr>ar_Summary := y\<rparr>) (\<lambda>r row. row\<lparr>ro_summary_json := Some t\<rparr>) db = (db', x)"
    by (auto simp: sq_SetSummary_def split: sum.splits)
  then show "sq_ok db' \<and> sq_status db' = sq_status db"
  proof cases
    case (2 t)
    from sq_update_cases [OF this] a(1) same [of "Some t"] show ?thesis by (auto split: sum.splits)
  qed (use a in simp)
next
  fix db c
  assume "sq_ok db" "call_fine c"
  then show "si_HasActive (SQLiteStore J) c db \<longleftrightarrow> (\<exists>i st. sq_status db i = Some st \<and> status_active st)"
    using sq_active_iff [of db] by (simp add: SQLiteStore_def sq_HasActive_def sq_hasActiveLocked_def call_fine_def)
qed (auto simp: SQLiteStore_def sq_Create_def sq_UpdateStatus_def sq_update_def Let_def split: option.splits sum.splits bool.splits)

section \<open>The table refines the memory store\<close>

text \<open>
  \<open>sq_abs\<close> reads a table as a memory store. A sequence of operations of the interface is run on
  either store; \<open>op_fine\<close> is a call in which the database raises no error, whose time prints
  with a four-digit year and whose values survive their JSON text.
\<close>

definition sq_abs :: "'s json_codec \<Rightarrow> sq_row list \<Rightarrow> 's mem_store" where
  "sq_abs J db = \<lparr>mt_runs = map (\<lambda>row. (ro_id row, scanRun J row)) db, mt_order = map ro_id db\<rparr>"

datatype 's store_op =
    OpCreate call_env string "config option"
  | OpUpdateStatus call_env string string
  | OpUpdateProgress call_env string api_progress
  | OpSetSummary call_env string "'s option"

fun run_op :: "('st, 's) store_if \<Rightarrow> 's store_op \<Rightarrow> 'st \<Rightarrow> 'st \<times> 's api_run res" where
  "run_op I (OpCreate c name cfg) s = si_Create I c name cfg s"
| "run_op I (OpUpdateStatus c rid st) s = si_UpdateStatus I c rid st s"
| "run_op I (OpUpdateProgress c rid p) s = si_UpdateProgress I c rid p s"
| "run_op I (OpSetSummary c rid x) s = si_SetSummary I c rid x s"

fun run_ops :: "('st, 's) store_if \<Rightarrow> 's store_op list \<Rightarrow> 'st \<Rightarrow> 'st \<times> 's api_run res list" where
  "run_ops I [] s = (s, [])"
| "run_ops I (x # xs) s = (let (s1, r) = run_op I x s; (s2, rs) = run_ops I xs s1 in (s2, r # rs))"

fun op_call :: "'s store_op \<Rightarrow> call_env" where
  "op_call (OpCreate c _ _) = c"
| "op_call (OpUpdateStatus c _ _) = c"
| "op_call (OpUpdateProgress c _ _) = c"
| "op_call (OpSetSummary c _ _) = c"

definition progress_survives :: "'s json_codec \<Rightarrow> api_progress \<Rightarrow> bool" where
  "progress_survives J p \<longleftrightarrow> jc_progress J p \<noteq> [] \<and> jc_progress_of J (jc_progress J p) = p"

fun value_survives :: "'s json_codec \<Rightarrow> 's store_op \<Rightarrow> bool" where
  "value_survives J (OpCreate c name cfg) \<longleftrightarrow>
     (case jc_config J cfg of Inl _ \<Rightarrow> False | Inr t \<Rightarrow> t \<noteq> [] \<and> jc_config_of J t = cfg) \<and>
     progress_survives J (progress_zero\<lparr>ap_Total := subscriberCount cfg\<rparr>)"
| "value_survives J (OpUpdateStatus c rid st) \<longleftrightarrow> True"
| "value_survives J (OpUpdateProgress c rid p) \<longleftrightarrow> progress_survives J p"
| "value_survives J (OpSetSummary c rid x) \<longleftrightarrow>
     (case jc_summary J x of Inl _ \<Rightarrow> False | Inr t \<Rightarrow> t \<noteq> [] \<and> jc_summary_of J t = x)"

definition op_fine :: "'s json_codec \<Rightarrow> 's store_op \<Rightarrow> bool" where
  "op_fine J x \<longleftrightarrow> call_fine (op_call x) \<and> time_ok (ce_now (op_call x)) \<and> value_survives J x"

text \<open>The identifiers drawn by the creations of a sequence, and the times a table may hold.\<close>

fun op_ids :: "'s store_op list \<Rightarrow> string list" where
  "op_ids [] = []"
| "op_ids (OpCreate c _ _ # xs) = generateID (ce_now c) (ce_rand c) # op_ids xs"
| "op_ids (_ # xs) = op_ids xs"

definition row_times :: "sq_row \<Rightarrow> bool" where
  "row_times row \<longleftrightarrow> (\<forall>t. Option.bind (ro_started_at row) parse_RFC3339Nano = Some t \<longrightarrow> time_ok t) \<and>
     (\<forall>t. Option.bind (ro_finished_at row) parse_RFC3339Nano = Some t \<longrightarrow> time_ok t)"

definition table_ok :: "sq_row list \<Rightarrow> bool" where
  "table_ok db \<longleftrightarrow> sq_ok db \<and> (\<forall>row \<in> set db. row_times row)"

lemma abs_lookup: "map_of (mt_runs (sq_abs J db)) rid = map_option (scanRun J) (sq_find rid db)"
  by (induction db) (auto simp: sq_abs_def sq_find_def)

lemma abs_get: "call_fine c \<Longrightarrow> mt_Get rid (sq_abs J db) = sq_Get J c rid db"
  by (auto simp: mt_Get_def sq_Get_def abs_lookup call_fine_def split: option.splits)

lemma abs_active: "call_fine c \<Longrightarrow> sq_hasActiveLocked c db = Inr (mt_HasActive (sq_abs J db))"
  by (induction db) (auto simp: sq_hasActiveLocked_def call_fine_def mt_HasActive_def sq_abs_def)

lemma abs_set:
  assumes "sq_ok db" "sq_find rid db = Some row" "ro_id (f row) = rid"
  shows "map (\<lambda>row. (ro_id row, scanRun J row)) (sq_set rid f db) =
      AList.update rid (scanRun J (f row)) (map (\<lambda>row. (ro_id row, scanRun J row)) db)
    \<and> map ro_id (sq_set rid f db) = map ro_id db"
  using assms
proof (induction db)
  case (Cons r db)
  show ?case
  proof (cases "ro_id r = rid")
    case True
    then have "rid \<notin> ro_id ` set db" using Cons.prems(1) by (auto simp: sq_ok_def)
    then have "sq_set rid f db = db" by (auto simp: sq_set_def intro!: map_idI)
    moreover have "r = row" using Cons.prems(2) True by (simp add: sq_find_def)
    ultimately show ?thesis using True Cons.prems(3) by (simp add: sq_set_def)
  next
    case False
    then show ?thesis using Cons by (simp add: sq_ok_def sq_find_def sq_set_def)
  qed
qed (simp add: sq_find_def)

lemma abs_append:
  "sq_find (ro_id row) db = None \<Longrightarrow> map (\<lambda>row. (ro_id row, scanRun J row)) (db @ [row]) =
     AList.update (ro_id row) (scanRun J row) (map (\<lambda>row. (ro_id row, scanRun J row)) db)"
  by (induction db) (auto simp: sq_find_def)

lemma nullable_parse [simp]:
  "(\<And>t. x = Some t \<Longrightarrow> time_ok t) \<Longrightarrow> Option.bind (nullableTime x) parse_RFC3339Nano = x"
  by (cases x) (auto simp: nullableTime_def parse_RFC3339Nano_format)

text \<open>One update: the columns written hold the updated run.\<close>

lemma update_step:
  assumes "table_ok db" "call_fine c" and f: "\<And>r. ar_ID (f r) = ar_ID r" and cols: "\<And>r row. ro_id (cols r row) = ro_id row"
    and row: "\<And>row. sq_find rid db = Some row \<Longrightarrow> row_times row \<Longrightarrow>
      scanRun J (cols (f (scanRun J row)) row) = f (scanRun J row) \<and> row_times (cols (f (scanRun J row)) row)"
  shows "table_ok (fst (sq_update J c what rid f cols db)) \<and>
    mt_update rid f (sq_abs J db) =
      (sq_abs J (fst (sq_update J c what rid f cols db)), snd (sq_update J c what rid f cols db)) \<and>
    map ro_id (fst (sq_update J c what rid f cols db)) = map ro_id db"
proof (cases "sq_find rid db")
  case None
  then show ?thesis using assms(1,2) by (simp add: sq_update_def sq_Get_def mt_update_def abs_lookup call_fine_def)
next
  case (Some r0)
  let ?r = "f (scanRun J r0)"
  have r0: "ro_id r0 = rid" "r0 \<in> set db" using sq_find_SomeD [OF Some] by auto
  then have new: "scanRun J (cols ?r r0) = ?r" "row_times (cols ?r r0)" "ar_ID ?r = rid"
    using row [OF Some] assms(1) f by (auto simp: table_ok_def)
  have up: "sq_update J c what rid f cols db = (sq_set rid (cols ?r) db, Inr ?r)"
    using Some assms(2) new(3) by (simp add: sq_update_def sq_Get_def call_fine_def Let_def)
  have ok: "sq_ok db" using assms(1) by (simp add: table_ok_def)
  note set = abs_set [OF ok Some, of "cols ?r" J]
  have "row_times row" if "row \<in> set (sq_set rid (cols ?r) db)" for row
    using that assms(1) new(2) sq_find_in [OF ok] Some by (auto simp: sq_set_def table_ok_def split: if_splits)
  then have "table_ok (sq_set rid (cols ?r) db)" using ok sq_set_ids [of "cols ?r" rid db] cols by (simp add: table_ok_def sq_ok_def)
  then show ?thesis using set cols r0 new(1) unfolding up
    by (simp add: mt_update_def abs_lookup Some) (simp add: sq_abs_def)
qed

lemma scan_new_row:
  assumes "time_ok (ce_now c)" "t \<noteq> []" "jc_config_of J t = cfg" "progress_survives J (progress_zero\<lparr>ap_Total := subscriberCount cfg\<rparr>)"
  shows "scanRun J \<lparr>ro_id = ar_ID (new_run c name cfg), ro_name = ar_Name (new_run c name cfg), ro_status = ar_Status (new_run c name cfg),
    ro_created_at = RFC3339Nano (ar_CreatedAt (new_run c name cfg)), ro_started_at = None, ro_finished_at = None, ro_config_json = t,
    ro_progress_json = jc_progress J (ar_Progress (new_run c name cfg)), ro_summary_json = None\<rparr> = new_run c name cfg"
  using assms by (simp add: scanRun_def new_run_def parse_time_or_def parse_RFC3339Nano_format progress_survives_def progress_zero_def Let_def)

lemma create_step:
  assumes "table_ok db" "op_fine J (OpCreate c name cfg)" "generateID (ce_now c) (ce_rand c) \<notin> set (map ro_id db)"
  shows "table_ok (fst (sq_Create J c name cfg db)) \<and>
    mt_Create c name cfg (sq_abs J db) = (sq_abs J (fst (sq_Create J c name cfg db)), snd (sq_Create J c name cfg db)) \<and>
    set (map ro_id (fst (sq_Create J c name cfg db))) \<subseteq> insert (generateID (ce_now c) (ce_rand c)) (set (map ro_id db))"
proof (cases "mt_HasActive (sq_abs J db)")
  case True
  then show ?thesis using assms(1,2) by (auto simp: sq_Create_def abs_active [where J = J] mt_Create_def op_fine_def)
next
  case False
  let ?r = "new_run c name cfg :: 'a api_run"
  have c: "call_fine c" "time_ok (ce_now c)" and p: "progress_survives J (progress_zero\<lparr>ap_Total := subscriberCount cfg\<rparr>)"
    using assms(2) by (simp_all add: op_fine_def)
  obtain t where t: "jc_config J cfg = Inr t" "t \<noteq> []" "jc_config_of J t = cfg"
    using assms(2) by (auto simp: op_fine_def split: sum.splits)
  define row where "row = \<lparr>ro_id = ar_ID ?r, ro_name = ar_Name ?r, ro_status = ar_Status ?r,
    ro_created_at = RFC3339Nano (ar_CreatedAt ?r), ro_started_at = None, ro_finished_at = None, ro_config_json = t,
    ro_progress_json = jc_progress J (ar_Progress ?r), ro_summary_json = None\<rparr>"
  have row: "scanRun J row = ?r" using scan_new_row [OF c(2) t(2,3) p, of name] by (simp add: row_def)
  have rid: "ro_id row = generateID (ce_now c) (ce_rand c)" by (simp add: row_def)
  then have fresh: "sq_find (ro_id row) db = None" using assms(3) by (simp add: sq_find_None)
  have "sq_insert c row db = None" using fresh c by (simp add: sq_insert_def call_fine_def)
  then have new: "sq_Create J c name cfg db = (db @ [row], Inr ?r)"
    using False c t by (simp add: sq_Create_def abs_active [where J = J] row_def Let_def)
  have "table_ok (db @ [row])" using assms(1,3) rid by (auto simp: table_ok_def sq_ok_def row_times_def row_def)
  then show ?thesis
    using abs_append [OF fresh, of J] False rid unfolding new
    by (auto simp: mt_Create_def sq_abs_def row Let_def)
qed

lemma status_step:
  assumes "table_ok db" "op_fine J (OpUpdateStatus c rid st)"
  shows "table_ok (fst (sq_UpdateStatus J c rid st db)) \<and>
    mt_UpdateStatus c rid st (sq_abs J db) = (sq_abs J (fst (sq_UpdateStatus J c rid st db)), snd (sq_UpdateStatus J c rid st db)) \<and>
    map ro_id (fst (sq_UpdateStatus J c rid st db)) = map ro_id db"
  unfolding sq_UpdateStatus_def mt_UpdateStatus_def
proof (rule update_step)
  fix row assume "row_times row"
  define x where "x = set_status (ce_now c) st (scanRun J row)"
  have "\<And>t. ar_StartedAt x = Some t \<Longrightarrow> time_ok t" "\<And>t. ar_FinishedAt x = Some t \<Longrightarrow> time_ok t"
    using assms(2) \<open>row_times row\<close>
    by (auto simp: x_def set_status_def scanRun_def row_times_def op_fine_def Let_def split: if_splits)
  then have "scanRun J (row\<lparr>ro_status := ar_Status x, ro_started_at := nullableTime (ar_StartedAt x),
        ro_finished_at := nullableTime (ar_FinishedAt x)\<rparr>) =
      scanRun J row\<lparr>ar_Status := ar_Status x, ar_StartedAt := ar_StartedAt x, ar_FinishedAt := ar_FinishedAt x\<rparr>"
    "row_times (row\<lparr>ro_status := ar_Status x, ro_started_at := nullableTime (ar_StartedAt x),
        ro_finished_at := nullableTime (ar_FinishedAt x)\<rparr>)"
    by (simp_all add: scanRun_def row_times_def)
  moreover have "scanRun J row\<lparr>ar_Status := ar_Status x, ar_StartedAt := ar_StartedAt x, ar_FinishedAt := ar_FinishedAt x\<rparr> = x"
    by (simp add: x_def set_status_def Let_def)
  ultimately show "scanRun J (row\<lparr>ro_status := ar_Status x, ro_started_at := nullableTime (ar_StartedAt x),
        ro_finished_at := nullableTime (ar_FinishedAt x)\<rparr>) = x \<and>
      row_times (row\<lparr>ro_status := ar_Status x, ro_started_at := nullableTime (ar_StartedAt x),
        ro_finished_at := nullableTime (ar_FinishedAt x)\<rparr>)" by simp
qed (use assms in \<open>simp_all add: op_fine_def\<close>)

lemma progress_step:
  assumes "table_ok db" "op_fine J (OpUpdateProgress c rid p)"
  shows "table_ok (fst (sq_UpdateProgress J c rid p db)) \<and>
    mt_UpdateProgress rid p (sq_abs J db) = (sq_abs J (fst (sq_UpdateProgress J c rid p db)), snd (sq_UpdateProgress J c rid p db)) \<and>
    map ro_id (fst (sq_UpdateProgress J c rid p db)) = map ro_id db"
  unfolding sq_UpdateProgress_def mt_UpdateProgress_def
  by (rule update_step) (use assms in \<open>simp_all add: op_fine_def scanRun_def row_times_def progress_survives_def\<close>)

lemma summary_step:
  assumes "table_ok db" "op_fine J (OpSetSummary c rid x)"
  shows "table_ok (fst (sq_SetSummary J c rid x db)) \<and>
    mt_SetSummary rid x (sq_abs J db) = (sq_abs J (fst (sq_SetSummary J c rid x db)), snd (sq_SetSummary J c rid x db)) \<and>
    map ro_id (fst (sq_SetSummary J c rid x db)) = map ro_id db"
proof -
  obtain t where t: "jc_summary J x = Inr t" "t \<noteq> []" "jc_summary_of J t = x"
    using assms(2) by (auto simp: op_fine_def split: sum.splits)
  have c: "call_fine c" using assms(2) by (simp add: op_fine_def)
  let ?u = "sq_update J c ''summary'' rid (\<lambda>r. r\<lparr>ar_Summary := x\<rparr>) (\<lambda>r row. row\<lparr>ro_summary_json := Some t\<rparr>) db"
  have "sq_SetSummary J c rid x db = ?u"
    using t c by (auto simp: sq_SetSummary_def sq_update_def split: sum.splits)
  moreover have "table_ok (fst ?u) \<and> mt_update rid (\<lambda>r. r\<lparr>ar_Summary := x\<rparr>) (sq_abs J db) = (sq_abs J (fst ?u), snd ?u) \<and>
      map ro_id (fst ?u) = map ro_id db"
    by (rule update_step) (use assms t c in \<open>simp_all add: scanRun_def row_times_def\<close>)
  ultimately show ?thesis by (simp add: mt_SetSummary_def)
qed

lemma op_step:
  assumes "table_ok db" "op_fine J x" "set (op_ids [x]) \<inter> set (map ro_id db) = {}"
  shows "table_ok (fst (run_op (SQLiteStore J) x db)) \<and>
    run_op MemoryStore x (sq_abs J db) = (sq_abs J (fst (run_op (SQLiteStore J) x db)), snd (run_op (SQLiteStore J) x db)) \<and>
    set (map ro_id (fst (run_op (SQLiteStore J) x db))) \<subseteq> set (op_ids [x]) \<union> set (map ro_id db)"
proof (cases x)
  case (OpCreate c name cfg)
  then show ?thesis using create_step [of db J c name cfg] assms by (simp add: SQLiteStore_def MemoryStore_def)
next
  case (OpUpdateStatus c rid st)
  then show ?thesis using status_step [of db J c rid st] assms by (simp add: SQLiteStore_def MemoryStore_def flip: set_map)
next
  case (OpUpdateProgress c rid p)
  then show ?thesis using progress_step [of db J c rid p] assms by (simp add: SQLiteStore_def MemoryStore_def flip: set_map)
next
  case (OpSetSummary c rid y)
  then show ?thesis using summary_step [of db J c rid y] assms by (simp add: SQLiteStore_def MemoryStore_def flip: set_map)
qed

lemma op_ids_Cons: "op_ids (x # xs) = op_ids [x] @ op_ids xs"
  by (cases x) simp_all

lemma ops_refine:
  assumes "table_ok db" "\<forall>x \<in> set xs. op_fine J x" "distinct (op_ids xs)" "set (op_ids xs) \<inter> set (map ro_id db) = {}"
  shows "table_ok (fst (run_ops (SQLiteStore J) xs db)) \<and>
    run_ops MemoryStore xs (sq_abs J db) = (sq_abs J (fst (run_ops (SQLiteStore J) xs db)), snd (run_ops (SQLiteStore J) xs db))"
  using assms
proof (induction xs arbitrary: db)
  case (Cons x xs)
  obtain db1 r where x: "run_op (SQLiteStore J) x db = (db1, r)" by (cases "run_op (SQLiteStore J) x db")
  have ids: "set (op_ids [x]) \<inter> set (op_ids xs) = {}" "set (op_ids [x]) \<inter> set (map ro_id db) = {}"
    "set (op_ids xs) \<inter> set (map ro_id db) = {}" "distinct (op_ids xs)"
    using Cons.prems(3,4) unfolding op_ids_Cons [of x xs] by auto
  have step: "table_ok db1" "run_op MemoryStore x (sq_abs J db) = (sq_abs J db1, r)"
    "set (map ro_id db1) \<subseteq> set (op_ids [x]) \<union> set (map ro_id db)"
    using op_step [OF Cons.prems(1) _ ids(2), of J] Cons.prems(2) x by simp_all
  have "set (op_ids xs) \<inter> set (map ro_id db1) = {}" using step(3) ids by blast
  with Cons.IH [OF step(1) _ ids(4)] Cons.prems(2)
  show ?case using x step(2) by (auto split: prod.splits)
qed simp

text \<open>C7: over any sequence of operations that draws distinct identifiers, whose values survive their
  JSON text and during which the database raises no error, the SQLite store refines the memory store: the
  same results call by call, a final table that reads as the final memory store, and so the same answers
  of \<^verbatim>\<open>Get\<close> and \<^verbatim>\<open>HasActive\<close>.\<close>

theorem sqlite_refines_memory:
  assumes "\<forall>x \<in> set xs. op_fine J x" "distinct (op_ids xs)"
  shows "let (db, rs) = run_ops (SQLiteStore J) xs [] in
    run_ops MemoryStore xs NewMemoryStore = (sq_abs J db, rs) \<and>
    (\<forall>c rid. call_fine c \<longrightarrow> si_Get (SQLiteStore J) c rid db = si_Get MemoryStore c rid (sq_abs J db) \<and>
       (si_HasActive (SQLiteStore J) c db \<longleftrightarrow> si_HasActive MemoryStore c (sq_abs J db)))"
proof -
  have "table_ok []" "NewMemoryStore = sq_abs J []" by (simp_all add: table_ok_def sq_ok_def NewMemoryStore_def sq_abs_def)
  with ops_refine [of "[]" xs J] assms show ?thesis
    by (auto simp: Let_def SQLiteStore_def MemoryStore_def abs_get sq_HasActive_def abs_active [where J = J] split: prod.splits)
qed

definition demo_call :: "int \<Rightarrow> call_env" where
  "demo_call now = \<lparr>ce_now = now, ce_rand = [0x7f, 0x3a], ce_query = None, ce_exec = None\<rparr>"

definition demo_codec :: "unit json_codec" where
  "demo_codec = \<lparr>jc_config = (\<lambda>_. Inr ''{}''), jc_config_of = (\<lambda>_. Some demo_config), jc_progress = (\<lambda>_. ''{}''),
     jc_progress_of = (\<lambda>_. progress_zero\<lparr>ap_Total := subscriberCount (Some demo_config)\<rparr>), jc_summary = (\<lambda>_. Inr ''null''),
     jc_summary_of = (\<lambda>_. None), jc_reason = (\<lambda>_. ''{}'')\<rparr>"

definition demo_ops :: "unit store_op list" where
  "demo_ops = [OpCreate (demo_call 1100000000) ''a'' (Some demo_config),
     OpUpdateStatus (demo_call 1110000000) (generateID 1100000000 [0x7f, 0x3a]) StatusSucceeded,
     OpCreate (demo_call 2120000000) ''b'' (Some demo_config)]"

lemma digit_chars:
  "digit_char 0 = CHR ''0''" "digit_char (Suc 0) = CHR ''1''" "digit_char 2 = CHR ''2''" "digit_char 3 = CHR ''3''"
  "digit_char 4 = CHR ''4''" "digit_char 5 = CHR ''5''" "digit_char 6 = CHR ''6''" "digit_char 7 = CHR ''7''"
  "digit_char 8 = CHR ''8''" "digit_char 9 = CHR ''9''" "digit_char 10 = CHR ''a''" "digit_char 11 = CHR ''b''"
  "digit_char 12 = CHR ''c''" "digit_char 13 = CHR ''d''" "digit_char 14 = CHR ''e''" "digit_char 15 = CHR ''f''"
  by code_simp+

lemmas clock_eval = clock_text_def year_day.simps [of _ 0] month_lens_def leap_year_def year_len_def dec_pad_def pad0_def
  radix.simps digit_chars hex_bytes_def hex_pad_def

lemma demo_ids [simp]:
  "generateID 1100000000 [0x7f, 0x3a] = ''run-1970-01-01T00-00-01Z-7f3a''"
  "generateID 1120000000 [0x7f, 0x3b] = ''run-1970-01-01T00-00-01Z-7f3b''"
  "generateID 2120000000 [0x7f, 0x3a] = ''run-1970-01-01T00-00-02Z-7f3a''"
  by (simp_all add: generateID_def clock_eval)

lemma demo_times [simp]:
  "RFC3339Nano 1100000000 = ''1970-01-01T00:00:01.1Z''"
  "RFC3339Nano 1120000000 = ''1970-01-01T00:00:01.12Z''"
  "parse_RFC3339Nano ''1970-01-01T00:00:01.1Z'' = Some 1100000000"
  "parse_RFC3339Nano ''1970-01-01T00:00:01.12Z'' = Some 1120000000"
proof -
  show r: "RFC3339Nano 1100000000 = ''1970-01-01T00:00:01.1Z''" "RFC3339Nano 1120000000 = ''1970-01-01T00:00:01.12Z''"
    by (simp_all add: RFC3339Nano_def frac_text_def clock_eval)
  show "parse_RFC3339Nano ''1970-01-01T00:00:01.1Z'' = Some 1100000000" "parse_RFC3339Nano ''1970-01-01T00:00:01.12Z'' = Some 1120000000"
    unfolding r [symmetric] by (simp_all add: parse_RFC3339Nano_format time_ok_def)
qed

lemma sqlite_refines_memory_witness:
  "run_ops MemoryStore demo_ops NewMemoryStore =
     (sq_abs demo_codec (fst (run_ops (SQLiteStore demo_codec) demo_ops [])), snd (run_ops (SQLiteStore demo_codec) demo_ops []))"
proof -
  have "\<forall>x \<in> set demo_ops. op_fine demo_codec x"
    by (auto simp: demo_ops_def op_fine_def demo_call_def call_fine_def time_ok_def demo_codec_def progress_survives_def)
  moreover have "distinct (op_ids demo_ops)" by (simp add: demo_ops_def demo_call_def)
  ultimately show ?thesis using sqlite_refines_memory [of demo_ops demo_codec] by (auto simp: Let_def split: prod.splits)
qed

section \<open>Listing\<close>

lemma sort_key_unique:
  assumes "sorted_wrt (<) (map key xs)" "distinct ys" "set ys = set xs"
  shows "sort_key key ys = xs"
proof -
  have d: "distinct (map key xs)" "sorted (map key xs)" using assms(1) by (simp_all add: strict_sorted_iff)
  then have "inj_on key (set xs)" by (simp add: distinct_map)
  then show ?thesis
    using d assms(2,3) by (intro map_sorted_distinct_set_unique [of key]) (simp_all add: distinct_map)
qed

lemma sort_desc_rev:
  assumes "sorted_wrt (<) (map key xs)"
  shows "sort_desc key xs = rev xs" "sort_desc key (rev xs) = rev xs"
proof -
  have "distinct xs" using assms by (simp add: strict_sorted_iff distinct_map)
  then show "sort_desc key xs = rev xs" "sort_desc key (rev xs) = rev xs"
    using sort_key_unique [OF assms] by (simp_all add: sort_desc_def)
qed

lemma list_loop_take:
  "limit \<le> 0 \<or> int (length out) < limit \<Longrightarrow> list_loop rs limit status ids out = out @
     (if limit > 0 then take (nat limit - length out) else (\<lambda>xs. xs))
       (filter (\<lambda>r. status = [] \<or> ar_Status r = status) (List.map_filter (map_of rs) ids))"
proof (induction ids arbitrary: out)
  case (Cons i ids)
  show ?case
  proof (cases "map_of rs i")
    case (Some r)
    consider "status \<noteq> []" "ar_Status r \<noteq> status" | "status = [] \<or> ar_Status r = status" "limit > 0" "int (length out) + 1 \<ge> limit"
      | "status = [] \<or> ar_Status r = status" "limit \<le> 0 \<or> int (length out) + 1 < limit" by linarith
    then show ?thesis
    proof cases
      case 2
      then have "nat limit - length out = 1" using Cons.prems by linarith
      then show ?thesis using 2 Some by (auto simp: List.map_filter_simps)
    next
      case 3
      then have "nat limit - length out = Suc (nat limit - length (out @ [r]))" if "limit > 0" using that by auto
      then show ?thesis using 3 Some Cons.IH [of "out @ [r]"] by (auto simp: List.map_filter_simps)
    qed (use Some Cons in \<open>auto simp: List.map_filter_simps\<close>)
  qed (use Cons in \<open>auto simp: List.map_filter_simps\<close>)
qed (simp add: List.map_filter_simps)

lemma abs_in_order: "sq_ok db \<Longrightarrow> List.map_filter (map_of (mt_runs (sq_abs J db))) (map ro_id (rev db)) = map (scanRun J) (rev db)"
proof -
  assume ok: "sq_ok db"
  have "map (map_of (mt_runs (sq_abs J db))) (map ro_id db) = map (\<lambda>row. Some (scanRun J row)) db"
    by (simp add: abs_lookup sq_find_in [OF ok])
  then have "List.map_filter (map_of (mt_runs (sq_abs J db))) (map ro_id db) = map (scanRun J) db"
    by (simp add: map_filter_def sq_find_in [OF ok] abs_lookup filter_id_conv comp_def cong: map_cong)
  moreover have "List.map_filter f (rev xs) = rev (List.map_filter f xs)" for f :: "string \<Rightarrow> 'a api_run option" and xs
    by (simp add: map_filter_def rev_map rev_filter)
  ultimately show ?thesis by (simp flip: rev_map)
qed

text \<open>
  Both stores list the same runs, newest first, when runs are created at increasing times whose
  texts increase as well, which they do in different seconds.
\<close>

theorem lists_agree:
  assumes "sq_ok db" "sorted_wrt (<) (map ro_created_at db)" "sorted_wrt (<) (map (\<lambda>row. ar_CreatedAt (scanRun J row)) db)"
    and "call_fine c" "limit \<le> 10000" "limit \<le> 0 \<longrightarrow> length db \<le> 10000"
  shows "si_List (SQLiteStore J) c limit status db = si_List MemoryStore c limit status (sq_abs J db)"
proof -
  let ?ok = "\<lambda>row. status = [] \<or> ro_status row = status"
  have "sorted_wrt (<) (map ro_created_at (filter ?ok db))" "sorted_wrt (<) (map (\<lambda>row. ar_CreatedAt (scanRun J row)) (filter ?ok db))"
    using assms(2,3) by (simp_all add: sorted_wrt_map sorted_wrt_filter)
  then have sq: "sort_desc ro_created_at (filter ?ok db) = rev (filter ?ok db)"
    and mt: "sorted_wrt (<) (map ar_CreatedAt (map (scanRun J) (filter ?ok db)))" by (simp_all add: sort_desc_rev comp_def)
  have loop: "list_loop (mt_runs (sq_abs J db)) limit status (rev (map ro_id db)) [] =
      (if limit > 0 then take (nat limit) else (\<lambda>xs. xs)) (map (scanRun J) (rev (filter ?ok db)))"
    by (subst list_loop_take) (auto simp: abs_in_order [OF assms(1)] rev_map filter_map comp_def rev_filter)
  have sorted: "sort_desc ar_CreatedAt (take n (map (scanRun J) (rev (filter ?ok db)))) = take n (map (scanRun J) (rev (filter ?ok db)))" for n
  proof -
    let ?xs = "map (scanRun J) (filter ?ok db)"
    have "take n (rev ?xs) = rev (drop (length ?xs - n) ?xs)" by (simp add: take_rev)
    moreover have "sorted_wrt (<) (map ar_CreatedAt (drop (length ?xs - n) ?xs))" using mt by (simp only: drop_map [symmetric] sorted_wrt_drop)
    ultimately show ?thesis using sort_desc_rev(2) [of ar_CreatedAt "drop (length ?xs - n) ?xs"] by (simp add: rev_map)
  qed
  have all: "take 10000 (rev (filter ?ok db)) = rev (filter ?ok db)" if "limit \<le> 0"
    
  proof -
    have "length (filter ?ok db) \<le> 10000" using that assms(6) le_trans [OF length_filter_le] by blast
    then show ?thesis by simp
  qed
  show ?thesis
    using assms(4,5) sorted [of "nat limit"] sorted [of "length (filter ?ok db)"] all
    by (simp add: SQLiteStore_def MemoryStore_def sq_List_def mt_List_def call_fine_def sq loop sq_abs_def [of J db, THEN arg_cong, of mt_order] take_map Let_def)
qed

text \<open>
  The column is compared as text, and \<^verbatim>\<open>RFC3339Nano\<close> drops trailing zeros: of two runs created
  in one second, at 0.10 s and at 0.12 s, the newer is listed last.
\<close>

definition demo_fast_ops :: "unit store_op list" where
  "demo_fast_ops = [OpCreate (demo_call 1100000000) ''old'' (Some demo_config),
     OpUpdateStatus (demo_call 1110000000) (generateID 1100000000 [0x7f, 0x3a]) StatusFailed,
     OpCreate ((demo_call 1120000000)\<lparr>ce_rand := [0x7f, 0x3b]\<rparr>) ''new'' (Some demo_config)]"

theorem lists_disagree:
  "map ar_Name (si_List (SQLiteStore demo_codec) (demo_call 0) 0 [] (fst (run_ops (SQLiteStore demo_codec) demo_fast_ops []))) = [''old'', ''new''] \<and>
   map ar_Name (si_List MemoryStore (demo_call 0) 0 [] (fst (run_ops MemoryStore demo_fast_ops NewMemoryStore))) = [''new'', ''old'']"
  by (simp add: demo_fast_ops_def demo_call_def SQLiteStore_def MemoryStore_def NewMemoryStore_def sq_Create_def sq_hasActiveLocked_def
      demo_codec_def sq_insert_def sq_find_def sq_UpdateStatus_def sq_update_def sq_Get_def sq_set_def set_status_def new_run_def
      status_active_def isTerminal_def sq_List_def sort_desc_def mt_Create_def mt_HasActive_def mt_UpdateStatus_def mt_update_def
      mt_List_def scanRun_def Let_def)

section \<open>Reopening\<close>

definition reaped :: "'s json_codec \<Rightarrow> int \<Rightarrow> sq_row \<Rightarrow> sq_row" where
  "reaped J now row =
     (if status_active (ro_status row)
      then row\<lparr>ro_status := StatusFailed,
        ro_finished_at := Some (case ro_finished_at row of None \<Rightarrow> RFC3339Nano now | Some t \<Rightarrow> t),
        ro_progress_json := jc_reason J (ro_progress_json row)\<rparr>
      else row)"

lemma reap_loop_rows:
  assumes "reap_loop J now exec os db = (db', None)" "distinct (map ro_id os)"
    and "\<forall>row \<in> set os. status_active (ro_status row)" "\<forall>row \<in> set db. ro_id row \<in> set (map ro_id os) \<longrightarrow> row \<in> set os"
  shows "db' = map (\<lambda>row. if ro_id row \<in> set (map ro_id os) then reaped J now row else row) db"
  using assms
proof (induction os arbitrary: db)
  case (Cons x os)
  let ?f = "\<lambda>row. row\<lparr>ro_status := StatusFailed,
          ro_finished_at := (case ro_finished_at row of None \<Rightarrow> Some (RFC3339Nano now) | Some t \<Rightarrow> Some t),
          ro_progress_json := jc_reason J (ro_progress_json x)\<rparr>"
  have loop: "reap_loop J now exec os (sq_set (ro_id x) ?f db) = (db', None)"
    using Cons.prems(1) by (simp split: option.splits)
  have same: "row = x" if "row \<in> set db" "ro_id row = ro_id x" for row
  proof -
    have "row \<in> set (x # os)" using Cons.prems(4) that by auto
    moreover have "inj_on ro_id (set (x # os))" using Cons.prems(2) unfolding distinct_map by blast
    ultimately show ?thesis using that(2) by (intro inj_onD [of ro_id "set (x # os)"]) simp_all
  qed
  have rest: "\<forall>row \<in> set (sq_set (ro_id x) ?f db). ro_id row \<in> set (map ro_id os) \<longrightarrow> row \<in> set os"
    using Cons.prems(2,4) by (auto simp: sq_set_def split: if_splits)
  have "?f x = reaped J now x" using Cons.prems(3) by (simp add: reaped_def split: option.splits)
  then have set: "sq_set (ro_id x) ?f db = map (\<lambda>row. if ro_id row = ro_id x then reaped J now row else row) db"
    using same by (auto simp: sq_set_def)
  have rid: "ro_id (reaped J now row) = ro_id row" for row by (simp add: reaped_def)
  show ?case
    using Cons.IH [OF loop _ _ rest] Cons.prems(2,3) unfolding set by (auto simp: rid)
qed simp

lemma reapOrphans_rows:
  assumes "reapOrphans J c io db = (db', None)" "sq_ok db"
  shows "db' = map (reaped J (ce_now c)) db"
proof -
  let ?os = "filter (\<lambda>row. status_active (ro_status row)) db"
  have loop: "reap_loop J (ce_now c) (rp_exec io) ?os db = (db', None)"
    using assms(1) by (auto simp: reapOrphans_def Let_def split: option.splits)
  have d: "distinct (map ro_id ?os)" using assms(2) by (simp add: sq_ok_def distinct_map_filter)
  have in_os: "row \<in> set ?os" if r: "row \<in> set db" "ro_id row \<in> set (map ro_id ?os)" for row
  proof -
    from r(2) obtain o' where "o' \<in> set ?os" "ro_id o' = ro_id row" by auto
    then show ?thesis using sq_find_in [OF assms(2) r(1)] sq_find_in [OF assms(2), of o'] by auto
  qed
  have "db' = map (\<lambda>row. if ro_id row \<in> set (map ro_id ?os) then reaped J (ce_now c) row else row) db"
    by (rule reap_loop_rows [OF loop d]) (use in_os in auto)
  also have "\<dots> = map (reaped J (ce_now c)) db"
    using in_os by (intro map_cong) (auto simp: reaped_def)
  finally show ?thesis .
qed

text \<open>C18: reopening a database marks exactly the runs that were queued, running or cancelling as failed,
  keeps a finish time they already had and every other row, and leaves no active run: the first creation
  afterwards is not refused.\<close>

theorem reopen_reaps:
  assumes "NewSQLiteStore J fmt_q c opened schema io path db = (db', None)" "sq_ok db"
  shows "db' = map (reaped J (ce_now c)) db \<and> sq_ok db' \<and>
    (\<forall>rid. sq_status db' rid = map_option (\<lambda>st. if status_active st then StatusFailed else st) (sq_status db rid)) \<and>
    (\<forall>c'. call_fine c' \<longrightarrow> \<not> si_HasActive (SQLiteStore J) c' db') \<and>
    (\<forall>c' name cfg. call_fine c' \<longrightarrow> snd (si_Create (SQLiteStore J) c' name cfg db') \<noteq> Inl ErrConflict)"
proof -
  have "reapOrphans J c io db = (db', None)" using assms(1) by (auto simp: NewSQLiteStore_def split: option.splits prod.splits)
  then have db': "db' = map (reaped J (ce_now c)) db" by (rule reapOrphans_rows [OF _ assms(2)])
  have rid: "ro_id (reaped J (ce_now c) row) = ro_id row" for row by (simp add: reaped_def)
  have ok: "sq_ok db'" using assms(2) by (simp add: db' sq_ok_def comp_def rid)
  have "sq_find i (map (reaped J (ce_now c)) db) = map_option (reaped J (ce_now c)) (sq_find i db)" for i
    by (induction db) (auto simp: sq_find_def rid)
  then have status: "sq_status db' i = map_option (\<lambda>st. if status_active st then StatusFailed else st) (sq_status db i)" for i
    by (cases "sq_find i db") (auto simp: sq_status_def db' reaped_def)
  have "\<not> status_active (ro_status (reaped J (ce_now c) row))" for row by (simp add: reaped_def status_active_def)
  then have idle: "sq_hasActiveLocked c' db' = Inr False" if "call_fine c'" for c'
    using that by (simp add: sq_hasActiveLocked_def call_fine_def db')
  have "snd (sq_Create J c' name cfg db') \<noteq> Inl ErrConflict" if "call_fine c'" for c' name cfg
    using idle [OF that] by (auto simp: sq_Create_def Let_def ErrConflict_def split: option.splits sum.splits)
  with ok status idle show ?thesis
    by (auto simp: db' SQLiteStore_def sq_HasActive_def)
qed

definition demo_io :: reap_io where
  "demo_io = \<lparr>rp_scan = (\<lambda>_. None), rp_rows = None, rp_exec = (\<lambda>_. None)\<rparr>"

definition demo_table :: "sq_row list" where
  "demo_table = fst (run_ops (SQLiteStore demo_codec) (take 1 demo_ops) [])"

lemma reopen_reaps_witness:
  "map ro_status demo_table = [StatusQueued] \<and>
   map ro_status (fst (NewSQLiteStore demo_codec (\<lambda>_. []) (demo_call 0) None None demo_io ''a.db'' demo_table)) = [StatusFailed]"
proof -
  have t: "map ro_status demo_table = [StatusQueued]" "sq_ok demo_table"
    by (simp_all add: demo_table_def demo_ops_def demo_call_def SQLiteStore_def sq_Create_def sq_hasActiveLocked_def demo_codec_def
        sq_insert_def sq_find_def sq_ok_def Let_def)
  have open_ok: "NewSQLiteStore demo_codec (\<lambda>_. []) (demo_call 0) None None demo_io ''a.db'' demo_table =
      (fst (NewSQLiteStore demo_codec (\<lambda>_. []) (demo_call 0) None None demo_io ''a.db'' demo_table), None)"
    by (simp add: demo_table_def demo_ops_def demo_call_def SQLiteStore_def sq_Create_def sq_hasActiveLocked_def demo_codec_def
        sq_insert_def sq_find_def NewSQLiteStore_def reapOrphans_def status_active_def demo_io_def Let_def)
  obtain z where z: "demo_table = [z]" "ro_status z = StatusQueued" using t(1) by auto
  have "ro_status (reaped demo_codec now z) = StatusFailed" for now using z(2) by (simp add: reaped_def status_active_def)
  moreover have "fst (NewSQLiteStore demo_codec (\<lambda>_. []) (demo_call 0) None None demo_io ''a.db'' demo_table) =
      map (reaped demo_codec (ce_now (demo_call 0))) demo_table"
    using reopen_reaps [OF open_ok t(2)] by blast
  ultimately show ?thesis unfolding z(1) by (simp add: z(2))
qed

end
