(* ===== verification/Api_Rows.thy ===== *)
theory Api_Rows
  imports Api_Store
begin

text \<open>
  The type of the rows that the operations of the SQLite store leave in the table, whatever the
  database refuses, and with it the type of every run that comes back from it.
\<close>

section \<open>Typed rows and runs\<close>

definition known_status :: "string \<Rightarrow> bool" where
  "known_status st \<longleftrightarrow> status_active st \<or> isTerminal st"

definition time_text :: "string \<Rightarrow> bool" where
  "time_text s \<longleftrightarrow> (case parse_RFC3339Nano s of None \<Rightarrow> False | Some t \<Rightarrow> time_ok t)"

definition row_typed :: "sq_row \<Rightarrow> bool" where
  "row_typed row \<longleftrightarrow> known_status (ro_status row) \<and> time_text (ro_created_at row) \<and>
     pred_option time_text (ro_started_at row) \<and> pred_option time_text (ro_finished_at row) \<and>
     (ro_status row = StatusRunning \<longrightarrow> ro_started_at row \<noteq> None) \<and>
     (isTerminal (ro_status row) \<longrightarrow> ro_finished_at row \<noteq> None)"

definition run_typed :: "'s api_run \<Rightarrow> bool" where
  "run_typed r \<longleftrightarrow> known_status (ar_Status r) \<and> time_ok (ar_CreatedAt r) \<and>
     pred_option time_ok (ar_StartedAt r) \<and> pred_option time_ok (ar_FinishedAt r) \<and>
     (ar_Status r = StatusRunning \<longrightarrow> ar_StartedAt r \<noteq> None) \<and> (isTerminal (ar_Status r) \<longrightarrow> ar_FinishedAt r \<noteq> None)"

text \<open>What the type asks of an operation: a clock before the year 9964 and a status of the list.\<close>

fun op_typed :: "'s store_op \<Rightarrow> bool" where
  "op_typed (OpUpdateStatus c rid st) \<longleftrightarrow> time_ok (ce_now c) \<and> known_status st"
| "op_typed x \<longleftrightarrow> time_ok (ce_now (op_call x))"

lemma time_text_format [simp]: "time_ok t \<Longrightarrow> time_text (RFC3339Nano t)"
  by (simp add: time_text_def parse_RFC3339Nano_format)

lemma time_text_parse: "time_text s \<Longrightarrow> \<exists>t. parse_RFC3339Nano s = Some t \<and> time_ok t"
  by (auto simp: time_text_def split: option.splits)

lemma nullable_typed: "pred_option time_ok x \<Longrightarrow> pred_option time_text (nullableTime x)"
  by (cases x) (simp_all add: nullableTime_def)

lemma nullable_None [simp]: "nullableTime x = None \<longleftrightarrow> x = None"
  by (simp add: nullableTime_def)

lemma parse_optional: "pred_option time_text x \<Longrightarrow> pred_option time_ok (Option.bind x parse_RFC3339Nano) \<and>
    (Option.bind x parse_RFC3339Nano = None \<longleftrightarrow> x = None)"
  by (cases x) (auto simp: time_text_def split: option.splits)

lemma scan_typed: "row_typed row \<Longrightarrow> run_typed (scanRun J row)"
  using parse_optional [of "ro_started_at row"] parse_optional [of "ro_finished_at row"]
  using time_text_parse [of "ro_created_at row"] by (auto simp: row_typed_def run_typed_def scanRun_def parse_time_or_def)

lemma status_typed: "run_typed r \<Longrightarrow> time_ok now \<Longrightarrow> known_status st \<Longrightarrow> run_typed (set_status now st r)"
  by (auto simp: run_typed_def set_status_def Let_def isTerminal_def)

lemma status_columns_typed:
  assumes "row_typed row" "run_typed r"
  shows "row_typed (row\<lparr>ro_status := ar_Status r, ro_started_at := nullableTime (ar_StartedAt r), ro_finished_at := nullableTime (ar_FinishedAt r)\<rparr>)"
  using assms by (auto simp: row_typed_def run_typed_def nullable_typed)

lemma update_typed:
  assumes "\<forall>row \<in> set db. row_typed row" "\<And>r row'. row_typed row' \<Longrightarrow> run_typed (f r) \<Longrightarrow> row_typed (cols (f r) row')" "\<And>r. run_typed r \<Longrightarrow> run_typed (f r)"
  shows "\<forall>row \<in> set (fst (sq_update J c what rid f cols db)). row_typed row"
proof (cases "sq_update J c what rid f cols db")
  case (Pair db' x)
  show ?thesis
  proof (cases "sq_find rid db")
    case None
    then show ?thesis using assms(1) by (auto simp: sq_update_def sq_Get_def split: option.splits)
  next
    case (Some r0)
    then have "row_typed r0" using assms(1) sq_find_SomeD by blast
    then have "run_typed (f (scanRun J r0))" by (intro assms(3) scan_typed)
    then show ?thesis using assms(1,2) Some
      by (auto simp: sq_update_def sq_Get_def Let_def sq_set_def split: option.splits)
  qed
qed

lemma op_keeps_types:
  assumes "\<forall>row \<in> set db. row_typed row" "op_typed x"
  shows "\<forall>row \<in> set (fst (run_op (SQLiteStore J) x db)). row_typed row"
proof (cases x)
  case (OpCreate c name cfg)
  have "row_typed \<lparr>ro_id = i, ro_name = n, ro_status = StatusQueued, ro_created_at = RFC3339Nano (ce_now c), ro_started_at = None,
      ro_finished_at = None, ro_config_json = t, ro_progress_json = p, ro_summary_json = None\<rparr>" for i n t p
    using assms(2) OpCreate by (simp add: row_typed_def known_status_def status_active_def isTerminal_def)
  then show ?thesis using assms(1) OpCreate
    by (auto simp: SQLiteStore_def sq_Create_def Let_def new_run_def split: sum.splits bool.splits option.splits)
next
  case (OpUpdateStatus c rid st)
  have "\<forall>row \<in> set (fst (sq_UpdateStatus J c rid st db)). row_typed row"
    unfolding sq_UpdateStatus_def
  proof (rule update_typed)
    show "row_typed (row\<lparr>ro_status := ar_Status r', ro_started_at := nullableTime (ar_StartedAt r'),
        ro_finished_at := nullableTime (ar_FinishedAt r')\<rparr>)"
      if "row_typed row" "run_typed r'" for row and r' :: "'a api_run" using that by (rule status_columns_typed)
  qed (use assms OpUpdateStatus in \<open>auto intro: status_typed\<close>)
  then show ?thesis by (simp add: OpUpdateStatus SQLiteStore_def)
next
  case (OpUpdateProgress c rid p)
  have "\<forall>row \<in> set (fst (sq_UpdateProgress J c rid p db)). row_typed row"
    unfolding sq_UpdateProgress_def by (rule update_typed) (use assms in \<open>simp_all add: row_typed_def run_typed_def\<close>)
  then show ?thesis by (simp add: OpUpdateProgress SQLiteStore_def)
next
  case (OpSetSummary c rid y)
  have "\<forall>row \<in> set (fst (sq_update J c ''summary'' rid (\<lambda>r. r\<lparr>ar_Summary := y\<rparr>) (\<lambda>r row. row\<lparr>ro_summary_json := Some t\<rparr>) db)).
      row_typed row" for t
    by (rule update_typed) (use assms in \<open>simp_all add: row_typed_def run_typed_def\<close>)
  then show ?thesis using assms(1) by (simp add: OpSetSummary SQLiteStore_def sq_SetSummary_def split: sum.splits)
qed

lemma ops_keep_types:
  "\<forall>row \<in> set db. row_typed row \<Longrightarrow> list_all op_typed xs \<Longrightarrow>
     \<forall>row \<in> set (fst (run_ops (SQLiteStore J) xs db)). row_typed row"
proof (induction xs arbitrary: db)
  case (Cons x xs)
  obtain s1 r where 1: "run_op (SQLiteStore J) x db = (s1, r)" by fastforce
  have "\<forall>row \<in> set s1. row_typed row" using op_keeps_types [of db x J] Cons.prems 1 by simp
  from Cons.IH [OF this] Cons.prems(2) 1 show ?case by (simp add: case_prod_beta)
qed simp

lemma reaped_typed:
  "row_typed row \<Longrightarrow> time_ok now \<Longrightarrow> row_typed (row\<lparr>ro_status := StatusFailed,
      ro_finished_at := (case ro_finished_at row of None \<Rightarrow> Some (RFC3339Nano now) | Some t \<Rightarrow> Some t), ro_progress_json := j\<rparr>)"
  by (cases "ro_finished_at row") (simp_all add: row_typed_def known_status_def isTerminal_def)

lemma reap_keeps_types:
  "\<forall>row \<in> set db. row_typed row \<Longrightarrow> time_ok now \<Longrightarrow> \<forall>row \<in> set (fst (reap_loop J now exec os db)). row_typed row"
proof (induction os arbitrary: db)
  case (Cons o1 os)
  have "\<forall>row \<in> set (sq_set (ro_id o1) (\<lambda>row. row\<lparr>ro_status := StatusFailed,
      ro_finished_at := (case ro_finished_at row of None \<Rightarrow> Some (RFC3339Nano now) | Some t \<Rightarrow> Some t),
      ro_progress_json := jc_reason J (ro_progress_json o1)\<rparr>) db). row_typed row"
    using Cons.prems reaped_typed by (auto simp: sq_set_def)
  from Cons.IH [OF this Cons.prems(2)] Cons.prems(1) show ?case by (simp split: option.splits)
qed simp

lemma opened_keeps_types:
  "\<forall>row \<in> set db. row_typed row \<Longrightarrow> time_ok (ce_now c) \<Longrightarrow>
     \<forall>row \<in> set (fst (NewSQLiteStore J fmt_q c opened schema io path db)). row_typed row"
  using reap_keeps_types [of db "ce_now c" J "rp_exec io" "filter (\<lambda>row. status_active (ro_status row)) db"]
  by (auto simp: NewSQLiteStore_def reapOrphans_def Let_def split: option.splits prod.splits)

section \<open>Property\<close>

text \<open>C21: Every row that opening a database and any operations on it leave, whichever of them fail, is well typed: a
  known status, times that parse, a start time when it is running and an end time when it is over. So is
  every run that Get and List return.\<close>

theorem store_rows_well_typed:
  assumes "\<forall>row \<in> set db0. row_typed row" "time_ok (ce_now c0)" "list_all op_typed ops"
    "NewSQLiteStore J fmt_q c0 opened schema io path db0 = (db1, res)" "run_ops (SQLiteStore J) ops db1 = (db, out)"
  shows "(\<forall>row \<in> set db. row_typed row) \<and> (\<forall>c rid r. sq_Get J c rid db = Inr r \<longrightarrow> run_typed r) \<and>
    (\<forall>c limit status. \<forall>r \<in> set (sq_List J c limit status db). run_typed r)"
proof -
  have db: "\<forall>row \<in> set db. row_typed row"
    using ops_keep_types [OF opened_keeps_types [OF assms(1,2)] assms(3), of J J fmt_q opened schema io path] assms(4,5) by simp
  then have "run_typed r" if "sq_Get J c rid db = Inr r" for c rid r
    using that by (auto simp: sq_Get_def split: option.splits dest: sq_find_SomeD intro!: scan_typed)
  moreover have "run_typed r" if "r \<in> set (sq_List J c limit status db)" for c limit status r
    using that db by (auto simp: sq_List_def sort_desc_def Let_def split: option.splits dest!: in_set_takeD intro!: scan_typed)
  ultimately show ?thesis using db by blast
qed

lemma store_rows_well_typed_witness:
  "list_all row_typed (fst (run_ops (SQLiteStore demo_codec) [OpCreate (demo_call 1100000000) ''a'' (Some demo_config),
      OpUpdateStatus (demo_call 1200000000) ''run-1970-01-01T00-00-01Z-7f3a'' StatusRunning]
      (fst (NewSQLiteStore demo_codec (\<lambda>p. p) (demo_call 1000000000) None None demo_io ''db'' []))))"
  unfolding list_all_iff
  by (rule conjunct1 [OF store_rows_well_typed [OF _ _ _ prod.collapse [symmetric] prod.collapse [symmetric]]])
    (simp_all add: demo_call_def time_ok_def known_status_def status_active_def)

end
