(* ===== verification/Api_Runs.thy ===== *)
theory Api_Runs
  imports Api_Store Go_Path
begin

text \<open>
  The supervisor of the runs, \<^verbatim>\<open>runner.go\<close>, and the handlers of \<^verbatim>\<open>handlers/runs.go\<close>, over any
  store of the interface \<open>store_if\<close>. Each function is the composition of its accesses to the
  store and to the table of active runs; the accesses of the goroutines interleave in the step
  relation \<open>api_step\<close>. The subprocess, its files and the decoded request are inputs.
\<close>

section \<open>Finding the CLI\<close>

definition ErrCLINotFound :: goerr where
  "ErrCLINotFound = Sentinel ''radstorm CLI binary not found (set RADSTORM_CLI_BIN or place at ./bin/radstorm)''"

definition FindCLI :: "string \<Rightarrow> (string \<Rightarrow> bool) \<Rightarrow> string option \<Rightarrow> string res" where
  "FindCLI env exists lookPath =
     (if env \<noteq> [] \<and> exists env then Inr env
      else case find exists [path_Join [''bin'', ''radstorm''], path_Join [''bin'', ''radstorm.exe'']] of
        Some c \<Rightarrow> Inr c
      | None \<Rightarrow> (case lookPath of Some p \<Rightarrow> Inr p | None \<Rightarrow> Inl ErrCLINotFound))"

record run_options =
  op_DataDir :: string
  op_CLIPath :: string

record api_runner =
  ru_dataDir :: string
  ru_cliPath :: string

definition NewApiRunner :: "goerr option \<Rightarrow> string res \<Rightarrow> (string \<Rightarrow> string res) \<Rightarrow> run_options \<Rightarrow> api_runner res" where
  "NewApiRunner mkdir findCLI absPath opts0 =
     (let dataDir = (if op_DataDir opts0 = [] then ''data'' else op_DataDir opts0) in
      case mkdir of Some err \<Rightarrow> Inl (Wrap ''ensure data dir: '' err [])
      | None \<Rightarrow>
        (case (if op_CLIPath opts0 = [] then findCLI else Inr (op_CLIPath opts0)) of
           Inl err \<Rightarrow> Inl (Wrap ''locate radstorm CLI: '' err [])
         | Inr cli \<Rightarrow> Inr \<lparr>ru_dataDir = dataDir, ru_cliPath = (case absPath cli of Inl _ \<Rightarrow> cli | Inr p \<Rightarrow> p)\<rparr>))"

definition RunDir :: "string \<Rightarrow> string \<Rightarrow> string" where
  "RunDir dataDir runID = path_Join [dataDir, ''runs'', runID]"

section \<open>The state of the API\<close>

text \<open>
  \<open>as_active\<close> are the keys of the runner's map, \<open>as_killed\<close> those whose context was cancelled.
  \<open>as_pc\<close> says how far the goroutine that created or watches a run has come, \<open>as_cancels\<close> the
  cancellations between their check and their write.
\<close>

datatype run_pc = Starting | Registered | Watching | Deciding string | Ending

record 'st api =
  as_store :: 'st
  as_active :: "string list"
  as_killed :: "string list"
  as_pc :: "string \<Rightarrow> run_pc option"
  as_cancels :: "string list"

section \<open>The supervisor\<close>

record start_env =
  sv_mkdir :: "goerr option"
  sv_config :: "goerr option"
  sv_log :: "goerr option"
  sv_start :: "goerr option"

definition start_prepare :: "('st, 's) store_if \<Rightarrow> call_env \<Rightarrow> start_env \<Rightarrow> string \<Rightarrow> 'st \<Rightarrow> goerr option" where
  "start_prepare I c env runID s =
     (case si_Get I c runID s of Inl err \<Rightarrow> Some (Wrap (''lookup run '' @ runID @ '': '') err [])
      | Inr run \<Rightarrow>
        (case sv_mkdir env of Some err \<Rightarrow> Some (Wrap ''create run dir: '' err [])
         | None \<Rightarrow> (case sv_config env of Some err \<Rightarrow> Some (Wrap ''write config.toml: '' err [])
         | None \<Rightarrow> (case sv_log env of Some err \<Rightarrow> Some (Wrap ''create run.log: '' err [])
         | None \<Rightarrow> map_option (\<lambda>err. Wrap ''start CLI subprocess: '' err []) (sv_start env)))))"

definition start_register :: "string \<Rightarrow> 'st api \<Rightarrow> 'st api" where
  "start_register runID a = a\<lparr>as_active := List.insert runID (as_active a), as_pc := (as_pc a)(runID \<mapsto> Registered)\<rparr>"

definition start_running :: "('st, 's) store_if \<Rightarrow> call_env \<Rightarrow> string \<Rightarrow> 'st api \<Rightarrow> 'st api" where
  "start_running I c runID a =
     a\<lparr>as_store := fst (si_UpdateStatus I c runID StatusRunning (as_store a)), as_pc := (as_pc a)(runID \<mapsto> Watching)\<rparr>"

definition StartRun :: "('st, 's) store_if \<Rightarrow> call_env \<Rightarrow> start_env \<Rightarrow> string \<Rightarrow> 'st api \<Rightarrow> 'st api \<times> goerr option" where
  "StartRun I c env runID a =
     (case start_prepare I c env runID (as_store a) of Some err \<Rightarrow> (a, Some err)
      | None \<Rightarrow> (start_running I c runID (start_register runID a), None))"

definition CancelRun :: "string \<Rightarrow> 'st api \<Rightarrow> 'st api \<times> goerr option" where
  "CancelRun runID a = (if runID \<in> set (as_active a) then (a\<lparr>as_killed := List.insert runID (as_killed a)\<rparr>, None)
     else (a, Some ErrNotFound))"

definition ShutdownRuns :: "'st api \<Rightarrow> 'st api" where
  "ShutdownRuns a = a\<lparr>as_killed := fold List.insert (as_active a) (as_killed a)\<rparr>"

text \<open>What the subprocess left: its error and exit code, and the summary when it was read and decoded.\<close>

record 's exit_env =
  ex_waitErr :: "goerr option"
  ex_exitCode :: int
  ex_summary :: "'s option option"

definition watch_final :: "'s exit_env \<Rightarrow> string \<Rightarrow> string" where
  "watch_final ex st =
     (if st = StatusCancelling \<or> st = StatusCancelled then StatusCancelled
      else if ex_waitErr ex = None \<and> ex_exitCode ex = 0 then StatusSucceeded else StatusFailed)"

definition watch_summary :: "('st, 's) store_if \<Rightarrow> call_env \<Rightarrow> 's exit_env \<Rightarrow> string \<Rightarrow> 'st \<Rightarrow> 'st" where
  "watch_summary I c ex runID s = (case ex_summary ex of None \<Rightarrow> s | Some x \<Rightarrow> fst (si_SetSummary I c runID x s))"

text \<open>The decision; the failing branch writes the progress back. \<open>None\<close>: the run could not be read.\<close>

definition watch_decide :: "('st, 's) store_if \<Rightarrow> call_env \<Rightarrow> 's exit_env \<Rightarrow> string \<Rightarrow> 'st \<Rightarrow> 'st \<times> string option" where
  "watch_decide I c ex runID s =
     (case si_Get I c runID s of Inl err \<Rightarrow> (s, None)
      | Inr current \<Rightarrow>
        (let final = watch_final ex (ar_Status current) in
         (if final = StatusFailed then fst (si_UpdateProgress I c runID (ar_Progress current) s) else s, Some final)))"

definition watch_exit :: "string \<Rightarrow> 'st api \<Rightarrow> 'st api" where
  "watch_exit runID a = a\<lparr>as_active := removeAll runID (as_active a), as_pc := (as_pc a)(runID := None)\<rparr>"

definition watch :: "('st, 's) store_if \<Rightarrow> call_env \<Rightarrow> 's exit_env \<Rightarrow> string \<Rightarrow> 'st api \<Rightarrow> 'st api" where
  "watch I c ex runID a =
     (let s1 = watch_summary I c ex runID (as_store a); (s2, final) = watch_decide I c ex runID s1 in
      watch_exit runID (a\<lparr>as_store := (case final of None \<Rightarrow> s2 | Some f \<Rightarrow> fst (si_UpdateStatus I c runID f s2))\<rparr>))"

section \<open>The handlers\<close>

datatype 's run_body = ErrorBody string "string option" | RunBody "'s api_run" | RunsBody "'s api_run list" | CancelBody string string

type_synonym 's response = "nat \<times> 's run_body"

definition fetch_failed :: "goerr \<Rightarrow> 's response" where
  "fetch_failed err = (if err = ErrNotFound then (404, ErrorBody ''run not found'' None)
     else (500, ErrorBody ''failed to fetch run'' (Some (err_msg err))))"

text \<open>\<open>body\<close> is the decoded request, \<open>validate\<close> is \<^verbatim>\<open>config.Validate\<close>.\<close>

definition create_checked :: "(config \<Rightarrow> goerr option) \<Rightarrow> bool \<Rightarrow> (string \<times> config option) res \<Rightarrow> 's response + (string \<times> config)" where
  "create_checked validate hasRunner body =
     (case body of Inl err \<Rightarrow> Inl (400, ErrorBody ''invalid request body'' (Some (err_msg err)))
      | Inr (name, None) \<Rightarrow> Inl (400, ErrorBody ''config is required'' None)
      | Inr (name, Some cfg) \<Rightarrow>
        (case validate cfg of Some err \<Rightarrow> Inl (400, ErrorBody ''config validation failed'' (Some (err_msg err)))
         | None \<Rightarrow> if \<not> hasRunner then Inl (503, ErrorBody ''runner not configured'' None) else Inr (name, cfg)))"

definition create_refused :: "goerr \<Rightarrow> 's response" where
  "create_refused err = (if err = ErrConflict then (409, ErrorBody (err_msg err) None)
     else (500, ErrorBody ''failed to create run'' (Some (err_msg err))))"

definition create_insert :: "('st, 's) store_if \<Rightarrow> call_env \<Rightarrow> string \<Rightarrow> config \<Rightarrow> 'st api \<Rightarrow> 'st api \<times> 's api_run res" where
  "create_insert I c name cfg a =
     (case si_Create I c name (Some cfg) (as_store a) of
        (s', Inl err) \<Rightarrow> (a\<lparr>as_store := s'\<rparr>, Inl err)
      | (s', Inr run) \<Rightarrow> (a\<lparr>as_store := s', as_pc := (as_pc a)(ar_ID run \<mapsto> Starting)\<rparr>, Inr run))"

definition create_failed :: "('st, 's) store_if \<Rightarrow> call_env \<Rightarrow> string \<Rightarrow> 'st api \<Rightarrow> 'st api" where
  "create_failed I c runID a =
     a\<lparr>as_store := fst (si_UpdateStatus I c runID StatusFailed (as_store a)), as_pc := (as_pc a)(runID := None)\<rparr>"

definition runs_Create :: "('st, 's) store_if \<Rightarrow> (config \<Rightarrow> goerr option) \<Rightarrow> bool \<Rightarrow> (string \<times> config option) res \<Rightarrow> call_env \<Rightarrow>
    start_env \<Rightarrow> 'st api \<Rightarrow> 'st api \<times> 's response" where
  "runs_Create I validate hasRunner body c env a =
     (case create_checked validate hasRunner body of Inl resp \<Rightarrow> (a, resp)
      | Inr (name, cfg) \<Rightarrow>
        (case create_insert I c name cfg a of
           (a1, Inl err) \<Rightarrow> (a1, create_refused err)
         | (a1, Inr run) \<Rightarrow>
           (case StartRun I c env (ar_ID run) a1 of
              (a2, Some err) \<Rightarrow> (create_failed I c (ar_ID run) a2, (500, ErrorBody ''failed to start subprocess'' (Some (err_msg err))))
            | (a2, None) \<Rightarrow> (a2, (201, RunBody (case si_Get I c (ar_ID run) (as_store a2) of Inl _ \<Rightarrow> run | Inr r \<Rightarrow> r))))))"

definition runs_List :: "('st, 's) store_if \<Rightarrow> call_env \<Rightarrow> string \<Rightarrow> string \<Rightarrow> 'st \<Rightarrow> 's response" where
  "runs_List I c limitText status s =
     (let limit = (case Atoi limitText of Some n \<Rightarrow> if n > 0 then n else 50 | None \<Rightarrow> 50) in
      (200, RunsBody (si_List I c limit status s)))"

definition runs_Get :: "('st, 's) store_if \<Rightarrow> call_env \<Rightarrow> string \<Rightarrow> 'st \<Rightarrow> 's response" where
  "runs_Get I c rid s = (case si_Get I c rid s of Inl err \<Rightarrow> fetch_failed err | Inr run \<Rightarrow> (200, RunBody run))"

definition cancel_check :: "('st, 's) store_if \<Rightarrow> call_env \<Rightarrow> string \<Rightarrow> 'st \<Rightarrow> 's response option" where
  "cancel_check I c rid s =
     (case si_Get I c rid s of Inl err \<Rightarrow> Some (fetch_failed err)
      | Inr run \<Rightarrow> if isTerminal (ar_Status run) then Some (409, ErrorBody ''run already finished'' (Some (ar_Status run))) else None)"

definition cancel_write :: "('st, 's) store_if \<Rightarrow> call_env \<Rightarrow> string \<Rightarrow> 'st api \<Rightarrow> 'st api \<times> 's response" where
  "cancel_write I c rid a =
     (case si_UpdateStatus I c rid StatusCancelling (as_store a) of
        (s', Inl err) \<Rightarrow> (a\<lparr>as_store := s'\<rparr>, (500, ErrorBody ''failed to cancel run'' (Some (err_msg err))))
      | (s', Inr run) \<Rightarrow> (fst (CancelRun rid (a\<lparr>as_store := s'\<rparr>)), (200, CancelBody (ar_ID run) (ar_Status run))))"

definition runs_Cancel :: "('st, 's) store_if \<Rightarrow> call_env \<Rightarrow> string \<Rightarrow> 'st api \<Rightarrow> 'st api \<times> 's response" where
  "runs_Cancel I c rid a =
     (case cancel_check I c rid (as_store a) of Some resp \<Rightarrow> (a, resp) | None \<Rightarrow> cancel_write I c rid a)"

section \<open>Interleaving\<close>

text \<open>
  The accesses of concurrent requests and watchers, without database errors. With \<open>split\<close> a
  cancellation may be overtaken between its check and its write, as in the code; without it a
  cancellation is one step.
\<close>

inductive api_step :: "('st, 's) store_if \<Rightarrow> bool \<Rightarrow> 'st api \<Rightarrow> 'st api \<Rightarrow> bool" for I split where
  st_create: "call_fine c \<Longrightarrow> create_insert I c name cfg a = (a', Inr run) \<Longrightarrow> as_pc a (ar_ID run) = None \<Longrightarrow> api_step I split a a'"
| st_refused: "call_fine c \<Longrightarrow> create_insert I c name cfg a = (a', Inl err) \<Longrightarrow> api_step I split a a'"
| st_failed: "call_fine c \<Longrightarrow> as_pc a rid = Some Starting \<Longrightarrow> start_prepare I c env rid (as_store a) = Some err \<Longrightarrow>
    api_step I split a (create_failed I c rid a)"
| st_register: "call_fine c \<Longrightarrow> as_pc a rid = Some Starting \<Longrightarrow> start_prepare I c env rid (as_store a) = None \<Longrightarrow>
    api_step I split a (start_register rid a)"
| st_running: "call_fine c \<Longrightarrow> as_pc a rid = Some Registered \<Longrightarrow> api_step I split a (start_running I c rid a)"
| st_summary: "call_fine c \<Longrightarrow> as_pc a rid = Some Watching \<Longrightarrow>
    api_step I split a (a\<lparr>as_store := watch_summary I c ex rid (as_store a)\<rparr>)"
| st_decide: "call_fine c \<Longrightarrow> as_pc a rid = Some Watching \<Longrightarrow> watch_decide I c ex rid (as_store a) = (s', Some f) \<Longrightarrow>
    api_step I split a (a\<lparr>as_store := s', as_pc := (as_pc a)(rid \<mapsto> Deciding f)\<rparr>)"
| st_write: "call_fine c \<Longrightarrow> as_pc a rid = Some (Deciding f) \<Longrightarrow>
    api_step I split a (a\<lparr>as_store := fst (si_UpdateStatus I c rid f (as_store a)), as_pc := (as_pc a)(rid \<mapsto> Ending)\<rparr>)"
| st_exit: "as_pc a rid = Some Ending \<Longrightarrow> api_step I split a (watch_exit rid a)"
| st_cancel: "call_fine c \<Longrightarrow> runs_Cancel I c rid a = (a', resp) \<Longrightarrow> api_step I split a a'"
| st_cancel_check: "split \<Longrightarrow> call_fine c \<Longrightarrow> cancel_check I c rid (as_store a) = (None :: 's response option) \<Longrightarrow>
    api_step I split a (a\<lparr>as_cancels := rid # as_cancels a\<rparr>)"
| st_cancel_write: "split \<Longrightarrow> call_fine c \<Longrightarrow> rid \<in> set (as_cancels a) \<Longrightarrow> cancel_write I c rid a = (a', resp) \<Longrightarrow>
    api_step I split a (a'\<lparr>as_cancels := remove1 rid (as_cancels a')\<rparr>)"

definition api_start :: "'st \<Rightarrow> 'st api" where
  "api_start s = \<lparr>as_store = s, as_active = [], as_killed = [], as_pc = Map.empty, as_cancels = []\<rparr>"

section \<open>One run at a time\<close>

fun pc_live :: "run_pc option \<Rightarrow> bool" where
  "pc_live None = False"
| "pc_live (Some Ending) = False"
| "pc_live (Some _) = True"

text \<open>A run is active exactly while a goroutine will still settle it, and at most one is.\<close>

definition single_active :: "(string \<Rightarrow> string option) \<Rightarrow> (string \<Rightarrow> run_pc option) \<Rightarrow> bool" where
  "single_active st pc \<longleftrightarrow>
     (\<forall>i. (\<exists>x. st i = Some x \<and> status_active x) \<longleftrightarrow> pc_live (pc i)) \<and>
     (\<forall>i j. pc_live (pc i) \<longrightarrow> pc_live (pc j) \<longrightarrow> i = j) \<and>
     (\<forall>i f. pc i = Some (Deciding f) \<longrightarrow> isTerminal f) \<and>
     (\<forall>i x. st i = Some x \<longrightarrow> status_active x \<or> isTerminal x)"

lemma status_kinds [simp]:
  "status_active StatusQueued" "status_active StatusRunning" "status_active StatusCancelling"
  "isTerminal StatusSucceeded" "isTerminal StatusFailed" "isTerminal StatusCancelled"
  by (simp_all add: status_active_def isTerminal_def)

lemma terminal_not_active: "isTerminal x \<Longrightarrow> \<not> status_active x"
  by (auto simp: status_active_def isTerminal_def)

lemma watch_final_terminal [simp]: "isTerminal (watch_final ex st)"
  by (simp add: watch_final_def)

lemma single_active_set:
  assumes "single_active st pc" "pc_live (pc i)" "status_active x" "pc_live p" "\<And>f. p = Some (Deciding f) \<Longrightarrow> isTerminal f"
  shows "single_active (st(i \<mapsto> x)) (pc(i := p))"
  using assms by (auto simp: single_active_def)

lemma single_active_settle:
  assumes "single_active st pc" "isTerminal x" "\<not> pc_live p" "p = None \<or> p = Some Ending"
  shows "single_active (st(i \<mapsto> x)) (pc(i := p))"
  using assms terminal_not_active by (auto simp: single_active_def)

lemma single_active_pc:
  assumes "single_active st pc" "pc_live (pc i) = pc_live p" "\<And>f. p = Some (Deciding f) \<Longrightarrow> isTerminal f"
  shows "single_active st (pc(i := p))"
  using assms by (auto simp: single_active_def)

context run_store
begin

lemma update_effect:
  assumes "ok s" "call_fine c" "status s rid \<noteq> None"
  shows "\<exists>s' r. si_UpdateStatus I c rid st s = (s', Inr r) \<and> ok s' \<and> status s' = (status s)(rid \<mapsto> st) \<and> ar_ID r = rid \<and> ar_Status r = st"
proof -
  obtain s' x where u: "si_UpdateStatus I c rid st s = (s', x)" by (cases "si_UpdateStatus I c rid st s")
  then obtain r where "x = Inr r" using update_fine [OF assms(1,2)] assms(3) by (cases x) auto
  then show ?thesis using u updated [OF assms(1)] by blast
qed

lemma get_effect:
  assumes "ok s" "call_fine c"
  shows "(case si_Get I c rid s of Inl e \<Rightarrow> e = ErrNotFound \<and> status s rid = None
    | Inr r \<Rightarrow> ar_ID r = rid \<and> status s rid = Some (ar_Status r))"
  using get_some [OF assms(1)] get_none [OF assms] by (auto split: sum.split)

lemma summary_effect: "ok s \<Longrightarrow> ok (watch_summary I c ex rid s) \<and> status (watch_summary I c ex rid s) = status s"
  using summary_kept [of s c rid] by (auto simp: watch_summary_def split: option.split) (metis prod.collapse)+

lemma decide_effect:
  assumes "ok s" "watch_decide I c ex rid s = (s', f)"
  shows "ok s' \<and> status s' = status s \<and> (\<forall>x. f = Some x \<longrightarrow> isTerminal x)"
proof -
  have "ok (fst (si_UpdateProgress I c rid p s)) \<and> status (fst (si_UpdateProgress I c rid p s)) = status s" for p
    using progress_kept [OF assms(1), of c rid p] by (metis prod.collapse)
  then show ?thesis using assms by (auto simp: watch_decide_def Let_def split: sum.splits if_splits)
qed

lemma cancel_write_effect:
  assumes "ok (as_store a)" "call_fine c" "status (as_store a) rid \<noteq> None"
  shows "\<exists>a' resp. cancel_write I c rid a = (a', resp) \<and> ok (as_store a') \<and>
    status (as_store a') = (status (as_store a))(rid \<mapsto> StatusCancelling) \<and> as_pc a' = as_pc a \<and> as_cancels a' = as_cancels a"
  using update_effect [OF assms, of StatusCancelling] by (auto simp: cancel_write_def CancelRun_def)

lemma step_single_active:
  assumes "api_step I False a a'" "ok (as_store a)" "single_active (status (as_store a)) (as_pc a)"
  shows "ok (as_store a') \<and> single_active (status (as_store a')) (as_pc a')"
  using assms
proof cases
  case (st_create c name cfg run)
  then obtain s' where c: "si_Create I c name (Some cfg) (as_store a) = (s', Inr run)"
    and a': "a' = a\<lparr>as_store := s', as_pc := (as_pc a)(ar_ID run \<mapsto> Starting)\<rparr>"
    by (auto simp: create_insert_def split: prod.splits sum.splits)
  note new = created [OF assms(2) c]
  then have "\<not> pc_live (as_pc a i)" for i using assms(3) by (auto simp: single_active_def)
  then show ?thesis using new assms(3) by (auto simp: a' single_active_def)
next
  case (st_refused c name cfg err)
  then show ?thesis using create_failed [of c name "Some cfg" "as_store a"] assms(2,3)
    by (auto simp: create_insert_def split: prod.splits sum.splits)
next
  case (st_failed c rid env err)
  then have live: "status (as_store a) rid \<noteq> None" using assms(3) by (auto simp: single_active_def)
  from update_effect [OF assms(2) st_failed(2) live, of StatusFailed] show ?thesis
    using single_active_settle [OF assms(3), of StatusFailed None rid] by (auto simp: st_failed(1) create_failed_def)
next
  case (st_register c rid env)
  then show ?thesis using assms(2) single_active_pc [OF assms(3), of rid "Some Registered"] by (auto simp: start_register_def)
next
  case (st_running c rid)
  then have live: "status (as_store a) rid \<noteq> None" "pc_live (as_pc a rid)" using assms(3) by (auto simp: single_active_def)
  from update_effect [OF assms(2) st_running(2) live(1), of StatusRunning] show ?thesis
    using single_active_set [OF assms(3) live(2), of StatusRunning "Some Watching"] by (auto simp: st_running(1) start_running_def)
next
  case (st_summary c rid ex)
  then show ?thesis using assms(2,3) summary_effect [OF assms(2), of c ex rid] by simp
next
  case (st_decide c rid ex s' f)
  then show ?thesis using decide_effect [OF assms(2) st_decide(4)] single_active_pc [OF assms(3), of rid "Some (Deciding f)"] by simp
next
  case (st_write c rid f)
  then have live: "status (as_store a) rid \<noteq> None" "isTerminal f" using assms(3) by (fastforce simp: single_active_def)+
  from update_effect [OF assms(2) st_write(2) live(1), of f] show ?thesis
    using single_active_settle [OF assms(3) live(2), of "Some Ending" rid] by (auto simp: st_write(1))
next
  case (st_exit rid)
  then show ?thesis using assms(2) single_active_pc [OF assms(3), of rid None] by (auto simp: watch_exit_def)
next
  case (st_cancel c rid resp)
  show ?thesis
  proof (cases "cancel_check I c rid (as_store a)")
    case (Some x)
    then show ?thesis using st_cancel assms(2,3) by (simp add: runs_Cancel_def)
  next
    case None
    then obtain run where run: "si_Get I c rid (as_store a) = Inr run" "\<not> isTerminal (ar_Status run)"
      by (auto simp: cancel_check_def split: sum.splits if_splits)
    then have st: "status (as_store a) rid = Some (ar_Status run)" using get_some [OF assms(2)] by blast
    then have "status_active (ar_Status run)" using run(2) assms(3) by (auto simp: single_active_def)
    then have "pc_live (as_pc a rid)" using st assms(3) by (metis single_active_def)
    then have "single_active ((status (as_store a))(rid \<mapsto> StatusCancelling)) ((as_pc a)(rid := as_pc a rid))"
      using assms(3) by (intro single_active_set) (auto simp: single_active_def)
    moreover have "cancel_write I c rid a = (a', resp)" using None st_cancel by (simp add: runs_Cancel_def)
    ultimately show ?thesis using cancel_write_effect [OF assms(2) st_cancel(1), of rid] st by auto
  qed
qed simp_all

lemma reachable_single_active:
  assumes "(api_step I False)\<^sup>*\<^sup>* (api_start s0) a" "ok s0" "\<forall>i x. status s0 i = Some x \<longrightarrow> isTerminal x"
  shows "ok (as_store a) \<and> single_active (status (as_store a)) (as_pc a)"
  using assms(1)
proof induction
  case base
  have "\<not> status_active x" if "status s0 i = Some x" for i x using that assms(3) terminal_not_active by blast
  then show ?case using assms(2,3) by (auto simp: api_start_def single_active_def)
next
  case (step a a')
  then show ?case using step_single_active by blast
qed

end


section \<open>The cancel race\<close>

text \<open>A run left cancelling with no goroutine to settle it.\<close>

definition locked_on :: "(string \<Rightarrow> string option) \<Rightarrow> (string \<Rightarrow> run_pc option) \<Rightarrow> string \<Rightarrow> bool" where
  "locked_on st pc rid \<longleftrightarrow> st rid = Some StatusCancelling \<and> pc = Map.empty"

context run_store
begin

lemma locked_refuses:
  assumes "ok (as_store a)" "locked_on (status (as_store a)) (as_pc a) rid" "call_fine c"
  shows "si_Create I c name cfg (as_store a) = (as_store a, Inl ErrConflict)"
  using conflict [OF assms(1,3), of rid StatusCancelling] assms(2) by (simp add: locked_on_def)

lemma locked_cancel:
  assumes "ok (as_store a)" "locked_on (status (as_store a)) (as_pc a) rid" "call_fine c" "cancel_write I c i a = (a', resp)"
  shows "ok (as_store a') \<and> locked_on (status (as_store a')) (as_pc a') rid"
proof (cases "status (as_store a) i = None")
  case True
  obtain s' x where u: "si_UpdateStatus I c i StatusCancelling (as_store a) = (s', x)" by fastforce
  have x: "\<exists>e. x = Inl e" using updated [OF assms(1), of c i StatusCancelling s'] u True by (cases x) auto
  then have "s' = as_store a" using update_failed [of c i StatusCancelling "as_store a" s'] u by auto
  then show ?thesis using x u assms(1,2,4) by (auto simp: cancel_write_def)
next
  case False
  from cancel_write_effect [OF assms(1,3) False] show ?thesis using assms(2,4) by (auto simp: locked_on_def)
qed

lemma locked_step:
  assumes "api_step I split a a'" "ok (as_store a)" "locked_on (status (as_store a)) (as_pc a) rid"
  shows "ok (as_store a') \<and> locked_on (status (as_store a')) (as_pc a') rid"
  using assms
proof cases
  case (st_create c name cfg run)
  then show ?thesis using locked_refuses [OF assms(2,3) st_create(1)] by (simp add: create_insert_def)
next
  case (st_refused c name cfg err)
  then show ?thesis using locked_refuses [OF assms(2,3) st_refused(1)] assms(2,3) by (auto simp: create_insert_def)
next
  case (st_cancel c i resp)
  then show ?thesis using locked_cancel [OF assms(2,3) st_cancel(1)] assms(2,3) by (auto simp: runs_Cancel_def split: option.splits)
next
  case (st_cancel_write c i a'' resp)
  then show ?thesis using locked_cancel [OF assms(2,3) st_cancel_write(3)] by auto
qed (use assms(2,3) in \<open>auto simp: locked_on_def\<close>)

lemma locked_forever:
  assumes "(api_step I split)\<^sup>*\<^sup>* a a'" "ok (as_store a)" "locked_on (status (as_store a)) (as_pc a) rid"
  shows "ok (as_store a') \<and> locked_on (status (as_store a')) (as_pc a') rid"
  using assms(1)
proof induction
  case (step b b')
  then show ?case using locked_step by blast
qed (use assms in simp)

lemma race_locks:
  assumes "ok s0" "call_fine c" "si_Create I c name (Some cfg) s0 = (s1, Inr r)"
  shows "\<exists>a. (api_step I True)\<^sup>*\<^sup>* (api_start s0) a \<and> ok (as_store a) \<and> locked_on (status (as_store a)) (as_pc a) (ar_ID r) \<and>
    as_active a = []"
proof -
  let ?i = "ar_ID r"
  define env where "env = \<lparr>sv_mkdir = None, sv_config = None, sv_log = None, sv_start = None\<rparr>"
  define ex :: "'s exit_env" where "ex = \<lparr>ex_waitErr = None, ex_exitCode = 0, ex_summary = None\<rparr>"
  note new = created [OF assms(1,3)]
  define a1 where "a1 = (api_start s0)\<lparr>as_store := s1, as_pc := [?i \<mapsto> Starting]\<rparr>"
  have 1: "api_step I True (api_start s0) a1"
    by (rule st_create [OF assms(2), of I name cfg _ _ r]) (use assms(3) in \<open>simp_all add: create_insert_def a1_def api_start_def\<close>)
  have "start_prepare I c env ?i s1 = None"
    using get_effect [OF conjunct1 [OF new] assms(2), of ?i] new by (auto simp: start_prepare_def env_def split: sum.splits)
  then have 2: "api_step I True a1 (start_register ?i a1)"
    by (intro st_register [OF assms(2)]) (simp_all add: a1_def api_start_def)
  obtain s2 r2 where s2: "si_UpdateStatus I c ?i StatusRunning s1 = (s2, Inr r2)" "ok s2" "status s2 = (status s1)(?i \<mapsto> StatusRunning)"
    using update_effect [OF conjunct1 [OF new] assms(2), of ?i StatusRunning] new by auto
  define a3 where "a3 = (api_start s0)\<lparr>as_store := s2, as_active := [?i], as_pc := [?i \<mapsto> Watching]\<rparr>"
  have 3: "api_step I True (start_register ?i a1) a3"
    using st_running [OF assms(2), of "start_register ?i a1" ?i I True] s2(1)
    by (simp add: start_register_def start_running_def a1_def a3_def api_start_def)
  have get2: "\<exists>r3. si_Get I c ?i s2 = Inr r3 \<and> ar_Status r3 = StatusRunning"
    using get_effect [OF s2(2) assms(2), of ?i] s2(3) by (auto split: sum.splits)
  then have "cancel_check I c ?i s2 = None" by (auto simp: cancel_check_def isTerminal_def)
  then have 4: "api_step I True a3 (a3\<lparr>as_cancels := [?i]\<rparr>)"
    using st_cancel_check [of True c I ?i a3] assms(2) by (simp add: a3_def api_start_def)
  have "watch_decide I c ex ?i s2 = (s2, Some StatusSucceeded)"
    using get2 by (auto simp: watch_decide_def watch_final_def ex_def)
  then have 5: "api_step I True (a3\<lparr>as_cancels := [?i]\<rparr>) (a3\<lparr>as_cancels := [?i], as_pc := [?i \<mapsto> Deciding StatusSucceeded]\<rparr>)"
    using st_decide [OF assms(2), of "a3\<lparr>as_cancels := [?i]\<rparr>" ?i I ex s2 StatusSucceeded True] by (simp add: a3_def api_start_def)
  obtain s3 r3 where s3: "si_UpdateStatus I c ?i StatusSucceeded s2 = (s3, Inr r3)" "ok s3" "status s3 = (status s2)(?i \<mapsto> StatusSucceeded)"
    using update_effect [OF s2(2) assms(2), of ?i StatusSucceeded] s2(3) by auto
  define a6 where "a6 = (api_start s0)\<lparr>as_store := s3, as_active := [?i], as_pc := [?i \<mapsto> Ending], as_cancels := [?i]\<rparr>"
  have 6: "api_step I True (a3\<lparr>as_cancels := [?i], as_pc := [?i \<mapsto> Deciding StatusSucceeded]\<rparr>) a6"
    using st_write [OF assms(2), of "a3\<lparr>as_cancels := [?i], as_pc := [?i \<mapsto> Deciding StatusSucceeded]\<rparr>" ?i StatusSucceeded I True] s3(1)
    by (simp add: a3_def a6_def api_start_def)
  have 7: "api_step I True a6 (watch_exit ?i a6)" by (rule st_exit) (simp add: a6_def)
  have a7: "watch_exit ?i a6 = (api_start s0)\<lparr>as_store := s3, as_cancels := [?i]\<rparr>"
    by (auto simp: watch_exit_def a6_def api_start_def)
  have "ok (as_store (watch_exit ?i a6))" "status (as_store (watch_exit ?i a6)) ?i \<noteq> None" using s3 by (simp_all add: a7)
  from cancel_write_effect [OF this(1) assms(2) this(2)] obtain a8 resp where a8: "cancel_write I c ?i (watch_exit ?i a6) = (a8, resp)"
    "ok (as_store a8)" "status (as_store a8) = (status s3)(?i \<mapsto> StatusCancelling)" "as_pc a8 = Map.empty" "as_cancels a8 = [?i]"
    by (auto simp: a7 api_start_def)
  then have act: "as_active a8 = []"
    by (auto simp: cancel_write_def CancelRun_def a7 api_start_def split: prod.splits sum.splits)
  have 8: "api_step I True (watch_exit ?i a6) (a8\<lparr>as_cancels := remove1 ?i (as_cancels a8)\<rparr>)"
    by (rule st_cancel_write [OF _ assms(2) _ a8(1)]) (simp_all add: a7)
  note s = converse_rtranclp_into_rtranclp [where r = "api_step I True"]
  have "(api_step I True)\<^sup>*\<^sup>* (api_start s0) (a8\<lparr>as_cancels := remove1 ?i (as_cancels a8)\<rparr>)"
    by (rule s [OF 1 s [OF 2 s [OF 3 s [OF 4 s [OF 5 s [OF 6 s [OF 7 r_into_rtranclp [where r = "api_step I True", OF 8]]]]]]]])
  then show ?thesis using a8 act by (intro exI [of _ "a8\<lparr>as_cancels := remove1 ?i (as_cancels a8)\<rparr>"]) (simp add: locked_on_def)
qed

end


section \<open>Settled runs\<close>

text \<open>A store that never reuses an identifier; the primary key of the table makes the SQLite store one.\<close>

locale fresh_store = run_store +
  assumes fresh: "ok s \<Longrightarrow> si_Create I c name cfg s = (s', Inr r) \<Longrightarrow> status s (ar_ID r) = None"
begin

lemma step_settled:
  assumes "api_step I False a a'" "ok (as_store a)" "single_active (status (as_store a)) (as_pc a)"
    and "status (as_store a) i = Some x" "isTerminal x"
  shows "status (as_store a') i = Some x"
proof -
  have dead: "\<not> pc_live (as_pc a i)"
    using assms(3-5) terminal_not_active by (metis option.inject single_active_def)
  have other: "status (fst (si_UpdateStatus I c rid st (as_store a))) i = Some x" if "call_fine c" "rid \<noteq> i" for c rid st
  proof (cases "si_UpdateStatus I c rid st (as_store a)")
    case (Pair s' y)
    then show ?thesis using assms(4) that updated [OF assms(2), of c rid st s'] update_failed [of c rid st "as_store a" s']
      by (cases y) auto
  qed
  then have live: "status (fst (si_UpdateStatus I c rid st (as_store a))) i = Some x" if "call_fine c" "pc_live (as_pc a rid)" for c rid st
    using dead that by metis
  from assms(1) show ?thesis
  proof cases
    case (st_create c name cfg run)
    then obtain s' where c: "si_Create I c name (Some cfg) (as_store a) = (s', Inr run)" and a': "as_store a' = s'"
      by (auto simp: create_insert_def split: prod.splits sum.splits)
    then show ?thesis using created [OF assms(2) c] fresh [OF assms(2) c] assms(4) by (auto simp: a')
  next
    case (st_refused c name cfg err)
    then show ?thesis using create_failed [of c name "Some cfg" "as_store a"] assms(4)
      by (auto simp: create_insert_def split: prod.splits sum.splits)
  next
    case (st_cancel c rid resp)
    show ?thesis
    proof (cases "rid = i")
      case True
      then have "cancel_check I c rid (as_store a) \<noteq> None"
        using get_effect [OF assms(2) st_cancel(1), of i] assms(4,5) by (auto simp: cancel_check_def split: sum.splits)
      then show ?thesis using st_cancel(2) assms(4) by (auto simp: runs_Cancel_def)
    next
      case False
      then show ?thesis using other [OF st_cancel(1), of rid StatusCancelling] st_cancel(2) assms(4)
        by (auto simp: runs_Cancel_def cancel_write_def CancelRun_def split: option.splits prod.splits sum.splits if_splits)
    qed
  next
    case (st_summary c rid ex)
    then show ?thesis using summary_effect [OF assms(2)] assms(4) by simp
  next
    case (st_decide c rid ex s' f)
    then show ?thesis using decide_effect [OF assms(2) st_decide(4)] assms(4) by simp
  qed (use live assms(4) in \<open>auto simp: create_failed_def start_register_def start_running_def watch_exit_def\<close>)
qed

end

interpretation sq_fresh: fresh_store "SQLiteStore J" sq_ok sq_status for J :: "'s json_codec"
proof unfold_locales
  fix db c name cfg db' r
  assume "sq_ok db" "si_Create (SQLiteStore J) c name cfg db = (db', Inr r)"
  then show "sq_status db (ar_ID r) = None"
    by (auto simp: SQLiteStore_def sq_Create_def sq_insert_def sq_status_def Let_def split: option.splits sum.splits bool.splits if_splits)
qed

section \<open>Properties\<close>

text \<open>C8: starting from a reopened database, whatever requests and watchers interleave, and as long as
  no cancellation is overtaken between its check and its write: at most one run is active; a run is active
  exactly while a goroutine is left to settle it, so an API at rest accepts the next run; and a settled
  run never changes its status again.\<close>

theorem one_run_at_a_time:
  assumes "(api_step (SQLiteStore J) False)\<^sup>*\<^sup>* (api_start db0) a" "sq_ok db0" "\<forall>i x. sq_status db0 i = Some x \<longrightarrow> isTerminal x"
  shows "(\<forall>i j x y. sq_status (as_store a) i = Some x \<longrightarrow> status_active x \<longrightarrow>
       sq_status (as_store a) j = Some y \<longrightarrow> status_active y \<longrightarrow> i = j) \<and>
    (\<forall>i. (\<exists>x. sq_status (as_store a) i = Some x \<and> status_active x) \<longleftrightarrow> pc_live (as_pc a i)) \<and>
    (as_pc a = Map.empty \<longrightarrow> (\<forall>c name cfg. call_fine c \<longrightarrow> snd (si_Create (SQLiteStore J) c name cfg (as_store a)) \<noteq> Inl ErrConflict)) \<and>
    (\<forall>a' i x. api_step (SQLiteStore J) False a a' \<longrightarrow> sq_status (as_store a) i = Some x \<longrightarrow> isTerminal x \<longrightarrow>
       sq_status (as_store a') i = Some x)"
proof -
  have inv: "sq_ok (as_store a)" "single_active (sq_status (as_store a)) (as_pc a)"
    using sq.reachable_single_active [OF assms] by auto
  have "snd (sq_Create J c name cfg (as_store a)) \<noteq> Inl ErrConflict" if "as_pc a = Map.empty" "call_fine c" for c name cfg
  proof -
    have "\<not> (\<exists>i x. sq_status (as_store a) i = Some x \<and> status_active x)" using inv(2) that(1) by (simp add: single_active_def)
    then have "sq_hasActiveLocked c (as_store a) = Inr False"
      using sq_active_iff [OF inv(1)] that(2) by (simp add: sq_hasActiveLocked_def call_fine_def)
    then show ?thesis by (auto simp: sq_Create_def Let_def ErrConflict_def split: option.splits sum.splits)
  qed
  moreover have "i = j" if "sq_status (as_store a) i = Some x" "status_active x" "sq_status (as_store a) j = Some y" "status_active y" for i j x y
    using that inv(2) unfolding single_active_def by metis
  moreover have "(\<exists>x. sq_status (as_store a) i = Some x \<and> status_active x) \<longleftrightarrow> pc_live (as_pc a i)" for i
    using inv(2) by (simp add: single_active_def)
  ultimately show ?thesis using sq_fresh.step_settled [OF _ inv] by (auto simp: SQLiteStore_def)
qed

text \<open>C17: but a cancellation that has checked the status can be overtaken by the end of the run: the
  finished run is then set back to cancelling, no goroutine is left to settle it, and from there on, in
  every continuation, each new run is refused as conflicting.\<close>

theorem cancel_race_locks_api:
  assumes "sq_ok db0" "call_fine c" "si_Create (SQLiteStore J) c name (Some cfg) db0 = (db1, Inr r)"
  shows "\<exists>a. (api_step (SQLiteStore J) True)\<^sup>*\<^sup>* (api_start db0) a \<and> as_pc a = Map.empty \<and> as_active a = [] \<and>
    sq_status (as_store a) (ar_ID r) = Some StatusCancelling \<and>
    (\<forall>a' c' name' cfg'. (api_step (SQLiteStore J) True)\<^sup>*\<^sup>* a a' \<longrightarrow> call_fine c' \<longrightarrow>
       snd (si_Create (SQLiteStore J) c' name' cfg' (as_store a')) = Inl ErrConflict)"
proof -
  from sq.race_locks [OF assms] obtain a where a: "(api_step (SQLiteStore J) True)\<^sup>*\<^sup>* (api_start db0) a" "sq_ok (as_store a)"
    "locked_on (sq_status (as_store a)) (as_pc a) (ar_ID r)" "as_active a = []" by blast
  have "snd (si_Create (SQLiteStore J) c' name' cfg' (as_store a')) = Inl ErrConflict"
    if "(api_step (SQLiteStore J) True)\<^sup>*\<^sup>* a a'" "call_fine c'" for a' c' name' cfg'
    using sq.locked_forever [OF that(1) a(2,3)] sq.locked_refuses [of a' "ar_ID r" c' J name' cfg'] that(2) by simp
  with a show ?thesis by (auto simp: locked_on_def)
qed

lemma demo_created:
  "\<exists>db r. si_Create (SQLiteStore demo_codec) (demo_call 1100000000) ''a'' (Some demo_config) [] = (db, Inr r) \<and>
     ar_ID r = ''run-1970-01-01T00-00-01Z-7f3a''"
  by (simp add: SQLiteStore_def sq_Create_def sq_hasActiveLocked_def demo_call_def demo_codec_def sq_insert_def sq_find_def Let_def)

lemma demo_fine: "call_fine (demo_call t)"
  by (simp add: demo_call_def call_fine_def)

lemma one_run_at_a_time_witness:
  "\<exists>a. (api_step (SQLiteStore demo_codec) False)\<^sup>*\<^sup>* (api_start []) a \<and> as_pc a \<noteq> Map.empty \<and>
     (\<forall>i j x y. sq_status (as_store a) i = Some x \<longrightarrow> status_active x \<longrightarrow> sq_status (as_store a) j = Some y \<longrightarrow> status_active y \<longrightarrow> i = j)"
proof -
  obtain db r where c: "si_Create (SQLiteStore demo_codec) (demo_call 1100000000) ''a'' (Some demo_config) [] = (db, Inr r)"
    using demo_created by blast
  define a where "a = (api_start [])\<lparr>as_store := db, as_pc := [ar_ID r \<mapsto> Starting]\<rparr>"
  have "api_step (SQLiteStore demo_codec) False (api_start []) a"
    by (rule st_create [OF demo_fine [of 1100000000], of "SQLiteStore demo_codec" "''a''" demo_config _ _ r]) (use c in \<open>simp_all add: create_insert_def a_def api_start_def\<close>)
  then have r: "(api_step (SQLiteStore demo_codec) False)\<^sup>*\<^sup>* (api_start []) a" by blast
  have e: "sq_ok []" "\<forall>i x. sq_status [] i = Some x \<longrightarrow> isTerminal x" by (simp_all add: sq_ok_def sq_status_def sq_find_def)
  from one_run_at_a_time [OF r e] r show ?thesis by (intro exI [of _ a]) (simp add: a_def)
qed

lemma cancel_race_locks_api_witness:
  "\<exists>a. (api_step (SQLiteStore demo_codec) True)\<^sup>*\<^sup>* (api_start []) a \<and> as_pc a = Map.empty \<and>
     snd (si_Create (SQLiteStore demo_codec) (demo_call 2120000000) ''b'' (Some demo_config) (as_store a)) = Inl ErrConflict"
proof -
  obtain db r where c: "si_Create (SQLiteStore demo_codec) (demo_call 1100000000) ''a'' (Some demo_config) [] = (db, Inr r)"
    using demo_created by blast
  have e: "sq_ok []" by (simp add: sq_ok_def)
  from cancel_race_locks_api [OF e demo_fine c] demo_fine show ?thesis by blast
qed

end
