(* ===== verification/Api_Tail.thy ===== *)
theory Api_Tail
  imports Api_Runs
begin

text \<open>
  Following \<^verbatim>\<open>progress.jsonl\<close> (\<^verbatim>\<open>apps/api/internal/runs/tail.go\<close>) and streaming it to a client
  (\<^verbatim>\<open>handlers/events.go\<close>). Each round of the follower sees the size of the path, the bytes its
  descriptor can read by then, whether the reads end in an error, and the size of the descriptor
  afterwards (\<open>tail_poll\<close>). A client that leaves cuts the emitted lines at some point. The stream
  is a function of the ready cases its \<^verbatim>\<open>select\<close> takes (\<open>tick\<close>).
\<close>

section \<open>Reading lines\<close>

abbreviation (input) LF :: char where "LF \<equiv> CHR 0x0A"
abbreviation (input) CR :: char where "CR \<equiv> CHR 0x0D"

definition bufio_size :: nat where
  "bufio_size = 4096"

datatype slice_end = SliceOK | SliceFull | SliceEOF

text \<open>\<^verbatim>\<open>bufio.Reader.ReadSlice('\n')\<close>: the slice, what is left to read, and how it ended.\<close>

definition ReadSlice :: "string \<Rightarrow> string \<times> string \<times> slice_end" where
  "ReadSlice s =
     (case find_index (\<lambda>c. c = LF) (take bufio_size s) of
        Some i \<Rightarrow> (take (i + 1) s, drop (i + 1) s, SliceOK)
      | None \<Rightarrow> if bufio_size \<le> length s then (take bufio_size s, drop bufio_size s, SliceFull) else (s, [], SliceEOF))"

definition trim_crlf :: "string \<Rightarrow> string" where
  "trim_crlf s = rev (dropWhile (\<lambda>c. c = CR \<or> c = LF) (rev s))"

lemma ReadSlice_ok:
  assumes "ReadSlice s = (chunk, rest, SliceOK)"
  shows "\<exists>l. s = l @ LF # rest \<and> chunk = l @ [LF] \<and> LF \<notin> set l"
proof -
  from assms obtain i where i: "find_index (\<lambda>c. c = LF) (take bufio_size s) = Some i" "chunk = take (i + 1) s" "rest = drop (i + 1) s"
    by (auto simp: ReadSlice_def split: option.splits if_splits)
  from find_index_split [OF i(1)] obtain a b where ab: "take bufio_size s = a @ LF # b" "length a = i" "\<forall>y \<in> set a. y \<noteq> LF"
    by blast
  obtain tl where tl: "s = a @ LF # tl" using ab(1) append_take_drop_id [of bufio_size s] by (metis append.assoc append_Cons)
  have "chunk = a @ [LF]" "rest = tl" by (simp_all add: i(2,3) tl ab(2) [symmetric])
  with tl ab(3) show ?thesis by (intro exI [of _ a]) auto
qed

lemma ReadSlice_not_ok:
  assumes "ReadSlice s = (chunk, rest, e)" "e \<noteq> SliceOK"
  shows "s = chunk @ rest \<and> LF \<notin> set chunk \<and> (e = SliceEOF \<longrightarrow> rest = []) \<and> (e = SliceFull \<longrightarrow> length chunk = bufio_size)"
proof (cases "find_index (\<lambda>c. c = LF) (take bufio_size s)")
  case None
  then have n: "LF \<notin> set (take bufio_size s)" by (auto simp: find_index_None_iff)
  show ?thesis
  proof (cases "bufio_size \<le> length s")
    case True
    with assms None have "chunk = take bufio_size s" "rest = drop bufio_size s" "e = SliceFull" by (simp_all add: ReadSlice_def)
    with n True show ?thesis by simp
  next
    case False
    with assms None have "chunk = s" "rest = []" "e = SliceEOF" by (simp_all add: ReadSlice_def)
    with n False show ?thesis by simp
  qed
qed (use assms in \<open>simp add: ReadSlice_def\<close>)

lemma ReadSlice_shorter: "ReadSlice s = (chunk, rest, SliceOK) \<Longrightarrow> length rest < length s"
  using ReadSlice_ok by fastforce

text \<open>Draining: the lines emitted, the pending bytes, what is left to read, and how it ended.\<close>

function drain_lines :: "string \<Rightarrow> string \<Rightarrow> string list \<times> string \<times> string \<times> slice_end" where
  "drain_lines buf s =
     (case ReadSlice s of (chunk, rest, e) \<Rightarrow>
        let buf1 = buf @ chunk;
            complete = chunk \<noteq> [] \<and> last chunk = LF;
            line = trim_crlf buf1;
            out = (if complete \<and> line \<noteq> [] then [line] else []);
            buf2 = (if complete then [] else buf1)
        in if e = SliceOK then (let (out', buf', rest', e') = drain_lines buf2 rest in (out @ out', buf', rest', e'))
           else (out, buf2, rest, e))"
  by pat_completeness auto
termination
  by (relation "measure (\<lambda>(buf, s). length s)") (auto dest: ReadSlice_shorter [OF sym])

declare drain_lines.simps [simp del]

text \<open>The reference: the lines that end in a text, and its unfinished last line.\<close>

fun lines_from :: "string \<Rightarrow> string \<Rightarrow> string list \<times> string" where
  "lines_from cur [] = ([], cur)"
| "lines_from cur (c # cs) =
     (if c = LF then (let (ls, p) = lines_from [] cs in (cur # ls, p)) else lines_from (cur @ [c]) cs)"

definition emitted_lines :: "string list \<Rightarrow> string list" where
  "emitted_lines ls = filter (\<lambda>l. l \<noteq> []) (map trim_crlf ls)"

lemma lines_from_append:
  "lines_from cur (s @ t) = (let (l1, p1) = lines_from cur s; (l2, p2) = lines_from p1 t in (l1 @ l2, p2))"
  by (induction s arbitrary: cur) (auto split: prod.splits)

lemma lines_from_plain: "LF \<notin> set s \<Longrightarrow> lines_from cur s = ([], cur @ s)"
  by (induction s arbitrary: cur) auto

lemma lines_from_line: "LF \<notin> set s \<Longrightarrow> lines_from cur (s @ LF # t) = (let (ls, p) = lines_from [] t in ((cur @ s) # ls, p))"
  by (simp add: lines_from_append lines_from_plain)

lemma trim_crlf_LF: "trim_crlf (s @ t @ [LF]) = trim_crlf (s @ t)"
  by (simp add: trim_crlf_def)

lemma emitted_simps: "emitted_lines [] = []" "emitted_lines (a @ b) = emitted_lines a @ emitted_lines b"
  "emitted_lines (x # xs) = (if trim_crlf x \<noteq> [] then [trim_crlf x] else []) @ emitted_lines xs"
  by (simp_all add: emitted_lines_def)

text \<open>Draining emits the lines that end in what it consumes and keeps the unfinished one; it stops
  early only where a line is longer than the buffer.\<close>

lemma drain_lines_exact:
  assumes "drain_lines buf s = (out, buf', rest, e)"
  shows "\<exists>got ls. s = got @ rest \<and> lines_from buf got = (ls, buf') \<and> out = emitted_lines ls \<and>
    (e = SliceEOF \<longrightarrow> rest = []) \<and> (rest = [] \<or> bufio_size \<le> length got)"
  using assms
proof (induction buf s arbitrary: out rest rule: drain_lines.induct)
  case (1 buf s)
  obtain chunk mid e1 where r: "ReadSlice s = (chunk, mid, e1)" by (metis prod_cases3)
  show ?case
  proof (cases "e1 = SliceOK")
    case True
    from ReadSlice_ok [OF r [unfolded True]] obtain l where l: "s = l @ LF # mid" "chunk = l @ [LF]" "LF \<notin> set l" by blast
    obtain out2 where d: "drain_lines [] mid = (out2, buf', rest, e)"
      "out = (if trim_crlf (buf @ l) \<noteq> [] then [trim_crlf (buf @ l)] else []) @ out2"
      using 1(2) r l(2) True by (subst (asm) drain_lines.simps) (auto simp: trim_crlf_LF Let_def split: prod.splits if_splits)
    have "\<exists>got ls. mid = got @ rest \<and> lines_from [] got = (ls, buf') \<and> out2 = emitted_lines ls \<and> (e = SliceEOF \<longrightarrow> rest = []) \<and> (rest = [] \<or> bufio_size \<le> length got)"
      using 1(1) [OF r [symmetric] refl refl refl refl refl refl True, of out2 rest] d(1) l(2) by auto
    then obtain got ls where g: "mid = got @ rest" "lines_from [] got = (ls, buf')" "out2 = emitted_lines ls" "e = SliceEOF \<longrightarrow> rest = []" "rest = [] \<or> bufio_size \<le> length got"
      by blast
    then show ?thesis using l d(2)
      by (intro exI [of _ "l @ LF # got"] exI [of _ "(buf @ l) # ls"]) (auto simp: lines_from_line emitted_simps)
  next
    case False
    from ReadSlice_not_ok [OF r False] have n: "s = chunk @ mid" "LF \<notin> set chunk" "e1 = SliceEOF \<longrightarrow> mid = []" "e1 = SliceFull \<longrightarrow> length chunk = bufio_size"
      by auto
    then have c: "\<not> (chunk \<noteq> [] \<and> last chunk = LF)" using last_in_set by metis
    have "out = [] \<and> buf' = buf @ chunk \<and> rest = mid \<and> e = e1"
      using 1(2) r False c by (subst (asm) drain_lines.simps) (auto simp: Let_def)
    with n False show ?thesis
      by (intro exI [of _ chunk] exI [of _ "[]"]) (cases e1; simp add: lines_from_plain emitted_simps)
  qed
qed


section \<open>Rounds\<close>

record tail_state =
  ta_open :: bool
  ta_pos :: nat
  ta_lastSize :: nat
  ta_lineBuf :: string
  ta_ended :: bool

record tail_poll =
  tp_size :: "nat option"
  tp_data :: string
  tp_broken :: bool
  tp_after :: "nat option"

definition tail_start :: tail_state where
  "tail_start = \<lparr>ta_open = False, ta_pos = 0, ta_lastSize = 0, ta_lineBuf = [], ta_ended = False\<rparr>"

definition tail_drain :: "tail_poll \<Rightarrow> tail_state \<Rightarrow> tail_state \<times> string list" where
  "tail_drain p t =
     (case drain_lines (ta_lineBuf t) (drop (ta_pos t) (tp_data p)) of (out, buf, rest, e) \<Rightarrow>
        (t\<lparr>ta_pos := length (tp_data p) - length rest, ta_lineBuf := buf,
           ta_lastSize := (case tp_after p of None \<Rightarrow> ta_lastSize t | Some n \<Rightarrow> n),
           ta_ended := (e = SliceEOF \<and> tp_broken p)\<rparr>, out))"

definition tail_round :: "tail_poll \<Rightarrow> tail_state \<Rightarrow> tail_state \<times> string list" where
  "tail_round p t =
     (if ta_ended t then (t, [])
      else if \<not> ta_open t
      then (if tp_size p = None then (t, []) else tail_drain p (t\<lparr>ta_open := True, ta_pos := 0, ta_lastSize := 0\<rparr>))
      else case tp_size p of
        Some n \<Rightarrow> if n < ta_lastSize t then (t\<lparr>ta_open := False, ta_lineBuf := []\<rparr>, []) else tail_drain p t
      | None \<Rightarrow> tail_drain p t)"

fun TailLines :: "tail_poll list \<Rightarrow> tail_state \<Rightarrow> tail_state \<times> string list" where
  "TailLines [] t = (t, [])"
| "TailLines (p # ps) t = (let (t1, out) = tail_round p t; (t2, out') = TailLines ps t1 in (t2, out @ out'))"

text \<open>A file that only grows: each round sees at least what the one before saw.\<close>

fun growing :: "string \<Rightarrow> nat \<Rightarrow> tail_poll list \<Rightarrow> bool" where
  "growing s n [] \<longleftrightarrow> True"
| "growing s n (p # ps) \<longleftrightarrow>
     tp_data p = take (length (tp_data p)) s \<and> n \<le> length (tp_data p) \<and> \<not> tp_broken p \<and>
     (case tp_size p of None \<Rightarrow> True | Some m \<Rightarrow> n \<le> m) \<and>
     growing s (case tp_after p of None \<Rightarrow> length (tp_data p) | Some l \<Rightarrow> max l (length (tp_data p))) ps"

definition follows :: "string \<Rightarrow> nat \<Rightarrow> tail_state \<Rightarrow> bool" where
  "follows s n t \<longleftrightarrow> \<not> ta_ended t \<and> ta_lastSize t \<le> n \<and> ta_pos t \<le> n \<and> ta_pos t \<le> length s \<and>
     snd (lines_from [] (take (ta_pos t) s)) = ta_lineBuf t \<and> (\<not> ta_open t \<longrightarrow> ta_pos t = 0)"

definition emitted_by :: "string \<Rightarrow> nat \<Rightarrow> string list" where
  "emitted_by s k = emitted_lines (fst (lines_from [] (take k s)))"

lemma tail_drain_follows:
  assumes "follows s n t" "tp_data p = take (length (tp_data p)) s" "n \<le> length (tp_data p)" "\<not> tp_broken p"
    "tail_drain p t = (t', out)"
  shows "follows s (case tp_after p of None \<Rightarrow> length (tp_data p) | Some l \<Rightarrow> max l (length (tp_data p))) (t'\<lparr>ta_open := True\<rparr>) \<and>
    ta_open t' = ta_open t \<and> emitted_by s (ta_pos t') = emitted_by s (ta_pos t) @ out \<and>
    (ta_pos t' = length (tp_data p) \<or> ta_pos t + bufio_size \<le> ta_pos t')"
proof -
  let ?d = "tp_data p" and ?k = "ta_pos t"
  have b: "?k \<le> n" "?k \<le> length s" "\<not> ta_ended t" "ta_lastSize t \<le> n" "snd (lines_from [] (take ?k s)) = ta_lineBuf t"
    using assms(1) by (auto simp: follows_def)
  have len: "length ?d \<le> length s" using arg_cong [OF assms(2), of length] by simp
  obtain buf rest e where d: "drain_lines (ta_lineBuf t) (drop ?k ?d) = (out, buf, rest, e)"
    using assms(5) by (auto simp: tail_drain_def split: prod.splits)
  then have t': "t' = t\<lparr>ta_pos := length ?d - length rest, ta_lineBuf := buf,
      ta_lastSize := (case tp_after p of None \<Rightarrow> ta_lastSize t | Some n \<Rightarrow> n), ta_ended := False\<rparr>"
    using assms(4,5) by (simp add: tail_drain_def)
  from drain_lines_exact [OF d] obtain got ls where g: "drop ?k ?d = got @ rest" "lines_from (ta_lineBuf t) got = (ls, buf)"
    "out = emitted_lines ls" "rest = [] \<or> bufio_size \<le> length got" by blast
  have k: "?k \<le> length ?d" using b(1) assms(3) by simp
  have lens: "length ?d = ?k + length got + length rest" using arg_cong [OF g(1), of length] k by simp
  have "take ?k ?d @ got @ rest = ?d" using g(1) append_take_drop_id [of ?k ?d] by simp
  moreover have "take ?k ?d = take ?k s" using assms(2) k by (metis min.absorb1 take_take)
  ultimately have "?d = (take ?k s @ got) @ rest" by simp
  then have "take (?k + length got) ?d = take ?k s @ got" using b(2) by simp
  moreover have "take (?k + length got) ?d = take (?k + length got) s" using assms(2) lens by (metis le_add1 min.absorb1 take_take)
  ultimately have got: "take (?k + length got) s = take ?k s @ got" by simp
  have pos: "ta_pos t' = ?k + length got" using lens by (simp add: t')
  have l: "lines_from [] (take (?k + length got) s) = (fst (lines_from [] (take ?k s)) @ ls, buf)"
    using b(5) g(2) by (cases "lines_from [] (take ?k s)") (simp add: got lines_from_append)
  have "emitted_by s (ta_pos t') = emitted_by s ?k @ out" by (simp add: emitted_by_def pos l emitted_simps g(3))
  moreover have "follows s (case tp_after p of None \<Rightarrow> length ?d | Some l \<Rightarrow> max l (length ?d)) (t'\<lparr>ta_open := True\<rparr>)"
    using l lens len b(4) assms(3) by (auto simp: follows_def t' split: option.splits)
  moreover have "ta_pos t' = length ?d \<or> ?k + bufio_size \<le> ta_pos t'" using g(4) lens by (auto simp: pos)
  ultimately show ?thesis by (simp add: t')
qed


lemma tail_round_follows:
  assumes "follows s n t" "growing s n (p # ps)" "tail_round p t = (t', out)"
  shows "\<exists>n'. follows s n' t' \<and> growing s n' ps \<and> n \<le> n' \<and> emitted_by s (ta_pos t') = emitted_by s (ta_pos t) @ out \<and>
    (ta_open t \<longrightarrow> ta_open t') \<and> (tp_size p \<noteq> None \<longrightarrow> ta_open t') \<and>
    (ta_open t' \<longrightarrow> ta_pos t' = length (tp_data p) \<or> ta_pos t + bufio_size \<le> ta_pos t')"
proof -
  define n' where "n' = (case tp_after p of None \<Rightarrow> length (tp_data p) | Some l \<Rightarrow> max l (length (tp_data p)))"
  have p: "tp_data p = take (length (tp_data p)) s" "n \<le> length (tp_data p)" "\<not> tp_broken p" "growing s n' ps"
    "\<And>m. tp_size p = Some m \<Longrightarrow> n \<le> m" and f: "\<not> ta_ended t" "ta_lastSize t \<le> n"
    using assms(1,2) by (auto simp: n'_def follows_def)
  have n': "n \<le> n'" using p(2) by (auto simp: n'_def split: option.splits)
  show ?thesis
  proof (cases "ta_open t")
    case True
    then have "tail_drain p t = (t', out)"
      using assms(3) f p(5) by (fastforce simp: tail_round_def split: option.splits if_splits)
    from tail_drain_follows [OF assms(1) p(1-3) this] have r: "follows s n' (t'\<lparr>ta_open := True\<rparr>)" "ta_open t' = ta_open t"
      "emitted_by s (ta_pos t') = emitted_by s (ta_pos t) @ out" "ta_pos t' = length (tp_data p) \<or> ta_pos t + bufio_size \<le> ta_pos t'"
      by (auto simp: n'_def)
    from r(1,2) True have "follows s n' t'" by (simp add: follows_def)
    with r True n' p(4) show ?thesis by auto
  next
    case closed: False
    then have z: "ta_pos t = 0" using assms(1) by (simp add: follows_def)
    show ?thesis
    proof (cases "tp_size p")
      case None
      then have "t' = t" "out = []" using assms(3) f closed by (auto simp: tail_round_def)
      moreover have "follows s n' t" using assms(1) n' by (auto simp: follows_def)
      ultimately show ?thesis using None closed n' p(4) by auto
    next
      case (Some m)
      let ?t = "t\<lparr>ta_open := True, ta_pos := 0, ta_lastSize := 0\<rparr>"
      have "tail_drain p ?t = (t', out)" using assms(3) f closed Some by (simp add: tail_round_def)
      moreover have "follows s n ?t" using assms(1) z by (simp add: follows_def)
      ultimately have r: "follows s n' (t'\<lparr>ta_open := True\<rparr>)" "ta_open t'"
        "emitted_by s (ta_pos t') = emitted_by s 0 @ out" "ta_pos t' = length (tp_data p) \<or> bufio_size \<le> ta_pos t'"
        using tail_drain_follows [of s n ?t p t' out] p(1-3) by (auto simp: n'_def)
      from r(1,2) have "follows s n' t'" by (simp add: follows_def)
      with r z n' p(4) show ?thesis by auto
    qed
  qed
qed

lemma TailLines_follows:
  assumes "follows s n t" "growing s n ps" "TailLines ps t = (t', out)"
  shows "\<exists>n'. follows s n' t' \<and> emitted_by s (ta_pos t') = emitted_by s (ta_pos t) @ out \<and> (ta_open t \<longrightarrow> ta_open t')"
  using assms
proof (induction ps arbitrary: n t out)
  case (Cons p ps)
  obtain t1 o1 where 1: "tail_round p t = (t1, o1)" by fastforce
  obtain t2 o2 where 2: "TailLines ps t1 = (t2, o2)" by fastforce
  from tail_round_follows [OF Cons.prems(1,2) 1] obtain n' where r: "follows s n' t1" "growing s n' ps"
    "emitted_by s (ta_pos t1) = emitted_by s (ta_pos t) @ o1" "ta_open t \<longrightarrow> ta_open t1" by blast
  have "t' = t2" "out = o1 @ o2" using Cons.prems(3) 1 2 by auto
  with Cons.IH [OF r(1,2), of o2] r(3,4) 2 show ?case by auto
qed auto

lemma TailLines_append: "TailLines (ps @ qs) t = (let (t1, o1) = TailLines ps t; (t2, o2) = TailLines qs t1 in (t2, o1 @ o2))"
  by (induction ps arbitrary: t) (auto split: prod.splits)

lemma growing_append: "follows s n t \<Longrightarrow> growing s n (ps @ qs) \<Longrightarrow> \<exists>n'. follows s n' (fst (TailLines ps t)) \<and> growing s n' qs"
proof (induction ps arbitrary: n t)
  case (Cons p ps)
  obtain t1 o1 where 1: "tail_round p t = (t1, o1)" by fastforce
  from tail_round_follows [OF Cons.prems(1) Cons.prems(2) [unfolded append_Cons] 1] obtain n' where "follows s n' t1" "growing s n' (ps @ qs)" by blast
  from Cons.IH [OF this] 1 show ?case by (simp add: case_prod_beta)
qed auto

lemma TailLines_catches_up:
  assumes "follows s n t" "growing s n ps" "\<forall>p \<in> set ps. tp_data p = s \<and> tp_size p \<noteq> None"
    "TailLines ps t = (t', out)" "ps \<noteq> []"
  shows "ta_pos t' = length s \<or> ta_pos t + bufio_size * length ps \<le> ta_pos t'"
  using assms
proof (induction ps arbitrary: n t out)
  case (Cons p ps)
  obtain t1 o1 where 1: "tail_round p t = (t1, o1)" by fastforce
  obtain t2 o2 where 2: "TailLines ps t1 = (t2, o2)" by fastforce
  have p: "tp_data p = s" "tp_size p \<noteq> None" using Cons.prems(3) by auto
  from tail_round_follows [OF Cons.prems(1,2) 1] p obtain n' where r: "follows s n' t1" "growing s n' ps"
    "ta_pos t1 = length s \<or> ta_pos t + bufio_size \<le> ta_pos t1" by metis
  have t': "t' = t2" using Cons.prems(4) 1 2 by simp
  show ?case
  proof (cases "ps = []")
    case True
    then show ?thesis using r(3) 2 t' by auto
  next
    case False
    from TailLines_follows [OF r(1,2) 2] have "ta_pos t2 \<le> length s" by (auto simp: follows_def)
    moreover have "ta_pos t' = length s \<or> ta_pos t1 + bufio_size * length ps \<le> ta_pos t'"
      using Cons.IH [OF r(1,2) _ 2 [folded t'] False] Cons.prems(3) by simp
    ultimately show ?thesis using r(3) t' by auto
  qed
qed simp

text \<open>C20: over a file that only grows, the follower emits exactly the lines completed by the bytes it has
  read, without carriage returns at their end and without empty ones, however the writer's bytes were cut
  into rounds and wherever a line is longer than the buffer; this is always a beginning of the lines
  of the file, and all of them once it has polled the whole file often enough to read 4096 bytes a round.\<close>

theorem tail_lines_exact:
  assumes "growing s 0 (ps @ qs)" "TailLines (ps @ qs) tail_start = (t', out)"
  shows "out = emitted_lines (fst (lines_from [] (take (ta_pos t') s))) \<and> (\<exists>more. emitted_lines (fst (lines_from [] s)) = out @ more) \<and>
    (qs \<noteq> [] \<and> (\<forall>q \<in> set qs. tp_data q = s \<and> tp_size q \<noteq> None) \<and> length s \<le> 4096 * length qs \<longrightarrow>
      out = emitted_lines (fst (lines_from [] s)))"
proof -
  have start: "follows s 0 tail_start" by (simp add: follows_def tail_start_def)
  from TailLines_follows [OF start assms] have a: "out = emitted_by s (ta_pos t')"
    by (auto simp: emitted_by_def tail_start_def emitted_simps)
  obtain t1 o1 where 1: "TailLines ps tail_start = (t1, o1)" by fastforce
  obtain o2 where 2: "TailLines qs t1 = (t', o2)" using assms(2) 1 by (auto simp: TailLines_append split: prod.splits)
  from growing_append [OF start assms(1)] 1 obtain n where n: "follows s n t1" "growing s n qs" by auto
  have c: "out = emitted_lines (fst (lines_from [] s))"
    if q: "qs \<noteq> []" "\<forall>q \<in> set qs. tp_data q = s \<and> tp_size q \<noteq> None" "length s \<le> 4096 * length qs"
  proof -
    from TailLines_follows [OF n 2] have "ta_pos t' \<le> length s" by (auto simp: follows_def)
    with TailLines_catches_up [OF n q(2) 2 q(1)] q(3) have "ta_pos t' = length s" by (auto simp: bufio_size_def)
    then show ?thesis by (simp add: a emitted_by_def)
  qed
  have "emitted_lines (fst (lines_from [] s)) = out @ emitted_lines (fst (lines_from (snd (lines_from [] (take (ta_pos t') s))) (drop (ta_pos t') s)))"
    using lines_from_append [of "[]" "take (ta_pos t') s" "drop (ta_pos t') s"]
    by (simp add: a emitted_by_def emitted_simps Let_def case_prod_beta)
  then show ?thesis using a c by (auto simp: emitted_by_def)
qed


definition demo_polls :: "tail_poll list" where
  "demo_polls =
     [\<lparr>tp_size = None, tp_data = [], tp_broken = False, tp_after = None\<rparr>,
      \<lparr>tp_size = Some 3, tp_data = [CHR ''a'', CR, LF], tp_broken = False, tp_after = Some 4\<rparr>,
      \<lparr>tp_size = Some 4, tp_data = [CHR ''a'', CR, LF, CHR ''b''], tp_broken = False, tp_after = Some 4\<rparr>]"

definition demo_last :: tail_poll where
  "demo_last = \<lparr>tp_size = Some 6, tp_data = [CHR ''a'', CR, LF, CHR ''b'', CHR ''c'', LF], tp_broken = False, tp_after = Some 6\<rparr>"

lemma tail_lines_exact_witness:
  "snd (TailLines (demo_polls @ [demo_last]) tail_start) = [''a'', ''bc'']"
proof -
  let ?s = "[CHR ''a'', CR, LF, CHR ''b'', CHR ''c'', LF]"
  obtain t' out where r: "TailLines (demo_polls @ [demo_last]) tail_start = (t', out)" by fastforce
  have g: "growing ?s 0 (demo_polls @ [demo_last])" by (simp add: demo_polls_def demo_last_def)
  have "emitted_lines (fst (lines_from [] ?s)) = [''a'', ''bc'']" by (simp add: emitted_lines_def trim_crlf_def)
  moreover have "out = emitted_lines (fst (lines_from [] ?s))"
    using conjunct2 [OF conjunct2 [OF tail_lines_exact [OF g r]]] by (simp add: demo_last_def)
  ultimately show ?thesis using r by simp
qed

section \<open>The event stream\<close>

datatype 's tick =
    ClientGone
  | ALine "string option"
  | Heartbeat
  | StatusPoll "'s api_run res" "'s option option"

record 's sse_codec =
  se_log :: "string \<Rightarrow> string res"
  se_complete :: "string \<Rightarrow> string \<Rightarrow> 's option \<Rightarrow> string res"

definition writeSSERaw :: "string \<Rightarrow> string \<Rightarrow> string" where
  "writeSSERaw event payload = ''event: '' @ event @ [LF] @ ''data: '' @ payload @ [LF, LF]"

definition writeSSE :: "string \<Rightarrow> string res \<Rightarrow> string" where
  "writeSSE event payload = (case payload of Inl err \<Rightarrow> [] | Inr text \<Rightarrow> writeSSERaw event text)"

definition heartbeat_text :: string where
  "heartbeat_text = '': heartbeat'' @ [LF] @ ''event: ping'' @ [LF] @ ''data: '' @ [LF, LF]"

definition complete_event :: "'s sse_codec \<Rightarrow> 's api_run \<Rightarrow> 's option option \<Rightarrow> string" where
  "complete_event J cur file =
     (let summary = (case ar_Summary cur of Some x \<Rightarrow> Some x | None \<Rightarrow> (case file of None \<Rightarrow> None | Some x \<Rightarrow> x)) in
      writeSSE ''complete'' (se_complete J (ar_ID cur) (ar_Status cur) summary))"

text \<open>What the loop writes, and whether it has returned; \<open>tailing\<close> is false once the channel is nil,
  which is then never ready.\<close>

fun stream_loop :: "'s sse_codec \<Rightarrow> bool \<Rightarrow> 's tick list \<Rightarrow> string list \<times> bool" where
  "stream_loop J tailing [] = ([], False)"
| "stream_loop J tailing (ClientGone # ts) = ([], True)"
| "stream_loop J tailing (ALine line # ts) =
     (if \<not> tailing then stream_loop J tailing ts
      else case line of
        None \<Rightarrow> stream_loop J False ts
      | Some l \<Rightarrow> (let (out, done) = stream_loop J tailing ts in (writeSSERaw ''progress'' l # out, done)))"
| "stream_loop J tailing (Heartbeat # ts) =
     (let (out, done) = stream_loop J tailing ts in (heartbeat_text # out, done))"
| "stream_loop J tailing (StatusPoll res file # ts) =
     (case res of
        Inl err \<Rightarrow> ([], True)
      | Inr cur \<Rightarrow> if isTerminal (ar_Status cur) then ([complete_event J cur file], True) else stream_loop J tailing ts)"

definition event_paths :: "string \<Rightarrow> string \<Rightarrow> string \<times> string" where
  "event_paths dataDir rid =
     (let runDir = path_Join [dataDir, ''runs'', rid] in (path_Join [runDir, ''progress.jsonl''], path_Join [runDir, ''summary.json'']))"

definition NewEventsHandler :: "string \<Rightarrow> string" where
  "NewEventsHandler dataDir = (if dataDir = [] then ''data'' else dataDir)"

definition events_Stream :: "('st, 's) store_if \<Rightarrow> 's sse_codec \<Rightarrow> call_env \<Rightarrow> bool \<Rightarrow> string \<Rightarrow> 's tick list \<Rightarrow> 'st \<Rightarrow>
    's response + (string list \<times> bool)" where
  "events_Stream I J c flusher rid ts s =
     (case si_Get I c rid s of Inl err \<Rightarrow> Inl (fetch_failed err)
      | Inr run \<Rightarrow>
         if \<not> flusher then Inl (500, ErrorBody ''streaming unsupported'' None)
         else let (out, done) = stream_loop J True ts in
           Inr (writeSSE ''log'' (se_log J (''Streaming progress for '' @ ar_ID run)) # out, done))"

subsection \<open>What a client receives\<close>

fun tick_ends :: "'s tick \<Rightarrow> bool" where
  "tick_ends ClientGone = True"
| "tick_ends (StatusPoll (Inl err) file) = True"
| "tick_ends (StatusPoll (Inr cur) file) = isTerminal (ar_Status cur)"
| "tick_ends _ = False"

fun tick_final :: "'s sse_codec \<Rightarrow> 's tick list \<Rightarrow> string list" where
  "tick_final J (StatusPoll (Inr cur) file # ts) = [complete_event J cur file]"
| "tick_final J _ = []"

fun tick_frame :: "'s tick \<Rightarrow> string list" where
  "tick_frame (ALine (Some l)) = [writeSSERaw ''progress'' l]"
| "tick_frame Heartbeat = [heartbeat_text]"
| "tick_frame _ = []"

fun tick_lines :: "'s tick list \<Rightarrow> string list" where
  "tick_lines [] = []"
| "tick_lines (ALine (Some l) # ts) = l # tick_lines ts"
| "tick_lines (_ # ts) = tick_lines ts"

text \<open>The follower closes its channel once, after its last line.\<close>

definition closes_once :: "'s tick list \<Rightarrow> bool" where
  "closes_once ts \<longleftrightarrow> list_all (\<lambda>t. case t of ALine l \<Rightarrow> False | _ \<Rightarrow> True) (drop 1 (dropWhile (\<lambda>t. t \<noteq> ALine None) ts))"


lemma stream_loop_closed:
  "list_all (\<lambda>t. case t of ALine l \<Rightarrow> False | _ \<Rightarrow> True) ts \<Longrightarrow> stream_loop J tailing ts =
     (concat (map tick_frame (takeWhile (\<lambda>t. \<not> tick_ends t) ts)) @ tick_final J (dropWhile (\<lambda>t. \<not> tick_ends t) ts), list_ex tick_ends ts)"
  by (induction J tailing ts rule: stream_loop.induct) (auto split: sum.splits prod.splits)

lemma closes_once_Cons:
  "closes_once (t # ts) \<Longrightarrow> (if t = ALine None then list_all (\<lambda>t. case t of ALine l \<Rightarrow> False | _ \<Rightarrow> True) ts else closes_once ts)"
  by (auto simp: closes_once_def)

text \<open>The stream: the log event, an event per received line and heartbeat in the order received, and,
  when the status has become terminal and not before, a last event \<^verbatim>\<open>complete\<close>.\<close>

lemma stream_loop_exact:
  "closes_once ts \<Longrightarrow> stream_loop J True ts =
     (concat (map tick_frame (takeWhile (\<lambda>t. \<not> tick_ends t) ts)) @ tick_final J (dropWhile (\<lambda>t. \<not> tick_ends t) ts), list_ex tick_ends ts)"
proof (induction ts)
  case (Cons t ts)
  note c = closes_once_Cons [OF Cons.prems]
  show ?case
  proof (cases "t = ALine None")
    case True
    then show ?thesis using c stream_loop_closed [of ts J False] by simp
  next
    case False
    then have ih: "stream_loop J True ts = (concat (map tick_frame (takeWhile (\<lambda>t. \<not> tick_ends t) ts)) @
        tick_final J (dropWhile (\<lambda>t. \<not> tick_ends t) ts), list_ex tick_ends ts)" using c Cons.IH by simp
    show ?thesis
    proof (cases t)
      case (ALine l)
      with ih False show ?thesis by (cases l) simp_all
    next
      case (StatusPoll res y)
      with ih show ?thesis by (cases res) simp_all
    qed (simp_all add: ih)
  qed
qed simp

end
