(* ===== verification/Api_Results.thy ===== *)
theory Api_Results
  imports Api_Tail Subscriber_Pool
begin

text \<open>
  The results endpoints (\<^verbatim>\<open>apps/api/internal/server/handlers/results.go\<close>): the summary of a run,
  the establishment curve and the latency histogram derived from it, and the files of the run's
  directory. Decoded JSON is \<open>jval\<close>, whose numbers are finite doubles; what the file system returns
  for a path is a function argument.
\<close>

section \<open>The directory of a run\<close>

text \<open>The directory of a run is cleaned, whatever the data directory.\<close>

lemma RunDir_stack:
  assumes "dir \<noteq> []" "CHR ''/'' \<notin> set rid" "rid \<notin> {[], ''.'', ''..''}"
  shows "\<exists>rooted es. stack_ok rooted es \<and> es \<noteq> [] \<and> RunDir dir rid = rooted_text rooted @ join_path (rev es)"
proof -
  let ?q = "dir @ ''/'' @ ''runs'' @ ''/'' @ rid"
  define rooted where "rooted = (take 1 ?q = ''/'')"
  define d where "d = foldl (path_step rooted) [] (split_path dir)"
  have ok: "stack_ok rooted d" unfolding d_def by (rule path_steps_ok) (auto dest: split_path_no_slash)
  have "split_path ?q = split_path dir @ [''runs'', rid]"
    using split_path_append [of dir "''runs'' @ ''/'' @ rid"] split_path_append [of "''runs''" rid] split_path_plain [OF assms(2)]
      split_path_plain [of "''runs''"] by simp
  then have es: "foldl (path_step rooted) [] (split_path ?q) = rid # ''runs'' # d"
    using assms(3) by (simp add: path_step_def d_def)
  have ok2: "stack_ok rooted (rid # ''runs'' # d)" using ok assms by simp
  have "path_Clean ?q = rooted_text rooted @ join_path (rev (rid # ''runs'' # d))"
    using es join_path_head [of "rev (rid # ''runs'' # d)"] stack_ok_plain [OF ok2]
    unfolding path_Clean_split Let_def rooted_def [symmetric] by auto
  moreover have "RunDir dir rid = path_Clean ?q" using assms by (simp add: RunDir_def path_Join_def)
  ultimately show ?thesis using ok2 by (intro exI [of _ rooted] exI [of _ "rid # ''runs'' # d"]) simp
qed

lemma RunDir_child:
  assumes "dir \<noteq> []" "CHR ''/'' \<notin> set rid" "rid \<notin> {[], ''.'', ''..''}" "CHR ''/'' \<notin> set x" "x \<noteq> []" "x \<noteq> ''..''"
  shows "path_Join [RunDir dir rid, x] = (if x = ''.'' then RunDir dir rid else RunDir dir rid @ ''/'' @ x)"
proof -
  from RunDir_stack [OF assms(1-3)] obtain rooted es where es: "stack_ok rooted es" "es \<noteq> []"
    "RunDir dir rid = rooted_text rooted @ join_path (rev es)" by blast
  have "RunDir dir rid \<noteq> []" using es join_path_head [of "rev es"] stack_ok_plain [OF es(1)] by auto
  then have "path_Join [RunDir dir rid, x] = path_Clean (RunDir dir rid @ ''/'' @ x)" using assms(5) by (simp add: path_Join_def)
  moreover have "path_step rooted es x = (if x = ''.'' then es else x # es)" using assms(5,6) by (simp add: path_step_def)
  ultimately show ?thesis using clean_again [OF es assms(4)] es(2,3) join_path_snoc [of "rev es" x] by (auto split: if_splits)
qed


text \<open>So is the identifier of a run.\<close>

lemma radix16_digits: "\<forall>c \<in> set (radix 16 n). c \<noteq> CHR ''/''"
proof (induction n rule: less_induct)
  case (less n)
  have "digit_char d \<noteq> CHR ''/''" if "d < 16" for d
  proof
    assume "digit_char d = CHR ''/''"
    then have "of_char (digit_char d) = (47 :: nat)" by simp
    then show False using that by (simp add: digit_char_def split: if_splits)
  qed
  then show ?case using less [of "n div 16"] by (subst radix.simps) auto
qed

lemma hex_bytes_plain: "CHR ''/'' \<notin> set (hex_bytes bs)"
  using radix16_digits by (auto simp: hex_bytes_def hex_pad_def pad0_def)

lemma dec_pad_plain: "CHR ''/'' \<notin> set (dec_pad w n)"
  using dec_pad_digits [of w n] by (auto simp: list_all_iff ascii_digit_def)

lemma generateID_plain: "CHR ''/'' \<notin> set (generateID now rnd) \<and> generateID now rnd \<notin> {[], ''.'', ''..''}"
  using hex_bytes_plain [of rnd] dec_pad_plain by (simp add: generateID_def clock_text_def Let_def split: prod.splits)

section \<open>Decoded JSON\<close>

datatype jval = JInt int | JInt64 int | JFloat rat | JString string | JList "jval list" | JMap "(string \<times> jval) list" | JOther

type_synonym summary = "(string \<times> jval) list"

definition asInt :: "int \<Rightarrow> jval option \<Rightarrow> int" where
  "asInt ovf v = (case v of Some (JInt n) \<Rightarrow> n | Some (JInt64 n) \<Rightarrow> n | Some (JFloat x) \<Rightarrow> f_to_int64 ovf (Fin x) | _ \<Rightarrow> 0)"

definition asFloat :: "jval \<Rightarrow> float64" where
  "asFloat v = (case v of JInt n \<Rightarrow> f_of_int n | JInt64 n \<Rightarrow> f_of_int n | JFloat x \<Rightarrow> Fin x | _ \<Rightarrow> Fin 0)"

text \<open>A type assertion to a map that fails leaves a nil map, in which every key is missing.\<close>

definition as_map :: "jval option \<Rightarrow> (string \<times> jval) list option" where
  "as_map v = (case v of Some (JMap m) \<Rightarrow> Some m | _ \<Rightarrow> None)"

definition lookup_in :: "(string \<times> jval) list option \<Rightarrow> string \<Rightarrow> jval option" where
  "lookup_in m k = (case m of None \<Rightarrow> None | Some m \<Rightarrow> map_of m k)"

definition extractCurve :: "summary \<Rightarrow> jval list" where
  "extractCurve s =
     (case map_of s ''establishment'' of
        Some (JMap est) \<Rightarrow> (case map_of est ''curve'' of Some (JList curve) \<Rightarrow> curve | _ \<Rightarrow> [])
      | _ \<Rightarrow> [])"

definition histogram_pcts :: "(string \<times> float64) list" where
  "histogram_pcts = [(''p50'', fround (50 / 100)), (''p95'', fround (95 / 100)), (''p99'', fround (99 / 100)), (''max'', fround 1)]"

definition total_established :: "int \<Rightarrow> summary \<Rightarrow> int" where
  "total_established ovf s =
     (let subs = as_map (map_of s ''subscribers''); n = asInt ovf (lookup_in subs ''established'') in
      if n = 0 then asInt ovf (lookup_in subs ''total'') else n)"

definition finite_key :: "float64 \<Rightarrow> rat" where
  "finite_key x = (case x of Fin y \<Rightarrow> y | _ \<Rightarrow> 0)"

definition bucket :: "int \<Rightarrow> int \<Rightarrow> (string \<times> jval) list \<Rightarrow> string \<times> float64 \<Rightarrow> (jval \<times> int) list" where
  "bucket ovf n lat p = (case map_of lat (fst p) of None \<Rightarrow> [] | Some v \<Rightarrow> [(v, f_to_int64 ovf (fmul (f_of_int n) (snd p)))])"

definition extractHistogram :: "int \<Rightarrow> summary \<Rightarrow> (jval \<times> int) list" where
  "extractHistogram ovf s =
     (let est = as_map (map_of s ''establishment''); n = total_established ovf s in
      if est = None \<or> n = 0 then []
      else case as_map (lookup_in est ''latency_ms'') of
        None \<Rightarrow> []
      | Some lat \<Rightarrow> sort_key (\<lambda>b. finite_key (asFloat (fst b))) (concat (map (bucket ovf n lat) histogram_pcts)))"

section \<open>Endpoints\<close>

datatype summary_file = NoSummary | Unreadable goerr | SummaryText "summary option res"

datatype results_body =
    RError string "string option"
  | RSummary summary
  | RCurve int "jval list"
  | RHistogram "(jval \<times> int) list"
  | RArtifacts "(string \<times> int \<times> string) list"
  | RFile "(string \<times> string) list" string

type_synonym results_response = "nat \<times> results_body"

definition requireRun :: "('st, summary) store_if \<Rightarrow> call_env \<Rightarrow> string \<Rightarrow> 'st \<Rightarrow> results_response + summary api_run" where
  "requireRun I c rid s = (case si_Get I c rid s of
       Inl err \<Rightarrow> Inl (if err = ErrNotFound then (404, RError ''run not found'' None)
         else (500, RError ''failed to fetch run'' (Some (err_msg err))))
     | Inr run \<Rightarrow> Inr run)"

definition results_runDir :: "string \<Rightarrow> string \<Rightarrow> string" where
  "results_runDir dataDir rid = RunDir (if dataDir = [] then ''data'' else dataDir) rid"

definition loadSummary :: "(string \<Rightarrow> summary_file) \<Rightarrow> string \<Rightarrow> summary api_run \<Rightarrow> summary option res" where
  "loadSummary readFile dataDir run =
     (case ar_Summary run of Some m \<Rightarrow> Inr (Some m)
      | None \<Rightarrow> (case readFile (path_Join [results_runDir dataDir (ar_ID run), ''summary.json'']) of
          NoSummary \<Rightarrow> Inr None
        | Unreadable err \<Rightarrow> Inl err
        | SummaryText x \<Rightarrow> x))"

text \<open>The three endpoints differ in what they make of the summary.\<close>

definition with_summary :: "(string \<Rightarrow> summary_file) \<Rightarrow> string \<Rightarrow> summary api_run \<Rightarrow> (summary \<Rightarrow> results_body) \<Rightarrow> results_response" where
  "with_summary readFile dataDir run f =
     (case loadSummary readFile dataDir run of
        Inl err \<Rightarrow> (500, RError ''failed to read summary'' (Some (err_msg err)))
      | Inr None \<Rightarrow> (409, RError ''results not available yet'' (Some (ar_Status run)))
      | Inr (Some s) \<Rightarrow> (200, f s))"

definition results_Summary :: "('st, summary) store_if \<Rightarrow> call_env \<Rightarrow> (string \<Rightarrow> summary_file) \<Rightarrow> string \<Rightarrow> string \<Rightarrow> 'st \<Rightarrow> results_response" where
  "results_Summary I c readFile dataDir rid s =
     (case requireRun I c rid s of Inl resp \<Rightarrow> resp | Inr run \<Rightarrow> with_summary readFile dataDir run RSummary)"

definition results_EstablishmentCurve :: "('st, summary) store_if \<Rightarrow> call_env \<Rightarrow> (string \<Rightarrow> summary_file) \<Rightarrow> string \<Rightarrow> string \<Rightarrow> 'st \<Rightarrow> results_response" where
  "results_EstablishmentCurve I c readFile dataDir rid s =
     (case requireRun I c rid s of Inl resp \<Rightarrow> resp
      | Inr run \<Rightarrow> with_summary readFile dataDir run (\<lambda>m. RCurve 1000 (extractCurve m)))"

definition results_LatencyHistogram :: "('st, summary) store_if \<Rightarrow> call_env \<Rightarrow> int \<Rightarrow> (string \<Rightarrow> summary_file) \<Rightarrow> string \<Rightarrow> string \<Rightarrow> 'st \<Rightarrow>
    results_response" where
  "results_LatencyHistogram I c ovf readFile dataDir rid s =
     (case requireRun I c rid s of Inl resp \<Rightarrow> resp
      | Inr run \<Rightarrow> with_summary readFile dataDir run (\<lambda>m. RHistogram (extractHistogram ovf m)))"

text \<open>A directory entry: its name, whether it is a directory, and its size unless that cannot be read.\<close>

record dir_entry =
  de_Name :: string
  de_IsDir :: bool
  de_Size :: "int option"

datatype listing = NoDirectory | NotListed goerr | Entries "dir_entry list"

definition artifact_entry :: "string \<Rightarrow> dir_entry \<Rightarrow> (string \<times> int \<times> string) list" where
  "artifact_entry rid e =
     (if de_IsDir e then []
      else case de_Size e of None \<Rightarrow> []
        | Some n \<Rightarrow> [(de_Name e, n, ''/api/v1/runs/'' @ rid @ ''/artifacts/'' @ de_Name e)])"

definition results_Artifacts :: "('st, summary) store_if \<Rightarrow> call_env \<Rightarrow> (string \<Rightarrow> listing) \<Rightarrow> string \<Rightarrow> string \<Rightarrow> 'st \<Rightarrow> results_response" where
  "results_Artifacts I c readDir dataDir rid s =
     (case requireRun I c rid s of Inl resp \<Rightarrow> resp
      | Inr run \<Rightarrow> (case readDir (results_runDir dataDir (ar_ID run)) of
          NoDirectory \<Rightarrow> (200, RArtifacts [])
        | NotListed err \<Rightarrow> (500, RError ''failed to list artifacts'' (Some (err_msg err)))
        | Entries es \<Rightarrow> (200, RArtifacts (sort_key fst (concat (map (artifact_entry (ar_ID run)) es))))))"

definition has_suffix :: "string \<Rightarrow> string \<Rightarrow> bool" where
  "has_suffix s suf \<longleftrightarrow> length suf \<le> length s \<and> drop (length s - length suf) s = suf"

definition contentTypeFor :: "string \<Rightarrow> string" where
  "contentTypeFor name =
     (if has_suffix name ''.json'' \<or> has_suffix name ''.jsonl'' then ''application/json''
      else if has_suffix name ''.log'' then ''text/plain; charset=utf-8''
      else if has_suffix name ''.toml'' then ''application/toml''
      else ''application/octet-stream'')"

definition strFormatInt :: "int \<Rightarrow> string" where
  "strFormatInt n0 =
     (if n0 = 0 then ''0''
      else let neg = n0 < 0; n = (if neg then wrap64 (- n0) else n0); ds = digits_loop (nat n) []
        in if neg then CHR ''-'' # ds else ds)"

datatype opened = OpenMissing | OpenFailed goerr | OpenFile "int res" string

text \<open>\<^verbatim>\<open>strings.Contains(name, "..")\<close>.\<close>

fun has_dots :: "string \<Rightarrow> bool" where
  "has_dots (c # d # cs) \<longleftrightarrow> (c = CHR ''.'' \<and> d = CHR ''.'') \<or> has_dots (d # cs)"
| "has_dots _ \<longleftrightarrow> False"

definition artifact_refused :: "string \<Rightarrow> bool" where
  "artifact_refused name \<longleftrightarrow> name = [] \<or> list_ex (\<lambda>c. c = CHR ''/'' \<or> c = CHR 0x5C) name \<or> has_dots name"

definition artifact_reply :: "string \<Rightarrow> opened \<Rightarrow> results_response" where
  "artifact_reply name f =
     (case f of
        OpenMissing \<Rightarrow> (404, RError ''artifact not found'' (Some name))
      | OpenFailed err \<Rightarrow> (500, RError ''failed to open artifact'' (Some (err_msg err)))
      | OpenFile (Inl err) content \<Rightarrow> (500, RError ''failed to stat artifact'' (Some (err_msg err)))
      | OpenFile (Inr len) content \<Rightarrow>
          (200, RFile ([(''Content-Type'', contentTypeFor name),
              (''Content-Disposition'', ''attachment; filename='' @ [CHR 0x22] @ name @ [CHR 0x22])] @
            (if len > 0 then [(''Content-Length'', strFormatInt len)] else [])) content))"

definition results_Artifact :: "('st, summary) store_if \<Rightarrow> call_env \<Rightarrow> (string \<Rightarrow> opened) \<Rightarrow> string \<Rightarrow> string \<Rightarrow> string \<Rightarrow> 'st \<Rightarrow> results_response" where
  "results_Artifact I c open_file dataDir rid name s =
     (case requireRun I c rid s of Inl resp \<Rightarrow> resp
      | Inr run \<Rightarrow>
        if artifact_refused name then (400, RError ''invalid artifact name'' (Some name))
        else artifact_reply name (open_file (path_Join [results_runDir dataDir (ar_ID run), name])))"

section \<open>Facts\<close>

lemma strFormatInt_fmt_d: "- (2 ^ 63) < n \<Longrightarrow> n < 2 ^ 63 \<Longrightarrow> strFormatInt n = fmt_d n"
proof -
  assume n: "- (2 ^ 63) < n" "n < 2 ^ 63"
  have "strFormatInt 0 = fmt_d 0" by (simp add: strFormatInt_def fmt_d_def radix.simps digit_char_def) code_simp
  moreover have "strFormatInt n = fmt_d n" if "n \<noteq> 0"
    using n that wrap64_nonneg [of "- n"] by (auto simp: strFormatInt_def fmt_d_def Let_def digits_loop_radix)
  ultimately show ?thesis by (cases "n = 0") auto
qed

lemma has_dots_iff: "has_dots x \<longleftrightarrow> (\<exists>a b. x = a @ ''..'' @ b)"
proof (induction x rule: has_dots.induct)
  case (1 c d cs)
  have "(\<exists>a b. c # d # cs = a @ ''..'' @ b) \<longleftrightarrow> c = CHR ''.'' \<and> d = CHR ''.'' \<or> (\<exists>a b. d # cs = a @ ''..'' @ b)"
    by (auto simp: Cons_eq_append_conv)
  with 1 show ?case by simp
qed (auto simp: Cons_eq_append_conv)

lemma artifact_refused_iff:
  "artifact_refused x \<longleftrightarrow> x = [] \<or> CHR ''/'' \<in> set x \<or> CHR 0x5C \<in> set x \<or> (\<exists>a b. x = a @ ''..'' @ b)"
  by (auto simp: artifact_refused_def list_ex_iff has_dots_iff)

lemma accepted_plain: "\<not> artifact_refused x \<Longrightarrow> x \<noteq> [] \<and> CHR ''/'' \<notin> set x \<and> x \<noteq> ''..''"
  unfolding artifact_refused_iff by (metis append_Nil append_Nil2)

text \<open>A path that is a directory or a direct child of it.\<close>

definition inside :: "string \<Rightarrow> string \<Rightarrow> bool" where
  "inside dir p \<longleftrightarrow> p = dir \<or> (\<exists>y. p = dir @ ''/'' @ y \<and> CHR ''/'' \<notin> set y \<and> y \<notin> {[], ''.'', ''..''})"

lemma artifact_path_inside:
  assumes "ar_ID run = generateID now rnd" "\<not> artifact_refused x"
  shows "path_Join [results_runDir dataDir (ar_ID run), x] =
      (if x = ''.'' then results_runDir dataDir (ar_ID run) else results_runDir dataDir (ar_ID run) @ ''/'' @ x)"
    "inside (results_runDir dataDir (ar_ID run)) (path_Join [results_runDir dataDir (ar_ID run), x])"
proof -
  from accepted_plain [OF assms(2)] have x: "x \<noteq> []" "CHR ''/'' \<notin> set x" "x \<noteq> ''..''" by auto
  from generateID_plain [of now rnd] have "CHR ''/'' \<notin> set (ar_ID run)" "ar_ID run \<notin> {[], ''.'', ''..''}"
    using assms(1) by auto
  from RunDir_child [OF _ this x(2,1,3)]
  show join: "path_Join [results_runDir dataDir (ar_ID run), x] =
      (if x = ''.'' then results_runDir dataDir (ar_ID run) else results_runDir dataDir (ar_ID run) @ ''/'' @ x)"
    by (simp add: results_runDir_def)
  show "inside (results_runDir dataDir (ar_ID run)) (path_Join [results_runDir dataDir (ar_ID run), x])"
    unfolding join using x by (auto simp: inside_def)
qed

section \<open>Properties\<close>

text \<open>C22: The artifact endpoint and the name asked for, whatever it is. An empty name, one with a slash or a
  backslash, and one that contains two dots in a row are refused with status 400; any other is answered with the
  file of that name in the directory of the run (with that directory itself when the name is a dot). So
  nothing outside the directory is opened: the answer does not depend on any path but the directory and
  its direct children.\<close>

theorem artifact_stays_in_run_directory:
  assumes "si_Get I c rid s = Inr run" "ar_ID run = generateID now rnd"
  shows "results_Artifact I c open_file dataDir rid x s =
      (if x = [] \<or> CHR ''/'' \<in> set x \<or> CHR 0x5C \<in> set x \<or> (\<exists>a b. x = a @ ''..'' @ b)
       then (400, RError ''invalid artifact name'' (Some x))
       else artifact_reply x (open_file
         (if x = ''.'' then results_runDir dataDir (ar_ID run) else results_runDir dataDir (ar_ID run) @ ''/'' @ x))) \<and>
    (\<forall>other. (\<forall>p. inside (results_runDir dataDir (ar_ID run)) p \<longrightarrow> other p = open_file p) \<longrightarrow>
      results_Artifact I c other dataDir rid x s = results_Artifact I c open_file dataDir rid x s)"
  using assms artifact_path_inside [OF assms(2), of x dataDir]
  unfolding artifact_refused_iff [symmetric] by (auto simp: results_Artifact_def requireRun_def)


definition demo_row :: sq_row where
  "demo_row = \<lparr>ro_id = ''run-1970-01-01T00-00-01Z-7f3a'', ro_name = ''a'', ro_status = StatusSucceeded, ro_created_at = [],
     ro_started_at = None, ro_finished_at = None, ro_config_json = [], ro_progress_json = [], ro_summary_json = None\<rparr>"

definition demo_summaries :: "summary json_codec" where
  "demo_summaries = \<lparr>jc_config = (\<lambda>_. Inr ''{}''), jc_config_of = (\<lambda>_. None), jc_progress = (\<lambda>_. ''{}''),
     jc_progress_of = (\<lambda>_. progress_zero), jc_summary = (\<lambda>_. Inr ''null''), jc_summary_of = (\<lambda>_. None), jc_reason = (\<lambda>_. ''{}'')\<rparr>"

lemma artifact_stays_in_run_directory_witness:
  "results_Artifact (SQLiteStore demo_summaries) (demo_call 0) (\<lambda>p. OpenFailed (Plain p)) ''/srv/../data/''
      ''run-1970-01-01T00-00-01Z-7f3a'' ''run.log'' [demo_row] =
     (500, RError ''failed to open artifact'' (Some ''/data/runs/run-1970-01-01T00-00-01Z-7f3a/run.log'')) \<and>
   results_Artifact (SQLiteStore demo_summaries) (demo_call 0) (\<lambda>p. OpenFailed (Plain p)) ''/srv/../data/''
      ''run-1970-01-01T00-00-01Z-7f3a'' ''../radstorm.db'' [demo_row] =
     (400, RError ''invalid artifact name'' (Some ''../radstorm.db''))"
proof -
  let ?id = "''run-1970-01-01T00-00-01Z-7f3a''"
  have g: "si_Get (SQLiteStore demo_summaries) (demo_call 0) ?id [demo_row] = Inr (scanRun demo_summaries demo_row)"
    by (simp add: SQLiteStore_def sq_Get_def demo_call_def sq_find_def demo_row_def)
  have rid: "ar_ID (scanRun demo_summaries demo_row) = generateID 1100000000 [0x7f, 0x3a]"
    by (simp add: scanRun_def demo_row_def)
  have "\<not> (\<exists>a b. ''run.log'' = a @ ''..'' @ b)" unfolding has_dots_iff [symmetric] by simp
  then show ?thesis
    using artifact_stays_in_run_directory [OF g rid, where x = "''run.log''" and dataDir = "''/srv/../data/''"
        and open_file = "\<lambda>p. OpenFailed (Plain p)"]
      artifact_stays_in_run_directory [OF g rid, where x = "''../radstorm.db''" and dataDir = "''/srv/../data/''"
        and open_file = "\<lambda>p. OpenFailed (Plain p)"] rid
    by (simp add: artifact_reply_def results_runDir_def RunDir_def path_Join_def path_Clean_def path_step_def)
qed

end
