(* ===== verification/Scenario_Schedule.thy ===== *)
theory Scenario_Schedule
  imports Config_Load
begin

text \<open>
  The activation schedules of \<^verbatim>\<open>pkg/scenario/schedule.go\<close> in floating point. The normal
  variates are an input (\<open>variate i\<close> is the \<open>i\<close>-th), the texts of \<^verbatim>\<open>%g\<close> and \<^verbatim>\<open>%q\<close> are
  parameters, durations are nanoseconds. Products and sums are rounded separately, as on
  machines without a fused multiply-add.
\<close>

section \<open>Building\<close>

record schedule =
  sd_Offsets :: "int list"
  sd_Type :: string

definition sd_Total :: "schedule \<Rightarrow> nat" where
  "sd_Total s = length (sd_Offsets s)"

definition sd_Last :: "schedule \<Rightarrow> int" where
  "sd_Last s = (if sd_Offsets s = [] then 0 else sd_Offsets s ! (length (sd_Offsets s) - 1))"

definition secondsToDuration :: "int \<Rightarrow> float64 \<Rightarrow> int" where
  "secondsToDuration ovf secs =
     (case secs of NaN \<Rightarrow> 0 | Inf n \<Rightarrow> 0
      | Fin x \<Rightarrow> if fle secs (Fin 0) then 0 else f_to_int64 ovf (fmul secs (f_of_int 1000000000)))"

definition cold_start_clamp :: "float64 \<Rightarrow> float64 \<Rightarrow> float64 \<Rightarrow> float64" where
  "cold_start_clamp loSec hiSec secs0 =
     (let secs1 = (if flt secs0 loSec then loSec else secs0)
      in if flt hiSec secs1 then hiSec else secs1)"

definition cold_start_bounds :: "cold_start_cfg \<Rightarrow> float64 \<times> float64" where
  "cold_start_bounds ccs =
     (let k = (if flt (cs_TruncateSigma ccs) (Fin 1) then Fin 3 else cs_TruncateSigma ccs);
          mu = cs_MuSec ccs; sigma = cs_SigmaSec ccs;
          lo0 = fsub mu (fmul k sigma); hi = fadd mu (fmul k sigma)
      in (if flt lo0 (Fin 0) then Fin 0 else lo0, hi))"

definition buildColdStart :: "int \<Rightarrow> (float64 \<Rightarrow> string) \<Rightarrow> (nat \<Rightarrow> float64) \<Rightarrow> int \<Rightarrow> cold_start_cfg \<Rightarrow> schedule res" where
  "buildColdStart ovf fmt_g variate n ccs =
     (if fle (cs_SigmaSec ccs) (Fin 0)
      then Inl (Plain (''scenario: cold_start.sigma_sec must be > 0, got '' @ fmt_g (cs_SigmaSec ccs)))
      else if flt (cs_MuSec ccs) (Fin 0)
      then Inl (Plain (''scenario: cold_start.mu_sec must be >= 0, got '' @ fmt_g (cs_MuSec ccs)))
      else let (lo, hi) = cold_start_bounds ccs;
               out = map (\<lambda>i. secondsToDuration ovf (cold_start_clamp lo hi
                 (fadd (fmul (variate i) (cs_SigmaSec ccs)) (cs_MuSec ccs)))) [0..<nat n]
        in Inr \<lparr>sd_Offsets = sort out, sd_Type = ''cold_start''\<rparr>)"

definition buildUniform :: "int \<Rightarrow> (float64 \<Rightarrow> string) \<Rightarrow> int \<Rightarrow> uniform_cfg \<Rightarrow> schedule res" where
  "buildUniform ovf fmt_g n ucs =
     (if fle (un_DurationSec ucs) (Fin 0)
      then Inl (Plain (''scenario: uniform.duration_sec must be > 0, got '' @ fmt_g (un_DurationSec ucs)))
      else if n = 0 then Inr \<lparr>sd_Offsets = [], sd_Type = ''uniform''\<rparr>
      else let step = fdiv (un_DurationSec ucs) (f_of_int n) in
        Inr \<lparr>sd_Offsets = map (\<lambda>i. secondsToDuration ovf (fmul (f_of_int (int i)) step)) [0..<nat n],
             sd_Type = ''uniform''\<rparr>)"

definition buildPessimal :: "int \<Rightarrow> int \<Rightarrow> int \<Rightarrow> schedule res" where
  "buildPessimal ovf n burstWindowMs =
     (if burstWindowMs < 0
      then Inl (Plain (''scenario: pessimal.burst_window_ms must be >= 0, got '' @ fmt_d burstWindowMs))
      else if n = 0 \<or> burstWindowMs = 0
      then Inr \<lparr>sd_Offsets = replicate (nat n) 0, sd_Type = ''pessimal''\<rparr>
      else let step = fdiv (f_of_int burstWindowMs) (f_of_int n) in
        Inr \<lparr>sd_Offsets = map (\<lambda>i. f_to_int64 ovf (fmul (fmul (f_of_int (int i)) step) (f_of_int 1000000))) [0..<nat n],
             sd_Type = ''pessimal''\<rparr>)"

definition BuildSchedule :: "int \<Rightarrow> (float64 \<Rightarrow> string) \<Rightarrow> (string \<Rightarrow> string) \<Rightarrow> (nat \<Rightarrow> float64) \<Rightarrow> config option \<Rightarrow> schedule res" where
  "BuildSchedule ovf fmt_g fmt_q variate cfg0 =
     (case cfg0 of None \<Rightarrow> Inl (Plain ''scenario: config is nil'')
      | Some cfg \<Rightarrow>
        (let n = su_Count (cfg_Subscribers cfg); sc = cfg_Scenario cfg in
         if n < 0 then Inl (Plain (''scenario: subscribers.count is negative ('' @ fmt_d n @ '')''))
         else if sc_Type sc = ''cold_start'' then
           (case sc_ColdStart sc of
              None \<Rightarrow> Inl (Plain ''scenario: type=cold_start requires [scenario.cold_start] block'')
            | Some ccs \<Rightarrow> buildColdStart ovf fmt_g variate n ccs)
         else if sc_Type sc = ''uniform'' then
           (case sc_Uniform sc of
              None \<Rightarrow> Inl (Plain ''scenario: type=uniform requires [scenario.uniform] block'')
            | Some ucs \<Rightarrow> buildUniform ovf fmt_g n ucs)
         else if sc_Type sc = ''pessimal'' then
           buildPessimal ovf n (case sc_Pessimal sc of None \<Rightarrow> 0 | Some p \<Rightarrow> pe_BurstWindowMs p)
         else if sc_Type sc = ''coa_storm'' then Inr \<lparr>sd_Offsets = [], sd_Type = ''coa_storm''\<rparr>
         else Inl (Plain (''scenario: unknown scenario.type '' @ fmt_q (sc_Type sc)))))"

section \<open>Rounded products\<close>

text \<open>Whole parts: \<open>scaled m x\<close> is the conversion of \<open>x * m\<close> to an integer.\<close>

definition scaled :: "int \<Rightarrow> int \<Rightarrow> rat \<Rightarrow> int" where
  "scaled ovf m x = f_to_int64 ovf (fmul (Fin x) (f_of_int m))"

lemma scaled_small:
  assumes "0 \<le> x" "0 < m" "m \<le> 2 ^ 53" "2 * (x * of_int m) < 2 ^ 62"
  shows "\<exists>y. fround (x * of_int m) = Fin y \<and> 0 \<le> y \<and> scaled ovf m x = \<lfloor>y\<rfloor>"
proof -
  have p: "0 \<le> x * of_int m" using assms by simp
  obtain y where y: "fround (x * of_int m) = Fin y" "0 \<le> y" "y \<le> 2 * (x * of_int m)"
    using fround_small [OF p] assms(4) p by auto
  have "y < 2 ^ 62" using y assms(4) by linarith
  then have "\<lfloor>y\<rfloor> < 2 ^ 63" by (simp add: floor_less_iff)
  moreover have "0 \<le> \<lfloor>y\<rfloor>" using y by simp
  ultimately have "f_to_int64 ovf (Fin y) = \<lfloor>y\<rfloor>" using y by (simp add: trunc_rat_def)
  then show ?thesis using y assms by (simp add: scaled_def f_of_int_small)
qed

lemma scaled_mono:
  assumes "0 \<le> x" "x \<le> y" "0 < m" "m \<le> 2 ^ 53" "2 * (y * of_int m) < 2 ^ 62"
  shows "0 \<le> scaled ovf m x \<and> scaled ovf m x \<le> scaled ovf m y"
proof -
  have M: "(0 :: rat) < of_int m" using assms by simp
  have xy: "x * of_int m \<le> y * of_int m" using assms(2) M by (intro mult_right_mono) simp_all
  have y0: "0 \<le> y * of_int m" "0 \<le> x * of_int m" using assms M by simp_all
  have x2: "2 * (x * of_int m) < 2 ^ 62" using assms(5) xy by linarith
  obtain a where a: "fround (x * of_int m) = Fin a" "0 \<le> a" "scaled ovf m x = \<lfloor>a\<rfloor>"
    using scaled_small [OF assms(1,3,4) x2] by blast
  obtain b where b: "fround (y * of_int m) = Fin b" "0 \<le> b" "scaled ovf m y = \<lfloor>b\<rfloor>"
    using scaled_small [of y m ovf] assms by auto
  have "y * of_int m < 2 ^ 62" using assms(5) y0 by linarith
  then have "a \<le> b" using fround_small_mono [OF y0(2) xy _ a(1) b(1)] by simp
  then show ?thesis using a b by (simp add: floor_mono)
qed

lemma secondsToDuration_scaled: "0 \<le> x \<Longrightarrow> secondsToDuration ovf (Fin x) = (if x = 0 then 0 else scaled ovf 1000000000 x)"
  by (auto simp: secondsToDuration_def scaled_def fle_def)

lemma scaled_0: "0 < m \<Longrightarrow> m \<le> 2 ^ 53 \<Longrightarrow> scaled ovf m 0 = 0"
  by (simp add: scaled_def f_of_int_small fround_def trunc_rat_def)

text \<open>The points \<open>i * step\<close> of an even spread of \<open>n\<close> over \<open>d\<close>.\<close>

lemma spread_points:
  assumes "0 < d" "d \<le> 2 ^ 60" "0 < n" "n \<le> 2 ^ 53"
  shows "\<exists>p. (\<forall>i. i < n \<longrightarrow> fmul (f_of_int (int i)) (fdiv (Fin d) (f_of_int (int n))) = Fin (p i) \<and> 0 \<le> p i \<and> p i \<le> 4 * d) \<and>
    p 0 = 0 \<and> (\<forall>i j. i \<le> j \<longrightarrow> j < n \<longrightarrow> p i \<le> p j)"
proof -
  have N: "1 \<le> (of_nat n :: rat)" using assms(3) by simp
  have n53: "int n \<le> 2 ^ 53" using assms(4) by (metis of_nat_le_iff of_nat_numeral of_nat_power)
  have fn: "f_of_int (int n) = Fin (of_nat n)" using n53 by (simp add: f_of_int_small)
  have q: "0 \<le> d / of_nat n" "d / of_nat n \<le> d" using assms(1) N by (simp_all add: field_simps mult_le_cancel_left1)
  obtain s where s: "fround (d / of_nat n) = Fin s" "0 \<le> s" "s \<le> 2 * (d / of_nat n)"
    using fround_small [OF q(1)] q(2) assms(2) by fastforce
  have sn: "of_nat i * s \<le> 2 * d" if "i < n" for i
  proof -
    have "of_nat i * s \<le> of_nat n * (2 * (d / of_nat n))"
      using that s N by (intro mult_mono) simp_all
    then show ?thesis using N by simp
  qed
  define p where "p i = (case fround (of_nat i * s) of Fin y \<Rightarrow> y | _ \<Rightarrow> 0)" for i :: nat
  have p: "fround (of_nat i * s) = Fin (p i) \<and> 0 \<le> p i \<and> p i \<le> 2 * (of_nat i * s)" if "i < n" for i
    using fround_small [of "of_nat i * s"] sn [OF that] s assms(2) by (auto simp: p_def)
  show ?thesis
  proof (intro exI [of _ p] conjI allI impI)
    fix i assume i: "i < n"
    then have "f_of_int (int i) = Fin (of_nat i)" using n53 by (simp add: f_of_int_small)
    then show "fmul (f_of_int (int i)) (fdiv (Fin d) (f_of_int (int n))) = Fin (p i)"
      using p [OF i] N by (simp add: fn s)
    show "0 \<le> p i" "p i \<le> 4 * d" using p [OF i] sn [OF i] by linarith+
  next
    show "p 0 = 0" by (simp add: p_def fround_def)
  next
    fix i j assume ij: "i \<le> j" "j < n"
    have "of_nat i * s \<le> of_nat j * s" using ij s by (intro mult_right_mono) simp_all
    then show "p i \<le> p j"
      using p [of i] p [of j] ij s sn [of j] assms(2) fround_small_mono [of "of_nat i * s" "of_nat j * s" "p i" "p j"] by auto
  qed
qed


section \<open>Properties\<close>

fun is_finite :: "float64 \<Rightarrow> bool" where
  "is_finite (Fin x) = True" | "is_finite x = False"

fun in_seconds :: "float64 \<Rightarrow> bool" where
  "in_seconds (Fin x) = (x \<le> 2 ^ 29)" | "in_seconds x = False"

lemma is_finite_iff: "is_finite f \<longleftrightarrow> (\<exists>x. f = Fin x)"
  by (cases f) simp_all

lemma in_seconds_iff: "in_seconds f \<longleftrightarrow> (\<exists>x. f = Fin x \<and> x \<le> 2 ^ 29)"
  by (cases f) simp_all

definition cold_start_finite :: "(nat \<Rightarrow> float64) \<Rightarrow> nat \<Rightarrow> cold_start_cfg \<Rightarrow> bool" where
  "cold_start_finite variate n ccs \<longleftrightarrow> is_finite (cs_MuSec ccs) \<and> is_finite (cs_SigmaSec ccs) \<and>
     is_finite (cs_TruncateSigma ccs) \<and> in_seconds (snd (cold_start_bounds ccs)) \<and> (\<forall>i < n. is_finite (variate i))"

text \<open>Parameters of up to some seventeen years, so that no duration overflows.\<close>

definition schedule_in_range :: "(nat \<Rightarrow> float64) \<Rightarrow> config \<Rightarrow> bool" where
  "schedule_in_range variate cfg \<longleftrightarrow> su_Count (cfg_Subscribers cfg) \<le> 2 ^ 53 \<and>
     (case sc_ColdStart (cfg_Scenario cfg) of None \<Rightarrow> True
      | Some ccs \<Rightarrow> cold_start_finite variate (nat (su_Count (cfg_Subscribers cfg))) ccs) \<and>
     (case sc_Uniform (cfg_Scenario cfg) of None \<Rightarrow> True | Some ucs \<Rightarrow> in_seconds (un_DurationSec ucs)) \<and>
     (case sc_Pessimal (cfg_Scenario cfg) of None \<Rightarrow> True | Some p \<Rightarrow> pe_BurstWindowMs p \<le> 2 ^ 38)"

lemma seconds_mono:
  assumes "0 \<le> x" "x \<le> y" "y \<le> 2 ^ 31"
  shows "0 \<le> secondsToDuration ovf (Fin x) \<and> secondsToDuration ovf (Fin x) \<le> secondsToDuration ovf (Fin y)"
  using assms scaled_mono [of x y 1000000000 ovf] scaled_mono [of 0 y 1000000000 ovf]
  by (auto simp: secondsToDuration_scaled scaled_0)

lemma fround_finite_le:
  assumes "\<bar>x\<bar> \<le> y" "fround y = Fin b" shows "\<exists>a. fround x = Fin a \<and> a \<le> b"
proof -
  have y: "0 \<le> y" using assms(1) by linarith
  have "round_mag \<bar>x\<bar> \<le> round_mag y" using assms(1) by (intro round_mag_mono) simp_all
  moreover have "round_mag \<bar>y\<bar> < 2 ^ 1024" using assms(2) by (auto simp: fround_def Let_def split: if_splits)
  ultimately obtain a where a: "fround x = Fin a" using y by (auto simp: fround_def Let_def)
  have "x \<le> y" using assms(1) by linarith
  then have "fle (fround x) (fround y)" by (rule fround_mono)
  then show ?thesis using a assms(2) by (auto simp: fle_def)
qed

lemma fround_nonneg: "0 \<le> x \<Longrightarrow> fround x = Fin a \<Longrightarrow> 0 \<le> a"
  using round_mag_nonneg [of x] by (auto simp: fround_def Let_def sgn_if split: if_splits)

lemma cold_start_bounds_finite:
  assumes "is_finite (cs_MuSec ccs)" "is_finite (cs_SigmaSec ccs)" "is_finite (cs_TruncateSigma ccs)"
    "in_seconds (snd (cold_start_bounds ccs))" "\<not> fle (cs_SigmaSec ccs) (Fin 0)" "\<not> flt (cs_MuSec ccs) (Fin 0)"
  shows "\<exists>l h. cold_start_bounds ccs = (Fin l, Fin h) \<and> 0 \<le> l \<and> l \<le> h \<and> h \<le> 2 ^ 29"
proof -
  obtain m s where m: "cs_MuSec ccs = Fin m" "0 \<le> m" and s: "cs_SigmaSec ccs = Fin s" "0 < s"
    using assms by (auto simp: is_finite_iff fle_def)
  define k where "k = (if flt (cs_TruncateSigma ccs) (Fin 1) then Fin 3 else cs_TruncateSigma ccs)"
  obtain t where "cs_TruncateSigma ccs = Fin t" using assms(3) by (auto simp: is_finite_iff)
  then obtain k' where k: "k = Fin k'" "1 \<le> k'" by (cases "t < 1") (auto simp: k_def)
  have b: "cold_start_bounds ccs = (let lo0 = fsub (Fin m) (fround (k' * s)) in
      if flt lo0 (Fin 0) then Fin 0 else lo0, fadd (Fin m) (fround (k' * s)))"
    by (simp add: cold_start_bounds_def m s k k_def [symmetric] Let_def)
  obtain h where h: "fadd (Fin m) (fround (k' * s)) = Fin h" "h \<le> 2 ^ 29"
    using assms(4) by (auto simp: b in_seconds_iff)
  then obtain p where p: "fround (k' * s) = Fin p" by (cases "fround (k' * s)") auto
  have p0: "0 \<le> p" using fround_nonneg [OF _ p] k s by simp
  have hr: "fround (m + p) = Fin h" using h p by simp
  have "\<bar>m - p\<bar> \<le> m + p" using m p0 by simp
  from fround_finite_le [OF this hr] obtain l where l: "fround (m - p) = Fin l" "l \<le> h" by blast
  have "0 \<le> h" using fround_nonneg [OF _ hr] m p0 by simp
  then show ?thesis using h(2) l hr p by (auto simp: b fsub_def Let_def)
qed

lemma clamp_between:
  assumes "l \<le> h" "x \<noteq> NaN"
  shows "\<exists>c. cold_start_clamp (Fin l) (Fin h) x = Fin c \<and> l \<le> c \<and> c \<le> h"
  using assms by (cases x) (auto simp: cold_start_clamp_def Let_def)

lemma sample_not_NaN: "is_finite a \<Longrightarrow> is_finite b \<Longrightarrow> is_finite c \<Longrightarrow> fadd (fmul a b) c \<noteq> NaN"
proof -
  assume "is_finite a" "is_finite b" "is_finite c"
  then obtain x y z where "a = Fin x" "b = Fin y" "c = Fin z" by (auto simp: is_finite_iff)
  moreover have "fround q \<noteq> NaN" for q by (simp add: fround_def Let_def)
  ultimately show ?thesis by (cases "fround (x * y)") auto
qed

lemma cold_start_schedule:
  assumes "buildColdStart ovf fmt_g variate n ccs = Inr s" "cold_start_finite variate (nat n) ccs"
  shows "sorted (sd_Offsets s) \<and> length (sd_Offsets s) = nat n \<and> sd_Type s = ''cold_start'' \<and>
    (\<forall>x \<in> set (sd_Offsets s). 0 \<le> x \<and> secondsToDuration ovf (fst (cold_start_bounds ccs)) \<le> x \<and>
       x \<le> secondsToDuration ovf (snd (cold_start_bounds ccs)))"
proof -
  obtain l h where b: "cold_start_bounds ccs = (Fin l, Fin h)" "0 \<le> l" "l \<le> h" "h \<le> 2 ^ 29"
    using assms cold_start_bounds_finite [of ccs] by (auto simp: buildColdStart_def cold_start_finite_def split: if_splits)
  let ?c = "\<lambda>i. cold_start_clamp (Fin l) (Fin h) (fadd (fmul (variate i) (cs_SigmaSec ccs)) (cs_MuSec ccs))"
  have s: "s = \<lparr>sd_Offsets = sort (map (\<lambda>i. secondsToDuration ovf (?c i)) [0..<nat n]), sd_Type = ''cold_start''\<rparr>"
    using assms(1) by (auto simp: buildColdStart_def b split: if_splits)
  have "0 \<le> secondsToDuration ovf (?c i) \<and> secondsToDuration ovf (Fin l) \<le> secondsToDuration ovf (?c i) \<and>
      secondsToDuration ovf (?c i) \<le> secondsToDuration ovf (Fin h)" if "i < nat n" for i
  proof -
    have "fadd (fmul (variate i) (cs_SigmaSec ccs)) (cs_MuSec ccs) \<noteq> NaN"
      using assms(2) that by (intro sample_not_NaN) (simp_all add: cold_start_finite_def)
    from clamp_between [OF b(3) this] obtain c where "?c i = Fin c" "l \<le> c" "c \<le> h" by blast
    then show ?thesis using seconds_mono [of l c ovf] seconds_mono [of c h ovf] b by auto
  qed
  then show ?thesis by (auto simp: s b)
qed

lemma spread_schedule:
  assumes "0 < d" "d \<le> 2 ^ 60" "0 < n" "n \<le> 2 ^ 53"
    and g: "\<And>x y. 0 \<le> x \<Longrightarrow> x \<le> y \<Longrightarrow> y \<le> 4 * d \<Longrightarrow> 0 \<le> g (Fin x) \<and> g (Fin x) \<le> g (Fin y)" and g0: "g (Fin 0) = (0 :: int)"
  defines "out \<equiv> map (\<lambda>i. g (fmul (f_of_int (int i)) (fdiv (Fin d) (f_of_int (int n))))) [0..<n]"
  shows "sorted out \<and> (\<forall>x \<in> set out. 0 \<le> x) \<and> out ! 0 = 0"
proof -
  obtain p where p: "\<And>i. i < n \<Longrightarrow> fmul (f_of_int (int i)) (fdiv (Fin d) (f_of_int (int n))) = Fin (p i) \<and> 0 \<le> p i \<and> p i \<le> 4 * d"
    and p0: "p 0 = 0" and mono: "\<And>i j. i \<le> j \<Longrightarrow> j < n \<Longrightarrow> p i \<le> p j"
    using spread_points [OF assms(1-4)] by blast
  have "out ! i \<le> out ! j" if "i \<le> j" "j < n" for i j
    using that p [of i] p [of j] mono [of i j] g [of "p i" "p j"] by (simp add: out_def)
  moreover have "0 \<le> x" if "x \<in> set out" for x
  proof -
    from that obtain i where "i < n" "x = g (fmul (f_of_int (int i)) (fdiv (Fin d) (f_of_int (int n))))" by (auto simp: out_def)
    then show ?thesis using p [of i] g [of "p i" "p i"] by simp
  qed
  moreover have "out ! 0 = 0" using p [of 0] p0 g0 assms(3) by (simp add: out_def)
  ultimately show ?thesis by (simp add: sorted_iff_nth_mono out_def)
qed


lemma uniform_schedule:
  assumes "buildUniform ovf fmt_g n ucs = Inr s" "in_seconds (un_DurationSec ucs)" "0 \<le> n" "n \<le> 2 ^ 53"
  shows "sorted (sd_Offsets s) \<and> length (sd_Offsets s) = nat n \<and> sd_Type s = ''uniform'' \<and>
    (\<forall>x \<in> set (sd_Offsets s). 0 \<le> x) \<and> (0 < n \<longrightarrow> sd_Offsets s ! 0 = 0)"
proof (cases "n = 0")
  case True
  then show ?thesis using assms by (auto simp: buildUniform_def split: if_splits)
next
  case False
  obtain d where d: "un_DurationSec ucs = Fin d" "d \<le> 2 ^ 29" using assms(2) by (auto simp: in_seconds_iff)
  have d0: "0 < d" using assms(1) by (auto simp: buildUniform_def d fle_def split: if_splits)
  have n: "0 < nat n" "nat n \<le> 2 ^ 53" "int (nat n) = n" using False assms(3,4) by auto
  have "secondsToDuration ovf (Fin 0) = 0" by (simp add: secondsToDuration_scaled)
  then have g: "0 \<le> secondsToDuration ovf (Fin x) \<and> secondsToDuration ovf (Fin x) \<le> secondsToDuration ovf (Fin y)"
    "secondsToDuration ovf (Fin 0) = 0" if "0 \<le> x" "x \<le> y" "y \<le> 4 * d" for x y
    using that seconds_mono [of x y ovf] d(2) by simp_all
  have "d \<le> 2 ^ 60" using d(2) by simp
  from spread_schedule [OF d0 this n(1,2), of "secondsToDuration ovf"] g
  show ?thesis using assms(1) False n by (auto simp: buildUniform_def d fle_def Let_def secondsToDuration_scaled split: if_splits)
qed

lemma pessimal_schedule:
  assumes "buildPessimal ovf n b = Inr s" "b \<le> 2 ^ 38" "0 \<le> n" "n \<le> 2 ^ 53"
  shows "sorted (sd_Offsets s) \<and> length (sd_Offsets s) = nat n \<and> sd_Type s = ''pessimal'' \<and>
    (\<forall>x \<in> set (sd_Offsets s). 0 \<le> x) \<and> (0 < n \<longrightarrow> sd_Offsets s ! 0 = 0)"
proof (cases "n = 0 \<or> b = 0")
  case True
  then show ?thesis using assms by (auto simp: buildPessimal_def sorted_replicate split: if_splits)
next
  case False
  have b0: "0 < b" using assms(1) False by (auto simp: buildPessimal_def split: if_splits)
  then have fb: "f_of_int b = Fin (of_int b)" using assms(2) by (simp add: f_of_int_small)
  have "(of_int b :: rat) \<le> of_int (2 ^ 38)" using assms(2) by (simp only: of_int_le_iff)
  then have d: "0 < (of_int b :: rat)" "(of_int b :: rat) \<le> 2 ^ 38" "(of_int b :: rat) \<le> 2 ^ 60" using b0 by simp_all
  have n: "0 < nat n" "nat n \<le> 2 ^ 53" "int (nat n) = n" using False assms(3,4) by auto
  have eq: "f_to_int64 ovf (fmul (Fin x) (f_of_int 1000000)) = scaled ovf 1000000 x" for x
    by (simp add: scaled_def)
  have g: "0 \<le> f_to_int64 ovf (fmul (Fin x) (f_of_int 1000000)) \<and>
      f_to_int64 ovf (fmul (Fin x) (f_of_int 1000000)) \<le> f_to_int64 ovf (fmul (Fin y) (f_of_int 1000000))"
    if "0 \<le> x" "x \<le> y" "y \<le> 4 * of_int b" for x y
  proof -
    have "y \<le> 4 * 2 ^ 38" using that(3) d(2) by linarith
    then show ?thesis unfolding eq using that by (intro scaled_mono) simp_all
  qed
  have g0: "f_to_int64 ovf (fmul (Fin 0) (f_of_int 1000000)) = 0" unfolding eq by (simp add: scaled_0)
  from spread_schedule [OF d(1,3) n(1,2), of "\<lambda>v. f_to_int64 ovf (fmul v (f_of_int 1000000))", OF g g0]
  show ?thesis using assms(1) False n b0 by (auto simp: buildPessimal_def fb Let_def split: if_splits)
qed

lemma BuildSchedule_Inr:
  assumes "BuildSchedule ovf fmt_g fmt_q variate (Some cfg) = Inr s"
  shows "(sc_Type (cfg_Scenario cfg) = ''cold_start'' \<and> (\<exists>ccs. sc_ColdStart (cfg_Scenario cfg) = Some ccs \<and>
        buildColdStart ovf fmt_g variate (su_Count (cfg_Subscribers cfg)) ccs = Inr s)) \<or>
    (sc_Type (cfg_Scenario cfg) = ''uniform'' \<and> (\<exists>ucs. sc_Uniform (cfg_Scenario cfg) = Some ucs \<and>
        buildUniform ovf fmt_g (su_Count (cfg_Subscribers cfg)) ucs = Inr s)) \<or>
    (sc_Type (cfg_Scenario cfg) = ''pessimal'' \<and> buildPessimal ovf (su_Count (cfg_Subscribers cfg))
        (case sc_Pessimal (cfg_Scenario cfg) of None \<Rightarrow> 0 | Some p \<Rightarrow> pe_BurstWindowMs p) = Inr s) \<or>
    (sc_Type (cfg_Scenario cfg) = ''coa_storm'' \<and> s = \<lparr>sd_Offsets = [], sd_Type = ''coa_storm''\<rparr>)"
  using assms by (auto simp: BuildSchedule_def Let_def split: if_splits option.splits)

text \<open>C19: a schedule built for in-range parameters has one offset per configured subscriber
  (none for a CoA storm), in ascending order and never before the start; a cold start keeps
  every offset within the truncation bounds, a uniform or pessimal spread starts at zero.\<close>

theorem schedule_exact:
  assumes "BuildSchedule ovf fmt_g fmt_q variate (Some cfg) = Inr s" "schedule_in_range variate cfg"
  shows "sorted (sd_Offsets s) \<and> sd_Type s = sc_Type (cfg_Scenario cfg) \<and>
    int (sd_Total s) = (if sc_Type (cfg_Scenario cfg) = ''coa_storm'' then 0 else su_Count (cfg_Subscribers cfg)) \<and>
    (\<forall>x \<in> set (sd_Offsets s). 0 \<le> x \<and> x \<le> sd_Last s) \<and>
    (sc_Type (cfg_Scenario cfg) = ''cold_start'' \<longrightarrow> (\<forall>x \<in> set (sd_Offsets s). \<exists>ccs. sc_ColdStart (cfg_Scenario cfg) = Some ccs \<and>
       secondsToDuration ovf (fst (cold_start_bounds ccs)) \<le> x \<and> x \<le> secondsToDuration ovf (snd (cold_start_bounds ccs)))) \<and>
    (sc_Type (cfg_Scenario cfg) \<in> {''uniform'', ''pessimal''} \<and> sd_Offsets s \<noteq> [] \<longrightarrow> sd_Offsets s ! 0 = 0)"
proof -
  let ?n = "su_Count (cfg_Subscribers cfg)" and ?sc = "cfg_Scenario cfg"
  have n: "0 \<le> ?n" "?n \<le> 2 ^ 53" using assms by (auto simp: BuildSchedule_def schedule_in_range_def Let_def split: if_splits)
  have last: "\<forall>x \<in> set (sd_Offsets s). x \<le> sd_Last s" if "sorted (sd_Offsets s)"
    using that by (auto simp: sd_Last_def in_set_conv_nth intro!: sorted_nth_mono)
  define b where "b = (case sc_Pessimal ?sc of None \<Rightarrow> 0 | Some p \<Rightarrow> pe_BurstWindowMs p)"
  have b: "b \<le> 2 ^ 38" using assms(2) by (auto simp: b_def schedule_in_range_def split: option.splits)
  consider (cold) ccs where "sc_Type ?sc = ''cold_start''" "sc_ColdStart ?sc = Some ccs" "buildColdStart ovf fmt_g variate ?n ccs = Inr s"
    | (uniform) ucs where "sc_Type ?sc = ''uniform''" "sc_Uniform ?sc = Some ucs" "buildUniform ovf fmt_g ?n ucs = Inr s"
    | (pessimal) "sc_Type ?sc = ''pessimal''" "buildPessimal ovf ?n b = Inr s"
    | (storm) "sc_Type ?sc = ''coa_storm''" "s = \<lparr>sd_Offsets = [], sd_Type = ''coa_storm''\<rparr>"
    using BuildSchedule_Inr [OF assms(1), folded b_def] by blast
  then show ?thesis
  proof cases
    case cold
    then show ?thesis
      using cold_start_schedule [OF cold(3)] assms(2) n last by (auto simp: schedule_in_range_def sd_Total_def)
  next
    case uniform
    then show ?thesis
      using uniform_schedule [OF uniform(3) _ n] assms(2) n last by (auto simp: schedule_in_range_def sd_Total_def)
  next
    case pessimal
    then show ?thesis
      using pessimal_schedule [OF pessimal(2) b n] n last by (auto simp: sd_Total_def)
  qed (simp_all add: sd_Total_def)
qed

definition demo_storm_config :: config where
  "demo_storm_config = demo_config\<lparr>
     cfg_Subscribers := (cfg_Subscribers demo_config)\<lparr>su_Count := 4\<rparr>,
     cfg_Scenario := (cfg_Scenario demo_config)\<lparr>sc_Pessimal := Some \<lparr>pe_BurstWindowMs = 2000\<rparr>\<rparr>\<rparr>"

lemma schedule_exact_witness:
  "\<exists>s. BuildSchedule 0 (\<lambda>_. []) id (\<lambda>_. Fin 0) (Some demo_storm_config) = Inr s \<and> sd_Total s = 4 \<and>
     sorted (sd_Offsets s) \<and> sd_Offsets s ! 0 = 0"
proof -
  have r: "schedule_in_range (\<lambda>_. Fin 0) demo_storm_config"
    by (simp add: schedule_in_range_def demo_storm_config_def demo_config_def)
  obtain s where s: "BuildSchedule 0 (\<lambda>_. []) id (\<lambda>_. Fin 0) (Some demo_storm_config) = Inr s"
    by (simp add: BuildSchedule_def buildPessimal_def demo_storm_config_def demo_config_def Let_def)
  have f: "sc_Type (cfg_Scenario demo_storm_config) = ''pessimal''" "su_Count (cfg_Subscribers demo_storm_config) = 4"
    by (simp_all add: demo_storm_config_def demo_config_def)
  note t = schedule_exact [OF s r]
  then have "sd_Total s = 4" using f by simp
  then show ?thesis using s t f by (auto simp: sd_Total_def)
qed

end
