(* ===== verification/Scenario_Lifecycle.thy ===== *)
theory Scenario_Lifecycle
  imports Go_Path
begin

text \<open>
  The phases of \<^verbatim>\<open>pkg/scenario/lifecycle.go\<close> and the live progress of
  \<^verbatim>\<open>pkg/scenario/progress.go\<close>. A phase is a string in the code; \<open>stage\<close> is the abstract,
  linearly ordered type of the five phases, and the lemmas show that the code's transition
  check accepts exactly the steps to the next stage.
\<close>

section \<open>Phases\<close>

abbreviation (input) PhaseWarmup :: string where "PhaseWarmup \<equiv> ''warmup''"
abbreviation (input) PhaseRamp :: string where "PhaseRamp \<equiv> ''ramp''"
abbreviation (input) PhaseDrain :: string where "PhaseDrain \<equiv> ''drain''"
abbreviation (input) PhaseFinalize :: string where "PhaseFinalize \<equiv> ''finalize''"
abbreviation (input) PhaseDone :: string where "PhaseDone \<equiv> ''done''"

definition phaseOrder :: "string list" where
  "phaseOrder = [PhaseWarmup, PhaseRamp, PhaseDrain, PhaseFinalize, PhaseDone]"

fun next_in :: "string \<Rightarrow> string list \<Rightarrow> string" where
  "next_in p (q # r # rest) = (if q = p then r else next_in p (r # rest))"
| "next_in p rest = PhaseDone"

definition nextPhase :: "string \<Rightarrow> string" where
  "nextPhase p = next_in p phaseOrder"

text \<open>The loop keeps the last index at which a phase is found, -1 before it is.\<close>

fun index_loop_phase :: "string \<Rightarrow> int \<Rightarrow> int \<Rightarrow> string list \<Rightarrow> int" where
  "index_loop_phase p i idx [] = idx"
| "index_loop_phase p i idx (q # qs) = index_loop_phase p (i + 1) (if q = p then i else idx) qs"

definition phase_index :: "string \<Rightarrow> int" where
  "phase_index p = index_loop_phase p 0 (- 1) phaseOrder"

definition arrow :: string where
  "arrow = map char_of [0xE2 :: nat, 0x86, 0x92]"

definition validateTransition :: "(string \<Rightarrow> string) \<Rightarrow> string \<Rightarrow> string \<Rightarrow> goerr option" where
  "validateTransition fmt_q oldP newP =
     (if oldP = newP then None
      else let oldIdx = phase_index oldP; newIdx = phase_index newP in
        if oldIdx = - 1 then Some (Plain (''scenario: unknown old phase '' @ fmt_q oldP))
        else if newIdx = - 1 then Some (Plain (''scenario: unknown new phase '' @ fmt_q newP))
        else if newIdx \<noteq> oldIdx + 1
        then Some (Plain (''scenario: invalid phase transition '' @ oldP @ '' '' @ arrow @ '' '' @ newP
          @ '' (must be canonical-order step)''))
        else None)"

section \<open>Stages\<close>

datatype stage = Warmup | Ramp | Drain | Finalize | Done

fun stage_rank :: "stage \<Rightarrow> nat" where
  "stage_rank Warmup = 0" | "stage_rank Ramp = 1" | "stage_rank Drain = 2" | "stage_rank Finalize = 3" | "stage_rank Done = 4"

fun stage_name :: "stage \<Rightarrow> string" where
  "stage_name Warmup = PhaseWarmup" | "stage_name Ramp = PhaseRamp" | "stage_name Drain = PhaseDrain"
| "stage_name Finalize = PhaseFinalize" | "stage_name Done = PhaseDone"

lemma stage_rank_inj: "stage_rank a = stage_rank b \<longleftrightarrow> a = b"
  by (cases a; cases b) simp_all

instantiation stage :: linorder
begin

definition less_eq_stage :: "stage \<Rightarrow> stage \<Rightarrow> bool" where
  "less_eq_stage a b \<longleftrightarrow> stage_rank a \<le> stage_rank b"

definition less_stage :: "stage \<Rightarrow> stage \<Rightarrow> bool" where
  "less_stage a b \<longleftrightarrow> stage_rank a < stage_rank b"

instance
  by standard (auto simp: less_eq_stage_def less_stage_def stage_rank_inj)

end

lemma stage_less [simp]: "a < b \<longleftrightarrow> stage_rank a < stage_rank b"
  by (simp add: less_stage_def)

lemma stage_le [simp]: "a \<le> b \<longleftrightarrow> stage_rank a \<le> stage_rank b"
  by (simp add: less_eq_stage_def)

lemma phase_index_stage: "phase_index (stage_name s) = int (stage_rank s)"
  by (cases s) (simp_all add: phase_index_def phaseOrder_def)

lemma phase_index_unknown: "phase_index p = - 1 \<longleftrightarrow> (\<forall>s. stage_name s \<noteq> p)"
proof
  assume "phase_index p = - 1"
  then show "\<forall>s. stage_name s \<noteq> p" using phase_index_stage by force
next
  assume "\<forall>s. stage_name s \<noteq> p"
  then have "PhaseWarmup \<noteq> p" "PhaseRamp \<noteq> p" "PhaseDrain \<noteq> p" "PhaseFinalize \<noteq> p" "PhaseDone \<noteq> p"
    by (metis stage_name.simps)+
  then show "phase_index p = - 1" by (simp add: phase_index_def phaseOrder_def)
qed

lemma stage_name_inj: "stage_name a = stage_name b \<longleftrightarrow> a = b"
  by (cases a; cases b) simp_all

text \<open>The check accepts a step exactly when it stays or goes to the next stage.\<close>

lemma validateTransition_stage:
  "validateTransition fmt_q (stage_name a) (stage_name b) = None \<longleftrightarrow> a = b \<or> stage_rank b = stage_rank a + 1"
proof -
  have "phase_index (stage_name a) \<noteq> - 1" "phase_index (stage_name b) \<noteq> - 1" by (simp_all add: phase_index_stage)
  then show ?thesis by (auto simp: validateTransition_def phase_index_stage stage_name_inj Let_def)
qed

lemma validateTransition_iff:
  "validateTransition fmt_q p q = None \<longleftrightarrow> p = q \<or> (\<exists>a b. p = stage_name a \<and> q = stage_name b \<and> stage_rank b = stage_rank a + 1)"
proof (cases "(\<exists>a. p = stage_name a) \<and> (\<exists>b. q = stage_name b)")
  case True
  then show ?thesis using validateTransition_stage by (auto simp: stage_name_inj)
next
  case False
  then have "phase_index p = - 1 \<or> phase_index q = - 1" by (auto simp: phase_index_unknown)
  then show ?thesis using False by (auto simp: validateTransition_def Let_def)
qed

fun next_stage :: "stage \<Rightarrow> stage" where
  "next_stage Warmup = Ramp" | "next_stage Ramp = Drain" | "next_stage Drain = Finalize"
| "next_stage Finalize = Done" | "next_stage Done = Done"

lemma nextPhase_stage: "nextPhase (stage_name s) = stage_name (next_stage s)"
  by (cases s) (simp_all add: nextPhase_def phaseOrder_def)

lemma nextPhase_valid: "validateTransition fmt_q (stage_name s) (nextPhase (stage_name s)) = None"
  unfolding nextPhase_stage validateTransition_stage by (cases s) simp_all

section \<open>Live counters and snapshots\<close>

record liveCounters =
  lc_activated :: int
  lc_established :: int
  lc_failed :: int
  lc_retransmits :: int
  lc_phase :: string

definition newLiveCounters :: liveCounters where
  "newLiveCounters = \<lparr>lc_activated = 0, lc_established = 0, lc_failed = 0, lc_retransmits = 0, lc_phase = PhaseWarmup\<rparr>"

definition setPhase :: "string \<Rightarrow> liveCounters \<Rightarrow> liveCounters" where
  "setPhase p c = c\<lparr>lc_phase := p\<rparr>"

definition inFlight :: "liveCounters \<Rightarrow> int" where
  "inFlight c = (let v = lc_activated c - lc_established c - lc_failed c in if v < 0 then 0 else v)"

record Snapshot =
  sn_OffsetMs :: int
  sn_Activated :: int
  sn_Established :: int
  sn_Failed :: int
  sn_InFlight :: int
  sn_Retransmits :: int
  sn_Phase :: string

text \<open>
  \<open>now\<close> is the clock reading; the encoder and the file are the environment, a line of the
  file is a snapshot. The loop is driven by the outcomes of its \<^verbatim>\<open>select\<close>, each with the
  reading and the counters sampled then.
\<close>

definition progress_snapshot :: "int \<Rightarrow> int \<times> liveCounters \<Rightarrow> Snapshot" where
  "progress_snapshot t0 = (\<lambda>(now, c).
     \<lparr>sn_OffsetMs = milliseconds (time_sub now t0), sn_Activated = lc_activated c, sn_Established = lc_established c,
      sn_Failed = lc_failed c, sn_InFlight = inFlight c, sn_Retransmits = lc_retransmits c, sn_Phase = lc_phase c\<rparr>)"

datatype wake = Tick "int \<times> liveCounters" | CtxDone "int \<times> liveCounters" | StopSignal "int \<times> liveCounters"

fun progress_loop :: "int \<Rightarrow> wake list \<Rightarrow> Snapshot list" where
  "progress_loop t0 (Tick s # ws) = progress_snapshot t0 s # progress_loop t0 ws"
| "progress_loop t0 (CtxDone s # ws) = [progress_snapshot t0 s]"
| "progress_loop t0 (StopSignal s # ws) = [progress_snapshot t0 s]"
| "progress_loop t0 [] = []"

definition progress_run :: "int \<Rightarrow> int \<times> liveCounters \<Rightarrow> wake list \<Rightarrow> Snapshot list" where
  "progress_run t0 first ws = progress_snapshot t0 first # progress_loop t0 ws"

record progressWriter =
  pg_path :: string
  pg_t0 :: int
  pg_tick :: int

definition newProgressWriter :: "goerr option \<Rightarrow> goerr option \<Rightarrow> int \<Rightarrow> string \<Rightarrow> int option \<Rightarrow> bool \<Rightarrow> int \<Rightarrow> progressWriter res" where
  "newProgressWriter mkdir opened now outputDir t0 hasCounters tick =
     (if outputDir = [] then Inl (Plain ''scenario: progress writer requires OutputDir'')
      else if \<not> hasCounters then Inl (Plain ''scenario: progress writer requires Counters'')
      else let tick1 = (if tick \<le> 0 then 1000000000 else tick); path = path_Join [outputDir, ''progress.jsonl''] in
        case mkdir of Some err \<Rightarrow> Inl (Wrap (''scenario: progress mkdir '' @ outputDir @ '': '') err [])
        | None \<Rightarrow> (case opened of Some err \<Rightarrow> Inl (Wrap (''scenario: progress open '' @ path @ '': '') err [])
            | None \<Rightarrow> Inr \<lparr>pg_path = path, pg_t0 = (case t0 of None \<Rightarrow> now | Some t \<Rightarrow> t), pg_tick = tick1\<rparr>))"

text \<open>A loop that ends leaves at least two lines, the last one of the reading that ended it.\<close>

lemma progress_run_last:
  assumes "ws = ticks @ [w]" "list_all (\<lambda>x. \<exists>s. x = Tick s) ticks" "w = CtxDone s \<or> w = StopSignal s"
  shows "length (progress_run t0 first ws) = length ticks + 2 \<and> last (progress_run t0 first ws) = progress_snapshot t0 s"
proof -
  have "progress_loop t0 ws = progress_loop t0 ticks @ [progress_snapshot t0 s] \<and> length (progress_loop t0 ticks) = length ticks"
    using assms(2,3) unfolding assms(1) by (induction ticks) auto
  then show ?thesis by (simp add: progress_run_def)
qed

end
