(* ===== verification/Scenario_Runner.thy ===== *)
theory Scenario_Runner
  imports Scenario_Schedule Scenario_Lifecycle Server_System Collector_Summary
begin

text \<open>
  The orchestrator of \<^verbatim>\<open>pkg/scenario/runner.go\<close>. A run works through its phases with the
  collector, the engine, the listener, the pool and the progress writer; the calls it makes of
  them are recorded in order in \<open>rn_calls\<close>, and what they answer, with the moments at which
  the context is done, is the environment of the run (\<open>run_env\<close>). A run returns its joined
  errors, panics, or waits for a progress writer that was never started.
\<close>

section \<open>Options and construction\<close>

record runner_opts =
  ro_Config :: "config option"
  ro_Creds :: "credential list"
  ro_OutputDir :: string
  ro_DrainTimeout :: int
  ro_WarmupDelay :: int
  ro_SkipServerListener :: bool
  ro_CollectorOverride :: bool
  ro_EngineOverride :: bool
  ro_ConfigSource :: bytes
  ro_RunID :: string

definition defaultDrainTimeout :: int where "defaultDrainTimeout = 30 * 1000000000"
definition defaultWarmupDelay :: int where "defaultWarmupDelay = 1 * 1000000000"

definition ErrNilConfig :: goerr where "ErrNilConfig = Sentinel ''scenario: Opts.Config is nil''"
definition ErrNoCreds :: goerr where "ErrNoCreds = Sentinel ''scenario: Opts.Creds is empty''"
definition ErrNoOutputDir :: goerr where "ErrNoOutputDir = Sentinel ''scenario: Opts.OutputDir is empty''"

text \<open>What the runner asks of its components, in order; the events it submits by their type.\<close>

datatype run_call = EnterPhase string | SubmitEvent string | EngineStart | ListenerStart | ProgressStart | Launch nat
  | ProgressStop | CollectorStop | AggregateCall "unit AggregateOpts" | WriteSummaryCall | ListenerStop | EngineStop

record runner =
  rn_opts :: runner_opts
  rn_cfg :: config
  rn_schedule :: schedule
  rn_counters :: liveCounters
  rn_pool :: pool
  rn_listener :: bool
  rn_progress :: bool
  rn_ownsEngine :: bool
  rn_currentPhase :: string
  rn_activeWG :: bool
  rn_runErr :: "goerr list"
  rn_calls :: "run_call list"

definition NewRunner :: "(config option \<Rightarrow> schedule res) \<Rightarrow> goerr option \<Rightarrow> int \<Rightarrow> runner_opts \<Rightarrow> runner res" where
  "NewRunner build mkdir unix o0 =
     (case ro_Config o0 of None \<Rightarrow> Inl ErrNilConfig
      | Some cfg \<Rightarrow>
        if ro_OutputDir o0 = [] then Inl ErrNoOutputDir
        else if ro_Creds o0 = [] \<and> su_Count (cfg_Subscribers cfg) > 0 \<and> sc_Type (cfg_Scenario cfg) \<noteq> ''coa_storm''
        then Inl ErrNoCreds
        else let o1 = (if ro_DrainTimeout o0 \<le> 0 then o0\<lparr>ro_DrainTimeout := defaultDrainTimeout\<rparr> else o0);
                 o2 = (if ro_WarmupDelay o1 < 0 then o1\<lparr>ro_WarmupDelay := defaultWarmupDelay\<rparr> else o1)
          in case build (ro_Config o2) of
               Inl err \<Rightarrow> Inl (Wrap ''scenario: build schedule: '' err [])
             | Inr sched \<Rightarrow>
               (case mkdir of Some err \<Rightarrow> Inl (Wrap (''scenario: mkdir output '' @ ro_OutputDir o2 @ '': '') err [])
                | None \<Rightarrow>
                  let o3 = (if ro_RunID o2 = [] then o2\<lparr>ro_RunID := ''run-'' @ fmt_d unix\<rparr> else o2) in
                  Inr \<lparr>rn_opts = o3, rn_cfg = cfg, rn_schedule = sched, rn_counters = newLiveCounters, rn_pool = empty_pool,
                    rn_listener = False, rn_progress = False, rn_ownsEngine = False, rn_currentPhase = PhaseWarmup,
                    rn_activeWG = False, rn_runErr = [], rn_calls = []\<rparr>))"

section \<open>The environment of a run\<close>

text \<open>
  Results of the components' functions; \<open>re_warmup\<close> is the context's error when it fires
  during the warm-up delay, \<open>re_due i\<close> whether the timer (and not the context) wins before the
  \<open>i\<close>-th activation, \<open>re_final i\<close> the state in which the \<open>i\<close>-th subscriber's \<^verbatim>\<open>Run\<close> returned
  before the end of the run, if it did.
\<close>

record run_env =
  re_authAddr :: "goerr option"
  re_acctAddr :: "goerr option"
  re_collectorNew :: "goerr option"
  re_engineNew :: "goerr option"
  re_listenerNew :: "goerr option"
  re_progressNew :: "goerr option"
  re_engineStart :: "goerr option"
  re_warmup :: "goerr option"
  re_due :: "nat \<Rightarrow> bool"
  re_final :: "nat \<Rightarrow> sub_state option"
  re_aggregate :: "goerr option"
  re_writeSummary :: "goerr option"
  re_t0 :: int
  re_finishedAt :: int

datatype run_end = Returned "goerr list" | Panicked goerr | Hangs

section \<open>Helpers\<close>

fun parse_ips :: "(string \<Rightarrow> string) \<Rightarrow> string list \<Rightarrow> bytes list \<Rightarrow> bytes list res" where
  "parse_ips fmt_q [] out = Inr out"
| "parse_ips fmt_q (s # ss) out =
     (case ParseIP s of None \<Rightarrow> Inl (Plain (''invalid IP '' @ fmt_q s)) | Some ip \<Rightarrow> parse_ips fmt_q ss (out @ [ip]))"

definition parseSourceIPs :: "(string \<Rightarrow> string) \<Rightarrow> string list \<Rightarrow> bytes list res" where
  "parseSourceIPs fmt_q inp = (if inp = [] then Inl (Plain ''source.ips is empty'') else parse_ips fmt_q inp [])"

definition configHash :: "(bytes \<Rightarrow> string) \<Rightarrow> bytes \<Rightarrow> string" where
  "configHash sha256_hex src = (if src = [] then [] else ''sha256:'' @ sha256_hex src)"

definition lifecycleEvent :: "stamp \<Rightarrow> int \<Rightarrow> string \<Rightarrow> event" where
  "lifecycleEvent s t0 kind = event_zero\<lparr>EvTimestamp := st_wall s, EvMonotonicNs := st_mono s,
     EvOffsetMs := milliseconds (time_sub (st_now s) t0), EvCategory := CategorySubscriberLifecycle,
     EvEventType := kind, EvIdentifier := NoIdentifier\<rparr>"

definition SummaryPath :: "runner \<Rightarrow> string" where
  "SummaryPath r = path_Join [ro_OutputDir (rn_opts r), ''summary.json'']"

definition rn_call :: "run_call \<Rightarrow> runner \<Rightarrow> runner" where
  "rn_call c r = r\<lparr>rn_calls := rn_calls r @ [c]\<rparr>"

text \<open>\<open>Inl\<close> is the panic.\<close>

definition transition :: "(string \<Rightarrow> string) \<Rightarrow> string \<Rightarrow> runner \<Rightarrow> goerr + runner" where
  "transition fmt_q next r =
     (if rn_currentPhase r = next then Inr r
      else case validateTransition fmt_q (rn_currentPhase r) next of
        Some err \<Rightarrow> Inl err
      | None \<Rightarrow> Inr (rn_call (EnterPhase next) (r\<lparr>rn_currentPhase := next, rn_counters := setPhase next (rn_counters r)\<rparr>)))"

section \<open>Components\<close>

definition wants_listener :: "runner \<Rightarrow> bool" where
  "wants_listener r \<longleftrightarrow> \<not> ro_SkipServerListener (rn_opts r) \<and> cl_BindAddress (cfg_CoaListener (rn_cfg r)) \<noteq> [] \<and>
     cl_SharedSecret (cfg_CoaListener (rn_cfg r)) \<noteq> []"

text \<open>Whether the runner owns its engine, or why there is none; a listener that fails to bind is only logged.\<close>

definition engine_for :: "(string \<Rightarrow> string) \<Rightarrow> run_env \<Rightarrow> runner \<Rightarrow> goerr + bool" where
  "engine_for fmt_q env r =
     (if ro_EngineOverride (rn_opts r) then Inr False
      else case parseSourceIPs fmt_q (so_IPs (cfg_Source (rn_cfg r))) of
        Inl err \<Rightarrow> Inl (Wrap ''scenario: parse source IPs: '' err [])
      | Inr ips \<Rightarrow> (case re_engineNew env of Some err \<Rightarrow> Inl (Wrap ''scenario: io engine: '' err []) | None \<Rightarrow> Inr True))"

definition bind_listener :: "run_env \<Rightarrow> runner \<Rightarrow> runner" where
  "bind_listener env r = r\<lparr>rn_listener := wants_listener r \<and> re_listenerNew env = None\<rparr>"

definition constructComponents :: "(string \<Rightarrow> string) \<Rightarrow> run_env \<Rightarrow> runner \<Rightarrow> runner \<times> goerr option" where
  "constructComponents fmt_q env r =
     (case re_authAddr env of Some err \<Rightarrow> (r, Some (Wrap ''scenario: resolve target.auth_address: '' err []))
      | None \<Rightarrow>
      case (if su_IncludeAcctStart (cfg_Subscribers (rn_cfg r)) then re_acctAddr env else None) of
        Some err \<Rightarrow> (r, Some (Wrap ''scenario: resolve target.acct_address: '' err []))
      | None \<Rightarrow>
      case (if ro_CollectorOverride (rn_opts r) then None else re_collectorNew env) of
        Some err \<Rightarrow> (r, Some (Wrap ''scenario: collector: '' err []))
      | None \<Rightarrow>
      let r1 = r\<lparr>rn_pool := NewPool (ro_Creds (rn_opts r)) (Some (rn_cfg r))\<rparr> in
      case engine_for fmt_q env r1 of
        Inl err \<Rightarrow> (r1, Some err)
      | Inr owns \<Rightarrow>
      let r2 = bind_listener env (r1\<lparr>rn_ownsEngine := owns\<rparr>)
      in case re_progressNew env of
        Some err \<Rightarrow> (r2, Some (Wrap ''scenario: progress writer: '' err []))
      | None \<Rightarrow> (r2\<lparr>rn_progress := True\<rparr>, None))"

section \<open>Phases\<close>

definition warmup :: "(string \<Rightarrow> string) \<Rightarrow> run_env \<Rightarrow> runner \<Rightarrow> goerr + (runner \<times> goerr option)" where
  "warmup fmt_q env r =
     (case transition fmt_q PhaseWarmup r of Inl p \<Rightarrow> Inl p
      | Inr r1 \<Rightarrow>
        (let r2 = rn_call EngineStart (rn_call (SubmitEvent ''lifecycle_warmup'') r1) in
         case re_engineStart env of Some err \<Rightarrow> Inr (r2, Some (Wrap ''scenario: engine start: '' err []))
         | None \<Rightarrow>
           (let r3 = (if rn_listener r2 then rn_call ListenerStart r2 else r2); r4 = rn_call ProgressStart r3 in
            if ro_WarmupDelay (rn_opts r4) > 0 then Inr (r4, re_warmup env) else Inr (r4, None))))"

text \<open>The counters after a launch: the goroutine's \<^verbatim>\<open>Run\<close> returns at some later time, or never.\<close>

definition count_final :: "sub_state option \<Rightarrow> liveCounters \<Rightarrow> liveCounters" where
  "count_final st c = (case st of
     Some StateEstablished \<Rightarrow> c\<lparr>lc_established := lc_established c + 1\<rparr>
   | Some StateAuthFailed \<Rightarrow> c\<lparr>lc_failed := lc_failed c + 1\<rparr>
   | Some StateAcctFailed \<Rightarrow> c\<lparr>lc_failed := lc_failed c + 1\<rparr>
   | _ \<Rightarrow> c)"

fun ramp_loop :: "run_env \<Rightarrow> nat list \<Rightarrow> runner \<Rightarrow> runner" where
  "ramp_loop env [] r = r"
| "ramp_loop env (idx # rest) r =
     (if \<not> re_due env idx then r
      else case pool_Get (rn_pool r) (of_nat idx) of
        None \<Rightarrow> ramp_loop env rest r
      | Some sub \<Rightarrow>
          ramp_loop env rest (rn_call (Launch sub) (r\<lparr>rn_counters := count_final (re_final env sub)
            ((rn_counters r)\<lparr>lc_activated := lc_activated (rn_counters r) + 1\<rparr>)\<rparr>)))"

definition ramp :: "(string \<Rightarrow> string) \<Rightarrow> run_env \<Rightarrow> runner \<Rightarrow> goerr + runner" where
  "ramp fmt_q env r =
     (case transition fmt_q PhaseRamp r of Inl p \<Rightarrow> Inl p
      | Inr r1 \<Rightarrow>
        (let r2 = rn_call (SubmitEvent ''lifecycle_ramp'') r1 in
         if sd_Total (rn_schedule r2) = 0 then Inr r2
         else Inr (ramp_loop env [0..<sd_Total (rn_schedule r2)] (r2\<lparr>rn_activeWG := True\<rparr>))))"

text \<open>Every branch of the wait in \<^verbatim>\<open>drain\<close> returns; how long each may wait is \<open>drain_wait\<close>.\<close>

definition drain_wait :: "runner \<Rightarrow> int" where
  "drain_wait r = (if \<not> rn_activeWG r
     then (let hold = wrap64 (sc_HardTimeoutSec (cfg_Scenario (rn_cfg r)) * 1000000000) in
           if hold \<le> 0 then ro_DrainTimeout (rn_opts r) else hold)
     else ro_DrainTimeout (rn_opts r))"

definition drain :: "(string \<Rightarrow> string) \<Rightarrow> runner \<Rightarrow> goerr + runner" where
  "drain fmt_q r =
     (case transition fmt_q PhaseDrain r of Inl p \<Rightarrow> Inl p | Inr r1 \<Rightarrow> Inr (rn_call (SubmitEvent ''lifecycle_drain'') r1))"

definition aggregate_opts :: "(bytes \<Rightarrow> string) \<Rightarrow> run_env \<Rightarrow> runner \<Rightarrow> unit AggregateOpts" where
  "aggregate_opts sha256_hex env r =
     \<lparr>ao_RunID = ro_RunID (rn_opts r), ao_ConfigHash = configHash sha256_hex (ro_ConfigSource (rn_opts r)),
      ao_ScenarioType = sc_Type (cfg_Scenario (rn_cfg r)), ao_StartedAt = Some (re_t0 env),
      ao_FinishedAt = Some (re_finishedAt env), ao_Outcome = OutcomeSucceeded, ao_Thresholds = [], ao_CurveBucketMs = 0\<rparr>"

text \<open>\<open>None\<close>: \<^verbatim>\<open>progress.Stop\<close> waits for a goroutine that was never started.\<close>

definition finalize :: "(string \<Rightarrow> string) \<Rightarrow> (bytes \<Rightarrow> string) \<Rightarrow> run_env \<Rightarrow> runner \<Rightarrow> goerr + (runner \<times> goerr option) option" where
  "finalize fmt_q sha256_hex env r =
     (case transition fmt_q PhaseFinalize r of Inl p \<Rightarrow> Inl p
      | Inr r1 \<Rightarrow>
        (let r2 = rn_call (SubmitEvent ''lifecycle_finalize'') r1;
             r3 = (if rn_progress r2 then rn_call ProgressStop r2 else r2)
         in if rn_progress r3 \<and> ProgressStart \<notin> set (rn_calls r3) then Inr None
            else let r4 = rn_call (AggregateCall (aggregate_opts sha256_hex env r3)) (rn_call CollectorStop r3) in
              case re_aggregate env of Some err \<Rightarrow> Inr (Some (r4, Some (Wrap ''scenario: aggregate: '' err [])))
              | None \<Rightarrow>
                (let r5 = rn_call WriteSummaryCall r4 in
                 case re_writeSummary env of Some err \<Rightarrow> Inr (Some (r5, Some (Wrap ''scenario: write summary: '' err [])))
                 | None \<Rightarrow> Inr (Some (r5, None)))))"

definition shutdown :: "runner \<Rightarrow> runner" where
  "shutdown r =
     (let r1 = (if rn_listener r then rn_call ListenerStop r else r)
      in if rn_ownsEngine r1 then rn_call EngineStop r1 else r1)"

definition add_runErr :: "goerr option \<Rightarrow> runner \<Rightarrow> runner" where
  "add_runErr err r = (case err of None \<Rightarrow> r | Some e \<Rightarrow> r\<lparr>rn_runErr := rn_runErr r @ [e]\<rparr>)"

definition run_finish :: "(string \<Rightarrow> string) \<Rightarrow> (bytes \<Rightarrow> string) \<Rightarrow> run_env \<Rightarrow> runner \<Rightarrow> runner \<times> run_end" where
  "run_finish fmt_q sha256_hex env r =
     (case drain fmt_q r of Inl p \<Rightarrow> (shutdown r, Panicked p)
      | Inr r1 \<Rightarrow>
        (case finalize fmt_q sha256_hex env r1 of Inl p \<Rightarrow> (shutdown r1, Panicked p)
         | Inr None \<Rightarrow> (r1, Hangs)
         | Inr (Some (r2, err)) \<Rightarrow>
           (let r3 = add_runErr err r2 in
            case transition fmt_q PhaseDone r3 of Inl p \<Rightarrow> (shutdown r3, Panicked p)
            | Inr r4 \<Rightarrow> (shutdown r4, Returned (rn_runErr r4)))))"

definition RunScenario :: "(string \<Rightarrow> string) \<Rightarrow> (bytes \<Rightarrow> string) \<Rightarrow> run_env \<Rightarrow> runner \<Rightarrow> runner \<times> run_end" where
  "RunScenario fmt_q sha256_hex env r =
     (case constructComponents fmt_q env r of
        (r1, Some err) \<Rightarrow> (r1, Returned [err])
      | (r1, None) \<Rightarrow>
        (case warmup fmt_q env r1 of Inl p \<Rightarrow> (shutdown r1, Panicked p)
         | Inr (r2, err) \<Rightarrow>
           (let r3 = add_runErr err r2 in
            if rn_runErr r3 = []
            then (case ramp fmt_q env r3 of Inl p \<Rightarrow> (shutdown r3, Panicked p)
                  | Inr r4 \<Rightarrow> run_finish fmt_q sha256_hex env r4)
            else run_finish fmt_q sha256_hex env r3)))"

section \<open>Launching\<close>

fun launched :: "run_call list \<Rightarrow> nat list" where
  "launched [] = []"
| "launched (Launch i # cs) = i # launched cs"
| "launched (_ # cs) = launched cs"

fun entered :: "run_call list \<Rightarrow> string list" where
  "entered [] = []"
| "entered (EnterPhase p # cs) = p # entered cs"
| "entered (_ # cs) = entered cs"

lemma launched_append [simp]: "launched (a @ b) = launched a @ launched b"
  by (induction a rule: launched.induct) simp_all

lemma entered_append [simp]: "entered (a @ b) = entered a @ entered b"
  by (induction a rule: entered.induct) simp_all

text \<open>The activations up to the first one at which the context wins, for subscribers that exist.\<close>

definition due_subs :: "run_env \<Rightarrow> pool \<Rightarrow> nat list \<Rightarrow> nat list" where
  "due_subs env p is = List.map_filter (\<lambda>i. pool_Get p (of_nat i)) (takeWhile (re_due env) is)"

definition finals :: "run_env \<Rightarrow> sub_state set \<Rightarrow> nat list \<Rightarrow> int" where
  "finals env A subs = int (length (filter (\<lambda>i. re_final env i \<in> Some ` A) subs))"

lemma count_final_fields:
  "lc_activated (count_final st c) = lc_activated c"
  "lc_established (count_final st c) = lc_established c + (if st = Some StateEstablished then 1 else 0)"
  "lc_failed (count_final st c) = lc_failed c + (if st \<in> Some ` {StateAuthFailed, StateAcctFailed} then 1 else 0)"
  "lc_phase (count_final st c) = lc_phase c"
  by (auto simp: count_final_def split: option.split sub_state.split)

lemma ramp_loop_effect:
  "let r' = ramp_loop env is r; subs = due_subs env (rn_pool r) is in
     rn_calls r' = rn_calls r @ map Launch subs \<and>
     lc_activated (rn_counters r') = lc_activated (rn_counters r) + int (length subs) \<and>
     lc_established (rn_counters r') = lc_established (rn_counters r) + finals env {StateEstablished} subs \<and>
     lc_failed (rn_counters r') = lc_failed (rn_counters r) + finals env {StateAuthFailed, StateAcctFailed} subs \<and>
     rn_currentPhase r' = rn_currentPhase r \<and> rn_runErr r' = rn_runErr r \<and> rn_pool r' = rn_pool r \<and>
     rn_opts r' = rn_opts r \<and> rn_cfg r' = rn_cfg r \<and> rn_listener r' = rn_listener r \<and> rn_progress r' = rn_progress r \<and>
     rn_ownsEngine r' = rn_ownsEngine r"
proof (induction "is" arbitrary: r)
  case Nil
  show ?case by (simp add: due_subs_def finals_def List.map_filter_def)
next
  case (Cons i rest)
  show ?case
  proof (cases "re_due env i")
    case False
    then show ?thesis by (simp add: due_subs_def finals_def List.map_filter_def)
  next
    case True
    show ?thesis
    proof (cases "pool_Get (rn_pool r) (of_nat i)")
      case None
      then have "due_subs env (rn_pool r) (i # rest) = due_subs env (rn_pool r) rest"
        using True by (simp add: due_subs_def List.map_filter_simps)
      then show ?thesis using Cons.IH [of r] True None by simp
    next
      case (Some sub)
      define r1 where "r1 = rn_call (Launch sub) (r\<lparr>rn_counters := count_final (re_final env sub)
            ((rn_counters r)\<lparr>lc_activated := lc_activated (rn_counters r) + 1\<rparr>)\<rparr>)"
      have d: "due_subs env (rn_pool r) (i # rest) = sub # due_subs env (rn_pool r) rest"
        using True Some by (simp add: due_subs_def List.map_filter_simps)
      have r1: "rn_pool r1 = rn_pool r" by (simp add: r1_def rn_call_def)
      have loop: "ramp_loop env (i # rest) r = ramp_loop env rest r1" using True Some by (simp add: r1_def)
      show ?thesis
        unfolding loop d using Cons.IH [of r1]
        by (simp add: r1 Let_def) (auto simp: r1_def rn_call_def count_final_fields finals_def)
    qed
  qed
qed

section \<open>The course of a run\<close>

lemma transition_to:
  "stage_rank b = stage_rank a + 1 \<Longrightarrow> rn_currentPhase r = stage_name a \<Longrightarrow>
   transition fmt_q (stage_name b) r =
     Inr (rn_call (EnterPhase (stage_name b)) (r\<lparr>rn_currentPhase := stage_name b, rn_counters := setPhase (stage_name b) (rn_counters r)\<rparr>))"
  using validateTransition_stage [of fmt_q a b] by (auto simp: transition_def stage_name_inj split: option.splits)

lemmas transitions = transition_to [of Ramp Warmup, simplified] transition_to [of Drain Ramp, simplified]
  transition_to [of Finalize Drain, simplified] transition_to [of Done Finalize, simplified]

lemma transition_skip:
  assumes "rn_currentPhase r = PhaseWarmup"
  shows "\<exists>err. transition fmt_q PhaseDrain r = Inl err \<and> validateTransition fmt_q PhaseWarmup PhaseDrain = Some err"
  using validateTransition_stage [of fmt_q Warmup Drain] assms by (auto simp: transition_def split: option.splits)

definition run_trace :: "(bytes \<Rightarrow> string) \<Rightarrow> run_env \<Rightarrow> runner \<Rightarrow> run_call list" where
  "run_trace sha256_hex env r =
     [SubmitEvent ''lifecycle_warmup'', EngineStart] @ (if rn_listener r then [ListenerStart] else []) @
     [ProgressStart, EnterPhase PhaseRamp, SubmitEvent ''lifecycle_ramp''] @
     map Launch (due_subs env (rn_pool r) [0..<sd_Total (rn_schedule r)]) @
     [EnterPhase PhaseDrain, SubmitEvent ''lifecycle_drain'', EnterPhase PhaseFinalize, SubmitEvent ''lifecycle_finalize'',
      ProgressStop, CollectorStop, AggregateCall (aggregate_opts sha256_hex env r)] @
     (if re_aggregate env = None then [WriteSummaryCall] else []) @ [EnterPhase PhaseDone] @
     (if rn_listener r then [ListenerStop] else []) @ (if rn_ownsEngine r then [EngineStop] else [])"

definition warmup_ok :: "run_env \<Rightarrow> runner \<Rightarrow> bool" where
  "warmup_ok env r \<longleftrightarrow> re_engineStart env = None \<and> (ro_WarmupDelay (rn_opts r) > 0 \<longrightarrow> re_warmup env = None)"

lemma NewRunner_fresh:
  "NewRunner build mkdir unix o0 = Inr r \<Longrightarrow> rn_calls r = [] \<and> rn_currentPhase r = PhaseWarmup \<and> rn_runErr r = [] \<and>
   rn_counters r = newLiveCounters"
  by (auto simp: NewRunner_def Let_def split: option.splits if_splits sum.splits)

lemma constructComponents_keeps:
  assumes "constructComponents fmt_q env r = (r', e)"
  shows "rn_calls r' = rn_calls r \<and> rn_currentPhase r' = rn_currentPhase r \<and> rn_runErr r' = rn_runErr r \<and>
    rn_counters r' = rn_counters r \<and> rn_schedule r' = rn_schedule r \<and> rn_opts r' = rn_opts r \<and> rn_cfg r' = rn_cfg r \<and>
    (e = None \<longrightarrow> rn_progress r' \<and> rn_pool r' = NewPool (ro_Creds (rn_opts r)) (Some (rn_cfg r)))"
  using assms unfolding constructComponents_def bind_listener_def
  by (auto simp: Let_def split: option.splits sum.splits)

lemma warmup_failed:
  assumes "\<not> warmup_ok env r" "rn_currentPhase r = PhaseWarmup"
  shows "\<exists>r2 err. warmup fmt_q env r = Inr (r2, Some err) \<and> rn_currentPhase r2 = PhaseWarmup \<and> rn_runErr r2 = rn_runErr r \<and>
    rn_ownsEngine r2 = rn_ownsEngine r \<and> rn_listener r2 = rn_listener r \<and>
    (\<exists>cs. rn_calls r2 = rn_calls r @ cs \<and> set cs \<subseteq> {SubmitEvent ''lifecycle_warmup'', EngineStart, ListenerStart, ProgressStart})"
  using assms by (auto simp: warmup_def warmup_ok_def transition_def rn_call_def Let_def split: option.splits if_splits)

lemma warmup_passed:
  assumes "warmup_ok env r" "rn_currentPhase r = PhaseWarmup"
  shows "warmup fmt_q env r = Inr (r\<lparr>rn_calls := rn_calls r @ [SubmitEvent ''lifecycle_warmup'', EngineStart] @
    (if rn_listener r then [ListenerStart] else []) @ [ProgressStart]\<rparr>, None)"
  using assms by (auto simp: warmup_def warmup_ok_def transition_def rn_call_def Let_def split: option.splits if_splits)

lemma ramp_runs:
  fixes env :: run_env
  assumes "rn_currentPhase r = PhaseWarmup"
  defines "subs \<equiv> due_subs env (rn_pool r) [0..<sd_Total (rn_schedule r)]"
  shows "\<exists>r'. ramp fmt_q env r = Inr r' \<and>
    rn_calls r' = rn_calls r @ [EnterPhase PhaseRamp, SubmitEvent ''lifecycle_ramp''] @ map Launch subs \<and>
    lc_activated (rn_counters r') = lc_activated (rn_counters r) + int (length subs) \<and>
    lc_established (rn_counters r') = lc_established (rn_counters r) + finals env {StateEstablished} subs \<and>
    lc_failed (rn_counters r') = lc_failed (rn_counters r) + finals env {StateAuthFailed, StateAcctFailed} subs \<and>
    rn_currentPhase r' = PhaseRamp \<and> rn_runErr r' = rn_runErr r \<and> rn_opts r' = rn_opts r \<and> rn_cfg r' = rn_cfg r \<and>
    rn_listener r' = rn_listener r \<and> rn_progress r' = rn_progress r \<and> rn_ownsEngine r' = rn_ownsEngine r"
proof (cases "sd_Total (rn_schedule r) = 0")
  case True
  then show ?thesis using assms(1)
    by (simp add: ramp_def transitions Let_def subs_def due_subs_def rn_call_def setPhase_def finals_def List.map_filter_def)
next
  case False
  define r2 where "r2 = (rn_call (SubmitEvent ''lifecycle_ramp'') (rn_call (EnterPhase PhaseRamp)
    (r\<lparr>rn_currentPhase := PhaseRamp, rn_counters := setPhase PhaseRamp (rn_counters r)\<rparr>)))\<lparr>rn_activeWG := True\<rparr>"
  have "ramp fmt_q env r = Inr (ramp_loop env [0..<sd_Total (rn_schedule r)] r2)"
    using False assms(1) by (simp add: ramp_def transitions Let_def r2_def rn_call_def)
  then show ?thesis
    using ramp_loop_effect [of env "[0..<sd_Total (rn_schedule r)]" r2]
    by (simp add: r2_def rn_call_def setPhase_def subs_def Let_def)
qed

lemma run_finish_ramped:
  assumes "rn_currentPhase r = PhaseRamp" "rn_progress r" "ProgressStart \<in> set (rn_calls r)" "rn_runErr r = []"
  shows "\<exists>r' errs. run_finish fmt_q sha256_hex env r = (r', Returned errs) \<and> rn_currentPhase r' = PhaseDone \<and>
    lc_phase (rn_counters r') = PhaseDone \<and> lc_activated (rn_counters r') = lc_activated (rn_counters r) \<and>
    lc_established (rn_counters r') = lc_established (rn_counters r) \<and> lc_failed (rn_counters r') = lc_failed (rn_counters r) \<and>
    rn_calls r' = rn_calls r @ [EnterPhase PhaseDrain, SubmitEvent ''lifecycle_drain'', EnterPhase PhaseFinalize,
      SubmitEvent ''lifecycle_finalize'', ProgressStop, CollectorStop, AggregateCall (aggregate_opts sha256_hex env r)] @
     (if re_aggregate env = None then [WriteSummaryCall] else []) @ [EnterPhase PhaseDone] @
     (if rn_listener r then [ListenerStop] else []) @ (if rn_ownsEngine r then [EngineStop] else []) \<and>
    (errs = [] \<longleftrightarrow> re_aggregate env = None \<and> re_writeSummary env = None)"
proof -
  have d: "drain fmt_q r = Inr (rn_call (SubmitEvent ''lifecycle_drain'') (rn_call (EnterPhase PhaseDrain)
      (r\<lparr>rn_currentPhase := PhaseDrain, rn_counters := setPhase PhaseDrain (rn_counters r)\<rparr>)))"
    using assms(1) by (simp add: drain_def transitions)
  show ?thesis
    using assms unfolding run_finish_def d
    by (cases "re_aggregate env"; cases "re_writeSummary env")
      (simp_all add: finalize_def transitions Let_def rn_call_def shutdown_def add_runErr_def setPhase_def aggregate_opts_def)
qed

lemma run_finish_skipped:
  assumes "rn_currentPhase r = PhaseWarmup"
  shows "\<exists>err. run_finish fmt_q sha256_hex env r = (shutdown r, Panicked err) \<and>
    validateTransition fmt_q PhaseWarmup PhaseDrain = Some err"
  using transition_skip [OF assms, of fmt_q] by (auto simp: run_finish_def drain_def)

definition run_passed :: "(bytes \<Rightarrow> string) \<Rightarrow> run_env \<Rightarrow> runner \<Rightarrow> runner \<times> run_end \<Rightarrow> bool" where
  "run_passed sha256_hex env r1 = (\<lambda>(r', e).
     let subs = due_subs env (rn_pool r1) [0..<sd_Total (rn_schedule r1)] in
       (\<exists>errs. e = Returned errs \<and> (errs = [] \<longleftrightarrow> re_aggregate env = None \<and> re_writeSummary env = None)) \<and>
       rn_calls r' = run_trace sha256_hex env r1 \<and> rn_currentPhase r' = PhaseDone \<and> lc_phase (rn_counters r') = PhaseDone \<and>
       lc_activated (rn_counters r') = int (length subs) \<and>
       lc_established (rn_counters r') = finals env {StateEstablished} subs \<and>
       lc_failed (rn_counters r') = finals env {StateAuthFailed, StateAcctFailed} subs)"

definition run_panicked :: "runner \<times> run_end \<Rightarrow> bool" where
  "run_panicked = (\<lambda>(r', e). (\<exists>err. e = Panicked err) \<and> rn_currentPhase r' = PhaseWarmup \<and>
     set (rn_calls r') \<subseteq> {SubmitEvent ''lifecycle_warmup'', EngineStart, ListenerStart, ProgressStart, ListenerStop, EngineStop})"

lemma constructed_fresh:
  assumes "NewRunner build mkdir unix o0 = Inr r0" "constructComponents fmt_q env r0 = (r1, None)"
  shows "rn_calls r1 = []" "rn_currentPhase r1 = PhaseWarmup" "rn_runErr r1 = []" "rn_counters r1 = newLiveCounters"
    "rn_schedule r1 = rn_schedule r0" "rn_progress r1"
  using NewRunner_fresh [OF assms(1)] constructComponents_keeps [OF assms(2)] by auto

lemma run_when_warm:
  assumes "NewRunner build mkdir unix o0 = Inr r0" "constructComponents fmt_q env r0 = (r1, None)" "warmup_ok env r1"
  shows "run_passed sha256_hex env r1 (RunScenario fmt_q sha256_hex env r0)"
proof -
  note r1 = constructed_fresh [OF assms(1,2)]
  let ?r2 = "r1\<lparr>rn_calls := rn_calls r1 @ [SubmitEvent ''lifecycle_warmup'', EngineStart] @
    (if rn_listener r1 then [ListenerStart] else []) @ [ProgressStart]\<rparr>"
  obtain r3 where ramp: "ramp fmt_q env ?r2 = Inr r3" and r3:
    "rn_calls r3 = rn_calls ?r2 @ [EnterPhase PhaseRamp, SubmitEvent ''lifecycle_ramp''] @
       map Launch (due_subs env (rn_pool r1) [0..<sd_Total (rn_schedule r1)])"
    "lc_activated (rn_counters r3) = int (length (due_subs env (rn_pool r1) [0..<sd_Total (rn_schedule r1)]))"
    "lc_established (rn_counters r3) = finals env {StateEstablished} (due_subs env (rn_pool r1) [0..<sd_Total (rn_schedule r1)])"
    "lc_failed (rn_counters r3) = finals env {StateAuthFailed, StateAcctFailed} (due_subs env (rn_pool r1) [0..<sd_Total (rn_schedule r1)])"
    "rn_currentPhase r3 = PhaseRamp" "rn_runErr r3 = []" "rn_opts r3 = rn_opts r1" "rn_cfg r3 = rn_cfg r1"
    "rn_listener r3 = rn_listener r1" "rn_progress r3" "rn_ownsEngine r3 = rn_ownsEngine r1"
    using ramp_runs [of ?r2 fmt_q env] r1 by (simp add: newLiveCounters_def) blast
  have run: "RunScenario fmt_q sha256_hex env r0 = run_finish fmt_q sha256_hex env r3"
    using warmup_passed [OF assms(3) r1(2), of fmt_q] r1(3) ramp
    by (simp add: RunScenario_def assms(2) add_runErr_def)
  have "ProgressStart \<in> set (rn_calls r3)" using r3(1) by simp
  from run_finish_ramped [OF r3(5,10) this r3(6), of fmt_q sha256_hex env] obtain r' errs where
    "run_finish fmt_q sha256_hex env r3 = (r', Returned errs)" and r': "rn_currentPhase r' = PhaseDone"
    "lc_phase (rn_counters r') = PhaseDone" "lc_activated (rn_counters r') = lc_activated (rn_counters r3)"
    "lc_established (rn_counters r') = lc_established (rn_counters r3)" "lc_failed (rn_counters r') = lc_failed (rn_counters r3)"
    "rn_calls r' = run_trace sha256_hex env r1" "errs = [] \<longleftrightarrow> re_aggregate env = None \<and> re_writeSummary env = None"
    by (simp add: run_trace_def aggregate_opts_def r1 r3) blast
  with r3 show ?thesis unfolding run run_passed_def by (simp add: Let_def)
qed

lemma run_when_not_warm:
  assumes "NewRunner build mkdir unix o0 = Inr r0" "constructComponents fmt_q env r0 = (r1, None)" "\<not> warmup_ok env r1"
  shows "run_panicked (RunScenario fmt_q sha256_hex env r0)"
proof -
  note r1 = constructed_fresh [OF assms(1,2)]
  from warmup_failed [OF assms(3) r1(2), of fmt_q] obtain r2 err cs where w:
    "warmup fmt_q env r1 = Inr (r2, Some err)" "rn_currentPhase r2 = PhaseWarmup" "rn_calls r2 = cs"
    "set cs \<subseteq> {SubmitEvent ''lifecycle_warmup'', EngineStart, ListenerStart, ProgressStart}"
    using r1(1) by auto
  define r3 where "r3 = add_runErr (Some err) r2"
  have r3: "rn_currentPhase r3 = PhaseWarmup" "rn_calls r3 = cs" "rn_runErr r3 \<noteq> []"
    using w by (simp_all add: r3_def add_runErr_def)
  have run: "RunScenario fmt_q sha256_hex env r0 = run_finish fmt_q sha256_hex env r3"
    using r3(3) by (simp add: RunScenario_def assms(2) w(1) r3_def)
  show ?thesis using w(4) r3 run_finish_skipped [OF r3(1), of fmt_q sha256_hex env] unfolding run run_panicked_def
    by (auto simp: shutdown_def rn_call_def Let_def split: if_splits)
qed

text \<open>C4: the whole course of a run, as the goroutine of \<^verbatim>\<open>Run\<close> sees it. When the warm-up succeeds, the run always returns, having
  gone through every phase in order, launched exactly the due subscribers of its schedule,
  stopped the progress writer and then the collector before aggregating, and stopped the
  listener and its own engine last; the counters add up what the subscribers' runs returned. When
  the engine does not start, or the context ends during the warm-up delay, the run panics in
  \<^verbatim>\<open>drain\<close>, without stopping the collector or writing a summary.\<close>

theorem scenario_run_outcome:
  assumes "NewRunner build mkdir unix o0 = Inr r0" "constructComponents fmt_q env r0 = (r1, None)"
  shows "if warmup_ok env r1 then run_passed sha256_hex env r1 (RunScenario fmt_q sha256_hex env r0)
    else run_panicked (RunScenario fmt_q sha256_hex env r0)"
  using run_when_warm [OF assms] run_when_not_warm [OF assms] by simp

section \<open>Every subscriber is launched\<close>

lemma BuildSchedule_total:
  assumes "BuildSchedule ovf fmt_g fmt_q variate (Some cfg) = Inr s"
  shows "sd_Total s = (if sc_Type (cfg_Scenario cfg) = ''coa_storm'' then 0 else nat (su_Count (cfg_Subscribers cfg)))"
  using BuildSchedule_Inr [OF assms]
  by (auto simp: sd_Total_def buildColdStart_def buildUniform_def buildPessimal_def Let_def split: if_splits prod.splits)

lemma pool_Get_index:
  assumes "creds \<noteq> []" "su_Count (cfg_Subscribers cfg) \<le> 2 ^ 32" "i < nat (su_Count (cfg_Subscribers cfg))"
  shows "pool_Get (NewPool creds (Some cfg)) (of_nat i) = Some i"
proof -
  let ?n = "nat (su_Count (cfg_Subscribers cfg))"
  have "inj_on (\<lambda>i. word_of_nat i :: u32) {..<?n}"
    using assms(2) by (auto simp: inj_on_def intro!: word_of_nat_inj32)
  from last_at_inj [OF this, of i] show ?thesis using assms by (simp add: NewPool_some pool_fold pool_Get_def)
qed

lemma due_subs_all:
  "\<forall>i. re_due env i \<Longrightarrow> \<forall>i \<in> set is. pool_Get p (of_nat i) = Some i \<Longrightarrow> due_subs env p is = is"
  by (induction "is") (simp_all add: due_subs_def List.map_filter_simps)

lemma NewRunner_config:
  assumes "NewRunner build mkdir unix o0 = Inr r" "ro_Config o0 = Some cfg"
  shows "rn_cfg r = cfg \<and> build (Some cfg) = Inr (rn_schedule r) \<and> ro_Creds (rn_opts r) = ro_Creds o0 \<and>
    (ro_Creds o0 = [] \<longrightarrow> su_Count (cfg_Subscribers cfg) \<le> 0 \<or> sc_Type (cfg_Scenario cfg) = ''coa_storm'')"
  using assms by (auto simp: NewRunner_def Let_def split: if_splits option.splits sum.splits)

text \<open>C16: a run whose context never ends before an activation launches every configured subscriber
  exactly once and in order, and none in a CoA storm: the schedule and the pool that are built from one
  configuration agree on the subscribers, whatever credentials are recycled.\<close>

theorem every_subscriber_launched:
  assumes "NewRunner (BuildSchedule ovf fmt_g fmt_q variate) mkdir unix o0 = Inr r0" "ro_Config o0 = Some cfg"
    and "constructComponents fmt_q env r0 = (r1, None)" "warmup_ok env r1" "\<forall>i. re_due env i"
    and "su_Count (cfg_Subscribers cfg) \<le> 2 ^ 32"
  shows "launched (rn_calls (fst (RunScenario fmt_q sha256_hex env r0))) =
      (if sc_Type (cfg_Scenario cfg) = ''coa_storm'' then [] else [0..<nat (su_Count (cfg_Subscribers cfg))]) \<and>
    lc_activated (rn_counters (fst (RunScenario fmt_q sha256_hex env r0))) = int (sd_Total (rn_schedule r0))"
proof -
  note conf = NewRunner_config [OF assms(1,2)] and keeps = constructComponents_keeps [OF assms(3)]
  have total: "sd_Total (rn_schedule r1) = (if sc_Type (cfg_Scenario cfg) = ''coa_storm'' then 0 else nat (su_Count (cfg_Subscribers cfg)))"
    using BuildSchedule_total conf keeps by metis
  have "pool_Get (rn_pool r1) (of_nat i) = Some i" if "i < sd_Total (rn_schedule r1)" for i
    using pool_Get_index [OF _ assms(6), of "ro_Creds o0" i] conf keeps that total by (auto split: if_splits)
  then have "due_subs env (rn_pool r1) [0..<sd_Total (rn_schedule r1)] = [0..<sd_Total (rn_schedule r1)]"
    using assms(5) by (intro due_subs_all) auto
  moreover have "launched (map Launch xs) = xs" for xs by (induction xs) simp_all
  ultimately show ?thesis
    using run_when_warm [OF assms(1,3,4), of sha256_hex] total keeps
    by (auto simp: run_passed_def run_trace_def Let_def split: prod.splits if_splits)
qed

definition demo_run_opts :: runner_opts where
  "demo_run_opts = \<lparr>ro_Config = Some demo_storm_config, ro_Creds = [sb_credential demo_sub], ro_OutputDir = ''out'',
     ro_DrainTimeout = 0, ro_WarmupDelay = 0, ro_SkipServerListener = True, ro_CollectorOverride = True,
     ro_EngineOverride = True, ro_ConfigSource = [], ro_RunID = ''r1''\<rparr>"

definition demo_run_env :: "goerr option \<Rightarrow> run_env" where
  "demo_run_env start = \<lparr>re_authAddr = None, re_acctAddr = None, re_collectorNew = None, re_engineNew = None,
     re_listenerNew = None, re_progressNew = None, re_engineStart = start, re_warmup = None, re_due = (\<lambda>_. True),
     re_final = (\<lambda>i. if i = 0 then Some StateEstablished else Some StateAuthFailed), re_aggregate = None, re_writeSummary = None,
     re_t0 = 0, re_finishedAt = 5\<rparr>"

lemma demo_run_starts:
  "\<exists>r0 r1. NewRunner (BuildSchedule 0 (\<lambda>_. []) id (\<lambda>_. Fin 0)) None 0 demo_run_opts = Inr r0 \<and>
     constructComponents id (demo_run_env start) r0 = (r1, None) \<and> ro_WarmupDelay (rn_opts r1) = 0"
  by (simp add: NewRunner_def demo_run_opts_def demo_run_env_def constructComponents_def engine_for_def bind_listener_def
      BuildSchedule_def buildPessimal_def demo_storm_config_def demo_config_def Let_def)

lemma scenario_run_outcome_witness:
  "\<exists>r0. NewRunner (BuildSchedule 0 (\<lambda>_. []) id (\<lambda>_. Fin 0)) None 0 demo_run_opts = Inr r0 \<and>
     snd (RunScenario id (\<lambda>_. []) (demo_run_env None) r0) = Returned [] \<and>
     run_panicked (RunScenario id (\<lambda>_. []) (demo_run_env (Some (Plain ''bind''))) r0)"
proof -
  let ?e = "demo_run_env None" and ?f = "demo_run_env (Some (Plain ''bind''))"
  obtain r0 r1 r2 where r: "NewRunner (BuildSchedule 0 (\<lambda>_. []) id (\<lambda>_. Fin 0)) None 0 demo_run_opts = Inr r0"
    "constructComponents id ?e r0 = (r1, None)" "constructComponents id ?f r0 = (r2, None)" "ro_WarmupDelay (rn_opts r1) = 0"
    using demo_run_starts [of None] demo_run_starts [of "Some (Plain ''bind'')"] by auto
  have "warmup_ok ?e r1" "\<not> warmup_ok ?f r2" using r(4) by (simp_all add: warmup_ok_def demo_run_env_def)
  with scenario_run_outcome [OF r(1,2), of "\<lambda>_. []"] scenario_run_outcome [OF r(1,3), of "\<lambda>_. []"]
  have "run_passed (\<lambda>_. []) ?e r1 (RunScenario id (\<lambda>_. []) ?e r0)" "run_panicked (RunScenario id (\<lambda>_. []) ?f r0)"
    by simp_all
  then show ?thesis using r(1) by (auto simp: run_passed_def demo_run_env_def Let_def)
qed

lemma every_subscriber_launched_witness:
  "\<exists>r0. NewRunner (BuildSchedule 0 (\<lambda>_. []) id (\<lambda>_. Fin 0)) None 0 demo_run_opts = Inr r0 \<and>
     launched (rn_calls (fst (RunScenario id (\<lambda>_. []) (demo_run_env None) r0))) = [0, 1, 2, 3]"
proof -
  obtain r0 r1 where r: "NewRunner (BuildSchedule 0 (\<lambda>_. []) id (\<lambda>_. Fin 0)) None 0 demo_run_opts = Inr r0"
    "constructComponents id (demo_run_env None) r0 = (r1, None)" "ro_WarmupDelay (rn_opts r1) = 0"
    using demo_run_starts [of None] by auto
  have f: "ro_Config demo_run_opts = Some demo_storm_config" "\<forall>i. re_due (demo_run_env None) i" "warmup_ok (demo_run_env None) r1"
    "su_Count (cfg_Subscribers demo_storm_config) \<le> 2 ^ 32" "nat (su_Count (cfg_Subscribers demo_storm_config)) = 4"
    "sc_Type (cfg_Scenario demo_storm_config) \<noteq> ''coa_storm''"
    using r(3) by (simp_all add: demo_run_opts_def demo_run_env_def warmup_ok_def demo_storm_config_def demo_config_def)
  have "[0..<4] = [0, 1, 2, 3::nat]" by code_simp
  then show ?thesis
    using r(1) f(5,6) every_subscriber_launched [OF r(1) f(1) r(2) f(3,2,4), of "\<lambda>_. []"] by auto
qed

end
