(* ===== verification/Api_Templates.thy ===== *)
theory Api_Templates
  imports Scenario_Runner Config_Load
begin

text \<open>
  The built-in scenario templates that \<^verbatim>\<open>GET /scenarios/templates\<close> offers
  (\<^verbatim>\<open>apps/api/internal/mockdata/mockdata.go\<close>, \<^verbatim>\<open>handlers/scenarios.go\<close>), against the
  validator and the schedules a run of one meets.
\<close>

section \<open>The templates\<close>

record scenario_template =
  te_ID :: string
  te_Name :: string
  te_Description :: string
  te_Config :: config

definition baseTarget :: target where
  "baseTarget = \<lparr>tg_AuthAddress = ''127.0.0.1:11812'', tg_AcctAddress = ''127.0.0.1:11813'', tg_SharedSecret = ''testing123''\<rparr>"

definition baseCoa :: coa_listener where
  "baseCoa = \<lparr>cl_BindAddress = ''0.0.0.0:13799'', cl_SharedSecret = ''testing123''\<rparr>"

definition baseSource :: source where
  "baseSource = \<lparr>so_IPs = [''127.0.0.1''], so_PortRange = (10000, 60000)\<rparr>"

definition baseNAS :: nas where
  "baseNAS = \<lparr>nas_IPAddress = ''127.0.0.1'', nas_Identifier = ''radstorm-test'', nas_Huawei = Map.empty\<rparr>"

definition baseRetransmit :: retransmit where
  "baseRetransmit = \<lparr>rt_InitialTimeoutMs = 5000, rt_MaxRetries = 3, rt_Backoff = ''exponential'', rt_BackoffBaseMs = 1000\<rparr>"

definition baseOutput :: output_cfg where
  "baseOutput = \<lparr>op_Directory = ''results'', op_FlushIntervalSec = 30\<rparr>"

definition template_config :: "int \<Rightarrow> string \<Rightarrow> scenario \<Rightarrow> config" where
  "template_config n creds sc =
     \<lparr>cfg_Target = baseTarget, cfg_CoaListener = baseCoa,
      cfg_Subscribers = \<lparr>su_Count = n, su_CredentialsFile = creds, su_AuthMethodPapPct = 100, su_TypePppoePct = 100,
        su_IncludeAcctStart = True\<rparr>,
      cfg_Source = baseSource, cfg_NAS = baseNAS, cfg_Retransmit = baseRetransmit, cfg_Scenario = sc, cfg_Output = baseOutput\<rparr>"

definition scenario_of :: "string \<Rightarrow> int \<Rightarrow> scenario" where
  "scenario_of kind timeout = \<lparr>sc_Type = kind, sc_HardTimeoutSec = timeout, sc_ColdStart = None, sc_Uniform = None, sc_Pessimal = None, sc_CoaStorm = False\<rparr>"

definition smoke100 :: config where
  "smoke100 = template_config 100 ''test/fixtures/credentials/smoke-100.csv''
     ((scenario_of ''uniform'' 60)\<lparr>sc_Uniform := Some \<lparr>un_DurationSec = Fin 5\<rparr>\<rparr>)"

definition coldStart1k :: config where
  "coldStart1k = template_config 1000 ''test/fixtures/credentials/test-1k.csv''
     ((scenario_of ''cold_start'' 120)\<lparr>sc_ColdStart := Some \<lparr>cs_MuSec = Fin 15, cs_SigmaSec = Fin 5, cs_TruncateSigma = Fin 3\<rparr>\<rparr>)"

definition uniform1k :: config where
  "uniform1k = template_config 1000 ''test/fixtures/credentials/test-1k.csv''
     ((scenario_of ''uniform'' 120)\<lparr>sc_Uniform := Some \<lparr>un_DurationSec = Fin 30\<rparr>\<rparr>)"

definition pessimal1k :: config where
  "pessimal1k = template_config 1000 ''test/fixtures/credentials/test-1k.csv''
     ((scenario_of ''pessimal'' 60)\<lparr>sc_Pessimal := Some \<lparr>pe_BurstWindowMs = 100\<rparr>\<rparr>)"

definition Templates :: "scenario_template list" where
  "Templates =
     [\<lparr>te_ID = ''smoke-100'', te_Name = ''Smoke 100'',
        te_Description = ''100 subscribers, uniform 5s ramp. Sanity check.'', te_Config = smoke100\<rparr>,
      \<lparr>te_ID = ''cold-start-1k'', te_Name = ''Cold start 1k'',
        te_Description = ''1,000 subscribers, Gaussian cold-start ramp (mu=15s, sigma=5s).'', te_Config = coldStart1k\<rparr>,
      \<lparr>te_ID = ''uniform-1k'', te_Name = ''Uniform 1k'',
        te_Description = ''1,000 subscribers spread uniformly over 30 seconds.'', te_Config = uniform1k\<rparr>,
      \<lparr>te_ID = ''pessimal-1k'', te_Name = ''Pessimal 1k'',
        te_Description = ''1,000 subscribers fired in a 100ms burst window.'', te_Config = pessimal1k\<rparr>]"

section \<open>They run\<close>

definition is_ip :: "string \<Rightarrow> bool" where
  "is_ip s \<longleftrightarrow> ParseIP s \<noteq> None"

lemma template_addresses:
  "validateHostport ''127.0.0.1:11812''" "validateHostport ''127.0.0.1:11813''" "validateHostport ''0.0.0.0:13799''" "is_ip ''127.0.0.1''"
proof -
  show "validateHostport ''127.0.0.1:11812''" "validateHostport ''127.0.0.1:11813''" "validateHostport ''0.0.0.0:13799''"
    by (simp_all add: validateHostport_def SplitHostPort_def last_index_def starts_with_def contains_char_def
        TrimSpace_def plain_char_def Atoi_def ascii_digit_def undigits_def digit_val_def Let_def)
  show "is_ip ''127.0.0.1''" unfolding is_ip_def by code_simp
qed

text \<open>The rest of a configuration made from the base parts depends on its own fields only.\<close>

lemma template_tags:
  "config_tags validateHostport (validateFileExists stat) is_ip (template_config n creds sc) \<longleftrightarrow>
     1 \<le> n \<and> n \<le> 1000000 \<and> validateFileExists stat creds \<and>
     sc_Type sc \<in> {''cold_start'', ''uniform'', ''pessimal'', ''coa_storm''} \<and>
     (case sc_ColdStart sc of None \<Rightarrow> True | Some k \<Rightarrow>
        positive_float (cs_MuSec k) \<and> positive_float (cs_SigmaSec k) \<and> fle (Fin 1) (cs_TruncateSigma k)) \<and>
     (case sc_Uniform sc of None \<Rightarrow> True | Some u \<Rightarrow> positive_float (un_DurationSec u)) \<and>
     (case sc_Pessimal sc of None \<Rightarrow> True | Some p \<Rightarrow> 0 \<le> pe_BurstWindowMs p)"
  by (simp add: config_tags_def template_config_def baseTarget_def baseCoa_def baseSource_def baseNAS_def baseOutput_def template_addresses)

lemma template_subscribers: "su_CredentialsFile (cfg_Subscribers (template_config n creds sc)) = creds"
  by (simp add: template_config_def)

text \<open>What the tags allow, the schedule generator accepts, when the block of the scenario's type is there.\<close>

lemma valid_scenario_builds:
  assumes "config_tags hostport ok_file ip cfg" "sc_Type (cfg_Scenario cfg) = ''cold_start'' \<longrightarrow> sc_ColdStart (cfg_Scenario cfg) \<noteq> None"
    "sc_Type (cfg_Scenario cfg) = ''uniform'' \<longrightarrow> sc_Uniform (cfg_Scenario cfg) \<noteq> None"
  shows "\<exists>s. BuildSchedule ovf fmt_g fmt_q variate (Some cfg) = Inr s"
proof -
  have pos: "\<not> fle x (Fin 0) \<and> \<not> flt x (Fin 0)" if "positive_float x" for x
    using that by (cases x) (auto simp: positive_float_def fle_def)
  from assms show ?thesis
    by (auto simp: config_tags_def BuildSchedule_def buildColdStart_def buildUniform_def buildPessimal_def Let_def pos
        split: option.splits prod.splits)
qed

text \<open>Every template passes the validator exactly when its credentials file is there, and then, whatever the random
  draws, gets a schedule with one activation per subscriber.\<close>

lemma templates_run:
  "list_all (\<lambda>t. (config_tags validateHostport (validateFileExists stat) is_ip (te_Config t) \<longleftrightarrow>
        stat (su_CredentialsFile (cfg_Subscribers (te_Config t))) = Some True) \<and>
      (\<exists>s. BuildSchedule ovf fmt_g fmt_q variate (Some (te_Config t)) = Inr s \<and> int (sd_Total s) = su_Count (cfg_Subscribers (te_Config t)))) Templates"
proof -
  have tags: "config_tags validateHostport (validateFileExists stat) is_ip (te_Config t) \<longleftrightarrow>
      stat (su_CredentialsFile (cfg_Subscribers (te_Config t))) = Some True" if "t \<in> set Templates" for t stat
    using that
    by (auto simp: Templates_def smoke100_def coldStart1k_def uniform1k_def pessimal1k_def template_tags scenario_of_def positive_float_def fle_def
        validateFileExists_def template_subscribers split: option.splits)
  have shape: "(sc_Type (cfg_Scenario (te_Config t)) = ''cold_start'' \<longrightarrow> sc_ColdStart (cfg_Scenario (te_Config t)) \<noteq> None) \<and>
      (sc_Type (cfg_Scenario (te_Config t)) = ''uniform'' \<longrightarrow> sc_Uniform (cfg_Scenario (te_Config t)) \<noteq> None) \<and>
      sc_Type (cfg_Scenario (te_Config t)) \<noteq> ''coa_storm'' \<and> 0 \<le> su_Count (cfg_Subscribers (te_Config t))"
    if "t \<in> set Templates" for t
    using that by (auto simp: Templates_def smoke100_def coldStart1k_def uniform1k_def pessimal1k_def template_config_def scenario_of_def)
  have "\<exists>s. BuildSchedule ovf fmt_g fmt_q variate (Some (te_Config t)) = Inr s \<and> int (sd_Total s) = su_Count (cfg_Subscribers (te_Config t))"
    if t: "t \<in> set Templates" for t
  proof -
    have "config_tags validateHostport (validateFileExists (\<lambda>_. Some True)) is_ip (te_Config t)" using tags [OF t] by simp
    from valid_scenario_builds [OF this] shape [OF t] obtain s where s: "BuildSchedule ovf fmt_g fmt_q variate (Some (te_Config t)) = Inr s" by blast
    with BuildSchedule_total [OF s] shape [OF t] show ?thesis by auto
  qed
  then show ?thesis using tags by (simp add: list_all_iff)
qed

end
