(* ===== verification/Api_Server.thy ===== *)
theory Api_Server
  imports Api_Store Go_Path
begin

text \<open>
  The frame of the API: the middleware of \<^verbatim>\<open>internal/server/middleware\<close> in the order the router
  stacks it, the serving loop of \<^verbatim>\<open>server.go\<close>, and \<^verbatim>\<open>cmd/radstorm-api/main.go\<close>. A
  handler is what it writes and whether it panics; routing is the third-party router's.
\<close>

section \<open>Middleware\<close>

datatype write_op = HeaderOp nat | BodyOp nat

record handler_run =
  hr_ops :: "write_op list"
  hr_panic :: "string option"

text \<open>The recorder's status is 0 until something is written.\<close>

record statusRecorder =
  sr_status :: nat
  sr_bytes :: nat

definition record_op :: "write_op \<Rightarrow> statusRecorder \<Rightarrow> statusRecorder" where
  "record_op w r = (case w of
       HeaderOp code \<Rightarrow> r\<lparr>sr_status := code\<rparr>
     | BodyOp n \<Rightarrow> (let r1 = (if sr_status r = 0 then r\<lparr>sr_status := 200\<rparr> else r) in r1\<lparr>sr_bytes := sr_bytes r1 + n\<rparr>))"

definition recorded :: "write_op list \<Rightarrow> statusRecorder" where
  "recorded ops = fold record_op ops \<lparr>sr_status = 0, sr_bytes = 0\<rparr>"

text \<open>The status the client sees: the first header, 200 when a body comes first or nothing is written.\<close>

fun wire_status :: "write_op list \<Rightarrow> nat" where
  "wire_status [] = 200"
| "wire_status (HeaderOp code # ops) = code"
| "wire_status (BodyOp n # ops) = 200"

record access_entry =
  ae_requestID :: string
  ae_status :: nat
  ae_bytes :: nat

definition LoggingMiddleware :: "string \<Rightarrow> handler_run \<Rightarrow> handler_run \<times> access_entry list" where
  "LoggingMiddleware rid h =
     (h, if hr_panic h = None then [\<lparr>ae_requestID = rid, ae_status = sr_status (recorded (hr_ops h)), ae_bytes = sr_bytes (recorded (hr_ops h))\<rparr>] else [])"

text \<open>\<open>body\<close> is the length of the error body.\<close>

definition RecoverMiddleware :: "nat \<Rightarrow> handler_run \<Rightarrow> handler_run \<times> string list" where
  "RecoverMiddleware body h = (case hr_panic h of
       None \<Rightarrow> (h, [])
     | Some why \<Rightarrow> (\<lparr>hr_ops = hr_ops h @ [HeaderOp 500, BodyOp body], hr_panic = None\<rparr>, [why]))"

definition newRequestID :: "bytes res \<Rightarrow> string" where
  "newRequestID rnd = (case rnd of Inl err \<Rightarrow> ''0000000000000000'' | Inr bs \<Rightarrow> hex_bytes bs)"

definition RequestIDMiddleware :: "bytes res \<Rightarrow> string \<Rightarrow> string" where
  "RequestIDMiddleware rnd header = (if header = [] then newRequestID rnd else header)"

text \<open>A request through the stack of the router: what is written, the access log and the error log.\<close>

definition serve_request :: "bytes res \<Rightarrow> string \<Rightarrow> nat \<Rightarrow> (string \<Rightarrow> handler_run) \<Rightarrow> handler_run \<times> access_entry list \<times> string list" where
  "serve_request rnd header body handler =
     (let rid = RequestIDMiddleware rnd header;
          (h, entries) = LoggingMiddleware rid (handler rid);
          (h', errs) = RecoverMiddleware body h
      in (h', entries, errs))"

lemma recorded_bytes: "sr_bytes (fold record_op ops r) = sr_bytes r + sum_list (map (\<lambda>w. case w of BodyOp n \<Rightarrow> n | _ \<Rightarrow> 0) ops)"
  by (induction ops arbitrary: r) (auto simp: record_op_def Let_def split: write_op.splits)

text \<open>No panic gets past the stack; a request is in the access log when its handler returned and in the error log when it
  panicked, and before anything was written a panic is answered with 500.\<close>

lemma serve_request_logged:
  assumes "serve_request rnd header body handler = (h, entries, errs)"
  shows "hr_panic h = None \<and> length entries + length errs = 1 \<and>
    (errs \<noteq> [] \<and> hr_ops (handler (RequestIDMiddleware rnd header)) = [] \<longrightarrow> wire_status (hr_ops h) = 500) \<and>
    (\<forall>x \<in> set entries. ae_requestID x = RequestIDMiddleware rnd header \<and>
       ae_bytes x = sum_list (map (\<lambda>w. case w of BodyOp n \<Rightarrow> n | _ \<Rightarrow> 0) (hr_ops h)))"
  using assms by (auto simp: serve_request_def LoggingMiddleware_def RecoverMiddleware_def Let_def recorded_def recorded_bytes split: option.splits)

section \<open>Serving\<close>

datatype serve_end = ListenEnded "goerr option" | ServerClosed | ContextDone "goerr option"

definition server_Run :: "serve_end \<Rightarrow> goerr option" where
  "server_Run e = (case e of ListenEnded err \<Rightarrow> err | ServerClosed \<Rightarrow> None | ContextDone err \<Rightarrow> err)"

section \<open>The program\<close>

datatype main_step = PrintVersion | EnsureDataDir string | OpenStore string | MakeRunner string string | Serve string | ShutdownRuns | CloseStore

record main_env =
  me_args :: "string list"
  me_getenv :: "string \<Rightarrow> string"
  me_mkdir :: "goerr option"
  me_store :: "goerr option"
  me_runner :: "goerr option"
  me_serve :: serve_end

definition wants_version :: "string list \<Rightarrow> bool" where
  "wants_version args = list_ex (\<lambda>a. a = ''--version'' \<or> a = ''-v'' \<or> a = ''version'') args"

definition env_or :: "main_env \<Rightarrow> string \<Rightarrow> string \<Rightarrow> string" where
  "env_or env k d = (if me_getenv env k = [] then d else me_getenv env k)"

text \<open>The steps taken and the exit status; \<^verbatim>\<open>os.Exit\<close> runs no deferred call.\<close>

definition api_main :: "main_env \<Rightarrow> main_step list \<times> nat" where
  "api_main env =
     (if wants_version (me_args env) then ([PrintVersion], 0)
      else let addr = env_or env ''RADSTORM_API_ADDR'' '':8080'';
               dataDir = env_or env ''RADSTORM_DATA_DIR'' ''data'';
               s1 = [EnsureDataDir dataDir]
        in if me_mkdir env \<noteq> None then (s1, 1)
        else let s2 = s1 @ [OpenStore (path_Join [dataDir, ''runs.db''])]
          in if me_store env \<noteq> None then (s2, 1)
          else let s3 = s2 @ [MakeRunner dataDir (me_getenv env ''RADSTORM_CLI_BIN'')]
            in if me_runner env \<noteq> None then (s3, 1)
            else let s4 = s3 @ [Serve addr, ShutdownRuns]
              in if server_Run (me_serve env) \<noteq> None then (s4, 1) else (s4 @ [CloseStore], 0))"

text \<open>Whatever ends the serving, the runs are shut down after it; the status is 0 exactly when nothing failed.\<close>

lemma api_main_ends:
  assumes "api_main env = (steps, status)"
  shows "(status = 0 \<longleftrightarrow> wants_version (me_args env) \<or>
      (me_mkdir env = None \<and> me_store env = None \<and> me_runner env = None \<and> server_Run (me_serve env) = None)) \<and>
    (\<forall>a before after. steps = before @ Serve a # after \<longrightarrow> hd after = ShutdownRuns)"
  using assms by (auto simp: api_main_def Let_def Cons_eq_append_conv append_eq_Cons_conv split: if_splits)

end
