(* ===== verification/Collector_Report.thy ===== *)
theory Collector_Report
  imports Collector_Summary Go_Path
begin

text \<open>
  Writing a summary (\<^verbatim>\<open>pkg/collector/aggregate.go\<close>): the text for people and the two files. \<open>marshal\<close>
  is \<^verbatim>\<open>json.MarshalIndent\<close>, \<open>write_err\<close> the error of writing a path, and files are a map from paths;
  \<open>fmt_time\<close> prints a time as RFC 3339 and \<open>fmt_v\<close> a threshold's value.
\<close>

abbreviation (input) LF :: char where "LF \<equiv> CHR 0x0A"

definition em_dash :: string where "em_dash = map char_of [0xE2, 0x80, 0x94 :: nat]"

text \<open>One line of the report: a text and numbers in turn.\<close>

definition row :: "(string \<times> int) list \<Rightarrow> string" where
  "row xs = concat (map (\<lambda>(s, n). s @ fmt_d n) xs) @ [LF]"

definition render_head :: "(int option \<Rightarrow> string) \<Rightarrow> 'v Summary \<Rightarrow> string" where
  "render_head fmt_time s =
     ''radstorm run summary'' @ [LF] @
     ''  run_id:        '' @ su_RunID s @ [LF] @
     ''  scenario:      '' @ su_ScenarioType s @ [LF] @
     ''  outcome:       '' @ su_Outcome s @ [LF] @
     ''  duration:      '' @ fmt_d (su_DurationMs s) @ '' ms'' @ [LF] @
     ''  started:       '' @ fmt_time (su_StartedAt s) @ [LF] @
     ''  finished:      '' @ fmt_time (su_FinishedAt s) @ [LF] @ [LF]"

definition render_subscribers :: "SubscribersSection \<Rightarrow> string" where
  "render_subscribers s =
     ''subscribers'' @ [LF] @
     row [(''  total:                  '', ss_Total s)] @
     row [(''  established:            '', ss_Established s)] @
     row [(''  auth_failed:            '', ss_AuthFailed s)] @
     row [(''  acct_failed:            '', ss_AcctFailed s)] @
     row [(''  terminated:             '', ss_Terminated s)] @
     row [(''  still_in_flight_at_end: '', ss_StillInFlightAtEnd s)] @ [LF]"

definition render_establishment :: "EstablishmentSection \<Rightarrow> string" where
  "render_establishment e =
     ''establishment'' @ [LF] @
     row [(''  time_to_first_ms: '', es_TimeToFirstMs e)] @
     row [(''  time_to_full_ms:  '', es_TimeToFullMs e)] @
     (let l = es_LatencyMs e in
      row [(''  latency_ms: min='', ld_Min l), ('' p50='', ld_P50 l), ('' p95='', ld_P95 l), ('' p99='', ld_P99 l),
           ('' p999='', ld_P999 l), ('' max='', ld_Max l)]) @ [LF]"

definition render_counters :: "'v Summary \<Rightarrow> string" where
  "render_counters s =
     ''retransmits'' @ [LF] @
     row [(''  total:                       '', rs_Total (su_Retransmits s))] @
     row [(''  subscribers_with_retransmit: '', rs_SubscribersWithRetransmit (su_Retransmits s))] @
     (let d = rs_PerSubscriberDistribution (su_Retransmits s) in
      row [(''  per_sub:  p50='', rd_P50 d), ('' p95='', rd_P95 d), ('' p99='', rd_P99 d), ('' max='', rd_Max d)]) @ [LF] @
     ''coa'' @ [LF] @
     row [(''  received='', cs_Received (su_CoA s)), ('' acked='', cs_Acked (su_CoA s)), ('' naked='', cs_Naked (su_CoA s)),
          ('' dropped='', cs_Dropped (su_CoA s))] @ [LF] @
     ''disconnect'' @ [LF] @
     row [(''  received='', ds_Received (su_Disconnect s)), ('' acked='', ds_Acked (su_Disconnect s)), ('' naked='', ds_Naked (su_Disconnect s))] @ [LF]"

definition render_threshold :: "('v \<Rightarrow> string) \<Rightarrow> 'v Threshold \<Rightarrow> string" where
  "render_threshold fmt_v t =
     ''  ['' @ (if th_Pass t then ''PASS'' else ''FAIL'') @ ''] '' @ th_Name t @ '' '' @ em_dash @ '' expected='' @ fmt_v (th_Expected t) @
     '' actual='' @ fmt_v (th_Actual t) @ [LF]"

definition renderSummaryText :: "(int option \<Rightarrow> string) \<Rightarrow> ('v \<Rightarrow> string) \<Rightarrow> 'v Summary \<Rightarrow> string" where
  "renderSummaryText fmt_time fmt_v s =
     (let overall = (if ts_Overall (su_Thresholds s) = [] then ''n/a'' else ts_Overall (su_Thresholds s)) in
      render_head fmt_time s @ render_subscribers (su_Subscribers s) @ render_establishment (su_Establishment s) @ render_counters s @
      ''thresholds (overall: '' @ overall @ '')'' @ [LF] @ concat (map (render_threshold fmt_v) (ts_Evaluated (su_Thresholds s))))"

type_synonym files = "string \<rightharpoonup> string"

definition write_file :: "(string \<Rightarrow> goerr option) \<Rightarrow> string \<Rightarrow> string \<Rightarrow> files \<Rightarrow> files \<times> goerr option" where
  "write_file write_err p content fs = (case write_err p of Some err \<Rightarrow> (fs, Some err) | None \<Rightarrow> (fs(p \<mapsto> content), None))"

definition WriteSummary :: "('v Summary \<Rightarrow> goerr + string) \<Rightarrow> (int option \<Rightarrow> string) \<Rightarrow> ('v \<Rightarrow> string) \<Rightarrow> (string \<Rightarrow> goerr option) \<Rightarrow> string \<Rightarrow>
    'v Summary option \<Rightarrow> files \<Rightarrow> files \<times> goerr option" where
  "WriteSummary marshal fmt_time fmt_v write_err dir summ fs =
     (case summ of
        None \<Rightarrow> (fs, Some (Plain ''write summary: nil summary''))
      | Some s \<Rightarrow>
        (case marshal s of
           Inl err \<Rightarrow> (fs, Some (Wrap ''marshal summary.json: '' err []))
         | Inr jb \<Rightarrow>
           (case write_file write_err (path_Join [dir, ''summary.json'']) jb fs of
              (fs1, Some err) \<Rightarrow> (fs1, Some (Wrap ''write summary.json: '' err []))
            | (fs1, None) \<Rightarrow>
              (case write_file write_err (path_Join [dir, ''summary.txt'']) (renderSummaryText fmt_time fmt_v s) fs1 of
                 (fs2, Some err) \<Rightarrow> (fs2, Some (Wrap ''write summary.txt: '' err []))
               | (fs2, None) \<Rightarrow> (fs2, None)))))"

lemma summary_paths_differ: "path_Join [dir, ''summary.json''] \<noteq> path_Join [dir, ''summary.txt'']"
proof -
  obtain pre where "\<forall>x. CHR ''/'' \<notin> set x \<and> x \<notin> {[], ''.'', ''..''} \<longrightarrow> path_Join [dir, x] = pre @ x"
    using path_Join_prefix by blast
  then have "path_Join [dir, ''summary.json''] = pre @ ''summary.json''" "path_Join [dir, ''summary.txt''] = pre @ ''summary.txt''"
    by simp_all
  then show ?thesis by simp
qed

lemma WriteSummary_files:
  assumes "WriteSummary marshal fmt_time fmt_v write_err dir (Some s) fs = (fs', None)"
  shows "\<exists>jb. marshal s = Inr jb \<and> fs' (path_Join [dir, ''summary.json'']) = Some jb \<and>
    fs' (path_Join [dir, ''summary.txt'']) = Some (renderSummaryText fmt_time fmt_v s) \<and>
    (\<forall>p. p \<notin> {path_Join [dir, ''summary.json''], path_Join [dir, ''summary.txt'']} \<longrightarrow> fs' p = fs p)"
  using assms summary_paths_differ by (auto simp: WriteSummary_def write_file_def split: sum.splits option.splits prod.splits)

end
