(* ===== verification/Cli.thy ===== *)
theory Cli
  imports Scenario_Runner Config_Load Io_Sending Collector_Report
begin

text \<open>
  The commands of \<^verbatim>\<open>apps/cli/cmd/radstorm\<close>: each is what it prints and how it ends, composed
  of the loader, the schedules, the runner and the engine. Files, name resolution and decoded JSON are
  arguments; \<open>fmt_q\<close> and \<open>fmt_dur\<close> are the verbs \<^verbatim>\<open>%q\<close> and \<^verbatim>\<open>%v\<close> of a duration.
\<close>

section \<open>Endings\<close>

text \<open>\<open>CliFail (Some c)\<close> is an \<^verbatim>\<open>exitErr\<close>, \<open>CliFail None\<close> any other error.\<close>

datatype 'r cause = Message string | GoError goerr | LoadFailure string "'r load_error" | RunErrors "goerr list"

datatype 'r cli_end = CliOK | CliFail "nat option" "'r cause" | CliPanic | CliHang

definition exitCode :: "nat option option \<Rightarrow> nat" where
  "exitCode err = (case err of None \<Rightarrow> 0 | Some (Some c) \<Rightarrow> c | Some None \<Rightarrow> 1)"

text \<open>The status the shell sees: a panic ends a Go program with status 2.\<close>

definition exit_status :: "'r cli_end \<Rightarrow> nat option" where
  "exit_status e = (case e of CliOK \<Rightarrow> Some (exitCode None) | CliFail c why \<Rightarrow> Some (exitCode (Some c)) | CliPanic \<Rightarrow> Some 2 | CliHang \<Rightarrow> None)"

definition exit1 :: "string \<Rightarrow> goerr \<Rightarrow> 'r cli_end" where
  "exit1 prefix err = CliFail (Some 1) (GoError (Wrap prefix err []))"

record 'r load_env =
  le_uni :: "string \<Rightarrow> string"
  le_open :: "string \<Rightarrow> goerr + csv_read list"
  le_read :: "string \<Rightarrow> goerr + bytes"
  le_decode :: "string \<Rightarrow> goerr + config \<times> (string list \<Rightarrow> bool)"
  le_validator :: "'r struct_validator"
  le_stat :: "string \<Rightarrow> bool option"

definition load_config_only :: "'r load_env \<Rightarrow> string \<Rightarrow> 'r load_error + config" where
  "load_config_only L = LoadConfigOnly (le_read L) (le_decode L) (le_validator L) (le_stat L)"

definition load_all :: "'r load_env \<Rightarrow> string \<Rightarrow> 'r load_error + config \<times> credential list" where
  "load_all L = Load (le_uni L) (le_open L) (le_read L) (le_decode L) (le_validator L) (le_stat L)"

section \<open>run-scenario\<close>

record run_flags =
  rf_config :: string
  rf_out :: string
  rf_seed :: int
  rf_drain :: int

text \<open>\<open>se_crash\<close>: a goroutine other than that of \<^verbatim>\<open>Run\<close> panics while the run is under way (a submission can, when it overlaps
  the stop of the collector), which ends the process.\<close>

record scenario_env =
  se_source :: "goerr + bytes"
  se_mkdirOut :: "goerr option"
  se_copy :: "goerr option"
  se_mkdir :: "goerr option"
  se_unix :: int
  se_run :: run_env
  se_summary :: "goerr + (goerr + unit Summary)"
  se_crash :: bool

definition scenario_opts :: "run_flags \<Rightarrow> config \<Rightarrow> credential list \<Rightarrow> bytes \<Rightarrow> runner_opts" where
  "scenario_opts f cfg creds source =
     \<lparr>ro_Config = Some cfg, ro_Creds = creds, ro_OutputDir = rf_out f, ro_DrainTimeout = wrap64 (rf_drain f * 1000000000),
      ro_WarmupDelay = 0, ro_SkipServerListener = False, ro_CollectorOverride = False, ro_EngineOverride = False,
      ro_ConfigSource = source, ro_RunID = []\<rparr>"

definition run_report :: "string \<Rightarrow> unit Summary \<Rightarrow> string" where
  "run_report out summ =
     ''run '' @ su_RunID summ @ '' '' @ em_dash @ '' outcome='' @ su_Outcome summ @ '' subscribers='' @
     fmt_d (ss_Established (su_Subscribers summ)) @ ''/'' @ fmt_d (ss_Total (su_Subscribers summ)) @
     '' duration='' @ fmt_d (su_DurationMs summ) @ ''ms'' @ [LF] @ ''artifacts: '' @ out @ [LF]"

text \<open>After the run: the summary is read back from the output directory.\<close>

definition run_verdict :: "string \<Rightarrow> goerr + (goerr + unit Summary) \<Rightarrow> string \<times> 'r cli_end" where
  "run_verdict out summary =
     (case summary of
        Inl err \<Rightarrow> ([], exit1 ''read summary.json: '' err)
      | Inr (Inl err) \<Rightarrow> ([], exit1 ''parse summary.json: '' err)
      | Inr (Inr summ) \<Rightarrow>
         (run_report out summ,
          if ts_Overall (su_Thresholds summ) = ''fail'' then CliFail (Some 2) (Message ''threshold evaluation failed'') else CliOK))"

definition run_scenario :: "(string \<Rightarrow> string) \<Rightarrow> (bytes \<Rightarrow> string) \<Rightarrow> (int \<Rightarrow> config option \<Rightarrow> schedule res) \<Rightarrow> 'r load_env \<Rightarrow>
    scenario_env \<Rightarrow> run_flags \<Rightarrow> string \<times> 'r cli_end" where
  "run_scenario fmt_q sha256_hex build L env f =
     (if rf_config f = [] then ([], CliFail None (Message ''--config is required''))
      else if rf_out f = [] then ([], CliFail None (Message ''--out is required''))
      else case se_source env of
        Inl err \<Rightarrow> ([], exit1 ''read config: '' err)
      | Inr source \<Rightarrow>
        (case load_all L (rf_config f) of
           Inl err \<Rightarrow> ([], CliFail (Some 1) (LoadFailure ''load config: '' err))
         | Inr (cfg, creds) \<Rightarrow>
           (case se_mkdirOut env of Some err \<Rightarrow> ([], exit1 ''mkdir out: '' err)
            | None \<Rightarrow>
             (case se_copy env of Some err \<Rightarrow> ([], exit1 ''write config copy: '' err)
              | None \<Rightarrow>
               (case NewRunner (build (rf_seed f)) (se_mkdir env) (se_unix env) (scenario_opts f cfg creds source) of
                  Inl err \<Rightarrow> ([], exit1 ''scenario.New: '' err)
                | Inr r \<Rightarrow>
                  if se_crash env \<and> snd (constructComponents fmt_q (se_run env) r) = None then ([], CliPanic)
                  else
                  (case snd (RunScenario fmt_q sha256_hex (se_run env) r) of
                     Panicked err \<Rightarrow> ([], CliPanic)
                   | Hangs \<Rightarrow> ([], CliHang)
                   | Returned errs \<Rightarrow>
                       if errs \<noteq> [] then ([], CliFail (Some 1) (RunErrors errs))
                       else run_verdict (rf_out f) (se_summary env)))))))"

section \<open>validate-config\<close>

definition strings_v :: "string list \<Rightarrow> string" where
  "strings_v ss = ''['' @ concat (case ss of [] \<Rightarrow> [] | s # rest \<Rightarrow> s # map (\<lambda>t. '' '' @ t) rest) @ '']''"

definition config_report :: "string \<Rightarrow> config \<Rightarrow> string" where
  "config_report file_path cfg =
     ''ok: '' @ file_path @ '' parses and validates'' @ [LF] @
     ''  scenario.type:     '' @ sc_Type (cfg_Scenario cfg) @ [LF] @
     ''  subscribers.count: '' @ fmt_d (su_Count (cfg_Subscribers cfg)) @ [LF] @
     ''  target.auth:       '' @ tg_AuthAddress (cfg_Target cfg) @ [LF] @
     ''  target.acct:       '' @ tg_AcctAddress (cfg_Target cfg) @ [LF] @
     ''  source.ips:        '' @ strings_v (so_IPs (cfg_Source cfg)) @ [LF] @
     ''  output.dir:        '' @ op_Directory (cfg_Output cfg) @ [LF]"

definition preflightChecks :: "'r load_env \<Rightarrow> (string \<Rightarrow> udp_addr res) \<Rightarrow> config \<Rightarrow> 'r cause option" where
  "preflightChecks L resolve cfg =
     (case resolve (tg_AuthAddress (cfg_Target cfg)) of
        Inl err \<Rightarrow> Some (GoError (Wrap ''resolve target.auth_address: '' err []))
      | Inr a \<Rightarrow>
        (case (if su_IncludeAcctStart (cfg_Subscribers cfg) then resolve (tg_AcctAddress (cfg_Target cfg)) else Inr a) of
           Inl err \<Rightarrow> Some (GoError (Wrap ''resolve target.acct_address: '' err []))
         | Inr b \<Rightarrow>
           (case LoadCredentials (le_uni L) (le_open L) (su_CredentialsFile (cfg_Subscribers cfg)) of
              Inl err \<Rightarrow> Some (LoadFailure ''read credentials: '' err)
            | Inr creds \<Rightarrow>
                if int (length creds) < su_Count (cfg_Subscribers cfg)
                then Some (Message ''credentials file shorter than subscribers.count'') else None)))"

definition validate_config :: "(int \<Rightarrow> string) \<Rightarrow> (int \<Rightarrow> config option \<Rightarrow> schedule res) \<Rightarrow> 'r load_env \<Rightarrow> (string \<Rightarrow> udp_addr res) \<Rightarrow>
    bool \<Rightarrow> string \<Rightarrow> string \<times> 'r cli_end" where
  "validate_config fmt_dur build L resolve preflight file_path =
     (case load_config_only L file_path of
        Inl err \<Rightarrow> ([], CliFail (Some 1) (LoadFailure [] err))
      | Inr cfg \<Rightarrow>
        (case build 1 (Some cfg) of
           Inl err \<Rightarrow> (config_report file_path cfg, exit1 ''schedule: '' err)
         | Inr sch \<Rightarrow>
           (let out = config_report file_path cfg @ ''  schedule:          '' @ fmt_d (int (sd_Total sch)) @ '' activations (last @ '' @
                fmt_dur (sd_Last sch) @ '')'' @ [LF]
            in if \<not> preflight then (out, CliOK)
               else case preflightChecks L resolve cfg of
                 Some why \<Rightarrow> (out, CliFail (Some 1) why)
               | None \<Rightarrow> (out @ ''preflight: ok'' @ [LF], CliOK))))"

section \<open>single-auth\<close>

record auth_flags =
  af_config :: string
  af_user :: string
  af_pass :: string
  af_method :: string

definition single_auth_extras :: "config \<Rightarrow> attribute list" where
  "single_auth_extras cfg = nas_ip_attr cfg @ [\<lparr>AType = AttrNASIdentifier, AValue = bytes_of (nas_Identifier (cfg_NAS cfg))\<rparr>]"

definition single_auth_build :: "auth_flags \<Rightarrow> config \<Rightarrow> builder" where
  "single_auth_build f cfg rnd i =
     (let secret = bytes_of (tg_SharedSecret (cfg_Target cfg)) in
      map_sum (\<lambda>e. e) Some
        (if af_method f = ''chap''
         then NewAccessRequestCHAP (br_auth rnd) (br_id rnd) (br_chal rnd) i secret (af_user f) (af_pass f) (single_auth_extras cfg)
         else NewAccessRequestPAP (br_auth rnd) i secret (af_user f) (af_pass f) (single_auth_extras cfg)))"

definition single_auth_policy :: "config \<Rightarrow> retransmit_policy" where
  "single_auth_policy cfg =
     (let p = \<lparr>InitialTimeout = wrap64 (rt_InitialTimeoutMs (cfg_Retransmit cfg) * millisecond_ns),
               MaxRetries = rt_MaxRetries (cfg_Retransmit cfg), PolicyBackoff = BackoffExponential,
               BackoffBase = wrap64 (rt_BackoffBaseMs (cfg_Retransmit cfg) * millisecond_ns)\<rparr>
      in if InitialTimeout p \<le> 0 then p\<lparr>InitialTimeout := 3 * second_ns\<rparr> else p)"

fun single_auth_ips :: "(string \<Rightarrow> string) \<Rightarrow> string list \<Rightarrow> goerr + bytes list" where
  "single_auth_ips fmt_q [] = Inr []"
| "single_auth_ips fmt_q (s # ss) =
     (case ParseIP s of None \<Rightarrow> Inl (Plain (''invalid source IP '' @ fmt_q s))
      | Some ip \<Rightarrow> (case single_auth_ips fmt_q ss of Inl e \<Rightarrow> Inl e | Inr ips \<Rightarrow> Inr (ip # ips)))"

definition auth_verdict_of :: "code \<Rightarrow> 'r cli_end" where
  "auth_verdict_of c =
     (if c = CodeAccessAccept then CliOK
      else if c = CodeAccessReject then CliFail (Some 1) (Message ''Access-Reject'')
      else CliFail (Some 1) (Message (''unexpected reply code '' @ fmt_d (uint c))))"

definition single_auth_report :: "auth_flags \<Rightarrow> send_result \<Rightarrow> string" where
  "single_auth_report f res =
     ''user='' @ af_user f @ '' method='' @ af_method f @ '' reply='' @ code_String (Code (sr_Reply res)) @
     '' identifier='' @ fmt_d (uint (Identifier (sr_Reply res))) @ '' latency='' @ fmt_d (sr_LatencyUs res) @ chars [0xC2, 0xB5] @
     ''s retransmits='' @ fmt_d (int (sr_RetransmitN res)) @ [LF]"

text \<open>\<open>listen\<close> and \<open>resolve\<close> are the network; \<open>env n rnd\<close> is the \<open>n\<close>-th attempt, whose request is
  built with the randomness \<open>rnd n\<close>.\<close>

definition single_auth :: "(string \<Rightarrow> string) \<Rightarrow> clock \<Rightarrow> 'r load_env \<Rightarrow> (udp_addr \<Rightarrow> udp_addr res) \<Rightarrow> (string \<Rightarrow> udp_addr res) \<Rightarrow> int \<Rightarrow>
    (nat \<Rightarrow> build_rnd) \<Rightarrow> (nat \<Rightarrow> attempt_env) \<Rightarrow> auth_flags \<Rightarrow> string \<times> 'r cli_end" where
  "single_auth fmt_q clk L listen resolve now rnd env f =
     (if af_config f = [] then ([], CliFail None (Message ''--config is required''))
      else if af_user f = [] \<or> af_pass f = [] then ([], CliFail None (Message ''--user and --pass are required''))
      else case load_config_only L (af_config f) of
        Inl err \<Rightarrow> ([], CliFail (Some 1) (LoadFailure ''load config: '' err))
      | Inr cfg \<Rightarrow>
       (case single_auth_ips fmt_q (so_IPs (cfg_Source cfg)) of
          Inl err \<Rightarrow> ([], CliFail (Some 1) (GoError err))
        | Inr ips \<Rightarrow>
         (case NewEngine listen \<lparr>o_SourceIPs = ips, o_PortRangeLo = 0, o_PortRangeHi = 0,
              o_Secret = bytes_of (tg_SharedSecret (cfg_Target cfg)), o_ReadBufBytes = 0, o_AllocBackoffStep = 0, o_AllocMaxWait = 0, o_HasHandler = False\<rparr> of
            Inl err \<Rightarrow> ([], exit1 ''io.NewEngine: '' err)
          | Inr eng \<Rightarrow>
           (case engine_Start now eng of
              (e1, Some err) \<Rightarrow> ([], exit1 ''engine start: '' err)
            | (e1, None) \<Rightarrow>
             (case resolve (tg_AuthAddress (cfg_Target cfg)) of
                Inl err \<Rightarrow> ([], exit1 ''resolve target.auth_address: '' err)
              | Inr authDst \<Rightarrow>
               (case snd (engine_Send clk resolve e1 (UDPAddr authDst) (single_auth_policy cfg) 0
                      (\<lambda>n. (env n)\<lparr>ae_build := single_auth_build f cfg (rnd n)\<rparr>)) of
                  Err err \<Rightarrow> ([], CliFail (Some 1) (GoError err))
                | Panic \<Rightarrow> ([], CliPanic)
                | Ok res \<Rightarrow> (single_auth_report f res, auth_verdict_of (Code (sr_Reply res)))))))))"

section \<open>analyze-results\<close>

text \<open>\<open>raw\<close> re-indents the text of a JSON object, \<open>typed\<close> decodes it as a summary.\<close>

definition analyze_report :: "unit Summary \<Rightarrow> string" where
  "analyze_report summ =
     ''run_id:        '' @ su_RunID summ @ [LF] @
     ''scenario:      '' @ su_ScenarioType summ @ [LF] @
     ''outcome:       '' @ su_Outcome summ @ [LF] @
     ''duration:      '' @ fmt_d (su_DurationMs summ) @ '' ms'' @ [LF] @
     ''subscribers:   '' @ fmt_d (ss_Total (su_Subscribers summ)) @ '' total / '' @ fmt_d (ss_Established (su_Subscribers summ)) @
       '' established / '' @ fmt_d (ss_AuthFailed (su_Subscribers summ)) @ '' auth_failed / '' @
       fmt_d (ss_AcctFailed (su_Subscribers summ)) @ '' acct_failed'' @ [LF] @
     ''retransmits:   '' @ fmt_d (rs_Total (su_Retransmits summ)) @ '' total'' @ [LF] @
     ''coa:           '' @ fmt_d (cs_Received (su_CoA summ)) @ '' received / '' @ fmt_d (cs_Acked (su_CoA summ)) @ '' acked / '' @
       fmt_d (cs_Naked (su_CoA summ)) @ '' naked'' @ [LF] @
     ''disconnect:    '' @ fmt_d (ds_Received (su_Disconnect summ)) @ '' received / '' @ fmt_d (ds_Acked (su_Disconnect summ)) @
       '' acked / '' @ fmt_d (ds_Naked (su_Disconnect summ)) @ '' naked'' @ [LF] @
     ''thresholds:    '' @ ts_Overall (su_Thresholds summ) @ [LF]"

definition analyze_results :: "(string \<Rightarrow> goerr + string) \<Rightarrow> (string \<Rightarrow> goerr + (goerr + string)) \<Rightarrow> (string \<Rightarrow> goerr + unit Summary) \<Rightarrow>
    bool \<Rightarrow> string \<Rightarrow> string \<times> 'r cli_end" where
  "analyze_results readFile raw typed asJSON dir =
     (let sumPath = path_Join [dir, ''summary.json''] in
      case readFile sumPath of
        Inl err \<Rightarrow> ([], exit1 (''read '' @ sumPath @ '': '') err)
      | Inr b \<Rightarrow>
        if asJSON then
          (case raw b of Inl err \<Rightarrow> ([], exit1 ''parse summary.json: '' err)
           | Inr (Inl err) \<Rightarrow> ([], exit1 ''marshal: '' err)
           | Inr (Inr out) \<Rightarrow> (out @ [LF], CliOK))
        else
          (case typed b of Inl err \<Rightarrow> ([], exit1 ''parse summary.json: '' err)
           | Inr summ \<Rightarrow> (case readFile (path_Join [dir, ''summary.txt'']) of
               Inr txt \<Rightarrow> (txt, CliOK)
             | Inl err \<Rightarrow> (analyze_report summ, CliOK))))"


section \<open>Properties\<close>

text \<open>The runner of a command that gets as far as the warm-up.\<close>

definition warmed_runner :: "(string \<Rightarrow> string) \<Rightarrow> (int \<Rightarrow> config option \<Rightarrow> schedule res) \<Rightarrow> 'r load_env \<Rightarrow> scenario_env \<Rightarrow> run_flags \<Rightarrow> runner option" where
  "warmed_runner fmt_q build L env f =
     (case (se_source env, load_all L (rf_config f)) of
        (Inr source, Inr (cfg, creds)) \<Rightarrow>
          if rf_config f = [] \<or> rf_out f = [] \<or> se_mkdirOut env \<noteq> None \<or> se_copy env \<noteq> None then None
          else (case NewRunner (build (rf_seed f)) (se_mkdir env) (se_unix env) (scenario_opts f cfg creds source) of
             Inl err \<Rightarrow> None
           | Inr r \<Rightarrow> (case constructComponents fmt_q (se_run env) r of (r1, None) \<Rightarrow> Some r1 | (r1, Some err) \<Rightarrow> None))
      | _ \<Rightarrow> None)"

definition summary_written :: "scenario_env \<Rightarrow> bool" where
  "summary_written env \<longleftrightarrow> re_aggregate (se_run env) = None \<and> re_writeSummary (se_run env) = None"

definition overall_read :: "scenario_env \<Rightarrow> string option" where
  "overall_read env = (case se_summary env of Inr (Inr summ) \<Rightarrow> Some (ts_Overall (su_Thresholds summ)) | _ \<Rightarrow> None)"

lemma verdict_status:
  "exit_status (snd (run_verdict out (se_summary env))) =
     (case overall_read env of None \<Rightarrow> Some 1 | Some overall \<Rightarrow> if overall = ''fail'' then Some 2 else Some 0)"
  by (auto simp: run_verdict_def overall_read_def exit_status_def exitCode_def exit1_def split: sum.splits)

lemma not_warmed_status: "warmed_runner fmt_q build L env f = None \<Longrightarrow> exit_status (snd (run_scenario fmt_q sha256_hex build L env f)) = Some 1"
  by (auto simp: warmed_runner_def run_scenario_def RunScenario_def exit_status_def exitCode_def exit1_def
      split: sum.splits option.splits prod.splits if_splits)

lemma warmed_status:
  assumes "warmed_runner fmt_q build L env f = Some r1"
  shows "exit_status (snd (run_scenario fmt_q sha256_hex build L env f)) =
    (if se_crash env \<or> \<not> warmup_ok (se_run env) r1 then Some 2
     else if \<not> summary_written env then Some 1
     else (case overall_read env of None \<Rightarrow> Some 1 | Some overall \<Rightarrow> if overall = ''fail'' then Some 2 else Some 0))"
proof (cases "se_crash env")
  case True
  then show ?thesis using assms
    by (auto simp: warmed_runner_def run_scenario_def exit_status_def split: sum.splits option.splits prod.splits if_splits)
next
  case no_crash: False
  from assms obtain source cfg creds r where w: "rf_config f \<noteq> []" "rf_out f \<noteq> []" "se_mkdirOut env = None" "se_copy env = None"
    "se_source env = Inr source" "load_all L (rf_config f) = Inr (cfg, creds)"
    "NewRunner (build (rf_seed f)) (se_mkdir env) (se_unix env) (scenario_opts f cfg creds source) = Inr r"
    "constructComponents fmt_q (se_run env) r = (r1, None)"
    by (auto simp: warmed_runner_def split: sum.splits option.splits prod.splits if_splits)
  obtain r' e where run: "RunScenario fmt_q sha256_hex (se_run env) r = (r', e)" by fastforce
  show ?thesis
  proof (cases "warmup_ok (se_run env) r1")
    case True
    from run_when_warm [OF w(7,8) True, of sha256_hex] obtain errs where "e = Returned errs" "errs = [] \<longleftrightarrow> summary_written env"
      by (auto simp: run run_passed_def summary_written_def Let_def)
    then have "run_scenario fmt_q sha256_hex build L env f =
        (if summary_written env then run_verdict (rf_out f) (se_summary env) else ([], CliFail (Some 1) (RunErrors errs)))"
      using w run no_crash by (simp add: run_scenario_def)
    then show ?thesis using True no_crash by (simp add: verdict_status exit_status_def [of "CliFail _ _"] exitCode_def)
  next
    case False
    from run_when_not_warm [OF w(7,8) False, of sha256_hex] obtain err where "e = Panicked err" by (auto simp: run run_panicked_def)
    then show ?thesis using w run False by (simp add: run_scenario_def exit_status_def)
  qed
qed

text \<open>C5: run-scenario always ends, with one of three statuses. 0: the configuration loads, the warm-up passes, the summary
  is written and read back, and its thresholds have not failed. 2: they have failed, and also when the warm-up fails,
  because the run then panics, and when any other goroutine panics while the run is under way. 1: everything else.\<close>

theorem run_scenario_exit_status:
  "exit_status (snd (run_scenario fmt_q sha256_hex build L env f)) =
     (case warmed_runner fmt_q build L env f of
        None \<Rightarrow> Some 1
      | Some r1 \<Rightarrow>
          if se_crash env then Some 2
          else if \<not> warmup_ok (se_run env) r1 then Some 2
          else if \<not> summary_written env then Some 1
          else (case overall_read env of None \<Rightarrow> Some 1 | Some overall \<Rightarrow> if overall = ''fail'' then Some 2 else Some 0))"
proof (cases "warmed_runner fmt_q build L env f")
  case None
  then show ?thesis using not_warmed_status [OF None] by simp
next
  case (Some r1)
  then show ?thesis using warmed_status [OF Some] by simp
qed

text \<open>What passes validate-config with its preflight also loads as a run: the two commands agree on the file,
  the credentials and their number.\<close>

lemma preflight_predicts_load:
  assumes "validate_config fmt_dur build L resolve True file_path = (out, CliOK)"
  shows "\<exists>cfg creds. load_all L file_path = Inr (cfg, creds) \<and> int (length creds) \<ge> su_Count (cfg_Subscribers cfg) \<and>
    (\<exists>s. build 1 (Some cfg) = Inr s) \<and> (\<exists>a. resolve (tg_AuthAddress (cfg_Target cfg)) = Inr a)"
  using assms
  by (auto simp: validate_config_def preflightChecks_def load_all_def load_config_only_def Load_def exit1_def Let_def
      split: sum.splits if_splits option.splits)

text \<open>analyze-results prints the report the run wrote.\<close>

lemma analyze_prints_summary:
  assumes "WriteSummary marshal fmt_time fmt_v write_err dir (Some s) fs = (fs', None)"
    "\<And>jb. marshal s = Inr jb \<Longrightarrow> typed jb = Inr s'" "\<And>p. readFile p = (case fs' p of None \<Rightarrow> Inl (not_found p) | Some c \<Rightarrow> Inr c)"
  shows "analyze_results readFile raw typed False dir = (renderSummaryText fmt_time fmt_v s, CliOK)"
  using WriteSummary_files [OF assms(1)] assms(2,3) by (auto simp: analyze_results_def Let_def)

end
