(* ===== verification/Api_Cli.thy ===== *)
theory Api_Cli
  imports Cli Api_Runs
begin

text \<open>
  The API over the command line program: the supervisor's watcher (\<^verbatim>\<open>runner.go\<close>) reads the exit
  status that \<^verbatim>\<open>radstorm run-scenario\<close> leaves, and settles the run in the store.
\<close>

text \<open>
  How a command ends: by itself, by a signal (an operator's, or the kill that \<^verbatim>\<open>exec.CommandContext\<close> sends when its context
  ends), or without a process state because waiting for it failed. What \<^verbatim>\<open>cmd.Wait\<close> and \<^verbatim>\<open>ProcessState\<close> then report, with the
  summary found in its directory: a command that exits with status 0 after its context was cancelled has
  the context's error, \<open>ctx\<close>.
\<close>

datatype 'r command_end = Exits "'r cli_end" | Killed string | WaitFailed goerr

definition process_left :: "goerr option \<Rightarrow> 'r command_end \<Rightarrow> 's option option \<Rightarrow> 's exit_env option" where
  "process_left ctx e summ = (case e of
       Exits how \<Rightarrow> map_option (\<lambda>n. \<lparr>ex_waitErr = (if n = 0 then ctx else Some (Plain (''exit status '' @ dec n))),
         ex_exitCode = int n, ex_summary = summ\<rparr>) (exit_status how)
     | Killed signal \<Rightarrow> Some \<lparr>ex_waitErr = Some (Plain (''signal: '' @ signal)), ex_exitCode = - 1, ex_summary = summ\<rparr>
     | WaitFailed err \<Rightarrow> Some \<lparr>ex_waitErr = Some err, ex_exitCode = - 1, ex_summary = summ\<rparr>)"

text \<open>A run of the command from which nothing is to be reported.\<close>

definition scenario_clean :: "(string \<Rightarrow> string) \<Rightarrow> (int \<Rightarrow> config option \<Rightarrow> schedule res) \<Rightarrow> 'r load_env \<Rightarrow> scenario_env \<Rightarrow> run_flags \<Rightarrow> bool" where
  "scenario_clean fmt_q build L env f =
     (case warmed_runner fmt_q build L env f of None \<Rightarrow> False
      | Some r1 \<Rightarrow> \<not> se_crash env \<and> warmup_ok (se_run env) r1 \<and> summary_written env \<and>
          (case overall_read env of None \<Rightarrow> False | Some overall \<Rightarrow> overall \<noteq> ''fail''))"

lemma clean_status: "\<exists>n. exit_status (snd (run_scenario fmt_q sha256_hex build L env f)) = Some n \<and> (n = 0 \<longleftrightarrow> scenario_clean fmt_q build L env f)"
proof (cases "warmed_runner fmt_q build L env f")
  case None
  then show ?thesis by (simp add: not_warmed_status [OF None] scenario_clean_def)
next
  case (Some r1)
  then show ?thesis by (simp add: warmed_status [OF Some] scenario_clean_def split: option.splits)
qed

lemma process_left_clean:
  assumes "e = Exits (snd (run_scenario fmt_q sha256_hex build L env f)) \<or> (\<exists>signal. e = Killed signal) \<or> (\<exists>err. e = WaitFailed err)"
  shows "\<exists>ex. process_left ctx e summ = Some ex \<and>
     (ex_waitErr ex = None \<and> ex_exitCode ex = 0 \<longleftrightarrow> (\<exists>how. e = Exits how) \<and> ctx = None \<and> scenario_clean fmt_q build L env f)"
proof -
  obtain n where "exit_status (snd (run_scenario fmt_q sha256_hex build L env f)) = Some n" "n = 0 \<longleftrightarrow> scenario_clean fmt_q build L env f"
    using clean_status by blast
  then show ?thesis using assms by (auto simp: process_left_def)
qed

context run_store
begin

lemma watch_settles:
  assumes "ok (as_store a)" "call_fine c" "status (as_store a) rid = Some st"
  shows "status (as_store (watch I c ex rid a)) = (status (as_store a))(rid \<mapsto> watch_final ex st) \<and> ok (as_store (watch I c ex rid a)) \<and>
    as_pc (watch I c ex rid a) rid = None \<and> rid \<notin> set (as_active (watch I c ex rid a))"
proof -
  define s1 where "s1 = watch_summary I c ex rid (as_store a)"
  obtain s2 final where d: "watch_decide I c ex rid s1 = (s2, final)" by fastforce
  have s1: "ok s1" "status s1 = status (as_store a)" using summary_effect [OF assms(1)] by (auto simp: s1_def)
  have s2: "ok s2" "status s2 = status (as_store a)" using decide_effect [OF s1(1) d] s1(2) by auto
  have final: "final = Some (watch_final ex st)"
    using get_effect [OF s1(1) assms(2), of rid] d assms(3) s1(2) by (auto simp: watch_decide_def Let_def split: sum.splits)
  from update_effect [OF s2(1) assms(2), of rid "watch_final ex st"] assms(3) s2(2)
  show ?thesis by (auto simp: watch_def s1_def [symmetric] d final watch_exit_def)
qed

end

text \<open>C9: when the command a run was started with has ended, the watcher settles the run for good: as cancelled when a
  cancellation was written before, otherwise as succeeded exactly when the command exited by itself, before its context ended, and
  was configured, warmed up, wrote its summary and met its thresholds without a panic; and as failed in every other case, killed
  commands included; no other run is touched.\<close>

theorem api_settles_cli_run:
  assumes "sq_ok (as_store a)" "call_fine c" "sq_status (as_store a) rid = Some st"
    and "e = Exits (snd (run_scenario fmt_q sha256_hex build L env f)) \<or> (\<exists>signal. e = Killed signal) \<or> (\<exists>err. e = WaitFailed err)"
  shows "\<exists>ex. process_left ctx e summ = Some ex \<and>
    (let a' = watch (SQLiteStore J) c ex rid a in
       sq_status (as_store a') = (sq_status (as_store a))(rid \<mapsto>
         if st = StatusCancelling \<or> st = StatusCancelled then StatusCancelled
         else if (\<exists>how. e = Exits how) \<and> ctx = None \<and> scenario_clean fmt_q build L env f then StatusSucceeded else StatusFailed) \<and>
       sq_ok (as_store a') \<and> as_pc a' rid = None \<and> rid \<notin> set (as_active a'))"
proof -
  obtain ex where ex: "process_left ctx e summ = Some ex"
    "ex_waitErr ex = None \<and> ex_exitCode ex = 0 \<longleftrightarrow> (\<exists>how. e = Exits how) \<and> ctx = None \<and> scenario_clean fmt_q build L env f"
    using process_left_clean [OF assms(4)] by blast
  then show ?thesis using sq.watch_settles [OF assms(1-3), of J ex]
    by (intro exI [of _ ex]) (simp add: Let_def watch_final_def)
qed

definition demo_flags :: run_flags where
  "demo_flags = \<lparr>rf_config = ''c.toml'', rf_out = ''out'', rf_seed = 1, rf_drain = 30\<rparr>"

definition demo_load_env :: "unit load_env" where
  "demo_load_env = \<lparr>le_uni = id, le_open = demo_open, le_read = (\<lambda>_. Inr []),
     le_decode = (\<lambda>_. Inr (demo_config, \<lambda>_. False)), le_validator = demo_validator, le_stat = (\<lambda>_. Some True)\<rparr>"

definition demo_scenario_env :: scenario_env where
  "demo_scenario_env = \<lparr>se_source = Inl (Plain ''no such file''), se_mkdirOut = None, se_copy = None, se_mkdir = None, se_unix = 0,
     se_run = demo_run_env None, se_summary = Inl (Plain ''no such file''), se_crash = False\<rparr>"

lemma api_settles_cli_run_witness:
  "\<exists>db r ex. si_Create (SQLiteStore demo_codec) (demo_call 1100000000) ''a'' (Some demo_config) [] = (db, Inr r) \<and>
     sq_status (as_store (watch (SQLiteStore demo_codec) (demo_call 1200000000) ex (ar_ID r) (api_start db))) (ar_ID r) = Some StatusFailed"
proof -
  obtain db r where c: "si_Create (SQLiteStore demo_codec) (demo_call 1100000000) ''a'' (Some demo_config) [] = (db, Inr r)"
    using demo_created by blast
  have db: "sq_ok db" "sq_status db (ar_ID r) = Some StatusQueued"
    using sq.created [OF _ c] by (auto simp: sq_ok_def)
  have clean: "\<not> scenario_clean id (\<lambda>_ _. Inl (Plain [])) demo_load_env demo_scenario_env demo_flags"
    by (simp add: scenario_clean_def warmed_runner_def demo_scenario_env_def)
  have a: "as_store (api_start db) = db" by (simp add: api_start_def)
  obtain ex where "sq_status (as_store (watch (SQLiteStore demo_codec) (demo_call 1200000000) ex (ar_ID r) (api_start db))) =
      (sq_status db)(ar_ID r \<mapsto> StatusFailed)"
    using api_settles_cli_run [of "api_start db" "demo_call 1200000000" "ar_ID r" StatusQueued _ id "\<lambda>_. []" "\<lambda>_ _. Inl (Plain [])" demo_load_env
        demo_scenario_env demo_flags None None demo_codec, unfolded a, OF db(1) demo_fine db(2) disjI1 [OF refl]] clean by (auto simp: Let_def)
  then have "sq_status (as_store (watch (SQLiteStore demo_codec) (demo_call 1200000000) ex (ar_ID r) (api_start db))) (ar_ID r) = Some StatusFailed"
    by simp
  with c show ?thesis by blast
qed

end
