(* ===== verification/Spec2Isabelle.thy ===== *)
theory Spec2Isabelle
  imports Radius_Reply_Example Radius_Dictionary Io_Receiver Server_System Collector_Drain Api_Rows Api_Results Api_Templates Api_Server Api_Cli
begin

text \<open>
  Verification development of radstorm, a RADIUS load and chaos test harness written in Go.

  A scenario file (\<^verbatim>\<open>pkg/config\<close>) names a target server, a list of credentials and a shape of load.
  The scenario runner (\<^verbatim>\<open>pkg/scenario\<close>) turns the shape into one activation time per virtual subscriber and
  runs five phases. A subscriber (\<^verbatim>\<open>pkg/subscriber\<close>) authenticates and starts accounting through
  the I/O engine (\<^verbatim>\<open>pkg/io\<close>), which owns the sockets, hands out packet identifiers, retransmits and matches
  replies to requests; packets are those of \<^verbatim>\<open>pkg/radius\<close>. The CoA/Disconnect listener (\<^verbatim>\<open>pkg/server\<close>)
  answers the server's requests and calls back the subscribers they name. Every part submits events
  (\<^verbatim>\<open>pkg/events\<close>) to the collector (\<^verbatim>\<open>pkg/collector\<close>), which writes them to Parquet files and aggregates the
  summary. \<^verbatim>\<open>apps/cli\<close> is the command line program; \<^verbatim>\<open>apps/api\<close> is an HTTP service that keeps runs in SQLite,
  spawns the command for each of them and streams its progress.
\<close>

section \<open>Conventions\<close>

text \<open>
  A Go struct is a record, an interface a record of functions, an enumeration a datatype or the
  machine word it is, a fixed-width integer a word or, for counters and durations, an integer with the wrap written out
  (\<open>wrap64\<close>). An error is a value of \<open>goerr\<close> (\<open>Sentinel\<close>, \<open>Plain\<close>, \<open>Wrap\<close>), so \<^verbatim>\<open>errors.Is\<close> and the printed
  text are functions on it; a fallible function returns a sum with the error on the left, one that may also
  panic a \<open>ret\<close> or an option. A method that changes its receiver returns the changed one. Strings are byte strings as in Go. A
  Go map is a function to options, or an association list where it is iterated.

  What the program takes from outside is an argument: random bytes, clock readings, results of system calls and of
  third-party packages (TOML decoding, struct validation, JSON texts, the Parquet encoder, SQLite's errors), formatting verbs that no property
  reads. MD5 and HMAC-MD5, IP and UDP address parsing, path cleaning, decimal, hexadecimal and RFC 3339 texts, and IEEE double
  rounding are definitions, since the code's behaviour depends on them.

  Concurrency is a step relation where goroutines share state: the reply matcher (\<open>mstep\<close>), the collector (\<open>reachable\<close>), the
  API's requests and watchers (\<open>api_step\<close>); each step is one atomic access. The receiver's loops are interleaved datagram by
  datagram. A single goroutine is a function. Every loop is a terminating
  recursion, on the data or with a measure; where the loop of the code consumes the environment (reads of a socket, rounds of
  the follower, ready cases of a select) the recursion is on the list of what the environment delivers. The only fuel is the
  length of the text in the IPv6 parser of \<open>Net\<close>, each round of which reads at least one character.
\<close>

section \<open>Shared theories\<close>

text \<open>
  \<^item> \<open>Prelude\<close>: errors, results, big-endian words, bytes and characters, list and map lemmas.
  \<^item> \<open>Digest\<close>: MD5 and HMAC-MD5 as in RFC 1321 and RFC 2104, executable.
  \<^item> \<open>Float64\<close>: doubles as rationals, infinities and NaN with round-to-nearest-even; the conversion of an
    out-of-range value to an integer is a parameter, as it is machine-dependent.
  \<^item> \<open>Net\<close>, \<open>Go_Text\<close>, \<open>Go_Time\<close>, \<open>Go_Path\<close>: addresses; Unicode spaces, numbers; calendar times and
    RFC 3339 in both directions; \<^verbatim>\<open>filepath.Clean\<close> and \<^verbatim>\<open>Join\<close> with the form of a cleaned path.
\<close>

section \<open>pkg/radius\<close>

text \<open>
  \<open>Radius_Code\<close>, \<open>Radius_Attribute\<close>, \<open>Radius_Vendor\<close>, \<open>Radius_Auth\<close>, \<open>Radius_Packet\<close>, \<open>Radius_Constructors\<close> and
  \<open>Radius_Dictionary\<close> follow the files of the package. \<open>Radius_Auth\<close> states the chaining of a password cipher over any block hash (locale
  \<open>block_hash\<close>), interpreted on MD5. \<open>Radius_Codec\<close> has the wire form of a packet and its inversion. \<open>Radius_Protocol\<close> states the
  results: decoding inverts encoding, the decoder accepts exactly the wire forms, encoding succeeds exactly for packets with a
  wire form, authenticators verify on the other side and a hidden password arrives. \<open>Radius_Reply_Example\<close> shows which encoded
  replies carry a valid Response Authenticator and, on evaluated digests, that a CoA-ACK of the listener does not. In the dictionary a name has
  a number exactly when the number has a name, wherever the parse of the embedded files stops.
\<close>

section \<open>pkg/io\<close>

text \<open>
  \<open>Io_IdAlloc\<close> is the bitmap of identifiers per tuple; locale \<open>id_allocator\<close> is what the sender relies on. \<open>Io_Matcher\<close> has the pending table, the
  requests recently completed and the steps of concurrent register, cancel, deliver and reap; a reply is delivered at
  most once, to the request it validates against, and delivery is total on decoded packets. \<open>Io_Policy\<close> is the retransmission policy and
  the socket pool, \<open>Io_Sender\<close> one send with its attempts, \<open>Io_Sending\<close> the engine's life and what a send leaves behind: no
  identifier, no pending entry, a bounded number of transmissions, an answer that arrived for the attempt and validated. \<open>Io_Receiver\<close> has the read
  loops; each datagram read is handed over, delivered or reported in one event.
\<close>

section \<open>pkg/config\<close>

text \<open>
  \<open>Config\<close> has the structs, the defaults and the validators, \<open>Config_Load\<close> the credentials loader and the entry points. The loader
  returns the credentials of exactly the rows that are not blank, or names the first unacceptable row; a loaded configuration
  satisfies its tags. The struct validator is third-party: its documented reading of the tags is the hypothesis \<open>config_tags\<close>.
\<close>

section \<open>pkg/subscriber, pkg/server\<close>

text \<open>
  \<open>Subscriber\<close> and \<open>Subscriber_Run\<close> are the subscriber and its run, with callbacks arriving while a send waits. \<open>Subscriber_Life\<close> has the documented
  life cycle as a step relation and proves that a run refines it; \<open>Subscriber_Props\<close> says when a run ends established, and with how
  many outcomes when a disconnect interferes. \<open>Subscriber_Pool\<close> has the pool and its indexes. \<open>Server_Handler\<close> and \<open>Server_Props\<close> are the
  listener: both handlers are instances of one scheme, a datagram is answered, dropped or refused exactly once, and a reply is
  fixed up to its digests, which decide whether a client that checks its Response Authenticator takes it.
  \<open>Server_System\<close> puts the listener over the pool (locale \<open>registered_lookup\<close>) and follows a disconnect from the wire to the subscriber.
\<close>

section \<open>pkg/events, pkg/collector\<close>

text \<open>
  \<open>Events\<close> has the records and constructors. \<open>Collector_Shard\<close> are the counters of a shard, \<open>Collector_Parquet\<close> the writers with
  rotation, \<open>Collector\<close> submission, goroutines and stop, \<open>Collector_Stats\<close> percentiles and the curve, \<open>Collector_Summary\<close> the aggregation,
  \<open>Collector_Report\<close> the text and the files. \<open>Collector_Merge\<close> shows that aggregating any partition into shards is
  aggregating the stream, and \<open>Collector_System\<close> that, in every interleaving, the summary of a stopped collector is that of the
  events accepted, nothing submitted is lost uncounted, and which race makes a submission panic; a submission checks, sends and counts
  in separate steps, and Stop closes one channel per step. \<open>Collector_Drain\<close> follows the batches to the files: a stop drains, and what
  the counters have observed and the writers were handed is then exactly what was accepted.
\<close>

section \<open>pkg/scenario\<close>

text \<open>
  \<open>Scenario_Schedule\<close> has the activation times in floating point, with exact values; \<open>Scenario_Lifecycle\<close> the phases, an
  instance of \<open>linorder\<close>, and the progress counters; \<open>Scenario_Runner\<close> the orchestration: how a run ends in every
  environment, the order in which it calls its components, and that every subscriber is launched. It is the goroutine of \<^verbatim>\<open>Run\<close>; a panic of
  another one ends the process and is an input of the command (\<open>se_crash\<close> of \<open>Cli\<close>).
\<close>

section \<open>apps/cli, apps/api\<close>

text \<open>
  \<open>Cli\<close> composes loader, schedules, runner and engine into the four commands; the exit status of a run is determined
  for every environment, and what passes the preflight of validate-config loads. \<open>Api_Store\<close> has both stores under the contract \<open>run_store\<close>; the SQLite store refines
  the memory store, and reopening it settles the runs an earlier process left. \<open>Api_Rows\<close> types its rows. \<open>Api_Runs\<close> has the supervisor and
  the runs handlers, interleaved: at most one run is active unless a cancellation is overtaken, and what happens then. \<open>Api_Cli\<close> joins
  the supervisor to the command: how a run is settled, whether the command exits, is killed or cannot be waited for. \<open>Api_Tail\<close> follows the progress file and streams it; the lines emitted are
  exactly those completed. \<open>Api_Results\<close> serves the summary and the artifacts, which stay in the run's directory whatever the name asked for. \<open>Api_Templates\<close> shows that the
  built-in scenarios validate and get schedules. \<open>Api_Server\<close> has the middleware stack, the serving loop and the main program.
\<close>

section \<open>Not modelled\<close>

text \<open>
  Reads of the system clock (\<^verbatim>\<open>events/clock.go\<close>, \<^verbatim>\<open>io/time.go\<close>) are arguments. Flag and command tables (cobra), the routing table
  (chi), CORS, logging, the JSON helpers and the health response are third-party calls and constants. Signals to a process
  (\<^verbatim>\<open>runner_proc_unix.go\<close>, \<^verbatim>\<open>runner_proc_windows.go\<close>) are the operating system's. The canned results in \<^verbatim>\<open>mockdata.go\<close> are
  used by no code. The fake command under \<^verbatim>\<open>testdata\<close> and the row counter under \<^verbatim>\<open>test/e2e\<close> are test programs.
  Garbage collection, goroutine scheduling fairness and wall-clock time are outside the model: liveness is stated over runs in which the
  steps concerned are taken. The contents of the embedded dictionaries are not assumed.
\<close>

end
